(* ===== verification/Prelude.thy ===== *)
theory Prelude
  imports Main "HOL-Library.State_Monad"
begin

text \<open>
  The base of the development: Go strings and the functions of package strings the program
  uses, Go errors with their wrapping chain, the outcome of a Go call (value, error or panic),
  and the state monad in which the effectful code is written, with a weakest-precondition
  operator and its rules (collection \<open>wp_rules\<close>).
\<close>

named_theorems wp_rules "weakest preconditions of the program combinators"
named_theorems go_defs "definitions of small wrappers that proofs unfold"

section \<open>Go strings\<close>

text \<open>
  A Go string is its byte sequence, a \<open>char list\<close>. \<open>strings.TrimSpace\<close> strips the
  UTF-8 encodings of the code points of \<open>unicode.IsSpace\<close>; \<open>strings.ToLower\<close> is
  modelled on ASCII letters (other bytes are kept).
\<close>

definition ascii_space :: "char \<Rightarrow> bool" where
  "ascii_space c \<longleftrightarrow> of_char c \<in> {9, 10, 11, 12, 13, 32 :: nat}"

definition space2 :: "char \<Rightarrow> char \<Rightarrow> bool" where
  "space2 a b \<longleftrightarrow> of_char a = (194 :: nat) \<and> of_char b \<in> {133, 160 :: nat}"

definition space3 :: "char \<Rightarrow> char \<Rightarrow> char \<Rightarrow> bool" where
  "space3 a b c \<longleftrightarrow>
     (let x = of_char a :: nat; y = of_char b :: nat; z = of_char c :: nat in
        (x = 225 \<and> y = 154 \<and> z = 128)
      \<or> (x = 226 \<and> y = 128 \<and> (128 \<le> z \<and> z \<le> 138 \<or> z \<in> {168, 169, 175}))
      \<or> (x = 226 \<and> y = 129 \<and> z = 159)
      \<or> (x = 227 \<and> y = 128 \<and> z = 128))"

fun trim_left :: "string \<Rightarrow> string" where
  "trim_left (a # b # c # s) =
     (if ascii_space a then trim_left (b # c # s)
      else if space2 a b then trim_left (c # s)
      else if space3 a b c then trim_left s
      else a # b # c # s)"
| "trim_left [a, b] =
     (if ascii_space a then trim_left [b] else if space2 a b then [] else [a, b])"
| "trim_left [a] = (if ascii_space a then [] else [a])"
| "trim_left [] = []"

text \<open>The same on the reversed string, the multi-byte encodings read backwards.\<close>

fun trim_left_rev :: "string \<Rightarrow> string" where
  "trim_left_rev (a # b # c # s) =
     (if ascii_space a then trim_left_rev (b # c # s)
      else if space2 b a then trim_left_rev (c # s)
      else if space3 c b a then trim_left_rev s
      else a # b # c # s)"
| "trim_left_rev [a, b] =
     (if ascii_space a then trim_left_rev [b] else if space2 b a then [] else [a, b])"
| "trim_left_rev [a] = (if ascii_space a then [] else [a])"
| "trim_left_rev [] = []"

definition TrimSpace :: "string \<Rightarrow> string" where
  "TrimSpace s = rev (trim_left_rev (rev (trim_left s)))"

definition lower_char :: "char \<Rightarrow> char" where
  "lower_char c = (let n = of_char c :: nat in if 65 \<le> n \<and> n \<le> 90 then char_of (n + 32) else c)"

definition ToLower :: "string \<Rightarrow> string" where
  "ToLower s = map lower_char s"

definition upper_char :: "char \<Rightarrow> char" where
  "upper_char c = (let n = of_char c :: nat in if 97 \<le> n \<and> n \<le> 122 then char_of (n - 32) else c)"

definition ToUpper :: "string \<Rightarrow> string" where
  "ToUpper s = map upper_char s"

definition has_char :: "char \<Rightarrow> string \<Rightarrow> bool" where
  "has_char c s \<longleftrightarrow> c \<in> set s"

fun TrimRight :: "char \<Rightarrow> string \<Rightarrow> string" where
  "TrimRight c s = rev (dropWhile (\<lambda>x. x = c) (rev s))"

fun join :: "string \<Rightarrow> string list \<Rightarrow> string" where
  "join sep [] = []"
| "join sep [x] = x"
| "join sep (x # y # xs) = x @ sep @ join sep (y # xs)"

text \<open>Decimal rendering, as \<open>strconv.Itoa\<close> and the verb \<open>%d\<close> do.\<close>

fun nat_text :: "nat \<Rightarrow> string" where
  "nat_text n = (if n < 10 then [char_of (48 + n)] else nat_text (n div 10) @ [char_of (48 + n mod 10)])"

declare nat_text.simps [simp del]

definition int_text :: "int \<Rightarrow> string" where
  "int_text i = (if i < 0 then CHR ''-'' # nat_text (nat (- i)) else nat_text (nat i))"

subsection \<open>Facts about trimming and case\<close>

lemma length_trim_left: "length (trim_left s) \<le> length s"
  by (induction s rule: trim_left.induct) auto

lemma length_trim_left_rev: "length (trim_left_rev s) \<le> length s"
  by (induction s rule: trim_left_rev.induct) auto

lemma length_TrimSpace: "length (TrimSpace s) \<le> length s"
  unfolding TrimSpace_def
  using length_trim_left_rev [of "rev (trim_left s)"] length_trim_left [of s] by simp

lemma trim_left_idem: "trim_left (trim_left s) = trim_left s"
  by (induction s rule: trim_left.induct) auto

lemma trim_left_rev_idem: "trim_left_rev (trim_left_rev s) = trim_left_rev s"
  by (induction s rule: trim_left_rev.induct) auto

lemma lower_char_range:
  "65 \<le> (of_char c :: nat) \<Longrightarrow> (of_char c :: nat) \<le> 90 \<Longrightarrow> (of_char (lower_char c) :: nat) = of_char c + 32"
  by (simp add: lower_char_def)

lemma lower_char_other:
  "\<not> (65 \<le> (of_char c :: nat) \<and> (of_char c :: nat) \<le> 90) \<Longrightarrow> lower_char c = c"
  by (auto simp: lower_char_def)

lemma lower_char_idem [simp]: "lower_char (lower_char c) = lower_char c"
proof (cases "65 \<le> (of_char c :: nat) \<and> (of_char c :: nat) \<le> 90")
  case True
  then have "(of_char (lower_char c) :: nat) = of_char c + 32"
    by (intro lower_char_range) auto
  with True show ?thesis by (intro lower_char_other) auto
next
  case False
  then show ?thesis by (simp add: lower_char_other)
qed

lemma ToLower_idem [simp]: "ToLower (ToLower s) = ToLower s"
  by (simp add: ToLower_def)

lemma length_ToLower [simp]: "length (ToLower s) = length s"
  by (simp add: ToLower_def)

lemma ToLower_Nil_iff [simp]: "ToLower s = [] \<longleftrightarrow> s = []"
  by (simp add: ToLower_def)


text \<open>
  A left-trimmed string does not start with a space, and neither does any prefix of it, so
  trimming the other end keeps it trimmed: \<open>TrimSpace\<close> is idempotent.
\<close>

fun starts_space :: "string \<Rightarrow> bool" where
  "starts_space (a # b # c # s) = (ascii_space a \<or> space2 a b \<or> space3 a b c)"
| "starts_space [a, b] = (ascii_space a \<or> space2 a b)"
| "starts_space [a] = ascii_space a"
| "starts_space [] = False"

lemma trim_left_fixed: "\<not> starts_space s \<Longrightarrow> trim_left s = s"
  by (cases s rule: starts_space.cases) auto

lemma starts_space_trim_left: "\<not> starts_space (trim_left s)"
  by (induction s rule: trim_left.induct) auto

lemma starts_space_take: "\<not> starts_space s \<Longrightarrow> \<not> starts_space (take n s)"
proof (cases s rule: starts_space.cases)
  case (1 a b c t)
  assume ns: "\<not> starts_space s"
  have "n = 0 \<or> n = 1 \<or> n = 2 \<or> (\<exists>m. n = Suc (Suc (Suc m)))" by presburger
  with ns 1 show ?thesis by (auto simp: numeral_2_eq_2)
next
  case (2 a b)
  assume ns: "\<not> starts_space s"
  have "n = 0 \<or> n = 1 \<or> (\<exists>m. n = Suc (Suc m))" by presburger
  with ns 2 show ?thesis by auto
next
  case (3 a)
  assume ns: "\<not> starts_space s"
  then show ?thesis using 3 by (cases n) auto
qed simp

lemma trim_left_rev_drop: "\<exists>n. trim_left_rev s = drop n s"
proof (induction s rule: trim_left_rev.induct)
  case (1 a b c s)
  show ?case
  proof (cases "ascii_space a \<or> space2 b a \<or> space3 c b a")
    case True
    with 1 show ?thesis by (auto intro: exI [of _ "Suc _"] exI [of _ "Suc (Suc _)"]
          exI [of _ "Suc (Suc (Suc _))"] split: if_splits) (metis drop_Suc_Cons)+
  next
    case False
    then show ?thesis by (auto intro: exI [of _ 0])
  qed
next
  case (2 a b)
  show ?case by (auto intro: exI [of _ 0] exI [of _ 1] exI [of _ 2])
next
  case (3 a)
  show ?case by (auto intro: exI [of _ 0] exI [of _ 1])
qed simp

lemma TrimSpace_prefix: "\<exists>n. TrimSpace s = take n (trim_left s)"
proof -
  obtain n where "trim_left_rev (rev (trim_left s)) = drop n (rev (trim_left s))"
    using trim_left_rev_drop by blast
  then show ?thesis by (auto simp: TrimSpace_def rev_drop)
qed

lemma trim_left_TrimSpace: "trim_left (TrimSpace s) = TrimSpace s"
  using TrimSpace_prefix [of s] starts_space_trim_left [of s]
  by (metis starts_space_take trim_left_fixed)

lemma TrimSpace_idem [simp]: "TrimSpace (TrimSpace s) = TrimSpace s"
proof -
  have "TrimSpace (TrimSpace s) = rev (trim_left_rev (rev (TrimSpace s)))"
    by (subst TrimSpace_def) (simp add: trim_left_TrimSpace)
  also have "\<dots> = TrimSpace s"
    by (simp add: TrimSpace_def trim_left_rev_idem)
  finally show ?thesis .
qed

lemma TrimSpace_Nil [simp]: "TrimSpace [] = []"
  by (simp add: TrimSpace_def)


section \<open>Errors\<close>

text \<open>
  The package-level error variables, one datatype per package that declares them; an error made
  by a library is \<open>PgErr\<close> (a PostgreSQL error with its code), \<open>CtxErr\<close> (the error of a finished
  context) or \<open>NewErr\<close> (any other, compared by nobody); \<open>fmt.Errorf\<close> with \<open>%w\<close> is
  \<open>Wrapped\<close>, with the rendered text and the wrapped errors.
\<close>

datatype ports_err =
    ErrNotFound | ErrNoAffectedRows

datatype auth_err =
    ErrLoginRequired | ErrEmailRequired | ErrPasswordRequired | ErrInvalidCredentials
  | ErrUserAlreadyExists | ErrYandexCodeRequired | ErrYandexStateRequired
  | ErrFirstNameRequired | ErrLastNameRequired | ErrIdentifierRequired
  | ErrUnsupportedAuthState | ErrYandexProfileIncomplete

datatype lib_err =
    PgxErrNoRows | PgxErrTxClosed | ErrClosedConsumerGroup | ErrServerClosed
  | ErrServerStopped | ErrNilConfig

datatype dql_err =
    ErrMessageUnmarshal | ErrSaveMessageToDLQDatabase | ErrMessageProcessingFailed
  | ErrConfigIsNil | ErrLoggerIsNil | ErrExecDomainFuncIsNil | ErrTopicRequired
  | ErrGroupIDRequired | ErrBrokersRequired | ErrDLQSaverRequired
  | ErrLoadTLSClientKeyPair | ErrAppendTLSRootCert | ErrMessageObjectTypeNil
  | ErrMessageObjectTypePointer | ErrCreateMessageObject

datatype producer_config_err =
    ErrBuildSaramaConfig | ErrValidateSaramaConfig | ErrCreateSyncProducer
  | ErrCreateAsyncProducer | ErrCreateTxProducer | ErrTransactionalIDRequired
  | ErrProducerLoggerIsNil | ErrWaitGroupIsNil | ErrProducerTopicRequired
  | ErrProducerBrokersRequired | ErrUnsupportedCompression | ErrUnsupportedRequiredAcks
  | ErrProducerTLSClientKeyPair | ErrProducerTLSRootCert

datatype producer_send_err =
    ErrSendMessage | ErrSendMessages | ErrBeginTransaction | ErrCommitTransaction
  | ErrAbortTransaction | ErrAddOffsetsToTransaction | ErrAddMessageToTransaction
  | ErrSerializeMessagePayload

datatype sentinel =
    Ports ports_err | Auth auth_err | Lib lib_err | Dql dql_err | ProdCfg producer_config_err | ProdSend producer_send_err

datatype err =
    Sentinel sentinel
  | PgErr string string
  | CtxErr string
  | NewErr string
  | Wrapped string "err list"

text \<open>\<open>errors.Is\<close> against a package variable, and \<open>errors.As\<close> to a \<open>*pgconn.PgError\<close>.\<close>

fun errors_is :: "err \<Rightarrow> sentinel \<Rightarrow> bool" where
  "errors_is (Sentinel s) t = (s = t)"
| "errors_is (Wrapped m es) t = list_ex (\<lambda>e. errors_is e t) es"
| "errors_is _ t = False"

fun as_pg_code :: "err \<Rightarrow> string option" where
  "as_pg_code (PgErr c m) = Some c"
| "as_pg_code (Wrapped m es) =
     fold (\<lambda>e acc. case acc of Some c \<Rightarrow> Some c | None \<Rightarrow> as_pg_code e) es None"
| "as_pg_code _ = None"

fun ports_err_text :: "ports_err \<Rightarrow> string" where
  "ports_err_text ErrNotFound = ''not a single object was found''"
| "ports_err_text ErrNoAffectedRows = ''the affected rows were not found''"

fun auth_err_text :: "auth_err \<Rightarrow> string" where
  "auth_err_text ErrLoginRequired = ''login is required''"
| "auth_err_text ErrEmailRequired = ''email is required''"
| "auth_err_text ErrPasswordRequired = ''password is required''"
| "auth_err_text ErrInvalidCredentials = ''invalid credentials''"
| "auth_err_text ErrUserAlreadyExists = ''user already exists''"
| "auth_err_text ErrYandexCodeRequired = ''yandex authorization code is required''"
| "auth_err_text ErrYandexStateRequired = ''yandex state is required''"
| "auth_err_text ErrFirstNameRequired = ''first name is required''"
| "auth_err_text ErrLastNameRequired = ''last name is required''"
| "auth_err_text ErrIdentifierRequired = ''identifier is required''"
| "auth_err_text ErrUnsupportedAuthState = ''unsupported auth state''"
| "auth_err_text ErrYandexProfileIncomplete = ''yandex profile does not contain enough information''"

fun lib_err_text :: "lib_err \<Rightarrow> string" where
  "lib_err_text PgxErrNoRows = ''no rows in result set''"
| "lib_err_text PgxErrTxClosed = ''tx is closed''"
| "lib_err_text ErrClosedConsumerGroup = ''kafka: tried to use a consumer group that was closed''"
| "lib_err_text ErrServerClosed = ''http: Server closed''"
| "lib_err_text ErrServerStopped = ''grpc: the server has been stopped''"
| "lib_err_text ErrNilConfig = ''postgres config is nil''"

fun dql_err_text :: "dql_err \<Rightarrow> string" where
  "dql_err_text ErrMessageUnmarshal = ''kafka message unmarshal error''"
| "dql_err_text ErrSaveMessageToDLQDatabase = ''save message to dlq database error''"
| "dql_err_text ErrMessageProcessingFailed = ''message processing failed''"
| "dql_err_text ErrConfigIsNil = ''consumer config is nil''"
| "dql_err_text ErrLoggerIsNil = ''consumer logger is nil''"
| "dql_err_text ErrExecDomainFuncIsNil = ''consumer domain exec function is nil''"
| "dql_err_text ErrTopicRequired = ''consumer topic is required''"
| "dql_err_text ErrGroupIDRequired = ''consumer group_id is required''"
| "dql_err_text ErrBrokersRequired = ''consumer brokers are required''"
| "dql_err_text ErrDLQSaverRequired = ''dlq saver is required when dlq save is enabled''"
| "dql_err_text ErrLoadTLSClientKeyPair = ''load tls client key pair''"
| "dql_err_text ErrAppendTLSRootCert = ''append tls root certificate''"
| "dql_err_text ErrMessageObjectTypeNil = ''message object type is nil''"
| "dql_err_text ErrMessageObjectTypePointer = ''message object type must be a pointer''"
| "dql_err_text ErrCreateMessageObject = ''create message object''"

fun producer_config_err_text :: "producer_config_err \<Rightarrow> string" where
  "producer_config_err_text ErrBuildSaramaConfig = ''build kafka sarama config''"
| "producer_config_err_text ErrValidateSaramaConfig = ''validate kafka sarama config''"
| "producer_config_err_text ErrCreateSyncProducer = ''create kafka sync producer''"
| "producer_config_err_text ErrCreateAsyncProducer = ''create kafka async producer''"
| "producer_config_err_text ErrCreateTxProducer = ''create kafka transactional producer''"
| "producer_config_err_text ErrTransactionalIDRequired = ''transactional id is required for transactional producer''"
| "producer_config_err_text ErrProducerLoggerIsNil = ''logger is nil''"
| "producer_config_err_text ErrWaitGroupIsNil = ''wait group is nil''"
| "producer_config_err_text ErrProducerTopicRequired = ''topic is required''"
| "producer_config_err_text ErrProducerBrokersRequired = ''at least one broker is required''"
| "producer_config_err_text ErrUnsupportedCompression = ''unsupported compression type''"
| "producer_config_err_text ErrUnsupportedRequiredAcks = ''unsupported required acks''"
| "producer_config_err_text ErrProducerTLSClientKeyPair = ''load tls client key pair''"
| "producer_config_err_text ErrProducerTLSRootCert = ''append tls root certificate''"

fun producer_send_err_text :: "producer_send_err \<Rightarrow> string" where
  "producer_send_err_text ErrSendMessage = ''send kafka message''"
| "producer_send_err_text ErrSendMessages = ''send kafka messages''"
| "producer_send_err_text ErrBeginTransaction = ''begin kafka transaction''"
| "producer_send_err_text ErrCommitTransaction = ''commit kafka transaction''"
| "producer_send_err_text ErrAbortTransaction = ''abort kafka transaction''"
| "producer_send_err_text ErrAddOffsetsToTransaction = ''add offsets to kafka transaction''"
| "producer_send_err_text ErrAddMessageToTransaction = ''add message to kafka transaction''"
| "producer_send_err_text ErrSerializeMessagePayload = ''serialize kafka message payload''"

fun sentinel_text :: "sentinel \<Rightarrow> string" where
  "sentinel_text (Ports e) = ports_err_text e"
| "sentinel_text (Auth e) = auth_err_text e"
| "sentinel_text (Lib e) = lib_err_text e"
| "sentinel_text (Dql e) = dql_err_text e"
| "sentinel_text (ProdCfg e) = producer_config_err_text e"
| "sentinel_text (ProdSend e) = producer_send_err_text e"

fun err_text :: "err \<Rightarrow> string" where
  "err_text (Sentinel s) = sentinel_text s"
| "err_text (PgErr c m) = m @ '' (SQLSTATE '' @ c @ '')''"
| "err_text (CtxErr m) = m"
| "err_text (NewErr m) = m"
| "err_text (Wrapped m es) = m"

text \<open>\<open>fmt.Errorf("text: %w", e)\<close> and \<open>fmt.Errorf("%w: %w", a, b)\<close>.\<close>

definition wrap :: "string \<Rightarrow> err \<Rightarrow> err" where
  "wrap p e = Wrapped (p @ '': '' @ err_text e) [e]"

definition wrap2 :: "sentinel \<Rightarrow> err \<Rightarrow> err" where
  "wrap2 s e = Wrapped (sentinel_text s @ '': '' @ err_text e) [Sentinel s, e]"

lemma errors_is_wrap [simp]: "errors_is (wrap p e) t = errors_is e t"
  by (simp add: wrap_def)

lemma errors_is_wrap2 [simp]: "errors_is (wrap2 s e) t \<longleftrightarrow> s = t \<or> errors_is e t"
  by (simp add: wrap2_def)

lemma as_pg_code_wrap [simp]: "as_pg_code (wrap p e) = as_pg_code e"
  by (simp add: wrap_def)

section \<open>Go calls\<close>

text \<open>
  The outcome of a call: its value, its error, or a panic that unwinds the callers. The code
  runs in the state monad over the state \<open>'w\<close> of the world it touches.
\<close>

datatype 'a outcome = Ok 'a | Err err | Panic string

type_synonym ('w, 'a) go = "('w, 'a outcome) state"

definition ok :: "'a \<Rightarrow> ('w, 'a) go" where
  "ok x = State_Monad.return (Ok x)"

definition fail :: "err \<Rightarrow> ('w, 'a) go" where
  "fail e = State_Monad.return (Err e)"

definition panic :: "string \<Rightarrow> ('w, 'a) go" where
  "panic p = State_Monad.return (Panic p)"

text \<open>
  \<open>call m k\<close> is \<open>x, err := m()\<close> followed by \<open>k\<close>, which gets \<open>Inl err\<close> or \<open>Inr x\<close>;
  a panic of \<open>m\<close> unwinds. \<open>andThen m k\<close> adds \<open>if err != nil { return err }\<close>.
  \<open>deferred m d\<close> runs the deferred \<open>d\<close> when \<open>m\<close> is left, also by a panic.
\<close>

definition call :: "('w, 'a) go \<Rightarrow> (err + 'a \<Rightarrow> ('w, 'b) go) \<Rightarrow> ('w, 'b) go" where
  "call m k = do {
     r \<leftarrow> m;
     (case r of Ok x \<Rightarrow> k (Inr x) | Err e \<Rightarrow> k (Inl e) | Panic p \<Rightarrow> panic p)
   }"

definition andThen :: "('w, 'a) go \<Rightarrow> ('a \<Rightarrow> ('w, 'b) go) \<Rightarrow> ('w, 'b) go" where
  "andThen m k = call m (\<lambda>r. case r of Inl e \<Rightarrow> fail e | Inr x \<Rightarrow> k x)"

definition deferred :: "('w, 'a) go \<Rightarrow> ('w, unit) state \<Rightarrow> ('w, 'a) go" where
  "deferred m d = do { r \<leftarrow> m; _ \<leftarrow> d; State_Monad.return r }"

definition after :: "('w, unit) state \<Rightarrow> ('w, 'a) go \<Rightarrow> ('w, 'a) go" where
  "after s m = do { _ \<leftarrow> s; m }"

text \<open>A loop over a slice, left at the first error.\<close>

primrec foreach :: "'a list \<Rightarrow> ('a \<Rightarrow> ('w, unit) go) \<Rightarrow> ('w, unit) go" where
  "foreach [] body = ok ()"
| "foreach (x # xs) body = andThen (body x) (\<lambda>_. foreach xs body)"

text \<open>A change of the state and a reading of it.\<close>

definition modify :: "('w \<Rightarrow> 'w) \<Rightarrow> ('w, unit) state" where
  "modify f = do { w \<leftarrow> State_Monad.get; State_Monad.set (f w) }"

definition reads :: "('w \<Rightarrow> 'a) \<Rightarrow> ('w, 'a) state" where
  "reads f = do { w \<leftarrow> State_Monad.get; State_Monad.return (f w) }"

subsection \<open>Weakest preconditions\<close>

definition wp :: "('w, 'a) state \<Rightarrow> ('a \<Rightarrow> 'w \<Rightarrow> bool) \<Rightarrow> 'w \<Rightarrow> bool" where
  "wp m Q w = (case run_state m w of (r, w') \<Rightarrow> Q r w')"

lemma wp_iff: "wp m Q w \<longleftrightarrow> (\<forall>r w'. run_state m w = (r, w') \<longrightarrow> Q r w')"
  by (auto simp: wp_def split: prod.splits)

lemma wpD: "wp m Q w \<Longrightarrow> run_state m w = (r, w') \<Longrightarrow> Q r w'"
  by (simp add: wp_def)

lemma wpI: "(\<And>r w'. run_state m w = (r, w') \<Longrightarrow> Q r w') \<Longrightarrow> wp m Q w"
  by (simp add: wp_def split: prod.splits)

lemma wp_conseq: "wp m P w \<Longrightarrow> (\<And>r w'. P r w' \<Longrightarrow> Q r w') \<Longrightarrow> wp m Q w"
  by (simp add: wp_def split: prod.splits)

lemma wp_conj: "wp m P w \<Longrightarrow> wp m Q w \<Longrightarrow> wp m (\<lambda>r w'. P r w' \<and> Q r w') w"
  by (simp add: wp_def split: prod.splits)

lemma wp_return [wp_rules]: "wp (State_Monad.return x) Q w = Q x w"
  by (simp add: wp_def)

lemma wp_bind [wp_rules]: "wp (State_Monad.bind m f) Q w = wp m (\<lambda>x. wp (f x) Q) w"
  by (simp add: wp_def split: prod.splits)

lemma wp_get [wp_rules]: "wp State_Monad.get Q w = Q w w"
  by (simp add: wp_def)

lemma wp_set [wp_rules]: "wp (State_Monad.set s) Q w = Q () s"
  by (simp add: wp_def)

lemma wp_modify [wp_rules]: "wp (modify f) Q w = Q () (f w)"
  by (simp add: modify_def wp_rules)

lemma wp_reads [wp_rules]: "wp (reads f) Q w = Q (f w) w"
  by (simp add: reads_def wp_rules)

lemma wp_ok [wp_rules]: "wp (ok x) Q w = Q (Ok x) w"
  by (simp add: ok_def wp_rules)

lemma wp_fail [wp_rules]: "wp (fail e) Q w = Q (Err e) w"
  by (simp add: fail_def wp_rules)

lemma wp_panic [wp_rules]: "wp (panic p) Q w = Q (Panic p) w"
  by (simp add: panic_def wp_rules)

lemma wp_call [wp_rules]:
  "wp (call m k) Q w =
   wp m (\<lambda>r. case r of Ok x \<Rightarrow> wp (k (Inr x)) Q | Err e \<Rightarrow> wp (k (Inl e)) Q
                     | Panic p \<Rightarrow> Q (Panic p)) w"
  unfolding call_def wp_bind
  by (rule arg_cong [where f = "\<lambda>P. wp m P w"]) (auto simp: wp_rules fun_eq_iff split: outcome.splits)

lemma wp_andThen [wp_rules]:
  "wp (andThen m k) Q w =
   wp m (\<lambda>r. case r of Ok x \<Rightarrow> wp (k x) Q | Err e \<Rightarrow> Q (Err e) | Panic p \<Rightarrow> Q (Panic p)) w"
  unfolding andThen_def wp_call
  by (rule arg_cong [where f = "\<lambda>P. wp m P w"]) (auto simp: wp_rules fun_eq_iff split: outcome.splits)

lemma wp_deferred [wp_rules]: "wp (deferred m d) Q w = wp m (\<lambda>r. wp d (\<lambda>_. Q r)) w"
  by (simp add: deferred_def wp_def split: prod.splits)

lemma wp_after [wp_rules]: "wp (after s m) Q w = wp s (\<lambda>_. wp m Q) w"
  by (simp add: after_def wp_rules)

text \<open>The same as introduction rules, with the post-condition of the first call as the cut.\<close>

lemma wp_bindI: "wp m P w \<Longrightarrow> (\<And>x v. P x v \<Longrightarrow> wp (k x) Q v) \<Longrightarrow> wp (State_Monad.bind m k) Q w"
  unfolding wp_bind by (rule wp_conseq)

lemma wp_afterI: "wp m P w \<Longrightarrow> (\<And>x v. P x v \<Longrightarrow> wp k Q v) \<Longrightarrow> wp (after m k) Q w"
  unfolding wp_after by (rule wp_conseq)

lemma wp_callI:
  assumes "wp m P w" "\<And>x v. P (Ok x) v \<Longrightarrow> wp (k (Inr x)) Q v"
    "\<And>e v. P (Err e) v \<Longrightarrow> wp (k (Inl e)) Q v" "\<And>p v. P (Panic p) v \<Longrightarrow> Q (Panic p) v"
  shows "wp (call m k) Q w"
  unfolding wp_call using assms(1) by (rule wp_conseq) (auto split: outcome.splits intro: assms)

lemma wp_andThenI:
  assumes "wp m P w" "\<And>x v. P (Ok x) v \<Longrightarrow> wp (k x) Q v"
    "\<And>e v. P (Err e) v \<Longrightarrow> Q (Err e) v" "\<And>p v. P (Panic p) v \<Longrightarrow> Q (Panic p) v"
  shows "wp (andThen m k) Q w"
  unfolding wp_andThen using assms(1) by (rule wp_conseq) (auto split: outcome.splits intro: assms)

lemma run_state_call:
  "run_state (call m k) w =
   (case run_state m w of (r, w') \<Rightarrow>
     (case r of Ok x \<Rightarrow> run_state (k (Inr x)) w' | Err e \<Rightarrow> run_state (k (Inl e)) w'
              | Panic p \<Rightarrow> (Panic p, w')))"
  by (simp add: call_def panic_def split: prod.splits outcome.splits)

lemma run_state_andThen:
  "run_state (andThen m k) w =
   (case run_state m w of (r, w') \<Rightarrow>
     (case r of Ok x \<Rightarrow> run_state (k x) w' | Err e \<Rightarrow> (Err e, w') | Panic p \<Rightarrow> (Panic p, w')))"
  by (simp add: andThen_def run_state_call fail_def split: prod.splits outcome.splits)

lemma run_state_deferred:
  "run_state (deferred m d) w = (case run_state m w of (r, w') \<Rightarrow> (r, snd (run_state d w')))"
  by (simp add: deferred_def split: prod.splits)

lemma run_state_after: "run_state (after s m) w = run_state m (snd (run_state s w))"
  by (simp add: after_def split: prod.splits)

lemma run_state_ok: "run_state (ok x) w = (Ok x, w)"
  by (simp add: ok_def)

lemma run_state_fail: "run_state (fail e) w = (Err e, w)"
  by (simp add: fail_def)

lemma run_state_panic: "run_state (panic p) w = (Panic p, w)"
  by (simp add: panic_def)

lemma run_state_modify: "run_state (modify f) w = ((), f w)"
  by (simp add: modify_def)

lemma run_state_reads: "run_state (reads f) w = (f w, w)"
  by (simp add: reads_def)

lemmas run_rules = run_state_call run_state_andThen run_state_deferred run_state_after
  run_state_ok run_state_fail run_state_panic run_state_modify run_state_reads

text \<open>
  An invariant of a loop over a slice: the body keeps it on \<open>Ok\<close> and gives the
  post-condition where it leaves the loop.
\<close>

lemma wp_foreach:
  assumes inv: "I xs w"
    and step: "\<And>x rest v. I (x # rest) v \<Longrightarrow>
      wp (body x) (\<lambda>r v'. case r of Ok _ \<Rightarrow> I rest v' | Err e \<Rightarrow> Q (Err e) v' | Panic p \<Rightarrow> Q (Panic p) v') v"
    and fin: "\<And>v. I [] v \<Longrightarrow> Q (Ok ()) v"
  shows "wp (foreach xs body) Q w"
  using inv
proof (induction xs arbitrary: w)
  case Nil
  then show ?case by (simp add: wp_rules fin)
next
  case (Cons x xs)
  from step [OF Cons.prems] show ?case
    unfolding foreach.simps wp_andThen
    by (rule wp_conseq) (auto split: outcome.splits intro: Cons.IH)
qed

end
