(* ===== verification/Uuid.thy ===== *)
theory Uuid
  imports Prelude "HOL-Library.Word"
begin

text \<open>
  The UUIDs of github.com/google/uuid (vendored): \<open>UUID.String\<close> and \<open>Parse\<close>, with the
  round trip that the repositories rely on when they take a UUID as a string and parse it back.
  A UUID is its 16 bytes, big-endian, as one 128-bit word.
\<close>

type_synonym uuid = "128 word"

definition hex_digit :: "nat \<Rightarrow> char" where
  "hex_digit d = (if d < 10 then char_of (48 + d) else char_of (87 + d))"

definition hex_value :: "char \<Rightarrow> nat option" where
  "hex_value c = (let n = of_char c :: nat in
     if 48 \<le> n \<and> n \<le> 57 then Some (n - 48)
     else if 97 \<le> n \<and> n \<le> 102 then Some (n - 87)
     else if 65 \<le> n \<and> n \<le> 70 then Some (n - 55)
     else None)"

text \<open>The lowest \<open>k\<close> hexadecimal digits of a number, the highest of them first.\<close>

fun hex_digits :: "nat \<Rightarrow> nat \<Rightarrow> string" where
  "hex_digits 0 n = []"
| "hex_digits (Suc k) n = hex_digits k (n div 16) @ [hex_digit (n mod 16)]"

fun hex_number :: "nat \<Rightarrow> string \<Rightarrow> nat option" where
  "hex_number acc [] = Some acc"
| "hex_number acc (c # s) =
     (case hex_value c of None \<Rightarrow> None | Some d \<Rightarrow> hex_number (16 * acc + d) s)"

definition uuid_String :: "uuid \<Rightarrow> string" where
  "uuid_String u =
     (let h = hex_digits 32 (unat u) in
        take 8 h @ ''-'' @ take 4 (drop 8 h) @ ''-'' @ take 4 (drop 12 h) @ ''-''
        @ take 4 (drop 16 h) @ ''-'' @ drop 20 h)"

text \<open>The tail of \<open>Parse\<close>, on at least 36 bytes, and the dispatch on the length before it.\<close>

definition parse_dashed :: "string \<Rightarrow> uuid outcome" where
  "parse_dashed s =
     (if s ! 8 \<noteq> CHR ''-'' \<or> s ! 13 \<noteq> CHR ''-'' \<or> s ! 18 \<noteq> CHR ''-'' \<or> s ! 23 \<noteq> CHR ''-''
      then Err (NewErr ''invalid UUID format'')
      else (case hex_number 0 (take 8 s @ take 4 (drop 9 s) @ take 4 (drop 14 s)
                               @ take 4 (drop 19 s) @ take 12 (drop 24 s)) of
              None \<Rightarrow> Err (NewErr ''invalid UUID format'')
            | Some n \<Rightarrow> Ok (of_nat n)))"

definition uuid_Parse :: "string \<Rightarrow> uuid outcome" where
  "uuid_Parse s =
     (if length s = 36 then parse_dashed s
      else if length s = 45 then
        (if ToLower (take 9 s) \<noteq> ''urn:uuid:''
         then Err (NewErr (''invalid urn prefix: '' @ [CHR 0x22] @ take 9 s @ [CHR 0x22]))
         else parse_dashed (drop 9 s))
      else if length s = 38 then parse_dashed (drop 1 s)
      else if length s = 32 then
        (case hex_number 0 s of
           None \<Rightarrow> Err (NewErr ''invalid UUID format'') | Some n \<Rightarrow> Ok (of_nat n))
      else Err (NewErr (''invalid UUID length: '' @ nat_text (length s))))"

section \<open>The round trip\<close>

lemma hex_value_digit: "d < 16 \<Longrightarrow> hex_value (hex_digit d) = Some d"
  by (auto simp: hex_value_def hex_digit_def)

lemma length_hex_digits [simp]: "length (hex_digits k n) = k"
  by (induction k arbitrary: n) auto

lemma hex_number_append:
  "hex_number a (xs @ ys) =
     (case hex_number a xs of None \<Rightarrow> None | Some b \<Rightarrow> hex_number b ys)"
  by (induction xs arbitrary: a) (auto split: option.splits)

lemma hex_number_digits: "hex_number a (hex_digits k n) = Some (a * 16 ^ k + n mod 16 ^ k)"
proof (induction k arbitrary: a n)
  case 0
  then show ?case by simp
next
  case (Suc k)
  have "n mod 16 ^ Suc k = 16 * (n div 16 mod 16 ^ k) + n mod 16"
    by (metis mod_mult2_eq power_Suc)
  then show ?case
    by (simp add: hex_number_append Suc.IH hex_value_digit algebra_simps)
qed

lemma length_uuid_String [simp]: "length (uuid_String u) = 36"
  by (simp add: uuid_String_def Let_def)

lemma list_pieces: "take 8 h @ take 4 (drop 8 h) @ take 4 (drop 12 h) @ take 4 (drop 16 h) @ drop 20 h = h"
proof -
  have "take 4 (drop 16 h) @ drop 20 h = drop 16 h"
    using append_take_drop_id [of 4 "drop 16 h"] by simp
  moreover have "take 4 (drop 12 h) @ drop 16 h = drop 12 h"
    using append_take_drop_id [of 4 "drop 12 h"] by simp
  moreover have "take 4 (drop 8 h) @ drop 12 h = drop 8 h"
    using append_take_drop_id [of 4 "drop 8 h"] by simp
  ultimately show ?thesis by simp
qed

lemma dashed_pieces:
  assumes "length a = 8" "length b = 4" "length c = 4" "length d = 4" "length e = 12"
  shows "let s = a @ ''-'' @ b @ ''-'' @ c @ ''-'' @ d @ ''-'' @ e in
     s ! 8 = CHR ''-'' \<and> s ! 13 = CHR ''-'' \<and> s ! 18 = CHR ''-'' \<and> s ! 23 = CHR ''-'' \<and>
     take 8 s = a \<and> take 4 (drop 9 s) = b \<and> take 4 (drop 14 s) = c \<and>
     take 4 (drop 19 s) = d \<and> take 12 (drop 24 s) = e"
  using assms by (simp add: nth_append Let_def)

lemma uuid_Parse_String [simp]: "uuid_Parse (uuid_String u) = Ok u"
proof -
  define h where "h = hex_digits 32 (unat u)"
  have lenh: "length h = 32" by (simp add: h_def)
  have num: "hex_number 0 h = Some (unat u)"
  proof -
    have "unat u < 2 ^ LENGTH(128)" by (rule unsigned_less)
    then have "unat u < 16 ^ 32" by simp
    then show ?thesis by (simp add: h_def hex_number_digits)
  qed
  have pieces: "take 8 h @ take 4 (drop 8 h) @ take 4 (drop 12 h) @ take 4 (drop 16 h)
      @ take 12 (drop 20 h) = h"
    using lenh by (simp add: list_pieces)
  have "uuid_String u = take 8 h @ ''-'' @ take 4 (drop 8 h) @ ''-'' @ take 4 (drop 12 h)
      @ ''-'' @ take 4 (drop 16 h) @ ''-'' @ take 12 (drop 20 h)"
    using lenh by (simp add: uuid_String_def Let_def h_def)
  then have "parse_dashed (uuid_String u) = Ok (of_nat (unat u))"
    using dashed_pieces [of "take 8 h" "take 4 (drop 8 h)" "take 4 (drop 12 h)"
        "take 4 (drop 16 h)" "take 12 (drop 20 h)"] lenh num pieces
    by (simp add: parse_dashed_def Let_def)
  then show ?thesis by (simp add: uuid_Parse_def)
qed

lemma uuid_String_inj: "uuid_String u = uuid_String v \<longleftrightarrow> u = v"
  by (metis outcome.inject(1) uuid_Parse_String)

end
