(* ===== verification/Domain.thy ===== *)
theory Domain
  imports Uuid
begin

text \<open>
  internal/domain: the entities with their column maps (\<open>Params\<close>, \<open>Fields\<close>,
  \<open>PrimaryKey\<close>) and the constructor of the outbox message of a created user; and
  pkg/adapters/kafka/consumer/dql/dql-message.go, the dead-letter row, which
  internal/domain/dlq-message.go repeats. Times are nanoseconds since the Unix epoch.
\<close>

type_synonym time = int

text \<open>A value bound to a placeholder or read from a column.\<close>

datatype "value" =
    VNull | VStr string | VInt int | VTime time | VUuid uuid | VBytes string | VBool bool

type_synonym row = "string \<rightharpoonup> value"

definition opt_time :: "time option \<Rightarrow> value" where
  "opt_time t = (case t of None \<Rightarrow> VNull | Some x \<Rightarrow> VTime x)"

text \<open>Reading a column into a Go field: NULL only fits a pointer.\<close>

definition col_uuid :: "row \<Rightarrow> string \<Rightarrow> uuid option" where
  "col_uuid r c = (case r c of Some (VUuid u) \<Rightarrow> Some u | _ \<Rightarrow> None)"

definition col_str :: "row \<Rightarrow> string \<Rightarrow> string option" where
  "col_str r c = (case r c of Some (VStr s) \<Rightarrow> Some s | _ \<Rightarrow> None)"

definition col_bytes :: "row \<Rightarrow> string \<Rightarrow> string option" where
  "col_bytes r c = (case r c of Some (VBytes s) \<Rightarrow> Some s | _ \<Rightarrow> None)"

definition col_int32 :: "row \<Rightarrow> string \<Rightarrow> 32 word option" where
  "col_int32 r c = (case r c of Some (VInt i) \<Rightarrow>
      (if - (2 ^ 31) \<le> i \<and> i < 2 ^ 31 then Some (word_of_int i) else None) | _ \<Rightarrow> None)"

definition col_time :: "row \<Rightarrow> string \<Rightarrow> time option" where
  "col_time r c = (case r c of Some (VTime t) \<Rightarrow> Some t | _ \<Rightarrow> None)"

definition col_opt_time :: "row \<Rightarrow> string \<Rightarrow> time option option" where
  "col_opt_time r c = (case r c of Some (VTime t) \<Rightarrow> Some (Some t) | Some VNull \<Rightarrow> Some None | _ \<Rightarrow> None)"

lemmas col_defs = col_uuid_def col_str_def col_bytes_def col_int32_def col_time_def
  col_opt_time_def opt_time_def

section \<open>auth_account.go\<close>

definition AuthProviderPassword :: string where "AuthProviderPassword = ''password''"
definition AuthProviderYandexID :: string where "AuthProviderYandexID = ''yandex_id''"
definition AuthProviderVK :: string where "AuthProviderVK = ''vk''"

lemma providers_distinct [simp]:
  "AuthProviderPassword \<noteq> AuthProviderYandexID" "AuthProviderYandexID \<noteq> AuthProviderPassword"
  "AuthProviderPassword \<noteq> AuthProviderVK" "AuthProviderVK \<noteq> AuthProviderPassword"
  "AuthProviderVK \<noteq> AuthProviderYandexID" "AuthProviderYandexID \<noteq> AuthProviderVK"
  by (simp_all add: AuthProviderPassword_def AuthProviderYandexID_def AuthProviderVK_def)

record user_account =
  ua_ID :: uuid
  ua_Login :: string
  ua_Email :: string
  ua_FirstName :: string
  ua_LastName :: string
  ua_Provider :: string
  ua_CreatedAt :: time
  ua_UpdatedAt :: time

definition UserAccount_Params :: "user_account \<Rightarrow> (string \<times> value) list" where
  "UserAccount_Params u =
     [(''id'', VUuid (ua_ID u)), (''login'', VStr (ua_Login u)), (''email'', VStr (ua_Email u)),
      (''first_name'', VStr (ua_FirstName u)), (''last_name'', VStr (ua_LastName u)),
      (''provider'', VStr (ua_Provider u)), (''created_at'', VTime (ua_CreatedAt u)),
      (''updated_at'', VTime (ua_UpdatedAt u))]"

definition UserAccount_Fields :: "string list" where
  "UserAccount_Fields =
     [''id'', ''login'', ''email'', ''first_name'', ''last_name'', ''provider'', ''created_at'',
      ''updated_at'']"

definition UserAccount_PrimaryKey :: "user_account \<Rightarrow> string \<times> value" where
  "UserAccount_PrimaryKey u = (''id'', VUuid (ua_ID u))"

definition scan_user :: "row \<Rightarrow> user_account option" where
  "scan_user r = do {
     i \<leftarrow> col_uuid r ''id''; l \<leftarrow> col_str r ''login''; e \<leftarrow> col_str r ''email'';
     f \<leftarrow> col_str r ''first_name''; n \<leftarrow> col_str r ''last_name''; p \<leftarrow> col_str r ''provider'';
     c \<leftarrow> col_time r ''created_at''; u \<leftarrow> col_time r ''updated_at'';
     Some \<lparr>ua_ID = i, ua_Login = l, ua_Email = e, ua_FirstName = f, ua_LastName = n,
           ua_Provider = p, ua_CreatedAt = c, ua_UpdatedAt = u\<rparr> }"

section \<open>password_credential.go\<close>

record password_credential =
  pc_UserID :: uuid
  pc_PasswordHash :: string
  pc_CreatedAt :: time
  pc_UpdatedAt :: time

definition PasswordCredential_Params :: "password_credential \<Rightarrow> (string \<times> value) list" where
  "PasswordCredential_Params c =
     [(''user_id'', VUuid (pc_UserID c)), (''password_hash'', VStr (pc_PasswordHash c)),
      (''created_at'', VTime (pc_CreatedAt c)), (''updated_at'', VTime (pc_UpdatedAt c))]"

definition PasswordCredential_Fields :: "string list" where
  "PasswordCredential_Fields = [''user_id'', ''password_hash'', ''created_at'', ''updated_at'']"

definition PasswordCredential_PrimaryKey :: "password_credential \<Rightarrow> string \<times> value" where
  "PasswordCredential_PrimaryKey c = (''user_id'', VUuid (pc_UserID c))"

definition scan_credential :: "row \<Rightarrow> password_credential option" where
  "scan_credential r = do {
     i \<leftarrow> col_uuid r ''user_id''; h \<leftarrow> col_str r ''password_hash'';
     c \<leftarrow> col_time r ''created_at''; u \<leftarrow> col_time r ''updated_at'';
     Some \<lparr>pc_UserID = i, pc_PasswordHash = h, pc_CreatedAt = c, pc_UpdatedAt = u\<rparr> }"

section \<open>external_identity.go\<close>

record external_identity =
  ei_ID :: uuid
  ei_UserID :: uuid
  ei_Provider :: string
  ei_Subject :: string
  ei_CreatedAt :: time
  ei_UpdatedAt :: time

definition ExternalIdentity_Params :: "external_identity \<Rightarrow> (string \<times> value) list" where
  "ExternalIdentity_Params i =
     [(''id'', VUuid (ei_ID i)), (''user_id'', VUuid (ei_UserID i)),
      (''provider'', VStr (ei_Provider i)), (''subject'', VStr (ei_Subject i)),
      (''created_at'', VTime (ei_CreatedAt i)), (''updated_at'', VTime (ei_UpdatedAt i))]"

definition ExternalIdentity_Fields :: "string list" where
  "ExternalIdentity_Fields =
     [''id'', ''user_id'', ''provider'', ''subject'', ''created_at'', ''updated_at'']"

definition ExternalIdentity_PrimaryKey :: "external_identity \<Rightarrow> string \<times> value" where
  "ExternalIdentity_PrimaryKey i = (''id'', VUuid (ei_ID i))"

definition scan_identity :: "row \<Rightarrow> external_identity option" where
  "scan_identity r = do {
     i \<leftarrow> col_uuid r ''id''; u \<leftarrow> col_uuid r ''user_id''; p \<leftarrow> col_str r ''provider'';
     s \<leftarrow> col_str r ''subject''; c \<leftarrow> col_time r ''created_at''; d \<leftarrow> col_time r ''updated_at'';
     Some \<lparr>ei_ID = i, ei_UserID = u, ei_Provider = p, ei_Subject = s, ei_CreatedAt = c,
           ei_UpdatedAt = d\<rparr> }"

section \<open>outbox_message.go\<close>

definition OutboxStatusPending :: string where "OutboxStatusPending = ''pending''"
definition OutboxStatusProcessing :: string where "OutboxStatusProcessing = ''processing''"
definition OutboxStatusSent :: string where "OutboxStatusSent = ''sent''"
definition OutboxStatusFailed :: string where "OutboxStatusFailed = ''failed''"

lemmas outbox_status_defs = OutboxStatusPending_def OutboxStatusProcessing_def
  OutboxStatusSent_def OutboxStatusFailed_def

record outbox_message =
  om_ID :: uuid
  om_Topic :: string
  om_MessageKey :: string
  om_Payload :: string
  om_Status :: string
  om_AttemptCount :: "32 word"
  om_LastError :: string
  om_PublishedAt :: "time option"
  om_NextAttemptAt :: "time option"
  om_CreatedAt :: time
  om_UpdatedAt :: time

definition OutboxMessage_Params :: "outbox_message \<Rightarrow> (string \<times> value) list" where
  "OutboxMessage_Params m =
     [(''id'', VUuid (om_ID m)), (''topic'', VStr (om_Topic m)),
      (''message_key'', VStr (om_MessageKey m)), (''payload'', VBytes (om_Payload m)),
      (''status'', VStr (om_Status m)), (''attempt_count'', VInt (sint (om_AttemptCount m))),
      (''last_error'', VStr (om_LastError m)), (''published_at'', opt_time (om_PublishedAt m)),
      (''next_attempt_at'', opt_time (om_NextAttemptAt m)),
      (''created_at'', VTime (om_CreatedAt m)), (''updated_at'', VTime (om_UpdatedAt m))]"

definition OutboxMessage_Fields :: "string list" where
  "OutboxMessage_Fields =
     [''id'', ''topic'', ''message_key'', ''payload'', ''status'', ''attempt_count'', ''last_error'',
      ''published_at'', ''next_attempt_at'', ''created_at'', ''updated_at'']"

definition OutboxMessage_PrimaryKey :: "outbox_message \<Rightarrow> string \<times> value" where
  "OutboxMessage_PrimaryKey m = (''id'', VUuid (om_ID m))"

definition scan_outbox :: "row \<Rightarrow> outbox_message option" where
  "scan_outbox r = do {
     i \<leftarrow> col_uuid r ''id''; t \<leftarrow> col_str r ''topic''; k \<leftarrow> col_str r ''message_key'';
     p \<leftarrow> col_bytes r ''payload''; s \<leftarrow> col_str r ''status''; a \<leftarrow> col_int32 r ''attempt_count'';
     e \<leftarrow> col_str r ''last_error''; b \<leftarrow> col_opt_time r ''published_at'';
     n \<leftarrow> col_opt_time r ''next_attempt_at''; c \<leftarrow> col_time r ''created_at'';
     u \<leftarrow> col_time r ''updated_at'';
     Some \<lparr>om_ID = i, om_Topic = t, om_MessageKey = k, om_Payload = p, om_Status = s,
           om_AttemptCount = a, om_LastError = e, om_PublishedAt = b, om_NextAttemptAt = n,
           om_CreatedAt = c, om_UpdatedAt = u\<rparr> }"

section \<open>dql-message.go and dlq-message.go\<close>

record dlq_message =
  dm_ID :: string
  dm_Topic :: string
  dm_Partition :: "32 word"
  dm_Offset :: "64 word"
  dm_ObjectIndex :: "64 word"
  dm_Payload :: string
  dm_Status :: string
  dm_AttemptNumber :: "32 word"
  dm_LastAttemptError :: string
  dm_LastAttemptErrorDescription :: string
  dm_LastAttemptTime :: time
  dm_Deleted :: bool
  dm_CreatedAt :: time
  dm_UpdatedAt :: time

definition DLQMessage_Params :: "dlq_message \<Rightarrow> (string \<times> value) list" where
  "DLQMessage_Params u =
     [(''id'', VStr (dm_ID u)), (''topic'', VStr (dm_Topic u)),
      (''partition'', VInt (sint (dm_Partition u))), (''message_offset'', VInt (sint (dm_Offset u))),
      (''object_index'', VInt (sint (dm_ObjectIndex u))), (''payload'', VStr (dm_Payload u)),
      (''attempt_number'', VInt (sint (dm_AttemptNumber u))),
      (''last_attempt_error'', VStr (dm_LastAttemptError u)),
      (''last_attempt_error_description'', VStr (dm_LastAttemptErrorDescription u)),
      (''last_attempt_time'', VTime (dm_LastAttemptTime u)),
      (''created_at'', VTime (dm_CreatedAt u)), (''updated_at'', VTime (dm_UpdatedAt u))]"

definition DLQMessage_Fields :: "string list" where
  "DLQMessage_Fields =
     [''id'', ''topic'', ''partition'', ''message_offset'', ''object_index'', ''payload'',
      ''attempt_number'', ''last_attempt_error'', ''last_attempt_error_description'',
      ''last_attempt_time'', ''deleted'', ''created_at'', ''updated_at'']"

definition DLQMessage_PrimaryKey :: "dlq_message \<Rightarrow> string \<times> value" where
  "DLQMessage_PrimaryKey u = (''id'', VStr (dm_ID u))"

section \<open>user_created_event.go, vk_user_event.go, ids.go\<close>

definition UserCreatedTopic :: string where "UserCreatedTopic = ''users.created''"
definition VKUsersTopic :: string where "VKUsersTopic = ''users.vk.created''"

record user_created_event =
  uc_UserID :: string
  uc_Provider :: string
  uc_OccurredAt :: time

record vk_user_event =
  vk_VKUserID :: string
  vk_Login :: string
  vk_Email :: string
  vk_FirstName :: string
  vk_LastName :: string
  vk_OccurredAt :: time

text \<open>
  What the code takes from the runtime: the clock, the UUID generator (which may run out of
  randomness), \<open>json.Marshal\<close> of the event, and the metrics, span and log sinks, which
  record an event.
\<close>

datatype event =
    Metric string "string list"
  | Sample string "string list" int
  | SpanError string
  | SpanOk string
  | LogLine string string
  | Delivered string string string

record 'w runtime =
  Now :: "('w, time) state"
  NewV7 :: "('w, uuid) go"
  MarshalUserCreated :: "user_created_event \<Rightarrow> string outcome"
  Emit :: "event \<Rightarrow> ('w, unit) state"

definition NewUUIDv7 :: "'w runtime \<Rightarrow> ('w, uuid) go" where
  "NewUUIDv7 rt = call (NewV7 rt) (\<lambda>r. case r of Inl e \<Rightarrow> panic (err_text e) | Inr v \<Rightarrow> ok v)"

definition NewUserCreatedOutboxMessage :: "'w runtime \<Rightarrow> user_account \<Rightarrow> ('w, outbox_message) go" where
  "NewUserCreatedOutboxMessage rt account = do {
     now \<leftarrow> Now rt;
     (case MarshalUserCreated rt \<lparr>uc_UserID = uuid_String (ua_ID account),
                                   uc_Provider = ua_Provider account, uc_OccurredAt = now\<rparr> of
        Err e \<Rightarrow> fail e
      | Panic p \<Rightarrow> panic p
      | Ok payload \<Rightarrow>
          andThen (NewUUIDv7 rt) (\<lambda>id.
            ok \<lparr>om_ID = id, om_Topic = UserCreatedTopic, om_MessageKey = uuid_String (ua_ID account),
                om_Payload = payload, om_Status = OutboxStatusPending, om_AttemptCount = 0,
                om_LastError = [], om_PublishedAt = None, om_NextAttemptAt = None,
                om_CreatedAt = now, om_UpdatedAt = now\<rparr>))
   }"

section \<open>The column maps agree with the struct tags\<close>

lemma scan_user_Params: "scan_user (map_of (UserAccount_Params u)) = Some u"
  by (simp add: scan_user_def UserAccount_Params_def col_defs)

lemma scan_credential_Params: "scan_credential (map_of (PasswordCredential_Params c)) = Some c"
  by (simp add: scan_credential_def PasswordCredential_Params_def col_defs)

lemma scan_identity_Params: "scan_identity (map_of (ExternalIdentity_Params i)) = Some i"
  by (simp add: scan_identity_def ExternalIdentity_Params_def col_defs)

lemma sint32_range: "- (2 ^ 31) \<le> sint (w :: 32 word)" "sint (w :: 32 word) < 2 ^ 31"
  using sint_greater_eq [of w] sint_less [of w] by simp_all

lemma scan_outbox_Params: "scan_outbox (map_of (OutboxMessage_Params m)) = Some m"
  using sint32_range [of "om_AttemptCount m"]
  by (cases "om_PublishedAt m"; cases "om_NextAttemptAt m")
    (simp_all add: scan_outbox_def OutboxMessage_Params_def col_defs)

end
