(* ===== verification/World.thy ===== *)
theory World
  imports Domain
begin

text \<open>
  The world the services run in: the PostgreSQL tables with the constraints of
  migrations/postgres, the connection pool and the open transaction, the clock, the UUID
  source, the metric, span and log sink, and an oracle that may make any call to the database
  fail; further the Kafka broker, with an oracle of what becomes of each send, and the HTTP
  answers of the schema registry with the schema id the encoder remembers. The statements are the ones goqu builds for the repositories. What is modelled of
  PostgreSQL is its documented behaviour: unique and foreign-key violations with their codes,
  ON CONFLICT, ORDER BY with NULLS LAST, SKIP LOCKED, aborted transactions, timestamps of
  microsecond precision.
\<close>

section \<open>Statements\<close>

datatype expr =
    EEq string "value"
  | EIn string "value list"
  | ENull string
  | ELte string "value"
  | EAnd "expr list"
  | EOr "expr list"

datatype setval = SetTo "value" | SetPlus string int

datatype conflict = NoConflict | DoNothing | DoUpdate string "(string \<times> setval) list"

record select_ds =
  sd_table :: string
  sd_where :: "expr option"
  sd_order :: "(string \<times> bool) list"
  sd_limit :: "nat option"
  sd_offset :: "nat option"

datatype stmt =
    SelectStmt select_ds "string option"
  | ExistsStmt string expr
  | CountStmt string "expr list"
  | InsertStmt string "(string \<times> value) list list" conflict bool
  | UpdateStmt string "(string \<times> setval) list" expr bool
  | DeleteStmt string expr bool
  | RawStmt string "value list"

section \<open>Evaluation of one statement\<close>

type_synonym db = "string \<Rightarrow> row list"

definition col_value :: "row \<Rightarrow> string \<Rightarrow> value" where
  "col_value r c = (case r c of None \<Rightarrow> VNull | Some v \<Rightarrow> v)"

text \<open>Parameters of type timestamptz keep microseconds.\<close>

fun bind_value :: "value \<Rightarrow> value" where
  "bind_value (VTime t) = VTime (t - t mod 1000)"
| "bind_value v = v"

fun str_less :: "string \<Rightarrow> string \<Rightarrow> bool" where
  "str_less [] (b # bs) = True"
| "str_less (a # as) (b # bs) =
     ((of_char a :: nat) < of_char b \<or> (a = b \<and> str_less as bs))"
| "str_less _ [] = False"

fun value_less :: "value \<Rightarrow> value \<Rightarrow> bool" where
  "value_less (VInt a) (VInt b) = (a < b)"
| "value_less (VTime a) (VTime b) = (a < b)"
| "value_less (VStr a) (VStr b) = str_less a b"
| "value_less _ _ = False"

text \<open>A condition that is NULL does not select the row; without NOT, two values are enough.\<close>

fun eval_expr :: "expr \<Rightarrow> row \<Rightarrow> bool" where
  "eval_expr (EEq c v) r =
     (if v = VNull then col_value r c = VNull else col_value r c = bind_value v)"
| "eval_expr (EIn c vs) r = (col_value r c \<noteq> VNull \<and> col_value r c \<in> set (map bind_value vs))"
| "eval_expr (ENull c) r = (col_value r c = VNull)"
| "eval_expr (ELte c v) r =
     (value_less (col_value r c) (bind_value v)
      \<or> (col_value r c \<noteq> VNull \<and> col_value r c = bind_value v))"
| "eval_expr (EAnd es) r = list_all (\<lambda>e. eval_expr e r) es"
| "eval_expr (EOr es) r = list_ex (\<lambda>e. eval_expr e r) es"

definition where_ok :: "expr option \<Rightarrow> row \<Rightarrow> bool" where
  "where_ok w r = (case w of None \<Rightarrow> True | Some e \<Rightarrow> eval_expr e r)"

text \<open>ORDER BY: ascending puts NULL last, descending first; equal keys keep the table's order.\<close>

definition sorts_before :: "value \<Rightarrow> value \<Rightarrow> bool" where
  "sorts_before x y = (x \<noteq> VNull \<and> (y = VNull \<or> value_less x y))"

fun rows_le :: "(string \<times> bool) list \<Rightarrow> row \<Rightarrow> row \<Rightarrow> bool" where
  "rows_le [] a b = True"
| "rows_le ((c, desc) # ks) a b =
     (let x = col_value a c; y = col_value b c in
        if x = y then rows_le ks a b
        else if desc then sorts_before y x else sorts_before x y)"

fun insert_by :: "('a \<Rightarrow> 'a \<Rightarrow> bool) \<Rightarrow> 'a \<Rightarrow> 'a list \<Rightarrow> 'a list" where
  "insert_by le x [] = [x]"
| "insert_by le x (y # ys) = (if le x y then x # y # ys else y # insert_by le x ys)"

definition sort_by :: "('a \<Rightarrow> 'a \<Rightarrow> bool) \<Rightarrow> 'a list \<Rightarrow> 'a list" where
  "sort_by le xs = foldr (insert_by le) xs []"

definition order_rows :: "(string \<times> bool) list \<Rightarrow> row list \<Rightarrow> row list" where
  "order_rows ks rs = (if ks = [] then rs else sort_by (rows_le ks) rs)"

definition opt_take :: "nat option \<Rightarrow> 'a list \<Rightarrow> 'a list" where
  "opt_take n xs = (case n of None \<Rightarrow> xs | Some k \<Rightarrow> take k xs)"

definition opt_drop :: "nat option \<Rightarrow> 'a list \<Rightarrow> 'a list" where
  "opt_drop n xs = (case n of None \<Rightarrow> xs | Some k \<Rightarrow> drop k xs)"

text \<open>
  The locking clause is text at the end of the statement. \<open>held\<close> says which rows other
  sessions have locked: SKIP LOCKED leaves them out, NOWAIT fails on them, and otherwise the
  statement waits until they are free.
\<close>

definition ends_with :: "string \<Rightarrow> string \<Rightarrow> bool" where
  "ends_with s t = (take (length t) (rev s) = rev t)"

definition pg_select :: "(row \<Rightarrow> bool) \<Rightarrow> select_ds \<Rightarrow> string option \<Rightarrow> row list \<Rightarrow> row list outcome" where
  "pg_select held ds lock rs =
     (let hits = filter (where_ok (sd_where ds)) rs in
      case lock of
        None \<Rightarrow> Ok (opt_take (sd_limit ds) (opt_drop (sd_offset ds) (order_rows (sd_order ds) hits)))
      | Some txt \<Rightarrow>
          (let free = (if ends_with txt ''SKIP LOCKED'' then filter (\<lambda>r. \<not> held r) hits else hits);
               res = opt_take (sd_limit ds) (opt_drop (sd_offset ds) (order_rows (sd_order ds) free)) in
           if ends_with txt ''NOWAIT'' \<and> list_ex held res
           then Err (PgErr ''55P03'' ''could not obtain lock on row'')
           else Ok res))"

text \<open>The constraints of migrations/postgres: the unique keys and the foreign keys of a table.\<close>

record table_schema =
  ts_unique :: "string list list"
  ts_refs :: "(string \<times> string \<times> string) list"

definition schema :: "string \<Rightarrow> table_schema option" where
  "schema t =
     (if t = ''auth_users'' then
        Some \<lparr>ts_unique = [[''id''], [''login''], [''email'']], ts_refs = []\<rparr>
      else if t = ''auth_password_credentials'' then
        Some \<lparr>ts_unique = [[''user_id'']], ts_refs = [(''user_id'', ''auth_users'', ''id'')]\<rparr>
      else if t = ''auth_external_identities'' then
        Some \<lparr>ts_unique = [[''id''], [''provider'', ''subject'']],
              ts_refs = [(''user_id'', ''auth_users'', ''id'')]\<rparr>
      else if t = ''auth_outbox_messages'' then
        Some \<lparr>ts_unique = [[''id'']], ts_refs = []\<rparr>
      else if t = ''dql_message'' then
        Some \<lparr>ts_unique = [[''id''], [''topic'', ''partition'', ''message_offset'', ''object_index'']],
              ts_refs = []\<rparr>
      else None)"

definition same_key :: "row \<Rightarrow> row \<Rightarrow> string list \<Rightarrow> bool" where
  "same_key r s cs = list_all (\<lambda>c. col_value r c \<noteq> VNull \<and> col_value r c = col_value s c) cs"

definition violates_unique :: "table_schema \<Rightarrow> row list \<Rightarrow> row \<Rightarrow> bool" where
  "violates_unique sc rs r = list_ex (\<lambda>cs. list_ex (\<lambda>s. same_key r s cs) rs) (ts_unique sc)"

definition violates_ref :: "table_schema \<Rightarrow> db \<Rightarrow> row \<Rightarrow> bool" where
  "violates_ref sc d r =
     list_ex (\<lambda>(c, t, k). col_value r c \<noteq> VNull
        \<and> \<not> list_ex (\<lambda>s. col_value r c = col_value s k) (d t)) (ts_refs sc)"

definition unique_violation :: err where
  "unique_violation = PgErr ''23505'' ''duplicate key value violates unique constraint''"

definition ref_violation :: err where
  "ref_violation = PgErr ''23503'' ''insert or update violates foreign key constraint''"

definition no_table :: err where
  "no_table = PgErr ''42P01'' ''relation does not exist''"

definition new_row :: "(string \<times> value) list \<Rightarrow> row" where
  "new_row ps = map_of (map (\<lambda>(c, v). (c, bind_value v)) ps)"

fun set_value :: "row \<Rightarrow> setval \<Rightarrow> value" where
  "set_value r (SetTo v) = bind_value v"
| "set_value r (SetPlus c n) =
     (case col_value r c of VInt i \<Rightarrow> VInt (i + n) | _ \<Rightarrow> VNull)"

definition update_row :: "(string \<times> setval) list \<Rightarrow> row \<Rightarrow> row" where
  "update_row sets r = r ++ map_of (map (\<lambda>(c, s). (c, set_value r s)) sets)"

text \<open>One row of an INSERT, with its ON CONFLICT clause; the rows it wrote are returned.\<close>

definition pg_insert_row ::
  "table_schema \<Rightarrow> string \<Rightarrow> conflict \<Rightarrow> db \<Rightarrow> row \<Rightarrow> err + db \<times> row list" where
  "pg_insert_row sc t oc d r =
     (if violates_ref sc d r then Inl ref_violation
      else if \<not> violates_unique sc (d t) r then Inr (d(t := d t @ [r]), [r])
      else case oc of
        NoConflict \<Rightarrow> Inl unique_violation
      | DoNothing \<Rightarrow> Inr (d, [])
      | DoUpdate c sets \<Rightarrow>
          (let hit = (\<lambda>s. same_key r s [c]) in
           if list_ex hit (d t)
           then Inr (d(t := map (\<lambda>s. if hit s then update_row sets s else s) (d t)),
                     map (update_row sets) (filter hit (d t)))
           else Inl unique_violation))"

fun pg_insert_rows ::
  "table_schema \<Rightarrow> string \<Rightarrow> conflict \<Rightarrow> db \<Rightarrow> row list \<Rightarrow> err + db \<times> row list" where
  "pg_insert_rows sc t oc d [] = Inr (d, [])"
| "pg_insert_rows sc t oc d (r # rs) =
     (case pg_insert_row sc t oc d r of Inl e \<Rightarrow> Inl e
      | Inr (d', out) \<Rightarrow>
          (case pg_insert_rows sc t oc d' rs of Inl e \<Rightarrow> Inl e
           | Inr (d'', out') \<Rightarrow> Inr (d'', out @ out')))"

text \<open>After an UPDATE every row must still be alone with its unique keys.\<close>

fun all_unique :: "table_schema \<Rightarrow> row list \<Rightarrow> bool" where
  "all_unique sc [] = True"
| "all_unique sc (r # rs) = (\<not> violates_unique sc rs r \<and> all_unique sc rs)"

text \<open>Counting up an integer column may leave the range of the type.\<close>

definition overflows :: "(string \<times> setval) list \<Rightarrow> row \<Rightarrow> bool" where
  "overflows sets r = list_ex (\<lambda>(c, s). case s of
     SetPlus k n \<Rightarrow> (case set_value r s of VInt i \<Rightarrow> \<not> (- (2 ^ 31) \<le> i \<and> i < 2 ^ 31) | _ \<Rightarrow> False)
   | SetTo v \<Rightarrow> False) sets"

definition out_of_range :: err where
  "out_of_range = PgErr ''22003'' ''integer out of range''"

definition pg_update :: "table_schema \<Rightarrow> string \<Rightarrow> (string \<times> setval) list \<Rightarrow> expr \<Rightarrow> db \<Rightarrow> err + db \<times> row list" where
  "pg_update sc t sets ex d =
     (let rs' = map (\<lambda>r. if eval_expr ex r then update_row sets r else r) (d t);
          out = map (update_row sets) (filter (eval_expr ex) (d t)) in
      if list_ex (overflows sets) (filter (eval_expr ex) (d t)) then Inl out_of_range
      else if \<not> all_unique sc rs' then Inl unique_violation
      else if list_ex (violates_ref sc d) out then Inl ref_violation
      else Inr (d(t := rs'), out))"

text \<open>A DELETE; the references to auth_users are ON DELETE CASCADE.\<close>

definition pg_delete :: "string \<Rightarrow> expr \<Rightarrow> db \<Rightarrow> db \<times> row list" where
  "pg_delete t ex d =
     (let out = filter (eval_expr ex) (d t);
          gone = (\<lambda>r. list_ex (\<lambda>s. col_value s ''id'' = col_value r ''user_id'') out);
          d' = d(t := filter (\<lambda>r. \<not> eval_expr ex r) (d t)) in
      (if t = ''auth_users''
       then d'(''auth_password_credentials'' := filter (\<lambda>r. \<not> gone r) (d' ''auth_password_credentials''),
               ''auth_external_identities'' := filter (\<lambda>r. \<not> gone r) (d' ''auth_external_identities''))
       else d', out))"

fun pg_run :: "(string \<Rightarrow> row \<Rightarrow> bool) \<Rightarrow> stmt \<Rightarrow> db \<Rightarrow> err + db \<times> row list \<times> nat" where
  "pg_run held (SelectStmt ds lock) d =
     (case schema (sd_table ds) of None \<Rightarrow> Inl no_table
      | Some sc \<Rightarrow>
          (case pg_select (held (sd_table ds)) ds lock (d (sd_table ds)) of
             Ok rs \<Rightarrow> Inr (d, rs, length rs) | Err e \<Rightarrow> Inl e | Panic p \<Rightarrow> Inl (NewErr p)))"
| "pg_run held (ExistsStmt t ex) d =
     (case schema t of None \<Rightarrow> Inl no_table
      | Some sc \<Rightarrow> (let rs = take 1 (filter (eval_expr ex) (d t)) in
                     Inr (d, map (\<lambda>_. [''1'' \<mapsto> VInt 1]) rs, length rs)))"
| "pg_run held (CountStmt t exs) d =
     (case schema t of None \<Rightarrow> Inl no_table
      | Some sc \<Rightarrow> Inr (d, [[''count'' \<mapsto> VInt (int (length (filter (\<lambda>r. list_all (\<lambda>e. eval_expr e r) exs) (d t))))]], 1))"
| "pg_run held (InsertStmt t rows oc ret) d =
     (case schema t of None \<Rightarrow> Inl no_table
      | Some sc \<Rightarrow>
          (case pg_insert_rows sc t oc d (map new_row rows) of Inl e \<Rightarrow> Inl e
           | Inr (d', out) \<Rightarrow> Inr (d', if ret then out else [], length out)))"
| "pg_run held (UpdateStmt t sets ex ret) d =
     (case schema t of None \<Rightarrow> Inl no_table
      | Some sc \<Rightarrow>
          (case pg_update sc t sets ex d of Inl e \<Rightarrow> Inl e
           | Inr (d', out) \<Rightarrow> Inr (d', if ret then out else [], length out)))"
| "pg_run held (DeleteStmt t ex ret) d =
     (case schema t of None \<Rightarrow> Inl no_table
      | Some sc \<Rightarrow> (case pg_delete t ex d of (d', out) \<Rightarrow> Inr (d', if ret then out else [], length out)))"
| "pg_run held (RawStmt sql args) d = Inr (d, [[''locked'' \<mapsto> VBool True]], 1)"

section \<open>The world\<close>

text \<open>
  What may go wrong with any call besides the answers of the statement itself: the context is
  done, the connection breaks, or the server shuts down; \<open>Before\<close> the call had any effect, or
  \<open>After\<close> it took effect at the server (the answer was lost).
\<close>

datatype driver_err = ContextDone string | BrokenConn string | AdminShutdown

datatype fault = Before driver_err | After driver_err

text \<open>The answer of an HTTP call: none, a body that breaks off, or a status with a body.\<close>

datatype http_answer = NoAnswer string | BrokenBody string | Answer int string

record world =
  tables :: db
  saved :: "db option"
  aborted :: bool
  held_conns :: nat
  locked_elsewhere :: "string \<Rightarrow> row \<Rightarrow> bool"
  faults :: "nat \<Rightarrow> fault option"
  db_calls :: nat
  clock :: "nat \<Rightarrow> time"
  ticks :: nat
  uuid_source :: "nat \<Rightarrow> uuid option"
  uuids_drawn :: nat
  active_tx :: "string list \<Rightarrow> int"
  events :: "event list"
  broker :: "nat \<Rightarrow> fault option"
  sends :: nat
  schema_id :: int
  registry :: "nat \<Rightarrow> http_answer"
  registry_calls :: nat

definition now_w :: "(world, time) state" where
  "now_w = do { t \<leftarrow> reads (\<lambda>w. clock w (ticks w)); _ \<leftarrow> modify (ticks_update Suc); State_Monad.return t }"

definition uuid_w :: "(world, uuid) go" where
  "uuid_w = do {
     u \<leftarrow> reads (\<lambda>w. uuid_source w (uuids_drawn w));
     _ \<leftarrow> modify (uuids_drawn_update Suc);
     (case u of None \<Rightarrow> fail (NewErr ''crypto/rand: unavailable'') | Some v \<Rightarrow> ok v) }"

definition emit_w :: "event \<Rightarrow> (world, unit) state" where
  "emit_w e = modify (events_update (\<lambda>es. es @ [e]))"

definition next_fault :: "(world, fault option) state" where
  "next_fault = do {
     f \<leftarrow> reads (\<lambda>w. faults w (db_calls w));
     _ \<leftarrow> modify (db_calls_update Suc);
     State_Monad.return f }"

fun driver_error :: "driver_err \<Rightarrow> err" where
  "driver_error (ContextDone m) = CtxErr m"
| "driver_error (BrokenConn m) = NewErr m"
| "driver_error AdminShutdown =
     PgErr ''57P01'' ''terminating connection due to administrator command''"

fun fault_err :: "fault \<Rightarrow> err" where
  "fault_err (Before e) = driver_error e"
| "fault_err (After e) = driver_error e"

text \<open>
  A statement runs on the open transaction or on a connection of the pool; a context carries
  the transaction executor under \<open>TxKey\<close>, or nothing.
\<close>

datatype executor = TxExec | ConnExec

record ctx =
  TxValue :: "executor option"

definition background :: ctx where
  "background = \<lparr>TxValue = None\<rparr>"

definition poison :: "executor \<Rightarrow> (world, unit) state" where
  "poison x = modify (aborted_update (\<lambda>b. x = TxExec \<or> b))"

definition run_stmt :: "executor \<Rightarrow> stmt \<Rightarrow> (world, row list \<times> nat) go" where
  "run_stmt x st = do {
     f \<leftarrow> next_fault;
     w \<leftarrow> State_Monad.get;
     (if x = TxExec \<and> aborted w
      then fail (PgErr ''25P02'' ''current transaction is aborted'')
      else case f of
        Some (Before e) \<Rightarrow> after (poison x) (fail (driver_error e))
      | _ \<Rightarrow>
        (case pg_run (locked_elsewhere w) st (tables w) of
           Inl e \<Rightarrow> after (poison x) (fail e)
         | Inr (d, rows, n) \<Rightarrow>
             after (modify (tables_update (\<lambda>_. d)))
               (case f of
                  Some g \<Rightarrow> after (poison x) (fail (fault_err g))
                | None \<Rightarrow> ok (rows, n)))) }"

text \<open>The pool (pgxpool) and the transaction of one connection (pgx.Tx).\<close>

definition acquire :: "(world, unit) go" where
  "acquire = do {
     f \<leftarrow> next_fault;
     (case f of Some g \<Rightarrow> fail (fault_err g)
      | None \<Rightarrow> after (modify (held_conns_update Suc)) (ok ())) }"

definition release :: "(world, unit) state" where
  "release = modify (held_conns_update (\<lambda>n. n - 1))"

definition begin_tx :: "(world, unit) go" where
  "begin_tx = do {
     f \<leftarrow> next_fault;
     (case f of Some g \<Rightarrow> fail (fault_err g)
      | None \<Rightarrow> after (modify (\<lambda>w. w\<lparr>saved := Some (tables w), aborted := False\<rparr>)) (ok ())) }"

definition undo_tx :: "world \<Rightarrow> world" where
  "undo_tx w = w\<lparr>tables := (case saved w of None \<Rightarrow> tables w | Some d \<Rightarrow> d), saved := None, aborted := False\<rparr>"

definition keep_tx :: "world \<Rightarrow> world" where
  "keep_tx w = w\<lparr>saved := None, aborted := False\<rparr>"

definition commit_tx :: "(world, unit) go" where
  "commit_tx = do {
     f \<leftarrow> next_fault;
     w \<leftarrow> State_Monad.get;
     (if aborted w
      then after (modify undo_tx) (fail (NewErr ''commit unexpectedly resulted in rollback''))
      else case f of
        None \<Rightarrow> after (modify keep_tx) (ok ())
      | Some (Before e) \<Rightarrow> after (modify undo_tx) (fail (driver_error e))
      | Some (After e) \<Rightarrow> after (modify keep_tx) (fail (driver_error e))) }"

definition rollback_tx :: "(world, unit) go" where
  "rollback_tx = do {
     f \<leftarrow> next_fault;
     _ \<leftarrow> modify undo_tx;
     (case f of Some g \<Rightarrow> fail (fault_err g) | None \<Rightarrow> ok ()) }"

text \<open>The runtime of the domain constructors on this world.\<close>

definition world_runtime :: "(user_created_event \<Rightarrow> string outcome) \<Rightarrow> world runtime" where
  "world_runtime marshal =
     \<lparr>Now = now_w, NewV7 = uuid_w, MarshalUserCreated = marshal, Emit = emit_w\<rparr>"

section \<open>Facts about the steps\<close>

lemma driver_error_not_sentinel [simp]: "\<not> errors_is (driver_error e) s"
  by (cases e) auto

lemma driver_error_code [simp]: "as_pg_code (driver_error e) \<noteq> Some ''23505''"
  by (cases e) auto

lemma fault_err_not_sentinel [simp]: "\<not> errors_is (fault_err f) s"
  by (cases f) auto

lemma fault_err_code [simp]: "as_pg_code (fault_err f) \<noteq> Some ''23505''"
  by (cases f) auto

text \<open>
  What no statement touches: the transaction that is open, the connections, the gauge of
  transactions, the faults to come, the locks of the others and the source of UUIDs.
\<close>

type_synonym session =
  "db option \<times> nat \<times> (string list \<Rightarrow> int) \<times> (nat \<Rightarrow> fault option) \<times> (string \<Rightarrow> row \<Rightarrow> bool)
   \<times> (nat \<Rightarrow> uuid option)"

definition session :: "world \<Rightarrow> session" where
  "session w = (saved w, held_conns w, active_tx w, faults w, locked_elsewhere w, uuid_source w)"

definition session_ids :: "session \<Rightarrow> nat \<Rightarrow> uuid option" where
  "session_ids g = snd (snd (snd (snd (snd g))))"

lemma session_ids [simp]: "session_ids (session w) = uuid_source w"
  by (simp add: session_ids_def session_def)

definition session_locks :: "session \<Rightarrow> string \<Rightarrow> row \<Rightarrow> bool" where
  "session_locks g = fst (snd (snd (snd (snd g))))"

lemma session_locks [simp]: "session_locks (session w) = locked_elsewhere w"
  by (simp add: session_locks_def session_def)

text \<open>The metrics and the span events; the log lines are left out.\<close>

fun is_log :: "event \<Rightarrow> bool" where
  "is_log (LogLine l m) = True"
| "is_log e = False"

definition journal :: "world \<Rightarrow> event list" where
  "journal w = filter (\<lambda>e. \<not> is_log e) (events w)"

text \<open>The events of the transaction manager, and those of the services.\<close>

fun tx_event :: "event \<Rightarrow> bool" where
  "tx_event (Metric n ls) = (n = ''transactions_total'')"
| "tx_event (Sample n ls t) = (n = ''transaction_duration_seconds'')"
| "tx_event e = False"

definition tx_events :: "world \<Rightarrow> event list" where
  "tx_events w = filter tx_event (journal w)"

definition svc_events :: "world \<Rightarrow> event list" where
  "svc_events w = filter (\<lambda>e. \<not> tx_event e) (journal w)"

lemmas events_defs = journal_def tx_events_def svc_events_def

lemma journal_same: "journal v = journal w \<Longrightarrow> tx_events v = tx_events w \<and> svc_events v = svc_events w"
  by (simp add: tx_events_def svc_events_def)

text \<open>A calm world has no fault to come, and the transaction, if one is open, is not aborted.\<close>

definition calm :: "world \<Rightarrow> bool" where
  "calm w \<longleftrightarrow> faults w = (\<lambda>_. None) \<and> \<not> aborted w"

lemma wp_next_fault [wp_rules]:
  "wp next_fault Q w = Q (faults w (db_calls w)) (db_calls_update Suc w)"
  by (simp add: next_fault_def wp_rules)

lemma wp_poison [wp_rules]: "wp (poison x) Q w = Q () (aborted_update (\<lambda>b. x = TxExec \<or> b) w)"
  by (simp add: poison_def wp_rules)

lemma wp_now [wp_rules]: "wp now_w Q w = Q (clock w (ticks w)) (ticks_update Suc w)"
  by (simp add: now_w_def wp_rules)

lemma wp_emit [wp_rules]: "wp (emit_w e) Q w = Q () (events_update (\<lambda>es. es @ [e]) w)"
  by (simp add: emit_w_def wp_rules)

lemma wp_release [wp_rules]: "wp release Q w = Q () (held_conns_update (\<lambda>n. n - 1) w)"
  by (simp add: release_def wp_rules)

text \<open>
  A statement answers what PostgreSQL computed on the tables it found, or fails; a failure
  leaves the tables as they were or, when only the answer was lost, as the statement made them.
\<close>

definition lost_answer :: "err \<Rightarrow> bool" where
  "lost_answer e \<longleftrightarrow> (\<forall>s. \<not> errors_is e s) \<and> as_pg_code e \<noteq> Some ''23505''"

definition stmt_post :: "executor \<Rightarrow> stmt \<Rightarrow> world \<Rightarrow> (row list \<times> nat) outcome \<Rightarrow> world \<Rightarrow> bool" where
  "stmt_post x st w r v \<longleftrightarrow>
     session v = session w \<and> events v = events w \<and>
     (case r of
        Ok (rows, n) \<Rightarrow>
          pg_run (locked_elsewhere w) st (tables w) = Inr (tables v, rows, n) \<and> (calm w \<longrightarrow> calm v)
      | Err e \<Rightarrow>
          pg_run (locked_elsewhere w) st (tables w) = Inl e \<and> tables v = tables w
            \<and> (calm w \<and> x = ConnExec \<longrightarrow> calm v)
          \<or> lost_answer e \<and> \<not> calm w \<and>
            (tables v = tables w
             \<or> (\<exists>rows n. pg_run (locked_elsewhere w) st (tables w) = Inr (tables v, rows, n)))
      | Panic p \<Rightarrow> False)"

lemma lost_answer_fault [simp]: "lost_answer (driver_error e)" "lost_answer (fault_err f)"
  by (auto simp: lost_answer_def)

lemma lost_answer_aborted [simp]: "lost_answer (PgErr ''25P02'' m)"
  by (auto simp: lost_answer_def)

lemma run_stmt_post: "wp (run_stmt x st) (stmt_post x st w) w"
proof (cases "x = TxExec \<and> aborted w")
  case True
  then show ?thesis by (simp add: run_stmt_def wp_rules stmt_post_def session_def calm_def)
next
  case False
  then show ?thesis
  proof (cases "pg_run (locked_elsewhere w) st (tables w)")
    case (Inl e)
    with False show ?thesis
      by (cases "faults w (db_calls w)"; (cases "the (faults w (db_calls w))")?)
        (auto simp: run_stmt_def wp_rules stmt_post_def session_def calm_def)
  next
    case (Inr p)
    obtain d rows n where p: "p = (d, rows, n)" by (cases p)
    with Inr False show ?thesis
      by (cases "faults w (db_calls w)"; (cases "the (faults w (db_calls w))")?)
        (auto simp: run_stmt_def wp_rules stmt_post_def session_def calm_def)
  qed
qed

lemma wp_run_stmt: "(\<And>r v. stmt_post x st w r v \<Longrightarrow> Q r v) \<Longrightarrow> wp (run_stmt x st) Q w"
  using run_stmt_post by (rule wp_conseq)

text \<open>A world with empty tables, no fault to come and a clock that stands still.\<close>

definition empty_world :: world where
  "empty_world =
     \<lparr>tables = (\<lambda>_. []), saved = None, aborted = False, held_conns = 0,
      locked_elsewhere = (\<lambda>_ _. False), faults = (\<lambda>_. None), db_calls = 0, clock = (\<lambda>_. 1000),
      ticks = 0, uuid_source = (\<lambda>n. Some (of_nat (Suc n))), uuids_drawn = 0,
      active_tx = (\<lambda>_. 0), events = [], broker = (\<lambda>_. None), sends = 0, schema_id = 0,
      registry = (\<lambda>_. NoAnswer ''connection refused''), registry_calls = 0\<rparr>"

end
