(* ===== verification/Ports.thy ===== *)
theory Ports
  imports World
begin

text \<open>
  internal/ports: the interfaces the application services rely on, as locales. Each law says
  what a method of the interface answers and what it leaves of the stored entities, whatever
  implements it; the repositories and the transaction manager are proved to satisfy them.
\<close>

section \<open>What is stored\<close>

record store =
  st_users :: "user_account list"
  st_creds :: "password_credential list"
  st_idents :: "external_identity list"
  st_outbox :: "outbox_message list"

text \<open>Timestamps are stored with microseconds.\<close>

definition to_us :: "time \<Rightarrow> time" where
  "to_us t = t - t mod 1000"

lemma to_us_idem [simp]: "to_us (to_us t) = to_us t"
  by (simp add: to_us_def)

definition norm_user :: "user_account \<Rightarrow> user_account" where
  "norm_user u = u\<lparr>ua_CreatedAt := to_us (ua_CreatedAt u), ua_UpdatedAt := to_us (ua_UpdatedAt u)\<rparr>"

definition norm_cred :: "password_credential \<Rightarrow> password_credential" where
  "norm_cred c = c\<lparr>pc_CreatedAt := to_us (pc_CreatedAt c), pc_UpdatedAt := to_us (pc_UpdatedAt c)\<rparr>"

definition norm_ident :: "external_identity \<Rightarrow> external_identity" where
  "norm_ident i = i\<lparr>ei_CreatedAt := to_us (ei_CreatedAt i), ei_UpdatedAt := to_us (ei_UpdatedAt i)\<rparr>"

definition norm_outbox :: "outbox_message \<Rightarrow> outbox_message" where
  "norm_outbox m = m\<lparr>om_PublishedAt := map_option to_us (om_PublishedAt m),
     om_NextAttemptAt := map_option to_us (om_NextAttemptAt m),
     om_CreatedAt := to_us (om_CreatedAt m), om_UpdatedAt := to_us (om_UpdatedAt m)\<rparr>"

definition add_user :: "user_account \<Rightarrow> store \<Rightarrow> store" where
  "add_user u s = s\<lparr>st_users := st_users s @ [norm_user u]\<rparr>"

definition add_cred :: "password_credential \<Rightarrow> store \<Rightarrow> store" where
  "add_cred c s = s\<lparr>st_creds := st_creds s @ [norm_cred c]\<rparr>"

definition add_ident :: "external_identity \<Rightarrow> store \<Rightarrow> store" where
  "add_ident i s = s\<lparr>st_idents := st_idents s @ [norm_ident i]\<rparr>"

definition add_outbox :: "outbox_message \<Rightarrow> store \<Rightarrow> store" where
  "add_outbox m s = s\<lparr>st_outbox := st_outbox s @ [norm_outbox m]\<rparr>"

lemmas add_defs = add_user_def add_cred_def add_ident_def add_outbox_def
lemmas norm_defs = norm_user_def norm_cred_def norm_ident_def norm_outbox_def

text \<open>The keys that clash with an entity to be stored.\<close>

definition dup_user :: "user_account \<Rightarrow> store \<Rightarrow> bool" where
  "dup_user u s \<longleftrightarrow> ua_ID u \<in> ua_ID ` set (st_users s) \<or> ua_Login u \<in> ua_Login ` set (st_users s)
     \<or> ua_Email u \<in> ua_Email ` set (st_users s)"

definition dup_cred :: "password_credential \<Rightarrow> store \<Rightarrow> bool" where
  "dup_cred c s \<longleftrightarrow> pc_UserID c \<in> pc_UserID ` set (st_creds s)"

definition no_user :: "uuid \<Rightarrow> store \<Rightarrow> bool" where
  "no_user i s \<longleftrightarrow> i \<notin> ua_ID ` set (st_users s)"

definition dup_ident :: "external_identity \<Rightarrow> store \<Rightarrow> bool" where
  "dup_ident i s \<longleftrightarrow> ei_ID i \<in> ei_ID ` set (st_idents s)
     \<or> (\<exists>x\<in>set (st_idents s). ei_Provider i = ei_Provider x \<and> ei_Subject i = ei_Subject x)"

definition dup_outbox :: "outbox_message \<Rightarrow> store \<Rightarrow> bool" where
  "dup_outbox m s \<longleftrightarrow> om_ID m \<in> om_ID ` set (st_outbox s)"

lemmas dup_defs = dup_user_def dup_cred_def no_user_def dup_ident_def dup_outbox_def

text \<open>The keys of a store are unique and its references hold.\<close>

definition store_ok :: "store \<Rightarrow> bool" where
  "store_ok s \<longleftrightarrow>
     distinct (map ua_ID (st_users s)) \<and> distinct (map ua_Login (st_users s))
     \<and> distinct (map ua_Email (st_users s)) \<and> distinct (map pc_UserID (st_creds s))
     \<and> distinct (map ei_ID (st_idents s))
     \<and> distinct (map (\<lambda>i. (ei_Provider i, ei_Subject i)) (st_idents s))
     \<and> distinct (map om_ID (st_outbox s))
     \<and> pc_UserID ` set (st_creds s) \<subseteq> ua_ID ` set (st_users s)
     \<and> ei_UserID ` set (st_idents s) \<subseteq> ua_ID ` set (st_users s)"

lemma norm_keys [simp]:
  "ua_ID (norm_user u) = ua_ID u" "ua_Login (norm_user u) = ua_Login u" "ua_Email (norm_user u) = ua_Email u"
  "ua_Provider (norm_user u) = ua_Provider u" "ua_CreatedAt (norm_user u) = to_us (ua_CreatedAt u)"
  "pc_UserID (norm_cred c) = pc_UserID c" "pc_PasswordHash (norm_cred c) = pc_PasswordHash c"
  "ei_ID (norm_ident i) = ei_ID i" "ei_UserID (norm_ident i) = ei_UserID i"
  "ei_Provider (norm_ident i) = ei_Provider i" "ei_Subject (norm_ident i) = ei_Subject i"
  "om_ID (norm_outbox m) = om_ID m" "om_Status (norm_outbox m) = om_Status m"
  by (simp_all add: norm_defs)

lemma store_ok_add:
  "store_ok s \<Longrightarrow> \<not> dup_user u s \<Longrightarrow> store_ok (add_user u s)"
  "store_ok s \<Longrightarrow> \<not> dup_cred c s \<Longrightarrow> \<not> no_user (pc_UserID c) s \<Longrightarrow> store_ok (add_cred c s)"
  "store_ok s \<Longrightarrow> \<not> dup_ident i s \<Longrightarrow> \<not> no_user (ei_UserID i) s \<Longrightarrow> store_ok (add_ident i s)"
  "store_ok s \<Longrightarrow> \<not> dup_outbox m s \<Longrightarrow> store_ok (add_outbox m s)"
  by (auto simp: store_ok_def dup_defs add_defs)

section \<open>What a law may speak of\<close>

text \<open>
  \<open>Inv g w\<close>: \<open>w\<close> is well-formed and its session is \<open>g\<close>; \<open>Outside g\<close>: no transaction is open
  in it; \<open>Ids g\<close>: the UUIDs its source can give, \<open>None\<close> if it can fail; \<open>Held g\<close>: the messages
  of the outbox that other sessions have locked; \<open>View\<close>: the stored entities; \<open>Calm\<close>: no call will fail for a reason outside the program;
  \<open>Journal\<close>: the metrics and span events of the services.
\<close>

record ('g, 'w) obs =
  Inv :: "'g \<Rightarrow> 'w \<Rightarrow> bool"
  Outside :: "'g \<Rightarrow> bool"
  Ids :: "'g \<Rightarrow> uuid option set"
  Held :: "'g \<Rightarrow> outbox_message \<Rightarrow> bool"
  View :: "'w \<Rightarrow> store"
  Calm :: "'w \<Rightarrow> bool"
  Journal :: "'w \<Rightarrow> event list"

definition unchanged :: "('g, 'w) obs \<Rightarrow> 'g \<Rightarrow> 'w \<Rightarrow> 'w \<Rightarrow> bool" where
  "unchanged b g w v \<longleftrightarrow>
     Inv b g v \<and> View b v = View b w \<and> Journal b v = Journal b w \<and> (Calm b w \<longrightarrow> Calm b v)"

definition not_found :: "err \<Rightarrow> bool" where
  "not_found e \<longleftrightarrow> errors_is e (Ports ErrNotFound)"

definition found :: "bool \<Rightarrow> ('a \<Rightarrow> bool) \<Rightarrow> 'a list \<Rightarrow> 'a outcome \<Rightarrow> bool" where
  "found fine P xs r \<longleftrightarrow>
     (case r of
        Ok x \<Rightarrow> x \<in> set xs \<and> P x
      | Err e \<Rightarrow> (if not_found e then \<forall>x\<in>set xs. \<not> P x else \<not> fine \<and> lost_answer e)
      | Panic p \<Rightarrow> False)"

definition created ::
  "('g, 'w) obs \<Rightarrow> 'g \<Rightarrow> 'w \<Rightarrow> (store \<Rightarrow> store) \<Rightarrow> (store \<Rightarrow> bool) \<Rightarrow> (store \<Rightarrow> bool) \<Rightarrow> unit outcome \<Rightarrow> 'w \<Rightarrow> bool" where
  "created b g w add dup dangling r v \<longleftrightarrow>
     Inv b g v \<and> Journal b v = Journal b w \<and>
     (case r of
        Ok _ \<Rightarrow> View b v = add (View b w) \<and> \<not> dup (View b w) \<and> \<not> dangling (View b w) \<and> (Calm b w \<longrightarrow> Calm b v)
      | Err e \<Rightarrow>
          (View b v = View b w
           \<or> \<not> Calm b w \<and> View b v = add (View b w) \<and> \<not> dup (View b w) \<and> \<not> dangling (View b w)) \<and>
          (as_pg_code e = Some ''23505'' \<and> dup (View b w) \<and> (\<forall>s. \<not> errors_is e s)
           \<or> as_pg_code e = Some ''23503'' \<and> dangling (View b w) \<and> (\<forall>s. \<not> errors_is e s)
           \<or> \<not> Calm b w \<and> lost_answer e)
      | Panic p \<Rightarrow> False)"

text \<open>
  The end of a transaction: \<open>Q\<close> is what the callback promises of its result, the entities it
  leaves and whether the world is still calm.
\<close>

definition like_err :: "err \<Rightarrow> err \<Rightarrow> bool" where
  "like_err e e' \<longleftrightarrow> (\<forall>t. errors_is e t = errors_is e' t) \<and> as_pg_code e = as_pg_code e'"

lemma like_err_simps [simp]: "like_err e e" "like_err (Wrapped m [e]) e"
  by (simp_all add: like_err_def)

definition from_callback :: "('a outcome \<Rightarrow> store \<Rightarrow> bool \<Rightarrow> bool) \<Rightarrow> err \<Rightarrow> bool" where
  "from_callback Q e \<longleftrightarrow> (\<exists>e' s k. like_err e e' \<and> Q (Err e') s k)"

definition tx_done :: "('g, 'w) obs \<Rightarrow> 'g \<Rightarrow> ('a outcome \<Rightarrow> store \<Rightarrow> bool \<Rightarrow> bool) \<Rightarrow> 'w \<Rightarrow> 'a outcome \<Rightarrow> 'w \<Rightarrow> bool" where
  "tx_done b g Q w r v \<longleftrightarrow>
     Inv b g v \<and> Journal b v = Journal b w \<and> (Calm b w \<longrightarrow> Calm b v) \<and>
     (case r of
        Ok x \<Rightarrow> \<exists>k. Q (Ok x) (View b v) k
      | Err e \<Rightarrow>
          View b v = View b w
            \<and> (from_callback Q e
               \<or> lost_answer e \<and> (Calm b w \<longrightarrow> (\<exists>x s. Q (Ok x) s False)))
          \<or> lost_answer e \<and> (\<exists>x. Q (Ok x) (View b v) False)
      | Panic p \<Rightarrow> View b v = View b w \<and> (\<exists>s k. Q (Panic p) s k))"

section \<open>The interfaces\<close>

locale observed =
  fixes b :: "('g, 'w) obs"
  assumes well_formed: "Inv b g w \<Longrightarrow> store_ok (View b w)"

locale user_repository = observed b for b :: "('g, 'w) obs" +
  fixes GetByID :: "ctx \<Rightarrow> string \<Rightarrow> ('w, user_account) go"
    and GetByLogin :: "ctx \<Rightarrow> string \<Rightarrow> ('w, user_account) go"
    and GetByEmail :: "ctx \<Rightarrow> string \<Rightarrow> ('w, user_account) go"
    and CreateUser :: "ctx \<Rightarrow> user_account \<Rightarrow> ('w, unit) go"
  assumes by_id: "Inv b g w \<Longrightarrow> wp (GetByID c (uuid_String i))
      (\<lambda>r v. unchanged b g w v \<and> found (Calm b w) (\<lambda>u. ua_ID u = i) (st_users (View b w)) r) w"
    and by_login: "Inv b g w \<Longrightarrow> wp (GetByLogin c l)
      (\<lambda>r v. unchanged b g w v \<and> found (Calm b w) (\<lambda>u. ua_Login u = l) (st_users (View b w)) r) w"
    and by_email: "Inv b g w \<Longrightarrow> wp (GetByEmail c l)
      (\<lambda>r v. unchanged b g w v \<and> found (Calm b w) (\<lambda>u. ua_Email u = l) (st_users (View b w)) r) w"
    and create_user: "Inv b g w \<Longrightarrow> wp (CreateUser c u)
      (created b g w (add_user u) (dup_user u) (\<lambda>_. False)) w"

locale credential_repository = observed b for b :: "('g, 'w) obs" +
  fixes GetByUserID :: "ctx \<Rightarrow> string \<Rightarrow> ('w, password_credential) go"
    and CreateCredential :: "ctx \<Rightarrow> password_credential \<Rightarrow> ('w, unit) go"
  assumes by_user: "Inv b g w \<Longrightarrow> wp (GetByUserID c (uuid_String i))
      (\<lambda>r v. unchanged b g w v \<and> found (Calm b w) (\<lambda>x. pc_UserID x = i) (st_creds (View b w)) r) w"
    and create_credential: "Inv b g w \<Longrightarrow> wp (CreateCredential c x)
      (created b g w (add_cred x) (dup_cred x) (no_user (pc_UserID x))) w"

locale identity_repository = observed b for b :: "('g, 'w) obs" +
  fixes GetByProviderSubject :: "ctx \<Rightarrow> string \<Rightarrow> string \<Rightarrow> ('w, external_identity) go"
    and CreateIdentity :: "ctx \<Rightarrow> external_identity \<Rightarrow> ('w, unit) go"
  assumes by_subject: "Inv b g w \<Longrightarrow> wp (GetByProviderSubject c p s)
      (\<lambda>r v. unchanged b g w v
         \<and> found (Calm b w) (\<lambda>x. ei_Provider x = p \<and> ei_Subject x = s) (st_idents (View b w)) r) w"
    and create_identity: "Inv b g w \<Longrightarrow> wp (CreateIdentity c x)
      (created b g w (add_ident x) (dup_ident x) (no_user (ei_UserID x))) w"

text \<open>A nil message is dereferenced.\<close>

locale outbox_writer = observed b for b :: "('g, 'w) obs" +
  fixes CreateOutbox :: "ctx \<Rightarrow> outbox_message option \<Rightarrow> ('w, unit) go"
  assumes create_outbox: "Inv b g w \<Longrightarrow> wp (CreateOutbox c (Some m))
      (created b g w (add_outbox m) (dup_outbox m) (\<lambda>_. False)) w"
    and create_nil: "Inv b g w \<Longrightarrow> wp (CreateOutbox c None)
      (\<lambda>r v. unchanged b g w v \<and> (\<exists>p. r = Panic p)) w"

locale transactions = observed b for b :: "('g, 'w) obs" +
  fixes TxDo :: "ctx \<Rightarrow> (ctx \<Rightarrow> ('w, 'a) go) \<Rightarrow> ('w, 'a) go"
  assumes do_law: "Inv b g w \<Longrightarrow> Outside b g \<Longrightarrow>
     (\<And>g' tc v. Inv b g' v \<Longrightarrow> View b v = View b w \<Longrightarrow> (Calm b w \<Longrightarrow> Calm b v) \<Longrightarrow>
        Ids b g' = Ids b g \<Longrightarrow> Held b g' = Held b g \<Longrightarrow>
        wp (f tc) (\<lambda>r v'. Inv b g' v' \<and> Journal b v' = Journal b v \<and> Q r (View b v') (Calm b v')) v) \<Longrightarrow>
     wp (TxDo c f) (tx_done b g Q w) w"

locale clock_and_ids = observed b for b :: "('g, 'w) obs" +
  fixes rt :: "'w runtime"
  assumes now_law: "Inv b g w \<Longrightarrow> wp (Now rt) (\<lambda>r v. unchanged b g w v) w"
    and id_law: "Inv b g w \<Longrightarrow> wp (NewV7 rt) (\<lambda>r v. unchanged b g w v
        \<and> (case r of Ok i \<Rightarrow> Some i \<in> Ids b g | _ \<Rightarrow> None \<in> Ids b g)) w"
    and emit_law: "Inv b g w \<Longrightarrow> \<not> tx_event ev \<Longrightarrow> wp (Emit rt ev) (\<lambda>_ v. Inv b g v \<and> View b v = View b w
        \<and> Journal b v = Journal b w @ (if is_log ev then [] else [ev]) \<and> (Calm b w \<longrightarrow> Calm b v)) w"

section \<open>The outbox as a queue\<close>

text \<open>A message is due when it is pending, failed and past its next attempt, or stuck in processing.\<close>

definition five_minutes :: time where
  "five_minutes = 300000000000"

definition due :: "time \<Rightarrow> outbox_message \<Rightarrow> bool" where
  "due now m \<longleftrightarrow>
     om_Status m = OutboxStatusPending
     \<or> om_Status m = OutboxStatusFailed \<and> (case om_NextAttemptAt m of None \<Rightarrow> True | Some t \<Rightarrow> t \<le> to_us now)
     \<or> om_Status m = OutboxStatusProcessing \<and> om_UpdatedAt m \<le> to_us (now - five_minutes)"

definition as_processing :: "time \<Rightarrow> outbox_message \<Rightarrow> outbox_message" where
  "as_processing now m =
     m\<lparr>om_Status := OutboxStatusProcessing, om_UpdatedAt := to_us now, om_NextAttemptAt := None\<rparr>"

definition as_sent :: "time \<Rightarrow> outbox_message \<Rightarrow> outbox_message" where
  "as_sent now m =
     m\<lparr>om_Status := OutboxStatusSent, om_PublishedAt := Some (to_us now), om_UpdatedAt := to_us now,
       om_LastError := [], om_NextAttemptAt := None\<rparr>"

definition as_failed :: "string \<Rightarrow> time \<Rightarrow> time \<Rightarrow> outbox_message \<Rightarrow> outbox_message" where
  "as_failed txt again now m =
     m\<lparr>om_Status := OutboxStatusFailed, om_LastError := txt, om_AttemptCount := om_AttemptCount m + 1,
       om_UpdatedAt := to_us now, om_NextAttemptAt := Some (to_us again)\<rparr>"

lemmas as_defs = as_processing_def as_sent_def as_failed_def

definition mark :: "uuid \<Rightarrow> (outbox_message \<Rightarrow> outbox_message) \<Rightarrow> store \<Rightarrow> store" where
  "mark i f st = st\<lparr>st_outbox := map (\<lambda>m. if om_ID m = i then f m else m) (st_outbox st)\<rparr>"

definition queued :: "uuid \<Rightarrow> store \<Rightarrow> bool" where
  "queued i st \<longleftrightarrow> i \<in> om_ID ` set (st_outbox st)"

text \<open>The attempt counter of a message is at the end of its range.\<close>

definition worn_out :: "uuid \<Rightarrow> store \<Rightarrow> bool" where
  "worn_out i st \<longleftrightarrow> (\<exists>m\<in>set (st_outbox st). om_ID m = i \<and> sint (om_AttemptCount m) = 2 ^ 31 - 1)"

definition marked ::
  "('g, 'w) obs \<Rightarrow> 'g \<Rightarrow> 'w \<Rightarrow> uuid \<Rightarrow> (time \<Rightarrow> outbox_message \<Rightarrow> outbox_message) \<Rightarrow> bool \<Rightarrow> unit outcome \<Rightarrow> 'w \<Rightarrow> bool" where
  "marked b g w i f bad r v \<longleftrightarrow>
     Inv b g v \<and> Journal b v = Journal b w \<and>
     (case r of
        Ok _ \<Rightarrow> queued i (View b w) \<and> \<not> bad \<and> (\<exists>now. View b v = mark i (f now) (View b w)) \<and> (Calm b w \<longrightarrow> Calm b v)
      | Err e \<Rightarrow>
          (View b v = View b w \<or> \<not> Calm b w \<and> (\<exists>now. View b v = mark i (f now) (View b w))) \<and>
          (errors_is e (Ports ErrNoAffectedRows) \<and> \<not> queued i (View b w)
           \<or> as_pg_code e = Some ''22003'' \<and> bad
           \<or> \<not> Calm b w \<and> lost_answer e)
      | Panic p \<Rightarrow> False)"

text \<open>What a pick returns at \<open>now\<close>, when \<open>held\<close> says which messages other sessions have locked.\<close>

definition picked :: "time \<Rightarrow> (outbox_message \<Rightarrow> bool) \<Rightarrow> nat \<Rightarrow> store \<Rightarrow> outbox_message list \<Rightarrow> bool" where
  "picked now held n st ms \<longleftrightarrow>
     (let free = filter (\<lambda>m. due now m \<and> \<not> held m) (st_outbox st) in
      set ms \<subseteq> set free \<and> distinct (map om_ID ms) \<and> length ms = (if n = 0 then length free else min n (length free)))"

locale outbox_queue = outbox_writer b CreateOutbox
  for b :: "('g, 'w) obs" and CreateOutbox :: "ctx \<Rightarrow> outbox_message option \<Rightarrow> ('w, unit) go" +
  fixes PickPending :: "ctx \<Rightarrow> nat \<Rightarrow> ('w, outbox_message list) go"
    and MarkProcessing :: "ctx \<Rightarrow> string \<Rightarrow> ('w, unit) go"
    and MarkSent :: "ctx \<Rightarrow> string \<Rightarrow> ('w, unit) go"
    and MarkFailed :: "ctx \<Rightarrow> string \<Rightarrow> string \<Rightarrow> time \<Rightarrow> ('w, unit) go"
  assumes pick: "Inv b g w \<Longrightarrow> wp (PickPending c n) (\<lambda>r v. unchanged b g w v \<and>
      (case r of
         Ok ms \<Rightarrow> \<exists>now. picked now (Held b g) n (View b w) ms
       | Err e \<Rightarrow> \<not> Calm b w \<and> lost_answer e
       | Panic p \<Rightarrow> False)) w"
    and mark_processing: "Inv b g w \<Longrightarrow> wp (MarkProcessing c (uuid_String i)) (marked b g w i as_processing False) w"
    and mark_sent: "Inv b g w \<Longrightarrow> wp (MarkSent c (uuid_String i)) (marked b g w i as_sent False) w"
    and mark_failed: "Inv b g w \<Longrightarrow> wp (MarkFailed c (uuid_String i) txt again)
      (marked b g w i (as_failed txt again) (worn_out i (View b w))) w"

text \<open>
  A publisher of events leaves the stored entities alone; the journal shows what the broker has
  written: the message, when the publisher returns nil, and the message or nothing when it returns
  an error.
\<close>

fun is_delivery :: "event \<Rightarrow> bool" where
  "is_delivery (Delivered t k p) = True"
| "is_delivery e = False"

definition deliveries :: "event list \<Rightarrow> event list" where
  "deliveries es = filter is_delivery es"

definition delivers :: "(string \<Rightarrow> string \<Rightarrow> bool) \<Rightarrow> outbox_message \<Rightarrow> event \<Rightarrow> bool" where
  "delivers enc m ev \<longleftrightarrow>
     (\<exists>t p. ev = Delivered t (om_MessageKey m) p \<and> (om_Topic m \<noteq> [] \<longrightarrow> t = om_Topic m) \<and> enc (om_Payload m) p)"

definition published :: "(string \<Rightarrow> string \<Rightarrow> bool) \<Rightarrow> outbox_message \<Rightarrow> unit outcome \<Rightarrow> event list \<Rightarrow> bool" where
  "published enc m r ds \<longleftrightarrow>
     (\<forall>p. r \<noteq> Panic p) \<and> ((\<exists>d. ds = [d] \<and> delivers enc m d) \<or> ds = [] \<and> (\<forall>x. r \<noteq> Ok x))"

locale event_publisher = observed b for b :: "('g, 'w) obs" +
  fixes Publish :: "ctx \<Rightarrow> outbox_message \<Rightarrow> ('w, unit) go"
    and enc :: "string \<Rightarrow> string \<Rightarrow> bool"
  assumes publish_law: "Inv b g w \<Longrightarrow> wp (Publish c m) (\<lambda>r v. Inv b g v \<and> View b v = View b w
      \<and> (Calm b w \<longrightarrow> Calm b v) \<and> (\<exists>es. Journal b v = Journal b w @ es \<and> published enc m r (deliveries es))) w"

lemma mark_view [simp]:
  "st_users (mark i f st) = st_users st" "st_creds (mark i f st) = st_creds st" "st_idents (mark i f st) = st_idents st"
  by (simp_all add: mark_def)

lemma store_ok_mark:
  assumes "store_ok st" "\<And>m. om_ID (f m) = om_ID m"
  shows "store_ok (mark i f st)"
proof -
  have "om_ID \<circ> (\<lambda>m. if om_ID m = i then f m else m) = om_ID"
    by (rule ext) (simp add: assms(2))
  with assms(1) show ?thesis by (simp add: store_ok_def mark_def)
qed

section \<open>What every provider gives\<close>

lemma unchanged_trans: "unchanged b g w v \<Longrightarrow> unchanged b g v u \<Longrightarrow> unchanged b g w u"
  by (auto simp: unchanged_def)

lemma unchanged_Inv: "unchanged b g w v \<Longrightarrow> Inv b g v"
  by (simp add: unchanged_def)

text \<open>The message that announces a new user; a runtime that cannot marshal some event.\<close>

definition outbox_for :: "'w runtime \<Rightarrow> user_account \<Rightarrow> outbox_message \<Rightarrow> bool" where
  "outbox_for rt u m \<longleftrightarrow> om_Topic m = UserCreatedTopic \<and> om_MessageKey m = uuid_String (ua_ID u)
     \<and> om_Status m = OutboxStatusPending \<and> om_AttemptCount m = 0
     \<and> (\<exists>t. MarshalUserCreated rt \<lparr>uc_UserID = uuid_String (ua_ID u), uc_Provider = ua_Provider u, uc_OccurredAt = t\<rparr>
            = Ok (om_Payload m))"

definition unmarshalled :: "'w runtime \<Rightarrow> bool" where
  "unmarshalled rt \<longleftrightarrow> (\<exists>ev. \<forall>x. MarshalUserCreated rt ev \<noteq> Ok x)"

lemma unmarshalledI:
  "MarshalUserCreated rt ev = Err e \<Longrightarrow> unmarshalled rt"
  "MarshalUserCreated rt ev = Panic p \<Longrightarrow> unmarshalled rt"
  unfolding unmarshalled_def by (rule exI [of _ ev], simp)+

context clock_and_ids
begin

lemma new_id:
  assumes "Inv b g w"
  shows "wp (NewUUIDv7 rt) (\<lambda>r v. unchanged b g w v \<and>
     (case r of Ok i \<Rightarrow> Some i \<in> Ids b g | Err e \<Rightarrow> False | Panic p \<Rightarrow> None \<in> Ids b g)) w"
  unfolding NewUUIDv7_def by (rule wp_callI [OF id_law [OF assms]]) (simp_all add: wp_rules)

lemma new_message:
  assumes "Inv b g w"
  shows "wp (NewUserCreatedOutboxMessage rt u)
      (\<lambda>r v. unchanged b g w v \<and>
         (case r of
            Ok m \<Rightarrow> outbox_for rt u m \<and> Some (om_ID m) \<in> Ids b g
          | Err e \<Rightarrow> unmarshalled rt
          | Panic p \<Rightarrow> None \<in> Ids b g \<or> unmarshalled rt)) w"
  unfolding NewUserCreatedOutboxMessage_def
proof (rule wp_bindI [OF now_law [OF assms]])
  fix now v
  assume v: "unchanged b g w v"
  let ?ev = "\<lparr>uc_UserID = uuid_String (ua_ID u), uc_Provider = ua_Provider u, uc_OccurredAt = now\<rparr>"
  show "wp (case MarshalUserCreated rt ?ev of
        Ok payload \<Rightarrow> andThen (NewUUIDv7 rt) (\<lambda>i.
            ok \<lparr>om_ID = i, om_Topic = UserCreatedTopic, om_MessageKey = uuid_String (ua_ID u),
                om_Payload = payload, om_Status = OutboxStatusPending, om_AttemptCount = 0,
                om_LastError = [], om_PublishedAt = None, om_NextAttemptAt = None,
                om_CreatedAt = now, om_UpdatedAt = now\<rparr>)
      | Err e \<Rightarrow> fail e | Panic p \<Rightarrow> panic p)
      (\<lambda>r v. unchanged b g w v \<and>
         (case r of
            Ok m \<Rightarrow> outbox_for rt u m \<and> Some (om_ID m) \<in> Ids b g
          | Err e \<Rightarrow> unmarshalled rt
          | Panic p \<Rightarrow> None \<in> Ids b g \<or> unmarshalled rt)) v"
    using v
    by (cases "MarshalUserCreated rt ?ev"; simp only: outcome.case)
      (auto simp: wp_ok wp_fail wp_panic outbox_for_def
        intro!: wp_andThenI [OF new_id] intro: unchanged_Inv unchanged_trans unmarshalledI)
qed

end

end
