(* ===== verification/AuthService.thy ===== *)
theory AuthService
  imports Ports
begin

text \<open>
  internal/application/auth: registration, login with a password, login with Yandex ID. The
  service is written over its dependencies, as service.go is; its lemmas are proved over the
  contracts of internal/ports.
\<close>

section \<open>Inputs, results, dependencies\<close>

record register_input =
  ri_Login :: string
  ri_Email :: string
  ri_Password :: string
  ri_FirstName :: string
  ri_LastName :: string

record login_input =
  li_Identifier :: string
  li_Password :: string

record yandex_input =
  yi_Code :: string
  yi_State :: string

record auth_result =
  ar_UserID :: string
  ar_AccessToken :: string
  ar_RefreshToken :: string
  ar_Provider :: string
  ar_CreatedAt :: time

record token_pair =
  tp_AccessToken :: string
  tp_RefreshToken :: string

record yandex_profile =
  yp_Subject :: string
  yp_Login :: string
  yp_Email :: string
  yp_FirstName :: string
  yp_LastName :: string

record 'w yandex_client =
  BuildAuthURL :: "string \<Rightarrow> string"
  ExchangeCode :: "ctx \<Rightarrow> string \<Rightarrow> ('w, yandex_profile) go"

record 'w state_tokens =
  NewYandexState :: "('w, string) go"
  VerifyYandexState :: "string \<Rightarrow> ('w, unit) go"

record 'w auth_deps =
  ad_TxDo :: "ctx \<Rightarrow> (ctx \<Rightarrow> ('w, unit) go) \<Rightarrow> ('w, unit) go"
  ad_GetByID :: "ctx \<Rightarrow> string \<Rightarrow> ('w, user_account) go"
  ad_GetByLogin :: "ctx \<Rightarrow> string \<Rightarrow> ('w, user_account) go"
  ad_GetByEmail :: "ctx \<Rightarrow> string \<Rightarrow> ('w, user_account) go"
  ad_CreateUser :: "ctx \<Rightarrow> user_account \<Rightarrow> ('w, unit) go"
  ad_GetByUserID :: "ctx \<Rightarrow> string \<Rightarrow> ('w, password_credential) go"
  ad_CreateCredential :: "ctx \<Rightarrow> password_credential \<Rightarrow> ('w, unit) go"
  ad_GetByProviderSubject :: "ctx \<Rightarrow> string \<Rightarrow> string \<Rightarrow> ('w, external_identity) go"
  ad_CreateIdentity :: "ctx \<Rightarrow> external_identity \<Rightarrow> ('w, unit) go"
  ad_CreateOutbox :: "ctx \<Rightarrow> outbox_message option \<Rightarrow> ('w, unit) go"
  ad_Hash :: "string \<Rightarrow> ('w, string) go"
  ad_Validate :: "string \<Rightarrow> string \<Rightarrow> err option"
  ad_IssueTokens :: "user_account \<Rightarrow> ('w, token_pair) go"
  ad_Yandex :: "'w yandex_client option"
  ad_StateTokens :: "'w state_tokens option"
  ad_Runtime :: "'w runtime"

section \<open>Normalisation and validation\<close>

definition normalizeEmail :: "string \<Rightarrow> string" where
  "normalizeEmail email = ToLower (TrimSpace email)"

definition normalizeLogin :: "string \<Rightarrow> string" where
  "normalizeLogin login = ToLower (TrimSpace login)"

definition buildExternalLogin :: "string \<Rightarrow> string \<Rightarrow> string" where
  "buildExternalLogin login subject =
     (let normalized = normalizeLogin login in
      if normalized \<noteq> [] then normalized else ''yandex-'' @ ToLower (TrimSpace subject))"

definition validateRegisterInput :: "register_input \<Rightarrow> err option" where
  "validateRegisterInput input =
     (if TrimSpace (ri_Login input) = [] then Some (Sentinel (Auth ErrLoginRequired))
      else if TrimSpace (ri_Email input) = [] then Some (Sentinel (Auth ErrEmailRequired))
      else if TrimSpace (ri_Password input) = [] then Some (Sentinel (Auth ErrPasswordRequired))
      else if TrimSpace (ri_FirstName input) = [] then Some (Sentinel (Auth ErrFirstNameRequired))
      else if TrimSpace (ri_LastName input) = [] then Some (Sentinel (Auth ErrLastNameRequired))
      else None)"

definition validateLoginInput :: "login_input \<Rightarrow> err option" where
  "validateLoginInput input =
     (if TrimSpace (li_Identifier input) = [] then Some (Sentinel (Auth ErrIdentifierRequired))
      else if TrimSpace (li_Password input) = [] then Some (Sentinel (Auth ErrPasswordRequired))
      else None)"

definition isUniqueViolation :: "err \<Rightarrow> bool" where
  "isUniqueViolation e \<longleftrightarrow> as_pg_code e = Some ''23505''"

definition mapCreateError :: "err \<Rightarrow> err" where
  "mapCreateError e = (if isUniqueViolation e then Sentinel (Auth ErrUserAlreadyExists) else e)"

section \<open>Metrics and spans\<close>

definition emit :: "'w auth_deps \<Rightarrow> event \<Rightarrow> ('w, unit) state" where
  "emit s e = Emit (ad_Runtime s) e"

definition recordSpanError :: "'w auth_deps \<Rightarrow> err \<Rightarrow> ('w, unit) state" where
  "recordSpanError s e = emit s (SpanError (err_text e))"

definition observe :: "'w auth_deps \<Rightarrow> string \<Rightarrow> string \<Rightarrow> time \<Rightarrow> ('w, unit) state" where
  "observe s method status startedAt = do {
     _ \<leftarrow> emit s (Metric ''operations_total'' [method, status]);
     now \<leftarrow> Now (ad_Runtime s);
     emit s (Sample ''operation_duration_seconds'' [method, status] (now - startedAt)) }"

text \<open>\<open>recordSpanError(span, err); s.metrics.observe(method, status, startedAt); return nil, res\<close>\<close>

definition reject :: "'w auth_deps \<Rightarrow> string \<Rightarrow> string \<Rightarrow> time \<Rightarrow> err \<Rightarrow> err \<Rightarrow> ('w, 'a) go" where
  "reject s method status startedAt e res =
     after (recordSpanError s e) (after (observe s method status startedAt) (fail res))"

section \<open>Registration\<close>

definition ensureUserIsUnique :: "'w auth_deps \<Rightarrow> ctx \<Rightarrow> string \<Rightarrow> string \<Rightarrow> ('w, unit) go" where
  "ensureUserIsUnique s c login email =
     call (ad_GetByLogin s c login) (\<lambda>r. case r of
       Inr _ \<Rightarrow> fail (Sentinel (Auth ErrUserAlreadyExists))
     | Inl e \<Rightarrow>
         if \<not> errors_is e (Ports ErrNotFound) then fail e
         else call (ad_GetByEmail s c email) (\<lambda>r. case r of
           Inr _ \<Rightarrow> fail (Sentinel (Auth ErrUserAlreadyExists))
         | Inl e \<Rightarrow> if \<not> errors_is e (Ports ErrNotFound) then fail e else ok ()))"

definition newUserCreatedOutbox :: "'w auth_deps \<Rightarrow> user_account \<Rightarrow> ('w, outbox_message option) go" where
  "newUserCreatedOutbox s account =
     call (NewUserCreatedOutboxMessage (ad_Runtime s) account)
       (\<lambda>r. case r of Inl _ \<Rightarrow> ok None | Inr m \<Rightarrow> ok (Some m))"

definition map_error :: "(err \<Rightarrow> err) \<Rightarrow> ('w, 'a) go \<Rightarrow> ('w, 'a) go" where
  "map_error f m = call m (\<lambda>r. case r of Inl e \<Rightarrow> fail (f e) | Inr x \<Rightarrow> ok x)"

definition register_tx ::
  "'w auth_deps \<Rightarrow> user_account \<Rightarrow> password_credential \<Rightarrow> ctx \<Rightarrow> ('w, unit) go" where
  "register_tx s account credential txCtx =
     andThen (map_error mapCreateError (ad_CreateUser s txCtx account)) (\<lambda>_.
     andThen (ad_CreateCredential s txCtx credential) (\<lambda>_.
     andThen (newUserCreatedOutbox s account) (\<lambda>message. ad_CreateOutbox s txCtx message)))"

definition auth_result :: "user_account \<Rightarrow> token_pair \<Rightarrow> string \<Rightarrow> auth_result" where
  "auth_result account tokens provider =
     \<lparr>ar_UserID = uuid_String (ua_ID account), ar_AccessToken = tp_AccessToken tokens,
      ar_RefreshToken = tp_RefreshToken tokens, ar_Provider = provider,
      ar_CreatedAt = ua_CreatedAt account\<rparr>"

definition new_account :: "uuid \<Rightarrow> string \<Rightarrow> string \<Rightarrow> string \<Rightarrow> string \<Rightarrow> string \<Rightarrow> time \<Rightarrow> user_account" where
  "new_account i login email firstName lastName provider now =
     \<lparr>ua_ID = i, ua_Login = login, ua_Email = email, ua_FirstName = TrimSpace firstName,
      ua_LastName = TrimSpace lastName, ua_Provider = provider, ua_CreatedAt = now, ua_UpdatedAt = now\<rparr>"

definition register_store :: "'w auth_deps \<Rightarrow> ctx \<Rightarrow> time \<Rightarrow> register_input \<Rightarrow> string \<Rightarrow> ('w, auth_result) go" where
  "register_store s c startedAt input passwordHash = do {
     now \<leftarrow> Now (ad_Runtime s);
     andThen (NewUUIDv7 (ad_Runtime s)) (\<lambda>i.
       let account = new_account i (normalizeLogin (ri_Login input)) (normalizeEmail (ri_Email input))
             (ri_FirstName input) (ri_LastName input) AuthProviderPassword now;
           credential = \<lparr>pc_UserID = i, pc_PasswordHash = passwordHash, pc_CreatedAt = now, pc_UpdatedAt = now\<rparr> in
       call (ad_TxDo s c (register_tx s account credential)) (\<lambda>r. case r of
         Inl e \<Rightarrow> reject s ''register'' ''tx_error'' startedAt e e
       | Inr _ \<Rightarrow>
           call (ad_IssueTokens s account) (\<lambda>r. case r of
             Inl e \<Rightarrow> reject s ''register'' ''token_error'' startedAt e e
           | Inr tokens \<Rightarrow>
               after (emit s (SpanOk ''registered''))
                 (after (emit s (LogLine ''info'' ''User registered''))
                   (after (observe s ''register'' ''success'' startedAt)
                     (ok (auth_result account tokens (ua_Provider account)))))))) }"

definition Register :: "'w auth_deps \<Rightarrow> ctx \<Rightarrow> register_input \<Rightarrow> ('w, auth_result) go" where
  "Register s c input = do {
     startedAt \<leftarrow> Now (ad_Runtime s);
     (case validateRegisterInput input of
        Some e \<Rightarrow> reject s ''register'' ''validation_error'' startedAt e e
      | None \<Rightarrow>
          call (ensureUserIsUnique s c (normalizeLogin (ri_Login input)) (normalizeEmail (ri_Email input)))
            (\<lambda>r. case r of
               Inl e \<Rightarrow> reject s ''register'' ''duplicate'' startedAt e e
             | Inr _ \<Rightarrow>
                 call (ad_Hash s (ri_Password input)) (\<lambda>r. case r of
                   Inl e \<Rightarrow>
                     after (recordSpanError s e)
                       (after (emit s (LogLine ''error'' ''Failed to hash password''))
                         (after (observe s ''register'' ''hash_error'' startedAt) (fail e)))
                 | Inr passwordHash \<Rightarrow> register_store s c startedAt input passwordHash))) }"

section \<open>Login\<close>

definition findUserByIdentifier :: "'w auth_deps \<Rightarrow> ctx \<Rightarrow> string \<Rightarrow> ('w, user_account) go" where
  "findUserByIdentifier s c identifier =
     (let normalized = TrimSpace identifier in
      if has_char (CHR ''@'') normalized then ad_GetByEmail s c (normalizeEmail normalized)
      else ad_GetByLogin s c (normalizeLogin normalized))"

definition invalid_credentials :: "err \<Rightarrow> err" where
  "invalid_credentials e =
     (if errors_is e (Ports ErrNotFound) then Sentinel (Auth ErrInvalidCredentials) else e)"

definition Login :: "'w auth_deps \<Rightarrow> ctx \<Rightarrow> login_input \<Rightarrow> ('w, auth_result) go" where
  "Login s c input = do {
     startedAt \<leftarrow> Now (ad_Runtime s);
     (case validateLoginInput input of
        Some e \<Rightarrow> reject s ''login'' ''validation_error'' startedAt e e
      | None \<Rightarrow>
          call (findUserByIdentifier s c (li_Identifier input)) (\<lambda>r. case r of
            Inl e \<Rightarrow> reject s ''login'' ''not_found'' startedAt e (invalid_credentials e)
          | Inr account \<Rightarrow>
              call (ad_GetByUserID s c (uuid_String (ua_ID account))) (\<lambda>r. case r of
                Inl e \<Rightarrow> reject s ''login'' ''credential_error'' startedAt e (invalid_credentials e)
              | Inr credential \<Rightarrow>
                  (case ad_Validate s (li_Password input) (pc_PasswordHash credential) of
                     Some e \<Rightarrow>
                       reject s ''login'' ''invalid_password'' startedAt e (Sentinel (Auth ErrInvalidCredentials))
                   | None \<Rightarrow>
                       call (ad_IssueTokens s account) (\<lambda>r. case r of
                         Inl e \<Rightarrow> reject s ''login'' ''token_error'' startedAt e e
                       | Inr tokens \<Rightarrow>
                           after (emit s (SpanOk ''authenticated''))
                             (after (observe s ''login'' ''success'' startedAt)
                               (ok (auth_result account tokens (ua_Provider account))))))))) }"

section \<open>Yandex ID\<close>

definition GetYandexAuthURL :: "'w auth_deps \<Rightarrow> ('w, string) go" where
  "GetYandexAuthURL s =
     (case (ad_StateTokens s, ad_Yandex s) of
        (Some st, Some y) \<Rightarrow>
          call (NewYandexState st) (\<lambda>r. case r of
            Inl e \<Rightarrow> after (recordSpanError s e) (fail e)
          | Inr state \<Rightarrow> after (emit s (SpanOk ''authorization_url_created'')) (ok (BuildAuthURL y state)))
      | _ \<Rightarrow>
          after (recordSpanError s (Sentinel (Auth ErrUnsupportedAuthState)))
            (fail (Sentinel (Auth ErrUnsupportedAuthState))))"

definition yandex_tx ::
  "'w auth_deps \<Rightarrow> time \<Rightarrow> user_account \<Rightarrow> external_identity \<Rightarrow> ctx \<Rightarrow> ('w, unit) go" where
  "yandex_tx s now account identity txCtx =
     andThen
       (if ua_CreatedAt account = now then
          andThen (map_error mapCreateError (ad_CreateUser s txCtx account)) (\<lambda>_.
          andThen (newUserCreatedOutbox s account) (\<lambda>message. ad_CreateOutbox s txCtx message))
        else ok ())
       (\<lambda>_. ad_CreateIdentity s txCtx identity)"

text \<open>The account of the e-mail address, or a new one.\<close>

definition yandex_account :: "'w auth_deps \<Rightarrow> ctx \<Rightarrow> time \<Rightarrow> yandex_profile \<Rightarrow> ('w, user_account) go" where
  "yandex_account s c now profile =
     call (ad_GetByEmail s c (normalizeEmail (yp_Email profile))) (\<lambda>r. case r of
       Inl e \<Rightarrow>
         (if \<not> errors_is e (Ports ErrNotFound) then fail e
          else andThen (NewUUIDv7 (ad_Runtime s)) (\<lambda>i.
            ok (new_account i (buildExternalLogin (yp_Login profile) (yp_Subject profile))
                  (normalizeEmail (yp_Email profile)) (yp_FirstName profile) (yp_LastName profile)
                  AuthProviderYandexID now)))
     | Inr account \<Rightarrow> ok account)"

definition registerYandexUser :: "'w auth_deps \<Rightarrow> ctx \<Rightarrow> yandex_profile \<Rightarrow> ('w, user_account) go" where
  "registerYandexUser s c profile = do {
     now \<leftarrow> Now (ad_Runtime s);
     andThen (yandex_account s c now profile) (\<lambda>account.
       andThen (NewUUIDv7 (ad_Runtime s)) (\<lambda>i.
         let identity = \<lparr>ei_ID = i, ei_UserID = ua_ID account, ei_Provider = AuthProviderYandexID,
                         ei_Subject = TrimSpace (yp_Subject profile), ei_CreatedAt = now, ei_UpdatedAt = now\<rparr> in
         andThen (ad_TxDo s c (yandex_tx s now account identity)) (\<lambda>_. ok account))) }"

definition nil_deref :: string where
  "nil_deref = ''invalid memory address or nil pointer dereference''"

definition complete_existing ::
  "'w auth_deps \<Rightarrow> ctx \<Rightarrow> time \<Rightarrow> external_identity \<Rightarrow> ('w, auth_result) go" where
  "complete_existing s c startedAt identity =
     call (ad_GetByID s c (uuid_String (ei_UserID identity))) (\<lambda>r. case r of
       Inl getErr \<Rightarrow> after (recordSpanError s getErr) (fail getErr)
     | Inr account \<Rightarrow>
         call (ad_IssueTokens s account) (\<lambda>r. case r of
           Inl tokenErr \<Rightarrow> after (recordSpanError s tokenErr) (fail tokenErr)
         | Inr tokens \<Rightarrow>
             after (emit s (SpanOk ''authenticated_existing_identity''))
               (after (observe s ''yandex_login'' ''success_existing'' startedAt)
                 (ok (auth_result account tokens AuthProviderYandexID)))))"

definition complete_new :: "'w auth_deps \<Rightarrow> ctx \<Rightarrow> time \<Rightarrow> yandex_profile \<Rightarrow> ('w, auth_result) go" where
  "complete_new s c startedAt profile =
     call (registerYandexUser s c profile) (\<lambda>r. case r of
       Inl e \<Rightarrow> reject s ''yandex_login'' ''registration_error'' startedAt e e
     | Inr account \<Rightarrow>
         call (ad_IssueTokens s account) (\<lambda>r. case r of
           Inl e \<Rightarrow> reject s ''yandex_login'' ''token_error'' startedAt e e
         | Inr tokens \<Rightarrow>
             after (emit s (SpanOk ''authenticated_new_identity''))
               (after (observe s ''yandex_login'' ''success_new'' startedAt)
                 (ok (auth_result account tokens AuthProviderYandexID)))))"

definition complete_profile :: "'w auth_deps \<Rightarrow> ctx \<Rightarrow> time \<Rightarrow> yandex_profile \<Rightarrow> ('w, auth_result) go" where
  "complete_profile s c startedAt profile =
     (if TrimSpace (yp_Subject profile) = [] \<or> TrimSpace (yp_Email profile) = [] then
        reject s ''yandex_login'' ''profile_incomplete'' startedAt
          (Sentinel (Auth ErrYandexProfileIncomplete)) (Sentinel (Auth ErrYandexProfileIncomplete))
      else
        call (ad_GetByProviderSubject s c AuthProviderYandexID (yp_Subject profile)) (\<lambda>r. case r of
          Inr identity \<Rightarrow> complete_existing s c startedAt identity
        | Inl e \<Rightarrow>
            (if \<not> errors_is e (Ports ErrNotFound) then
               reject s ''yandex_login'' ''identity_error'' startedAt e e
             else complete_new s c startedAt profile)))"

definition complete_exchange :: "'w auth_deps \<Rightarrow> ctx \<Rightarrow> time \<Rightarrow> string \<Rightarrow> ('w, auth_result) go" where
  "complete_exchange s c startedAt code =
     (case ad_Yandex s of
        None \<Rightarrow> panic nil_deref
      | Some y \<Rightarrow>
          call (ExchangeCode y c code) (\<lambda>r. case r of
            Inl e \<Rightarrow> reject s ''yandex_login'' ''exchange_error'' startedAt e e
          | Inr profile \<Rightarrow> complete_profile s c startedAt profile))"

definition CompleteYandexLogin :: "'w auth_deps \<Rightarrow> ctx \<Rightarrow> yandex_input \<Rightarrow> ('w, auth_result) go" where
  "CompleteYandexLogin s c input = do {
     startedAt \<leftarrow> Now (ad_Runtime s);
     (if TrimSpace (yi_Code input) = [] then
        reject s ''yandex_login'' ''validation_error'' startedAt
          (Sentinel (Auth ErrYandexCodeRequired)) (Sentinel (Auth ErrYandexCodeRequired))
      else if TrimSpace (yi_State input) = [] then
        reject s ''yandex_login'' ''validation_error'' startedAt
          (Sentinel (Auth ErrYandexStateRequired)) (Sentinel (Auth ErrYandexStateRequired))
      else (case ad_StateTokens s of
        None \<Rightarrow> panic nil_deref
      | Some st \<Rightarrow>
          call (VerifyYandexState st (yi_State input)) (\<lambda>r. case r of
            Inl e \<Rightarrow> reject s ''yandex_login'' ''invalid_state'' startedAt e e
          | Inr _ \<Rightarrow> complete_exchange s c startedAt (yi_Code input)))) }"

section \<open>The contract of the service\<close>

text \<open>
  \<open>refuses p\<close>: the hasher may refuse the password \<open>p\<close>; \<open>unsigned\<close>: issuing tokens may fail.
\<close>

locale auth_service =
  user_repository b "ad_GetByID s" "ad_GetByLogin s" "ad_GetByEmail s" "ad_CreateUser s"
  + credential_repository b "ad_GetByUserID s" "ad_CreateCredential s"
  + identity_repository b "ad_GetByProviderSubject s" "ad_CreateIdentity s"
  + outbox_writer b "ad_CreateOutbox s"
  + transactions b "ad_TxDo s"
  + clock_and_ids b "ad_Runtime s"
  for b :: "('g, 'w) obs" and s :: "'w auth_deps" +
  fixes refuses :: "string \<Rightarrow> bool"
    and unsigned :: bool
  assumes hash_law: "Inv b g w \<Longrightarrow> wp (ad_Hash s p)
      (\<lambda>r v. unchanged b g w v \<and> (case r of Ok h \<Rightarrow> ad_Validate s p h = None | Err e \<Rightarrow> refuses p | Panic q \<Rightarrow> False)) w"
    and tokens_law: "Inv b g w \<Longrightarrow> wp (ad_IssueTokens s u)
      (\<lambda>r v. unchanged b g w v \<and> (case r of Ok t \<Rightarrow> True | Err e \<Rightarrow> unsigned | Panic p \<Rightarrow> False)) w"
    and verify_law: "ad_StateTokens s = Some st \<Longrightarrow> Inv b g w \<Longrightarrow> wp (VerifyYandexState st t)
      (\<lambda>r v. unchanged b g w v \<and> (\<forall>p. r \<noteq> Panic p)) w"
    and exchange_law: "ad_Yandex s = Some y \<Longrightarrow> Inv b g w \<Longrightarrow> wp (ExchangeCode y c t)
      (\<lambda>r v. unchanged b g w v \<and> (\<forall>p. r \<noteq> Panic p)) w"

text \<open>What one operation adds to the metrics: its status, once.\<close>

fun op_status :: "event \<Rightarrow> (string \<times> string) list" where
  "op_status (Metric n ls) = (if n = ''operations_total'' then [(ls ! 0, ls ! 1)] else [])"
| "op_status e = []"

definition statuses :: "event list \<Rightarrow> (string \<times> string) list" where
  "statuses es = concat (map op_status es)"

lemma statuses_append [simp]: "statuses (es @ fs) = statuses es @ statuses fs"
  by (simp add: statuses_def)

definition recorded :: "('g, 'w) obs \<Rightarrow> 'g \<Rightarrow> 'w \<Rightarrow> (string \<times> string) list \<Rightarrow> 'w \<Rightarrow> bool" where
  "recorded b g w st v \<longleftrightarrow>
     Inv b g v \<and> View b v = View b w \<and> (Calm b w \<longrightarrow> Calm b v)
     \<and> statuses (Journal b v) = statuses (Journal b w) @ st"

lemma recorded_unchanged: "unchanged b g w v \<Longrightarrow> recorded b g w [] v"
  by (simp add: unchanged_def recorded_def)

lemma recorded_trans: "recorded b g w st v \<Longrightarrow> recorded b g v st' u \<Longrightarrow> recorded b g w (st @ st') u"
  by (auto simp: recorded_def)

lemma recorded_Inv: "recorded b g w st v \<Longrightarrow> Inv b g v"
  by (simp add: recorded_def)

text \<open>The entities a registration adds.\<close>

definition registered_as ::
  "'w auth_deps \<Rightarrow> register_input \<Rightarrow> user_account \<Rightarrow> password_credential \<Rightarrow> store \<Rightarrow> store \<Rightarrow> bool" where
  "registered_as s input u cr st st' \<longleftrightarrow>
     ua_Login u = normalizeLogin (ri_Login input) \<and> ua_Email u = normalizeEmail (ri_Email input)
     \<and> ua_FirstName u = TrimSpace (ri_FirstName input) \<and> ua_LastName u = TrimSpace (ri_LastName input)
     \<and> ua_Provider u = AuthProviderPassword
     \<and> pc_UserID cr = ua_ID u \<and> ad_Validate s (ri_Password input) (pc_PasswordHash cr) = None
     \<and> \<not> dup_user u st
     \<and> (\<exists>m. outbox_for (ad_Runtime s) u m \<and> st' = add_outbox m (add_cred cr (add_user u st)))"

text \<open>A user already has the login or the e-mail address.\<close>

definition taken :: "string \<Rightarrow> string \<Rightarrow> store \<Rightarrow> bool" where
  "taken login email st \<longleftrightarrow> (\<exists>x\<in>set (st_users st). ua_Login x = login \<or> ua_Email x = email)"

text \<open>
  Reasons inside the program for a registration to fail: no UUID, an event that does not marshal,
  a generated UUID that is in use.
\<close>

definition stuck :: "('g, 'w) obs \<Rightarrow> 'w auth_deps \<Rightarrow> 'g \<Rightarrow> store \<Rightarrow> bool" where
  "stuck b s g st \<longleftrightarrow>
     None \<in> Ids b g \<or> unmarshalled (ad_Runtime s)
     \<or> (\<exists>i. Some i \<in> Ids b g \<and> (i \<in> ua_ID ` set (st_users st) \<or> i \<in> om_ID ` set (st_outbox st)))"

definition callback_rel_register ::
  "'w auth_deps \<Rightarrow> user_account \<Rightarrow> password_credential \<Rightarrow> bool \<Rightarrow> store \<Rightarrow> bool \<Rightarrow> unit outcome \<Rightarrow> store \<Rightarrow> bool \<Rightarrow> bool" where
  "callback_rel_register s u cr blocked st fine r st' k \<longleftrightarrow>
     (fine \<longrightarrow> blocked \<or> (\<exists>x. r = Ok x)) \<and>
     (case r of
        Ok _ \<Rightarrow> \<not> dup_user u st \<and> (\<exists>m. outbox_for (ad_Runtime s) u m \<and> st' = add_outbox m (add_cred cr (add_user u st))) \<and> (fine \<longrightarrow> k)
      | Err e \<Rightarrow> e = Sentinel (Auth ErrUserAlreadyExists) \<and> dup_user u st
               \<or> as_pg_code e = Some ''23505'' \<and> (\<forall>t. \<not> errors_is e t)
               \<or> \<not> fine \<and> lost_answer e
      | Panic p \<Rightarrow> True)"

definition registered :: "'w auth_deps \<Rightarrow> register_input \<Rightarrow> store \<Rightarrow> store \<Rightarrow> bool" where
  "registered s input st st' \<longleftrightarrow> (\<exists>u cr. registered_as s input u cr st st')"

definition register_post ::
  "'w auth_deps \<Rightarrow> register_input \<Rightarrow> bool \<Rightarrow> store \<Rightarrow> store \<Rightarrow> string \<Rightarrow> auth_result outcome \<Rightarrow> bool" where
  "register_post s input fine st st' status r \<longleftrightarrow>
     (case r of
        Ok res \<Rightarrow> status = ''success'' \<and> validateRegisterInput input = None \<and>
          (\<exists>u cr t. registered_as s input u cr st st' \<and> res = auth_result u t AuthProviderPassword)
      | Err e \<Rightarrow>
          status = ''validation_error'' \<and> st' = st \<and> validateRegisterInput input = Some e
          \<or> status = ''duplicate'' \<and> st' = st \<and>
            (e = Sentinel (Auth ErrUserAlreadyExists)
               \<and> taken (normalizeLogin (ri_Login input)) (normalizeEmail (ri_Email input)) st
             \<or> \<not> fine \<and> lost_answer e)
          \<or> status = ''hash_error'' \<and> st' = st
          \<or> status = ''tx_error'' \<and> (st' = st \<or> lost_answer e \<and> \<not> fine \<and> registered s input st st')
            \<and> (fine \<longrightarrow> errors_is e (Auth ErrUserAlreadyExists) \<or> as_pg_code e = Some ''23505'')
          \<or> status = ''token_error'' \<and> registered s input st st'
      | Panic p \<Rightarrow> False)"

text \<open>The reasons for which a registration of \<open>input\<close> may fail while the database answers.\<close>

definition register_refused :: "('g, 'w) obs \<Rightarrow> 'w auth_deps \<Rightarrow> bool \<Rightarrow> register_input \<Rightarrow> 'g \<Rightarrow> store \<Rightarrow> bool" where
  "register_refused b s unable input g st \<longleftrightarrow>
     unable \<or> validateRegisterInput input \<noteq> None
     \<or> taken (normalizeLogin (ri_Login input)) (normalizeEmail (ri_Email input)) st \<or> stuck b s g st"

definition register_ends ::
  "('g, 'w) obs \<Rightarrow> 'w auth_deps \<Rightarrow> bool \<Rightarrow> register_input \<Rightarrow> 'g \<Rightarrow> 'w \<Rightarrow> auth_result outcome \<Rightarrow> 'w \<Rightarrow> bool" where
  "register_ends b s unable input g w r v \<longleftrightarrow>
     Inv b g v \<and> (Calm b w \<longrightarrow> Calm b v) \<and>
     (Calm b w \<longrightarrow> register_refused b s unable input g (View b w) \<or> (\<exists>x. r = Ok x)) \<and>
     (case r of
        Panic p \<Rightarrow> View b v = View b w \<and> statuses (Journal b v) = statuses (Journal b w)
      | _ \<Rightarrow> \<exists>status. statuses (Journal b v) = statuses (Journal b w) @ [(''register'', status)]
              \<and> register_post s input (Calm b w) (View b w) (View b v) status r)"

lemma register_post_mono:
  "register_post s input k st st' status r \<Longrightarrow> (k' \<Longrightarrow> k) \<Longrightarrow> register_post s input k' st st' status r"
  by (cases k; cases k') (auto simp: register_post_def split: outcome.splits)

lemma register_ends_moved:
  assumes v: "unchanged b g w v" and u: "register_ends b s k input g v r u"
  shows "register_ends b s k input g w r u"
proof -
  have "Calm b w \<Longrightarrow> Calm b v" "View b v = View b w" "Journal b v = Journal b w"
    using v by (auto simp: unchanged_def)
  with u show ?thesis
    by (cases r) (auto simp: register_ends_def intro: register_post_mono)
qed

text \<open>The user an identifier stands for: by e-mail if it has an @, else by login.\<close>

definition identifies :: "string \<Rightarrow> user_account \<Rightarrow> bool" where
  "identifies ident u \<longleftrightarrow>
     (if has_char (CHR ''@'') (TrimSpace ident) then ua_Email u = normalizeEmail (TrimSpace ident)
      else ua_Login u = normalizeLogin (TrimSpace ident))"

definition login_post ::
  "'w auth_deps \<Rightarrow> bool \<Rightarrow> login_input \<Rightarrow> bool \<Rightarrow> store \<Rightarrow> string \<Rightarrow> auth_result outcome \<Rightarrow> bool" where
  "login_post s unable input fine st status r \<longleftrightarrow>
     (case validateLoginInput input of
        Some e \<Rightarrow> status = ''validation_error'' \<and> r = Err e
      | None \<Rightarrow>
     (case r of
        Ok res \<Rightarrow> status = ''success'' \<and>
          (\<exists>u\<in>set (st_users st). \<exists>cr\<in>set (st_creds st). \<exists>t.
             identifies (li_Identifier input) u \<and> pc_UserID cr = ua_ID u
             \<and> ad_Validate s (li_Password input) (pc_PasswordHash cr) = None
             \<and> res = auth_result u t (ua_Provider u))
      | Err e \<Rightarrow>
          status = ''not_found'' \<and> e = Sentinel (Auth ErrInvalidCredentials)
             \<and> (\<forall>u\<in>set (st_users st). \<not> identifies (li_Identifier input) u)
          \<or> status = ''credential_error'' \<and> e = Sentinel (Auth ErrInvalidCredentials)
             \<and> (\<exists>u\<in>set (st_users st). identifies (li_Identifier input) u
                  \<and> (\<forall>cr\<in>set (st_creds st). pc_UserID cr \<noteq> ua_ID u))
          \<or> status = ''invalid_password'' \<and> e = Sentinel (Auth ErrInvalidCredentials)
             \<and> (\<exists>u\<in>set (st_users st). \<exists>cr\<in>set (st_creds st). identifies (li_Identifier input) u
                  \<and> pc_UserID cr = ua_ID u \<and> ad_Validate s (li_Password input) (pc_PasswordHash cr) \<noteq> None)
          \<or> status \<in> {''not_found'', ''credential_error''} \<and> \<not> fine \<and> lost_answer e
          \<or> status = ''token_error'' \<and> unable
             \<and> (\<exists>u\<in>set (st_users st). \<exists>cr\<in>set (st_creds st). identifies (li_Identifier input) u
                  \<and> pc_UserID cr = ua_ID u \<and> ad_Validate s (li_Password input) (pc_PasswordHash cr) = None)
      | Panic p \<Rightarrow> False))"

definition login_ends ::
  "('g, 'w) obs \<Rightarrow> 'w auth_deps \<Rightarrow> bool \<Rightarrow> login_input \<Rightarrow> 'g \<Rightarrow> 'w \<Rightarrow> auth_result outcome \<Rightarrow> 'w \<Rightarrow> bool" where
  "login_ends b s unable input g w r v \<longleftrightarrow>
     (\<exists>status. recorded b g w [(''login'', status)] v \<and> login_post s unable input (Calm b w) (View b w) status r)"

context auth_service
begin

lemma emitted:
  assumes "Inv b g w" "\<not> tx_event ev"
  shows "wp (emit s ev) (\<lambda>_ v. recorded b g w (op_status ev) v) w"
  unfolding emit_def
  by (rule wp_conseq [OF emit_law [OF assms]]) (cases ev; auto simp: recorded_def statuses_def)

lemma observed:
  assumes "Inv b g w"
  shows "wp (observe s m st t) (\<lambda>_ v. recorded b g w [(m, st)] v) w"
  unfolding observe_def
  apply (rule wp_bindI [OF emitted [OF assms]], simp)
  apply (rule wp_bindI, rule now_law, erule recorded_Inv)
  apply (rule wp_conseq, rule emitted, drule recorded_unchanged, erule recorded_Inv, simp)
  apply (drule (1) recorded_trans [OF _ recorded_unchanged], drule (1) recorded_trans, simp)
  done

lemma rejected:
  assumes "Inv b g w"
  shows "wp (reject s m st t e res) (\<lambda>r v. r = Err res \<and> recorded b g w [(m, st)] v) w"
  unfolding reject_def recordSpanError_def
  apply (rule wp_afterI [OF emitted [OF assms]], simp)
  apply (rule wp_afterI, rule observed, erule recorded_Inv)
  apply (simp add: wp_fail, drule (1) recorded_trans, simp)
  done

lemma new_outbox:
  assumes "Inv b g w"
  shows "wp (newUserCreatedOutbox s u)
      (\<lambda>r v. unchanged b g w v \<and>
         (case r of
            Ok None \<Rightarrow> unmarshalled (ad_Runtime s)
          | Ok (Some m) \<Rightarrow> outbox_for (ad_Runtime s) u m \<and> Some (om_ID m) \<in> Ids b g
          | Err e \<Rightarrow> False
          | Panic p \<Rightarrow> None \<in> Ids b g \<or> unmarshalled (ad_Runtime s))) w"
  unfolding newUserCreatedOutbox_def by (rule wp_callI [OF new_message [OF assms]]) (auto simp: wp_rules)

lemma create_user_mapped:
  assumes i: "Inv b g w"
  shows "wp (map_error mapCreateError (ad_CreateUser s c u))
      (\<lambda>r v. Inv b g v \<and> Journal b v = Journal b w \<and>
         (case r of
            Ok _ \<Rightarrow> View b v = add_user u (View b w) \<and> \<not> dup_user u (View b w) \<and> (Calm b w \<longrightarrow> Calm b v)
          | Err e \<Rightarrow> e = Sentinel (Auth ErrUserAlreadyExists) \<and> dup_user u (View b w) \<or> \<not> Calm b w \<and> lost_answer e
          | Panic p \<Rightarrow> False)) w"
  unfolding map_error_def
  by (rule wp_callI [OF create_user [OF i]])
    (auto simp: wp_ok wp_fail created_def mapCreateError_def isUniqueViolation_def lost_answer_def)

lemma register_tx_law:
  assumes i: "Inv b g w" and cr: "pc_UserID cr = ua_ID u"
    and B: "dup_user u (View b w) \<or> stuck b s g (View b w) \<longrightarrow> B"
  shows "wp (register_tx s u cr c)
      (\<lambda>r v. Inv b g v \<and> Journal b v = Journal b w
         \<and> callback_rel_register s u cr B (View b w) (Calm b w) r (View b v) (Calm b v)) w"
  unfolding register_tx_def
proof (rule wp_andThenI [OF create_user_mapped [OF i]], goal_cases)
  case (1 x v1)
  then have v1: "Inv b g v1" "View b v1 = add_user u (View b w)" "\<not> dup_user u (View b w)"
    "Journal b v1 = Journal b w" "Calm b w \<longrightarrow> Calm b v1"
    by auto
  have fresh: "\<not> dup_cred cr (View b v1)" "\<not> no_user (pc_UserID cr) (View b v1)"
    using well_formed [OF i] v1(2,3) cr by (auto simp: dup_defs add_defs store_ok_def)
  show ?case
  proof (rule wp_andThenI [OF create_credential [OF v1(1)]], goal_cases)
    case (1 x v2)
    then have v2: "Inv b g v2" "View b v2 = add_cred cr (add_user u (View b w))"
      "Journal b v2 = Journal b w" "Calm b w \<longrightarrow> Calm b v2"
      using v1 by (auto simp: created_def)
    show ?case
    proof (rule wp_andThenI [OF new_outbox [OF v2(1)]], goal_cases)
      case (1 m v3)
      then have v3: "Inv b g v3" "View b v3 = add_cred cr (add_user u (View b w))"
        "Journal b v3 = Journal b w" "Calm b w \<longrightarrow> Calm b v3"
        using v2 by (auto simp: unchanged_def)
      show ?case
      proof (cases m)
        case None
        show ?thesis unfolding None
          by (rule wp_conseq [OF create_nil [OF v3(1)]])
            (use v3 B 1 None in \<open>auto simp: unchanged_def callback_rel_register_def stuck_def\<close>)
      next
        case (Some msg)
        have "outbox_for (ad_Runtime s) u msg" "dup_outbox msg (View b v3) \<longrightarrow> B"
          using 1 Some B v3(2) by (auto simp: stuck_def dup_outbox_def add_defs)
        then show ?thesis unfolding Some
          by (intro wp_conseq [OF create_outbox [OF v3(1)]])
            (use v1(3) v3 in \<open>auto simp: created_def callback_rel_register_def split: outcome.splits\<close>)
      qed
    next
      case (2 e v)
      then show ?case by simp
    next
      case (3 p v)
      with v2 B show ?case by (auto simp: unchanged_def callback_rel_register_def stuck_def)
    qed
  next
    case (2 e v)
    with fresh v1 show ?case by (auto simp: created_def callback_rel_register_def)
  next
    case (3 p v)
    then show ?case by (simp add: created_def)
  qed
next
  case (2 e v)
  with B show ?case by (auto simp: callback_rel_register_def)
next
  case (3 p v)
  then show ?case by simp
qed

lemma ensure_unique:
  assumes i: "Inv b g w"
  shows "wp (ensureUserIsUnique s c login email)
      (\<lambda>r v. unchanged b g w v \<and>
         (case r of
            Ok _ \<Rightarrow> \<not> taken login email (View b w)
          | Err e \<Rightarrow> e = Sentinel (Auth ErrUserAlreadyExists) \<and> taken login email (View b w)
                   \<or> \<not> Calm b w \<and> lost_answer e
          | Panic p \<Rightarrow> False)) w"
  unfolding ensureUserIsUnique_def
proof (rule wp_callI [OF by_login [OF i]], goal_cases)
  case (1 x v)
  then show ?case by (auto simp: wp_fail found_def taken_def)
next
  case (2 e v)
  then have v: "Inv b g v" "unchanged b g w v" "View b v = View b w" "Calm b w \<longrightarrow> Calm b v"
    by (auto simp: unchanged_def)
  show ?case
  proof (cases "errors_is e (Ports ErrNotFound)")
    case False
    with 2 show ?thesis by (auto simp: wp_fail found_def not_found_def)
  next
    case True
    with 2 have none: "\<forall>x\<in>set (st_users (View b w)). ua_Login x \<noteq> login"
      by (auto simp: found_def not_found_def)
    have "wp (call (ad_GetByEmail s c email)
           (\<lambda>r. case r of Inl e \<Rightarrow> if \<not> errors_is e (Ports ErrNotFound) then fail e else ok ()
              | Inr _ \<Rightarrow> fail (Sentinel (Auth ErrUserAlreadyExists))))
        (\<lambda>r u. unchanged b g w u \<and>
         (case r of
            Ok _ \<Rightarrow> \<not> taken login email (View b w)
          | Err e \<Rightarrow> e = Sentinel (Auth ErrUserAlreadyExists) \<and> taken login email (View b w)
                   \<or> \<not> Calm b w \<and> lost_answer e
          | Panic p \<Rightarrow> False)) v"
      by (rule wp_callI [OF by_email [OF v(1)]])
        (use none v in \<open>auto simp: wp_ok wp_fail found_def taken_def not_found_def intro: unchanged_trans split: if_splits\<close>)
    with True show ?thesis by simp
  qed
next
  case (3 p v)
  then show ?case by (simp add: found_def)
qed

lemma reject_ends:
  assumes "Inv b g v" "Calm b w \<longrightarrow> Calm b v" "statuses (Journal b v) = statuses (Journal b w)"
    "register_post s input (Calm b w) (View b w) (View b v) st (Err res)"
    "Calm b w \<longrightarrow> register_refused b s (refuses (ri_Password input) \<or> unsigned) input g (View b w)"
  shows "wp (reject s ''register'' st t e res) (register_ends b s (refuses (ri_Password input) \<or> unsigned) input g w) v"
  by (rule wp_conseq [OF rejected [OF assms(1)]])
    (use assms in \<open>auto simp: recorded_def register_ends_def\<close>)

lemma register_store_law:
  assumes i: "Inv b g w" and out: "Outside b g" and valid: "validateRegisterInput input = None"
    and h: "ad_Validate s (ri_Password input) h = None"
    and free: "\<not> taken (normalizeLogin (ri_Login input)) (normalizeEmail (ri_Email input)) (View b w)"
  shows "wp (register_store s c t input h) (register_ends b s (refuses (ri_Password input) \<or> unsigned) input g w) w"
  unfolding register_store_def
proof (rule wp_bindI [OF now_law [OF i]], rule wp_andThenI [OF new_id], erule unchanged_Inv, goal_cases)
  case (1 now v0 i v)
  let ?u = "new_account i (normalizeLogin (ri_Login input)) (normalizeEmail (ri_Email input))
             (ri_FirstName input) (ri_LastName input) AuthProviderPassword now"
  let ?cr = "\<lparr>pc_UserID = i, pc_PasswordHash = h, pc_CreatedAt = now, pc_UpdatedAt = now\<rparr>"
  have v: "unchanged b g w v" using 1 by (auto intro: unchanged_trans)
  have reg: "registered_as s input ?u ?cr (View b w) st'"
    if "\<not> dup_user ?u (View b w)" "outbox_for (ad_Runtime s) ?u m" "st' = add_outbox m (add_cred ?cr (add_user ?u (View b w)))" for m st'
    using that h by (auto simp: registered_as_def new_account_def)
  have regd: "registered s input (View b w) (add_outbox m (add_cred ?cr (add_user ?u (View b w))))"
    if "\<not> dup_user ?u (View b w)" "outbox_for (ad_Runtime s) ?u m" for m
    unfolding registered_def using reg that by blast
  have vw: "View b v = View b w" "Calm b w \<longrightarrow> Calm b v" using v by (auto simp: unchanged_def)
  let ?B = "stuck b s g (View b w)"
  have dup: "dup_user ?u (View b w) \<longrightarrow> ?B"
    using 1 free by (auto simp: dup_user_def new_account_def stuck_def taken_def)
  have cb: "wp (register_tx s ?u ?cr tc) (\<lambda>r v'. Inv b g' v' \<and> Journal b v' = Journal b z
       \<and> callback_rel_register s ?u ?cr ?B (View b v) (Calm b v) r (View b v') (Calm b v')) z"
    if "Inv b g' z" "View b z = View b v" "Calm b v \<Longrightarrow> Calm b z" "Ids b g' = Ids b g" for g' tc z
  proof -
    have "dup_user ?u (View b z) \<or> stuck b s g' (View b z) \<longrightarrow> ?B"
      using dup that(2,4) vw(1) by (simp add: stuck_def)
    from register_tx_law [OF that(1) _ this, where cr = ?cr and c = tc] show ?thesis
      by (rule wp_conseq)
        (use that in \<open>auto simp: new_account_def callback_rel_register_def split: outcome.splits\<close>)
  qed
  have refused: "register_refused b s (refuses (ri_Password input) \<or> unsigned) input g (View b w)" if ?B
    using that by (simp add: register_refused_def)
  show ?case
    unfolding Let_def
  proof (rule wp_callI [OF do_law [OF unchanged_Inv [OF v] out cb]], goal_cases)
    case (5 x z)
    then obtain m where z: "Inv b g z" "\<not> dup_user ?u (View b w)" "outbox_for (ad_Runtime s) ?u m"
        "View b z = add_outbox m (add_cred ?cr (add_user ?u (View b w)))"
        "Journal b z = Journal b w" "Calm b w \<longrightarrow> Calm b z"
      using v by (auto simp: tx_done_def callback_rel_register_def unchanged_def)
    note regz = reg [OF z(2,3,4)]
    show ?case
    proof (simp, rule wp_callI [OF tokens_law [OF z(1)]], goal_cases)
      case (1 tok y)
      then have y: "Inv b g y" "View b y = View b z" "Journal b y = Journal b w" "Calm b w \<longrightarrow> Calm b y"
        using z by (auto simp: unchanged_def)
      show ?case
        apply (simp, rule wp_afterI [OF emitted [OF y(1)]], simp)
        apply (rule wp_afterI, rule emitted, erule recorded_Inv, simp)
        apply (rule wp_afterI, rule observed, erule recorded_Inv)
        using y regz valid
        apply (simp add: wp_ok recorded_def register_ends_def register_post_def)
        apply (intro conjI exI [of _ ?u] exI [of _ ?cr] exI [of _ tok])
        apply (simp_all add: new_account_def)
        done
    next
      case (2 e y)
      then show ?case using z regz unfolding sum.case
        by (intro reject_ends)
          (auto simp: unchanged_def register_post_def registered_def register_refused_def)
    next
      case (3 p y)
      then show ?case by simp
    qed
  next
    case (6 e z)
    then have z: "Inv b g z" "Journal b z = Journal b w" "Calm b w \<longrightarrow> Calm b z"
      using v by (auto simp: tx_done_def unchanged_def)
    let ?Q = "callback_rel_register s ?u ?cr ?B (View b v) (Calm b v)"
    from 6 consider
        (callback) e' st k where "View b z = View b w" "like_err e e'" "?Q (Err e') st k"
      | (ended) st where "View b z = View b w" "lost_answer e" "Calm b v \<longrightarrow> ?Q (Ok ()) st False"
      | (lost) "lost_answer e" "?Q (Ok ()) (View b z) False"
      by (auto simp: tx_done_def from_callback_def vw(1))
    then have "register_post s input (Calm b w) (View b w) (View b z) ''tx_error'' (Err e)
      \<and> (Calm b w \<longrightarrow> ?B)"
    proof cases
      case callback
      then have "errors_is e' (Auth ErrUserAlreadyExists) \<or> as_pg_code e' = Some ''23505'' \<or> \<not> Calm b v"
        "Calm b v \<longrightarrow> ?B"
        by (auto simp: callback_rel_register_def)
      with callback(1,2) vw(2) show ?thesis
        unfolding like_err_def register_post_def outcome.case by metis
    next
      case ended
      then have "\<not> Calm b v" by (auto simp: callback_rel_register_def)
      with ended(1) vw(2) show ?thesis unfolding register_post_def outcome.case by metis
    next
      case lost
      then have "\<not> Calm b v" "registered s input (View b w) (View b z)"
        using vw(1) by (auto simp: callback_rel_register_def regd)
      with lost(1) vw(2) show ?thesis by (simp add: register_post_def)
    qed
    with z refused show ?case by (simp, intro reject_ends) auto
  next
    case (7 p z)
    then show ?case using v refused
      by (auto simp: tx_done_def register_ends_def unchanged_def callback_rel_register_def)
  qed blast+
next
  case (2 now v0 e v)
  then show ?case by simp
next
  case (3 now v0 p v)
  then show ?case by (auto simp: register_ends_def unchanged_def register_refused_def stuck_def)
qed

lemma Register_law:
  assumes i: "Inv b g w" and out: "Outside b g"
  shows "wp (Register s c input) (register_ends b s (refuses (ri_Password input) \<or> unsigned) input g w) w"
  unfolding Register_def
proof (rule wp_bindI [OF now_law [OF i]], goal_cases)
  case (1 t v)
  note v = this
  show ?case
  proof (cases "validateRegisterInput input")
    case (Some e)
    then show ?thesis using v
      by (simp, intro reject_ends) (auto simp: unchanged_def register_post_def register_refused_def)
  next
    case None
    show ?thesis
      unfolding None option.case
    proof (rule wp_callI [OF ensure_unique [OF unchanged_Inv [OF v]]], goal_cases)
      case (1 x u)
      then have u: "unchanged b g w u" using v by (auto intro: unchanged_trans)
      have free: "\<not> taken (normalizeLogin (ri_Login input)) (normalizeEmail (ri_Email input)) (View b w)"
        using 1 v by (simp add: unchanged_def)
      show ?case
        unfolding sum.case
      proof (rule wp_callI [OF hash_law [OF unchanged_Inv [OF u]]], goal_cases)
        case (1 h y)
        then have y: "unchanged b g w y" and h: "ad_Validate s (ri_Password input) h = None"
          using u by (auto intro: unchanged_trans)
        have free': "\<not> taken (normalizeLogin (ri_Login input)) (normalizeEmail (ri_Email input)) (View b y)"
          using free y by (simp add: unchanged_def)
        show ?case
          unfolding sum.case
          by (rule wp_conseq [OF register_store_law [OF unchanged_Inv [OF y] out None h free']])
            (rule register_ends_moved [OF y])
      next
        case (2 e y)
        then have y: "unchanged b g w y" using u by (auto intro: unchanged_trans)
        have "wp (after (recordSpanError s e) (after (emit s (LogLine ''error'' ''Failed to hash password''))
               (after (observe s ''register'' ''hash_error'' t) (fail e))))
             (register_ends b s (refuses (ri_Password input) \<or> unsigned) input g w) y"
          unfolding recordSpanError_def
          apply (rule wp_afterI [OF emitted [OF unchanged_Inv [OF y]]], simp)
          apply (rule wp_afterI, rule emitted, erule recorded_Inv, simp)
          apply (rule wp_afterI, rule observed, erule recorded_Inv)
          using y 2 apply (simp add: wp_fail recorded_def register_ends_def register_post_def unchanged_def register_refused_def)
          done
        then show ?case by simp
      next
        case (3 p y)
        then show ?case by simp
      qed
    next
      case (2 e u)
      then have "wp (reject s ''register'' ''duplicate'' t e e) (register_ends b s (refuses (ri_Password input) \<or> unsigned) input g w) u"
        using v by (intro reject_ends) (auto simp: unchanged_def register_post_def register_refused_def)
      then show ?case by simp
    next
      case (3 p u)
      then show ?case by simp
    qed
  qed
qed

text \<open>Login: what a result and an error mean.\<close>

lemma find_user_law:
  assumes i: "Inv b g w"
  shows "wp (findUserByIdentifier s c ident)
     (\<lambda>r v. unchanged b g w v \<and> found (Calm b w) (identifies ident) (st_users (View b w)) r) w"
proof (cases "has_char (CHR ''@'') (TrimSpace ident)")
  case True
  then have "identifies ident = (\<lambda>u. ua_Email u = normalizeEmail (TrimSpace ident))"
    by (auto simp: identifies_def)
  with True by_email [OF i] show ?thesis by (simp add: findUserByIdentifier_def)
next
  case False
  then have "identifies ident = (\<lambda>u. ua_Login u = normalizeLogin (TrimSpace ident))"
    by (auto simp: identifies_def)
  with False by_login [OF i] show ?thesis by (simp add: findUserByIdentifier_def)
qed

lemma reject_login:
  assumes "unchanged b g w v" "login_post s unsigned input (Calm b w) (View b w) st (Err res)"
  shows "wp (reject s ''login'' st t e res) (login_ends b s unsigned input g w) v"
  by (rule wp_conseq [OF rejected [OF unchanged_Inv [OF assms(1)]]])
    (use assms in \<open>auto simp: login_ends_def intro!: exI [of _ st] dest: recorded_trans [OF recorded_unchanged]\<close>)

lemma Login_law:
  assumes i: "Inv b g w"
  shows "wp (Login s c input) (login_ends b s unsigned input g w) w"
  unfolding Login_def
proof (rule wp_bindI [OF now_law [OF i]], goal_cases)
  case (1 t v0)
  note v0 = this
  have vw: "View b v0 = View b w" "Calm b w \<longrightarrow> Calm b v0" using v0 by (auto simp: unchanged_def)
  show ?case
  proof (cases "validateLoginInput input")
    case (Some e)
    with v0 show ?thesis by (simp, intro reject_login) (auto simp: login_post_def)
  next
    case None
    show ?thesis
      unfolding None option.case
    proof (rule wp_callI [OF find_user_law [OF unchanged_Inv [OF v0]]], goal_cases)
      case (1 u v1)
      then have v1: "unchanged b g w v1" and u: "u \<in> set (st_users (View b w))" "identifies (li_Identifier input) u"
        using v0 vw by (auto simp: found_def intro: unchanged_trans)
      have vw1: "View b v1 = View b w" "Calm b w \<longrightarrow> Calm b v1" using v1 by (auto simp: unchanged_def)
      show ?case
        unfolding sum.case
      proof (rule wp_callI [OF by_user [OF unchanged_Inv [OF v1]]], goal_cases)
        case (1 cr v2)
        then have v2: "unchanged b g w v2" and cr: "cr \<in> set (st_creds (View b w))" "pc_UserID cr = ua_ID u"
          using v1 vw1 by (auto simp: found_def intro: unchanged_trans)
        show ?case
        proof (cases "ad_Validate s (li_Password input) (pc_PasswordHash cr)")
          case (Some e)
          with u cr have "login_post s unsigned input (Calm b w) (View b w) ''invalid_password''
               (Err (Sentinel (Auth ErrInvalidCredentials)))"
            by (auto simp: login_post_def None)
          with Some v2 show ?thesis by (simp add: reject_login)
        next
          case valid: None
          have tokpost: "login_post s unsigned input (Calm b w) (View b w) ''token_error'' (Err e)" if unsigned for e
            using that u cr valid by (auto simp: login_post_def None)
          have okpost: "login_post s unsigned input (Calm b w) (View b w) ''success'' (Ok (auth_result u tok (ua_Provider u)))" for tok
            using u cr valid by (auto simp: login_post_def None)
          show ?thesis
            unfolding valid sum.case option.case
          proof (rule wp_callI [OF tokens_law [OF unchanged_Inv [OF v2]]], goal_cases)
            case (1 tok v3)
            then have v3: "unchanged b g w v3" using v2 by (auto intro: unchanged_trans)
            have "wp (after (emit s (SpanOk ''authenticated'')) (after (observe s ''login'' ''success'' t)
                 (ok (auth_result u tok (ua_Provider u))))) (login_ends b s unsigned input g w) v3"
              apply (rule wp_afterI [OF emitted [OF unchanged_Inv [OF v3]]], simp)
              apply (rule wp_afterI, rule observed, erule recorded_Inv)
              apply (drule (1) recorded_trans, drule recorded_trans [OF recorded_unchanged [OF v3]])
              using okpost apply (auto simp: wp_ok login_ends_def)
              done
            then show ?case by simp
          next
            case (2 e v3)
            then have "unchanged b g w v3" using v2 by (auto intro: unchanged_trans)
            with 2 tokpost [OF _, of e] show ?case unfolding sum.case by (intro reject_login) auto
          next
            case (3 p v3)
            then show ?case by simp
          qed
        qed
      next
        case (2 e v2)
        then have v2: "unchanged b g w v2" using v1 by (auto intro: unchanged_trans)
        have "login_post s unsigned input (Calm b w) (View b w) ''credential_error'' (Err (invalid_credentials e))"
          using 2 u vw1 by (auto simp: login_post_def None found_def invalid_credentials_def not_found_def split: if_splits)
        with v2 show ?case by (simp add: reject_login)
      next
        case (3 p v2)
        then show ?case by (simp add: found_def)
      qed
    next
      case (2 e v1)
      then have v1: "unchanged b g w v1" using v0 by (auto intro: unchanged_trans)
      have "login_post s unsigned input (Calm b w) (View b w) ''not_found'' (Err (invalid_credentials e))"
        using 2 vw by (auto simp: login_post_def None found_def invalid_credentials_def not_found_def split: if_splits)
      with v1 show ?case by (simp add: reject_login)
    next
      case (3 p v1)
      then show ?case by (simp add: found_def)
    qed
  qed
qed

end

end
