(* ===== verification/Tokens.thy ===== *)
theory Tokens
  imports AuthService World
begin

text \<open>
  pkg/jwt, internal/adapters/secondary/tokens and pkg/cripto/bcrypt: the tokens the service
  issues and the password hashes. Signing, JSON and bcrypt are parameters; how golang-jwt orders
  its checks (vendored parser.go and claims.go) is modelled.
\<close>

section \<open>golang-jwt\<close>

datatype jval = JStr string | JNum int

type_synonym claims = "(string \<times> jval) list"

text \<open>
  \<open>jl_sign key cs\<close> is a signed HS256 token; \<open>jl_parse t\<close> splits a token into whether its method
  is an HMAC one and its claims; \<open>jl_verify t key\<close> checks its signature.
\<close>

record jwt_lib =
  jl_sign :: "string \<Rightarrow> claims \<Rightarrow> err + string"
  jl_parse :: "string \<Rightarrow> err + (bool \<times> claims)"
  jl_verify :: "string \<Rightarrow> string \<Rightarrow> bool"

definition jwt_law :: "jwt_lib \<Rightarrow> bool" where
  "jwt_law l \<longleftrightarrow> (\<forall>k c t. jl_sign l k c = Inr t \<longrightarrow> jl_parse l t = Inr (True, c) \<and> jl_verify l t k)"

text \<open>No claims fail to sign.\<close>

definition signs :: "jwt_lib \<Rightarrow> bool" where
  "signs l \<longleftrightarrow> (\<forall>k c. \<exists>t. jl_sign l k c = Inr t)"

definition second :: time where "second = 1000000000"

definition unix :: "time \<Rightarrow> int" where "unix t = t div second"

definition claim_str :: "claims \<Rightarrow> string \<Rightarrow> string" where
  "claim_str cs k = (case map_of cs k of Some (JStr s) \<Rightarrow> s | _ \<Rightarrow> [])"

definition claim_num :: "claims \<Rightarrow> string \<Rightarrow> int option" where
  "claim_num cs k = (case map_of cs k of Some (JNum n) \<Rightarrow> Some n | _ \<Rightarrow> None)"

definition claims_Valid :: "time \<Rightarrow> claims \<Rightarrow> bool" where
  "claims_Valid now cs \<longleftrightarrow>
     (case claim_num cs ''exp'' of None \<Rightarrow> True | Some n \<Rightarrow> now < n * second)
     \<and> (case claim_num cs ''iat'' of None \<Rightarrow> True | Some n \<Rightarrow> n * second \<le> now)
     \<and> (case claim_num cs ''nbf'' of None \<Rightarrow> True | Some n \<Rightarrow> n * second \<le> now)"

definition ParseWithClaims :: "jwt_lib \<Rightarrow> time \<Rightarrow> string \<Rightarrow> string \<Rightarrow> err + claims" where
  "ParseWithClaims l now key t =
     (case jl_parse l t of
        Inl e \<Rightarrow> Inl e
      | Inr (hmac, cs) \<Rightarrow>
          (if \<not> hmac then Inl (NewErr ''unexpected signing method'')
           else if \<not> jl_verify l t key then Inl (NewErr ''signature is invalid'')
           else if \<not> claims_Valid now cs then Inl (NewErr ''token is expired or not valid yet'')
           else Inr cs))"

section \<open>pkg/jwt\<close>

record jwt_manager =
  jm_secretKey :: string
  jm_tokenDuration :: time

record jwt_claims =
  cl_UserID :: string
  cl_Email :: string

definition Generate :: "jwt_lib \<Rightarrow> jwt_manager \<Rightarrow> string \<Rightarrow> string \<Rightarrow> (world, string) go" where
  "Generate l m userID email = do {
     t1 \<leftarrow> now_w;
     t2 \<leftarrow> now_w;
     (case jl_sign l (jm_secretKey m)
             [(''user_id'', JStr userID), (''email'', JStr email),
              (''exp'', JNum (unix (t1 + jm_tokenDuration m))), (''iat'', JNum (unix t2)), (''iss'', JStr email)] of
        Inl e \<Rightarrow> fail e | Inr t \<Rightarrow> ok t) }"

definition Verify :: "jwt_lib \<Rightarrow> jwt_manager \<Rightarrow> string \<Rightarrow> (world, jwt_claims) go" where
  "Verify l m accessToken = do {
     now \<leftarrow> now_w;
     (case ParseWithClaims l now (jm_secretKey m) accessToken of
        Inl e \<Rightarrow> fail e
      | Inr cs \<Rightarrow> ok \<lparr>cl_UserID = claim_str cs ''user_id'', cl_Email = claim_str cs ''email''\<rparr>) }"

definition GenerateRefreshToken :: "jwt_lib \<Rightarrow> jwt_manager \<Rightarrow> (world, string) go" where
  "GenerateRefreshToken l m = do {
     t \<leftarrow> now_w;
     (case jl_sign l (jm_secretKey m)
             [(''exp'', JNum (unix (t + 24 * 7 * 3600 * second))), (''type'', JStr ''refresh'')] of
        Inl e \<Rightarrow> fail e | Inr t \<Rightarrow> ok t) }"

section \<open>internal/adapters/secondary/tokens\<close>

record token_service =
  ts_access :: jwt_manager
  ts_secret :: string
  ts_refreshTTL :: time

definition New_tokens :: "string \<Rightarrow> time \<Rightarrow> time \<Rightarrow> token_service" where
  "New_tokens secretKey accessTTL refreshTTL =
     \<lparr>ts_access = \<lparr>jm_secretKey = secretKey, jm_tokenDuration = accessTTL\<rparr>, ts_secret = secretKey,
      ts_refreshTTL = (if refreshTTL \<le> 0 then 7 * 24 * 3600 * second else refreshTTL)\<rparr>"

definition generateRefreshToken :: "jwt_lib \<Rightarrow> token_service \<Rightarrow> user_account \<Rightarrow> (world, string) go" where
  "generateRefreshToken l s user = do {
     t1 \<leftarrow> now_w;
     t2 \<leftarrow> now_w;
     (case jl_sign l (ts_secret s)
             [(''user_id'', JStr (uuid_String (ua_ID user))), (''type'', JStr ''refresh''),
              (''exp'', JNum (unix (t1 + ts_refreshTTL s))), (''iat'', JNum (unix t2))] of
        Inl e \<Rightarrow> fail e | Inr t \<Rightarrow> ok t) }"

definition IssueTokens :: "jwt_lib \<Rightarrow> token_service \<Rightarrow> user_account \<Rightarrow> (world, token_pair) go" where
  "IssueTokens l s user =
     andThen (Generate l (ts_access s) (uuid_String (ua_ID user)) (ua_Email user)) (\<lambda>accessToken.
     andThen (generateRefreshToken l s user) (\<lambda>refreshToken.
       ok \<lparr>tp_AccessToken = accessToken, tp_RefreshToken = refreshToken\<rparr>))"

definition yandex_oauth_state :: string where
  "yandex_oauth_state = ''yandex_oauth_state''"

definition issue_yandex_state :: "jwt_lib \<Rightarrow> token_service \<Rightarrow> (world, string) go" where
  "issue_yandex_state l s = do {
     t1 \<leftarrow> now_w;
     t2 \<leftarrow> now_w;
     (case jl_sign l (ts_secret s)
             [(''kind'', JStr yandex_oauth_state), (''exp'', JNum (unix (t1 + 10 * 60 * second))),
              (''iat'', JNum (unix t2))] of
        Inl e \<Rightarrow> fail e | Inr t \<Rightarrow> ok t) }"

definition verify_yandex_state :: "jwt_lib \<Rightarrow> token_service \<Rightarrow> string \<Rightarrow> (world, unit) go" where
  "verify_yandex_state l s state = do {
     now \<leftarrow> now_w;
     (case ParseWithClaims l now (ts_secret s) state of
        Inl e \<Rightarrow> fail e
      | Inr cs \<Rightarrow>
          (if claim_str cs ''kind'' \<noteq> yandex_oauth_state then fail (NewErr ''unexpected yandex state token'')
           else ok ())) }"

definition token_states :: "jwt_lib \<Rightarrow> token_service \<Rightarrow> world state_tokens" where
  "token_states l s = \<lparr>NewYandexState = issue_yandex_state l s, VerifyYandexState = verify_yandex_state l s\<rparr>"

section \<open>pkg/cripto/bcrypt\<close>

text \<open>\<open>bc_generate cost p\<close> and \<open>bc_compare h p\<close> are the two functions of golang.org/x/crypto/bcrypt.\<close>

record bcrypt_lib =
  bc_generate :: "int \<Rightarrow> string \<Rightarrow> err + string"
  bc_compare :: "string \<Rightarrow> string \<Rightarrow> err option"

definition bcrypt_law :: "bcrypt_lib \<Rightarrow> bool" where
  "bcrypt_law l \<longleftrightarrow> (\<forall>cost p h. bc_generate l cost p = Inr h \<longrightarrow> bc_compare l h p = None)"

definition bcrypt_Hash :: "bcrypt_lib \<Rightarrow> int \<Rightarrow> string \<Rightarrow> ('w, string) go" where
  "bcrypt_Hash l cost password =
     (case bc_generate l cost password of Inl e \<Rightarrow> fail e | Inr h \<Rightarrow> ok h)"

definition bcrypt_Validate :: "bcrypt_lib \<Rightarrow> string \<Rightarrow> string \<Rightarrow> err option" where
  "bcrypt_Validate l password hash = bc_compare l hash password"

section \<open>What a token is accepted for\<close>

lemma unix_bounds: "unix t * second \<le> t" "t < unix t * second + second"
proof -
  have "unix t * second + t mod second = t" "0 \<le> t mod second" "t mod second < second"
    by (simp_all add: unix_def second_def)
  then show "unix t * second \<le> t" "t < unix t * second + second" by linarith+
qed

lemma run_now_w [simp]: "run_state now_w w = (clock w (ticks w), w\<lparr>ticks := Suc (ticks w)\<rparr>)"
  by (simp add: now_w_def run_rules)

lemma ParseWithClaims_signed:
  assumes "jwt_law l" "jl_sign l k cs = Inr t"
  shows "ParseWithClaims l now k t =
    (if claims_Valid now cs then Inr cs else Inl (NewErr ''token is expired or not valid yet''))"
  using assms by (auto simp: ParseWithClaims_def jwt_law_def)

text \<open>The time a call made in the world \<open>w\<close> reads, and the next one.\<close>

definition time_at :: "world \<Rightarrow> time" where "time_at w = clock w (ticks w)"

definition next_time :: "world \<Rightarrow> time" where "next_time w = clock w (Suc (ticks w))"

lemmas token_run = run_rules time_at_def next_time_def claim_str_def claim_num_def claims_Valid_def

text \<open>
  C9: the OAuth state lives ten minutes. A state the service issued is accepted from the time it
  was issued until 599 seconds later, and is refused from 600 seconds on (the claims count whole
  seconds).
\<close>
theorem yandex_state_lifetime:
  assumes "jwt_law l" and "fst (run_state (issue_yandex_state l s) w) = Ok t"
  shows "(next_time w \<le> time_at v \<and> time_at v \<le> time_at w + 599 * second \<longrightarrow>
      fst (run_state (verify_yandex_state l s t) v) = Ok ())
    \<and> (time_at w + 600 * second \<le> time_at v \<longrightarrow> (\<exists>e. fst (run_state (verify_yandex_state l s t) v) = Err e))"
proof -
  let ?cs = "[(''kind'', JStr yandex_oauth_state), (''exp'', JNum (unix (time_at w + 10 * 60 * second))),
              (''iat'', JNum (unix (next_time w)))]"
  have "jl_sign l (ts_secret s) ?cs = Inr t"
    using assms(2) by (auto simp: issue_yandex_state_def token_run split: sum.splits)
  from ParseWithClaims_signed [OF assms(1) this]
  have "fst (run_state (verify_yandex_state l s t) v) =
      (if claims_Valid (time_at v) ?cs then Ok () else Err (NewErr ''token is expired or not valid yet''))"
    by (simp add: verify_yandex_state_def run_rules time_at_def claim_str_def)
  moreover have "claims_Valid (time_at v) ?cs \<longleftrightarrow>
      time_at v < unix (time_at w + 600 * second) * second \<and> unix (next_time w) * second \<le> time_at v"
    by (simp add: claims_Valid_def claim_num_def)
  ultimately show ?thesis
    using unix_bounds [of "time_at w + 600 * second"] unix_bounds [of "next_time w"] by auto
qed

lemma ParseWithClaims_claims: "ParseWithClaims l now k t = Inr cs \<Longrightarrow> \<exists>h. jl_parse l t = Inr (h, cs)"
  by (auto simp: ParseWithClaims_def split: sum.splits prod.splits if_splits)

lemma verify_needs_kind:
  assumes "jwt_law l" "jl_sign l k cs = Inr t" "claim_str cs ''kind'' \<noteq> yandex_oauth_state"
  shows "fst (run_state (verify_yandex_state l s t) v) \<noteq> Ok ()"
proof -
  have "jl_parse l t = Inr (True, cs)" using assms(1,2) by (simp add: jwt_law_def)
  then show ?thesis
    using assms(3)
    by (auto simp: verify_yandex_state_def run_rules dest: ParseWithClaims_claims split: sum.splits)
qed

definition access_claims :: "token_service \<Rightarrow> user_account \<Rightarrow> time \<Rightarrow> time \<Rightarrow> claims" where
  "access_claims s u t1 t2 =
     [(''user_id'', JStr (uuid_String (ua_ID u))), (''email'', JStr (ua_Email u)),
      (''exp'', JNum (unix (t1 + jm_tokenDuration (ts_access s)))), (''iat'', JNum (unix t2)),
      (''iss'', JStr (ua_Email u))]"

definition refresh_claims :: "token_service \<Rightarrow> user_account \<Rightarrow> time \<Rightarrow> time \<Rightarrow> claims" where
  "refresh_claims s u t1 t2 =
     [(''user_id'', JStr (uuid_String (ua_ID u))), (''type'', JStr ''refresh''),
      (''exp'', JNum (unix (t1 + ts_refreshTTL s))), (''iat'', JNum (unix t2))]"

lemma IssueTokens_claims:
  assumes "fst (run_state (IssueTokens l s u) w) = Ok pair"
  obtains t1 t2 where
    "jl_sign l (jm_secretKey (ts_access s)) (access_claims s u (time_at w) (next_time w)) = Inr (tp_AccessToken pair)"
    "jl_sign l (ts_secret s) (refresh_claims s u t1 t2) = Inr (tp_RefreshToken pair)"
    "t1 = clock w (ticks w + 2)" "t2 = clock w (ticks w + 3)"
  using assms
  by (auto simp: IssueTokens_def Generate_def generateRefreshToken_def run_rules access_claims_def refresh_claims_def
      time_at_def next_time_def numeral_2_eq_2 numeral_3_eq_3 split: sum.splits outcome.splits prod.splits)

lemma issued_tokens_rejected:
  assumes "jwt_law l" and "fst (run_state (IssueTokens l s u) w) = Ok pair"
  shows "fst (run_state (verify_yandex_state l s' (tp_AccessToken pair)) v) \<noteq> Ok ()
    \<and> fst (run_state (verify_yandex_state l s' (tp_RefreshToken pair)) v) \<noteq> Ok ()"
proof (rule IssueTokens_claims [OF assms(2)])
  fix t1 t2
  assume a: "jl_sign l (jm_secretKey (ts_access s)) (access_claims s u (time_at w) (next_time w)) = Inr (tp_AccessToken pair)"
    and r: "jl_sign l (ts_secret s) (refresh_claims s u t1 t2) = Inr (tp_RefreshToken pair)"
  show ?thesis
    using verify_needs_kind [OF assms(1) a] verify_needs_kind [OF assms(1) r]
    by (simp add: access_claims_def refresh_claims_def claim_str_def yandex_oauth_state_def)
qed

text \<open>
  Tokens are not interchangeable with OAuth states: neither the access token nor the refresh
  token of IssueTokens is ever accepted by VerifyYandexState, although all three are signed with
  the same key.
\<close>
theorem issued_tokens_are_no_states:
  assumes "jwt_law l" and "fst (run_state (IssueTokens l s u) w) = Ok pair"
  shows "fst (run_state (verify_yandex_state l s' (tp_AccessToken pair)) v) \<noteq> Ok ()
    \<and> fst (run_state (verify_yandex_state l s' (tp_RefreshToken pair)) v) \<noteq> Ok ()"
  by (rule issued_tokens_rejected [OF assms])

text \<open>
  C10: Verify takes both tokens of a login. The access token verifies, with the user's id and
  e-mail, from its issue until its duration (less a second) has passed; and so does the refresh
  token, with the user's id and no e-mail, until the refresh lifetime has passed: the two share
  the key and Verify does not look at the type claim.
\<close>
theorem Verify_accepts_both_tokens:
  assumes "jwt_law l" and "fst (run_state (IssueTokens l (New_tokens k accessTTL refreshTTL) u) w) = Ok pair"
    and "\<And>n. n \<le> 3 \<Longrightarrow> clock w (ticks w + n) \<le> time_at v"
  shows "(time_at v \<le> time_at w + accessTTL - second \<longrightarrow>
       fst (run_state (Verify l (ts_access (New_tokens k accessTTL refreshTTL)) (tp_AccessToken pair)) v)
         = Ok \<lparr>cl_UserID = uuid_String (ua_ID u), cl_Email = ua_Email u\<rparr>)
    \<and> (time_at v \<le> clock w (ticks w + 2) + ts_refreshTTL (New_tokens k accessTTL refreshTTL) - second \<longrightarrow>
       fst (run_state (Verify l (ts_access (New_tokens k accessTTL refreshTTL)) (tp_RefreshToken pair)) v)
         = Ok \<lparr>cl_UserID = uuid_String (ua_ID u), cl_Email = []\<rparr>)"
proof (rule IssueTokens_claims [OF assms(2)])
  fix t1 t2
  let ?s = "New_tokens k accessTTL refreshTTL"
  assume a: "jl_sign l (jm_secretKey (ts_access ?s)) (access_claims ?s u (time_at w) (next_time w)) = Inr (tp_AccessToken pair)"
    and r: "jl_sign l (ts_secret ?s) (refresh_claims ?s u t1 t2) = Inr (tp_RefreshToken pair)"
    and t: "t1 = clock w (ticks w + 2)" "t2 = clock w (ticks w + 3)"
  have key: "jm_secretKey (ts_access ?s) = k" "ts_secret ?s = k" "jm_tokenDuration (ts_access ?s) = accessTTL"
    by (simp_all add: New_tokens_def)
  have "next_time w \<le> time_at v" "t2 \<le> time_at v"
    using assms(3) [of 1] assms(3) [of 3] t by (simp_all add: next_time_def)
  then have "time_at v \<le> time_at w + accessTTL - second \<longrightarrow>
      claims_Valid (time_at v) (access_claims ?s u (time_at w) (next_time w))"
    "time_at v \<le> t1 + ts_refreshTTL ?s - second \<longrightarrow> claims_Valid (time_at v) (refresh_claims ?s u t1 t2)"
    using key unix_bounds [of "time_at w + accessTTL"] unix_bounds [of "t1 + ts_refreshTTL ?s"]
      unix_bounds [of "next_time w"] unix_bounds [of t2]
    by (simp_all add: claims_Valid_def claim_num_def access_claims_def refresh_claims_def)
  with ParseWithClaims_signed [OF assms(1) a] ParseWithClaims_signed [OF assms(1) r] t show ?thesis
    by (simp add: Verify_def run_rules time_at_def key access_claims_def refresh_claims_def claim_str_def)
qed

section \<open>Examples\<close>

text \<open>A library that signs the claims of a table, and an account.\<close>

definition table_jwt :: "((string \<times> claims) \<times> string) list \<Rightarrow> jwt_lib" where
  "table_jwt tab =
     \<lparr>jl_sign = (\<lambda>k cs. case map_of tab (k, cs) of None \<Rightarrow> Inl (NewErr ''not in the table'') | Some t \<Rightarrow> Inr t),
      jl_parse = (\<lambda>t. case map_of (map (\<lambda>(x, t). (t, x)) tab) t of
         None \<Rightarrow> Inl (NewErr ''token is malformed'') | Some (k, cs) \<Rightarrow> Inr (True, cs)),
      jl_verify = (\<lambda>t k. case map_of (map (\<lambda>(x, t). (t, x)) tab) t of None \<Rightarrow> False | Some (k', cs) \<Rightarrow> k = k')\<rparr>"

lemma table_jwt_law:
  assumes "distinct (map snd tab)"
  shows "jwt_law (table_jwt tab)"
proof -
  have "map_of (map (\<lambda>(x, t). (t, x)) tab) t = Some x" if "map_of tab x = Some t" for x t
    using assms that by (auto simp: map_of_eq_Some_iff o_def case_prod_beta dest!: map_of_SomeD intro!: rev_image_eqI)
  then show ?thesis by (auto simp: jwt_law_def table_jwt_def split: option.splits)
qed

definition example_service :: token_service where
  "example_service = New_tokens ''secret'' (900 * second) 0"

definition example_account :: user_account where
  "example_account = \<lparr>ua_ID = 7, ua_Login = ''bob'', ua_Email = ''b@x'', ua_FirstName = ''B'', ua_LastName = ''C'',
     ua_Provider = AuthProviderPassword, ua_CreatedAt = 0, ua_UpdatedAt = 0\<rparr>"

definition example_table :: "((string \<times> claims) \<times> string) list" where
  "example_table =
     [((''secret'', access_claims example_service example_account 1000 1000), ''access''),
      ((''secret'', refresh_claims example_service example_account 1000 1000), ''refresh''),
      ((''secret'', [(''kind'', JStr yandex_oauth_state), (''exp'', JNum 600), (''iat'', JNum 0)]), ''state'')]"

definition world_at :: "time \<Rightarrow> world" where "world_at t = empty_world\<lparr>clock := \<lambda>_. t\<rparr>"

lemma example_sign:
  "jl_sign (table_jwt example_table) ''secret'' (access_claims example_service example_account 1000 1000) = Inr ''access''"
  "jl_sign (table_jwt example_table) ''secret'' (refresh_claims example_service example_account 1000 1000) = Inr ''refresh''"
  "jl_sign (table_jwt example_table) ''secret''
     [(''kind'', JStr yandex_oauth_state), (''exp'', JNum 600), (''iat'', JNum 0)] = Inr ''state''"
  by (simp_all add: table_jwt_def example_table_def access_claims_def refresh_claims_def)

lemma example_law: "jwt_law (table_jwt example_table)"
  by (rule table_jwt_law) (simp add: example_table_def)

lemma empty_clock: "clock empty_world = (\<lambda>_. 1000)" "clock (world_at t) = (\<lambda>_. t)"
  by (simp_all add: empty_world_def world_at_def)

lemma example_state:
  "fst (run_state (issue_yandex_state (table_jwt example_table) example_service) empty_world) = Ok ''state''"
proof -
  have "unix (1000 + 10 * 60 * second) = 600" "unix 1000 = 0" "ts_secret example_service = ''secret''"
    by (simp_all add: unix_def second_def example_service_def New_tokens_def)
  with example_sign(3) show ?thesis
    by (simp add: issue_yandex_state_def run_rules empty_clock)
qed

lemma example_pair:
  "fst (run_state (IssueTokens (table_jwt example_table) example_service example_account) empty_world)
     = Ok \<lparr>tp_AccessToken = ''access'', tp_RefreshToken = ''refresh''\<rparr>"
proof -
  have "jm_secretKey (ts_access example_service) = ''secret''" "ts_secret example_service = ''secret''"
    by (simp_all add: example_service_def New_tokens_def)
  with example_sign(1,2) show ?thesis
    by (simp add: IssueTokens_def Generate_def generateRefreshToken_def run_rules empty_clock
        access_claims_def refresh_claims_def)
qed

lemma yandex_state_lifetime_witness:
  "fst (run_state (verify_yandex_state (table_jwt example_table) example_service ''state'') (world_at (599 * second))) = Ok ()
   \<and> (\<exists>e. fst (run_state (verify_yandex_state (table_jwt example_table) example_service ''state'') (world_at (601 * second))) = Err e)"
  using yandex_state_lifetime [OF example_law example_state, of "world_at (599 * second)"]
    yandex_state_lifetime [OF example_law example_state, of "world_at (601 * second)"]
  by (simp add: time_at_def next_time_def empty_clock second_def)

lemma issued_tokens_are_no_states_witness:
  "fst (run_state (verify_yandex_state (table_jwt example_table) example_service ''refresh'') empty_world) \<noteq> Ok ()"
  using issued_tokens_are_no_states [OF example_law example_pair, of example_service empty_world] by simp

lemma Verify_accepts_both_tokens_witness:
  "fst (run_state (Verify (table_jwt example_table) (ts_access example_service) ''refresh'') (world_at (3600 * second)))
     = Ok \<lparr>cl_UserID = uuid_String 7, cl_Email = []\<rparr>"
proof -
  have "clock empty_world (ticks empty_world + n) \<le> time_at (world_at (3600 * second))" for n
    by (simp add: time_at_def empty_clock second_def)
  from Verify_accepts_both_tokens [OF example_law example_pair [unfolded example_service_def] this]
  show ?thesis
    by (simp add: time_at_def empty_clock second_def example_service_def New_tokens_def example_account_def)
qed

end
