(* ===== verification/YandexLogin.thy ===== *)
theory YandexLogin
  imports AuthService
begin

text \<open>
  internal/application/auth/service.go, completing a Yandex login: what the operation does to the
  stored entities, proved over the contracts of internal/ports.
\<close>

section \<open>What a login leaves\<close>

definition yandex_email :: "yandex_profile \<Rightarrow> store \<Rightarrow> user_account \<Rightarrow> bool" where
  "yandex_email p st u \<longleftrightarrow> u \<in> set (st_users st) \<and> ua_Email u = normalizeEmail (yp_Email p)"

definition yandex_account_of :: "yandex_profile \<Rightarrow> uuid \<Rightarrow> time \<Rightarrow> user_account" where
  "yandex_account_of p i now =
     new_account i (buildExternalLogin (yp_Login p) (yp_Subject p)) (normalizeEmail (yp_Email p))
       (yp_FirstName p) (yp_LastName p) AuthProviderYandexID now"

definition yandex_identity :: "yandex_profile \<Rightarrow> user_account \<Rightarrow> external_identity \<Rightarrow> bool" where
  "yandex_identity p u x \<longleftrightarrow> ei_Provider x = AuthProviderYandexID \<and> ei_Subject x = TrimSpace (yp_Subject p)
     \<and> ei_UserID x = ua_ID u"

text \<open>The identity is linked to the user of the e-mail address, or to a new one.\<close>

definition yandex_registered :: "'w auth_deps \<Rightarrow> yandex_profile \<Rightarrow> user_account \<Rightarrow> store \<Rightarrow> store \<Rightarrow> bool" where
  "yandex_registered s p u st st' \<longleftrightarrow>
     (\<exists>x. yandex_identity p u x \<and> \<not> dup_ident x st \<and>
        (yandex_email p st u \<and> st' = add_ident x st
         \<or> (\<forall>y. \<not> yandex_email p st y) \<and> \<not> dup_user u st \<and> (\<exists>i now. u = yandex_account_of p i now)
           \<and> (\<exists>m. outbox_for (ad_Runtime s) u m \<and> st' = add_ident x (add_outbox m (add_user u st)))))"

definition yandex_settled :: "'w auth_deps \<Rightarrow> yandex_profile \<Rightarrow> user_account \<Rightarrow> store \<Rightarrow> store \<Rightarrow> bool" where
  "yandex_settled s p u st st' \<longleftrightarrow>
     (\<exists>x\<in>set (st_idents st). ei_Provider x = AuthProviderYandexID \<and> ei_Subject x = yp_Subject p
        \<and> u \<in> set (st_users st) \<and> ua_ID u = ei_UserID x \<and> st' = st)
     \<or> yandex_registered s p u st st'"

definition callback_rel_yandex ::
  "'w auth_deps \<Rightarrow> yandex_profile \<Rightarrow> user_account \<Rightarrow> store \<Rightarrow> unit outcome \<Rightarrow> store \<Rightarrow> bool \<Rightarrow> bool" where
  "callback_rel_yandex s p u st r st' k \<longleftrightarrow>
     (case r of Ok _ \<Rightarrow> yandex_registered s p u st st' | _ \<Rightarrow> True)"

definition yandex_ends ::
  "('g, 'w) obs \<Rightarrow> 'w auth_deps \<Rightarrow> 'g \<Rightarrow> 'w \<Rightarrow> auth_result outcome \<Rightarrow> 'w \<Rightarrow> bool" where
  "yandex_ends b s g w r v \<longleftrightarrow>
     Inv b g v \<and> (Calm b w \<longrightarrow> Calm b v) \<and>
     (\<exists>sts. statuses (Journal b v) = statuses (Journal b w) @ map (Pair ''yandex_login'') sts \<and> length sts \<le> 1) \<and>
     (case r of
        Ok res \<Rightarrow> \<exists>p u t. yandex_settled s p u (View b w) (View b v) \<and> res = auth_result u t AuthProviderYandexID
      | Err e \<Rightarrow> View b v = View b w \<or> (\<exists>p u. yandex_registered s p u (View b w) (View b v))
      | Panic q \<Rightarrow> View b v = View b w)"

context auth_service
begin

lemma yandex_account_law:
  assumes i: "Inv b g w"
  shows "wp (yandex_account s c now p) (\<lambda>r v. unchanged b g w v \<and>
     (case r of
        Ok u \<Rightarrow> yandex_email p (View b w) u \<or> (\<forall>y. \<not> yandex_email p (View b w) y) \<and> (\<exists>i. u = yandex_account_of p i now)
      | _ \<Rightarrow> True)) w"
  unfolding yandex_account_def
proof (rule wp_callI [OF by_email [OF i]], goal_cases)
  case (2 e v)
  then have v: "unchanged b g w v" by simp
  show ?case
  proof (cases "errors_is e (Ports ErrNotFound)")
    case False
    with 2 show ?thesis by (simp add: wp_fail)
  next
    case True
    with 2 have none: "\<forall>y. \<not> yandex_email p (View b w) y"
      by (auto simp: found_def not_found_def yandex_email_def)
    have "wp (andThen (NewUUIDv7 (ad_Runtime s)) (\<lambda>i. ok (yandex_account_of p i now)))
      (\<lambda>r v. unchanged b g w v \<and>
     (case r of
        Ok u \<Rightarrow> yandex_email p (View b w) u \<or> (\<forall>y. \<not> yandex_email p (View b w) y) \<and> (\<exists>i. u = yandex_account_of p i now)
      | _ \<Rightarrow> True)) v"
      by (rule wp_andThenI [OF new_id [OF unchanged_Inv [OF v]]])
        (use none v in \<open>auto simp: wp_ok intro: unchanged_trans\<close>)
    with True show ?thesis by (simp add: yandex_account_of_def)
  qed
qed (auto simp: found_def wp_ok yandex_email_def)

lemma link_law:
  assumes i: "Inv b g w" and x: "yandex_identity p u x" and same: "st_idents (View b w) = st_idents st"
    and from_: "yandex_email p st u \<and> View b w = st
      \<or> (\<forall>y. \<not> yandex_email p st y) \<and> \<not> dup_user u st \<and> (\<exists>i now. u = yandex_account_of p i now)
        \<and> (\<exists>m. outbox_for (ad_Runtime s) u m \<and> View b w = add_outbox m (add_user u st))"
  shows "wp (ad_CreateIdentity s c x) (\<lambda>r v. Inv b g v \<and> Journal b v = Journal b w
     \<and> callback_rel_yandex s p u st r (View b v) k) w"
proof (rule wp_conseq [OF create_identity [OF i]], goal_cases)
  case (1 r v)
  have "dup_ident x (View b w) = dup_ident x st" using same by (simp add: dup_ident_def)
  then have "yandex_registered s p u st (add_ident x (View b w))" if "\<not> dup_ident x (View b w)"
    unfolding yandex_registered_def using that x from_ by (intro exI [of _ x]) metis
  with 1 show ?case
    by (auto simp: created_def callback_rel_yandex_def split: outcome.splits)
qed

lemma yandex_tx_law:
  assumes i: "Inv b g w" and x: "yandex_identity p u x"
    and u: "yandex_email p (View b w) u
      \<or> (\<forall>y. \<not> yandex_email p (View b w) y) \<and> (\<exists>i. u = yandex_account_of p i now)"
  shows "wp (yandex_tx s now u x c) (\<lambda>r v. Inv b g v \<and> Journal b v = Journal b w
     \<and> callback_rel_yandex s p u (View b w) r (View b v) k) w"
proof (cases "ua_CreatedAt u = now")
  case False
  with u have "yandex_email p (View b w) u" by (auto simp: yandex_account_of_def new_account_def)
  with False link_law [OF i x, of "View b w"] show ?thesis
    by (simp add: yandex_tx_def wp_andThen wp_ok)
next
  case True
  show ?thesis
    unfolding yandex_tx_def if_P [OF True]
  proof (rule wp_andThenI [where P = "\<lambda>r v. Inv b g v \<and> Journal b v = Journal b w \<and>
      (case r of Ok _ \<Rightarrow> \<not> dup_user u (View b w) \<and>
          (\<exists>m. outbox_for (ad_Runtime s) u m \<and> View b v = add_outbox m (add_user u (View b w))) | _ \<Rightarrow> True)"],
      goal_cases)
    case 1
    show ?case
    proof (rule wp_andThenI [OF create_user_mapped [OF i]], goal_cases)
      case (1 _ v1)
      then have v1: "Inv b g v1" "Journal b v1 = Journal b w" "View b v1 = add_user u (View b w)" "\<not> dup_user u (View b w)"
        by auto
      show ?case
      proof (rule wp_andThenI [OF new_outbox [OF v1(1)]], goal_cases)
        case (1 m v2)
        then have v2: "Inv b g v2" "Journal b v2 = Journal b w" "View b v2 = add_user u (View b w)"
          using v1 by (auto simp: unchanged_def)
        show ?case
        proof (cases m)
          case None
          show ?thesis unfolding None
            by (rule wp_conseq [OF create_nil [OF v2(1)]]) (use v2 in \<open>auto simp: unchanged_def\<close>)
        next
          case (Some msg)
          with 1 have "outbox_for (ad_Runtime s) u msg" by simp
          then show ?thesis unfolding Some
            by (intro wp_conseq [OF create_outbox [OF v2(1)]])
              (use v1 v2 in \<open>auto simp: created_def split: outcome.splits\<close>)
        qed
      qed (use v1 in \<open>auto simp: unchanged_def\<close>)
    qed auto
  next
    case (2 _ v)
    then obtain m where v: "Inv b g v" "Journal b v = Journal b w" "\<not> dup_user u (View b w)"
      "outbox_for (ad_Runtime s) u m" "View b v = add_outbox m (add_user u (View b w))"
      by auto
    then have "\<not> yandex_email p (View b w) u" by (auto simp: dup_user_def yandex_email_def)
    with u have new: "\<forall>y. \<not> yandex_email p (View b w) y" "\<exists>i now. u = yandex_account_of p i now" by auto
    show ?case
      by (rule wp_conseq [OF link_law [OF v(1) x, of "View b w" c k]])
        (use v new in \<open>auto simp: add_defs\<close>)
  qed (auto simp: callback_rel_yandex_def)
qed

text \<open>Registration through Yandex: linked, or nothing stored unless the answer to COMMIT was lost.\<close>

lemma registerYandexUser_law:
  assumes i: "Inv b g w" and out: "Outside b g"
  shows "wp (registerYandexUser s c p) (\<lambda>r v. Inv b g v \<and> Journal b v = Journal b w \<and> (Calm b w \<longrightarrow> Calm b v) \<and>
     (case r of
        Ok u \<Rightarrow> yandex_registered s p u (View b w) (View b v)
      | Err e \<Rightarrow> View b v = View b w \<or> lost_answer e \<and> (\<exists>u. yandex_registered s p u (View b w) (View b v))
      | Panic q \<Rightarrow> View b v = View b w)) w"
  unfolding registerYandexUser_def
proof (rule wp_bindI [OF now_law [OF i]], rule wp_andThenI [OF yandex_account_law], erule unchanged_Inv, goal_cases)
  case (1 now v0 u v1)
  then have v1: "unchanged b g w v1" by (auto intro: unchanged_trans)
  have u: "yandex_email p (View b w) u \<or> (\<forall>y. \<not> yandex_email p (View b w) y) \<and> (\<exists>i. u = yandex_account_of p i now)"
    using 1 by (auto simp: unchanged_def)
  show ?case
  proof (rule wp_andThenI [OF new_id [OF unchanged_Inv [OF v1]]], goal_cases)
    case (1 j v2)
    let ?x = "\<lparr>ei_ID = j, ei_UserID = ua_ID u, ei_Provider = AuthProviderYandexID,
                ei_Subject = TrimSpace (yp_Subject p), ei_CreatedAt = now, ei_UpdatedAt = now\<rparr>"
    have v2: "unchanged b g w v2" using 1 v1 by (auto intro: unchanged_trans)
    then have vw: "View b v2 = View b w" "Journal b v2 = Journal b w" "Calm b w \<longrightarrow> Calm b v2"
      by (auto simp: unchanged_def)
    have x: "yandex_identity p u ?x" by (simp add: yandex_identity_def)
    have cb: "wp (yandex_tx s now u ?x tc) (\<lambda>r v'. Inv b g' v' \<and> Journal b v' = Journal b z
         \<and> callback_rel_yandex s p u (View b w) r (View b v') (Calm b v')) z"
      if "Inv b g' z" "View b z = View b v2" for g' tc z
      by (rule wp_conseq [OF yandex_tx_law [OF that(1) x]]) (use that(2) vw u in \<open>auto simp: callback_rel_yandex_def\<close>)
    show ?case
      unfolding Let_def
      by (rule wp_andThenI [OF do_law [OF unchanged_Inv [OF v2] out cb]])
        (use vw in \<open>auto simp: tx_done_def callback_rel_yandex_def wp_ok\<close>)
  qed (use v1 in \<open>auto simp: unchanged_def\<close>)
qed (auto simp: unchanged_def)

lemma reject_yandex:
  assumes "Inv b g v" "Calm b w \<longrightarrow> Calm b v" "statuses (Journal b v) = statuses (Journal b w)"
    "View b v = View b w \<or> (\<exists>p u. yandex_registered s p u (View b w) (View b v))"
  shows "wp (reject s ''yandex_login'' st t e res) (yandex_ends b s g w) v"
  by (rule wp_conseq [OF rejected [OF assms(1)]])
    (use assms in \<open>auto simp: recorded_def yandex_ends_def intro!: exI [of _ "[st]"]\<close>)

lemma span_fail:
  assumes "Inv b g v" "Calm b w \<longrightarrow> Calm b v" "statuses (Journal b v) = statuses (Journal b w)" "View b v = View b w"
  shows "wp (after (recordSpanError s e) (fail e)) (yandex_ends b s g w) v"
  unfolding recordSpanError_def
  by (rule wp_afterI [OF emitted [OF assms(1)]])
    (use assms in \<open>auto simp: recorded_def yandex_ends_def wp_fail intro!: exI [of _ "[]"]\<close>)

lemma yandex_success:
  assumes "Inv b g v" "Calm b w \<longrightarrow> Calm b v" "statuses (Journal b v) = statuses (Journal b w)"
    "yandex_settled s p u (View b w) (View b v)"
  shows "wp (after (emit s (SpanOk msg)) (after (observe s ''yandex_login'' st t)
      (ok (auth_result u tok AuthProviderYandexID)))) (yandex_ends b s g w) v"
  apply (rule wp_afterI [OF emitted [OF assms(1)]], simp)
  apply (rule wp_afterI, rule observed, erule recorded_Inv)
  using assms(2-4) apply (auto simp: wp_ok yandex_ends_def recorded_def intro!: exI [of _ "[st]"])
  done

lemma complete_existing_law:
  fixes p :: yandex_profile
  assumes v: "unchanged b g w v"
    and x: "x \<in> set (st_idents (View b w))" "ei_Provider x = AuthProviderYandexID" "ei_Subject x = yp_Subject p"
  shows "wp (complete_existing s c t x) (yandex_ends b s g w) v"
  unfolding complete_existing_def
proof (rule wp_callI [OF by_id [OF unchanged_Inv [OF v]]], goal_cases)
  case (1 u v1)
  then have v1: "unchanged b g w v1" and u: "u \<in> set (st_users (View b w))" "ua_ID u = ei_UserID x"
    using v by (auto simp: found_def unchanged_def)
  have ok: "yandex_settled s p u (View b w) (View b w)" using x u by (auto simp: yandex_settled_def)
  show ?case
    unfolding sum.case
    by (rule wp_callI [OF tokens_law [OF unchanged_Inv [OF v1]]])
      (use v1 ok in \<open>auto simp: unchanged_def intro!: span_fail yandex_success [where p = p]\<close>)
qed (use v in \<open>auto simp: found_def unchanged_def intro!: span_fail\<close>)

lemma complete_new_law:
  assumes v: "unchanged b g w v" and out: "Outside b g"
  shows "wp (complete_new s c t p) (yandex_ends b s g w) v"
proof -
  have vw: "View b v = View b w" "Journal b v = Journal b w" "Calm b w \<longrightarrow> Calm b v"
    using v by (auto simp: unchanged_def)
  show ?thesis
    unfolding complete_new_def
  proof (rule wp_callI [OF registerYandexUser_law [OF unchanged_Inv [OF v] out]], goal_cases)
    case (1 u z)
    then have z: "Inv b g z" "Journal b z = Journal b w" "Calm b w \<longrightarrow> Calm b z"
        "yandex_registered s p u (View b w) (View b z)" using vw by auto
    show ?case
      unfolding sum.case
      by (rule wp_callI [OF tokens_law [OF z(1)]])
        (use z in \<open>auto simp: unchanged_def yandex_settled_def intro!: reject_yandex yandex_success [where p = p]\<close>)
  next
    case (2 e z)
    with vw show ?case by (auto intro!: reject_yandex)
  next
    case (3 q z)
    with vw show ?case by (auto simp: yandex_ends_def)
  qed
qed

lemma complete_reject:
  "unchanged b g w v \<Longrightarrow> wp (reject s ''yandex_login'' st t e res) (yandex_ends b s g w) v"
  by (intro reject_yandex) (auto simp: unchanged_def)

lemma complete_nil: "unchanged b g w v \<Longrightarrow> wp (panic nil_deref) (yandex_ends b s g w) v"
  by (auto simp: wp_panic yandex_ends_def unchanged_def)

lemma complete_profile_law:
  assumes v: "unchanged b g w v" and out: "Outside b g"
  shows "wp (complete_profile s c t p) (yandex_ends b s g w) v"
proof (cases "TrimSpace (yp_Subject p) = [] \<or> TrimSpace (yp_Email p) = []")
  case True
  with complete_reject [OF v] show ?thesis by (simp add: complete_profile_def)
next
  case False
  show ?thesis
    unfolding complete_profile_def if_not_P [OF False]
  proof (rule wp_callI [OF by_subject [OF unchanged_Inv [OF v]]], goal_cases)
    case (1 x z)
    with v have "unchanged b g w z" "x \<in> set (st_idents (View b w))"
      "ei_Provider x = AuthProviderYandexID" "ei_Subject x = yp_Subject p"
      by (auto simp: found_def unchanged_def)
    then show ?case unfolding sum.case by (rule complete_existing_law)
  next
    case (2 e z)
    with v have "unchanged b g w z" by (auto intro: unchanged_trans)
    with complete_reject complete_new_law [OF _ out] show ?case by simp
  next
    case (3 q z)
    then show ?case by (simp add: found_def)
  qed
qed

lemma complete_exchange_law:
  assumes v: "unchanged b g w v" and out: "Outside b g"
  shows "wp (complete_exchange s c t code) (yandex_ends b s g w) v"
proof (cases "ad_Yandex s")
  case None
  with complete_nil [OF v] show ?thesis by (simp add: complete_exchange_def)
next
  case (Some y)
  show ?thesis
    unfolding complete_exchange_def Some option.case
    by (rule wp_callI [OF exchange_law [OF Some unchanged_Inv [OF v]]])
      (use complete_reject unchanged_trans [OF v] complete_profile_law [OF _ out] in auto)
qed

lemma CompleteYandexLogin_law:
  assumes i: "Inv b g w" and out: "Outside b g"
  shows "wp (CompleteYandexLogin s c input) (yandex_ends b s g w) w"
  unfolding CompleteYandexLogin_def
proof (rule wp_bindI [OF now_law [OF i]], goal_cases)
  case (1 t v)
  have "wp (call (VerifyYandexState st (yi_State input)) (\<lambda>r. case r of
            Inl e \<Rightarrow> reject s ''yandex_login'' ''invalid_state'' t e e
          | Inr _ \<Rightarrow> complete_exchange s c t (yi_Code input))) (yandex_ends b s g w) v"
    if st: "ad_StateTokens s = Some st" for st
    by (rule wp_callI [OF verify_law [OF st unchanged_Inv [OF 1]]])
      (use complete_reject unchanged_trans [OF 1] complete_exchange_law [OF _ out] in auto)
  with complete_reject [OF 1] complete_nil [OF 1] show ?case by (simp split: option.split)
qed

end

end
