(* ===== verification/TxManager.thy ===== *)
theory TxManager
  imports World
begin

text \<open>
  pkg/transaction-manager: the choice between the transaction of the context and a connection
  of a pool (ctx-manager.go), the execution of a callback in a transaction (manager.go) with
  its metrics (metrics.go) and options (options.go).
\<close>

section \<open>metrics.go\<close>

datatype tx_access_mode = AccessDefault | ReadOnly | ReadWrite
datatype tx_iso_level = IsoDefault | Serializable | RepeatableRead | ReadCommitted | ReadUncommitted

record tx_options =
  IsoLevel :: tx_iso_level
  AccessMode :: tx_access_mode

record tx_meta =
  tm_method :: string
  tm_accessMode :: string
  tm_isolation :: string

definition newDoMeta :: tx_meta where
  "newDoMeta = \<lparr>tm_method = ''do'', tm_accessMode = ''read_write'', tm_isolation = ''default''\<rparr>"

fun accessModeString :: "tx_access_mode \<Rightarrow> string" where
  "accessModeString ReadOnly = ''read_only''"
| "accessModeString ReadWrite = ''read_write''"
| "accessModeString AccessDefault = ''default''"

fun isolationLevelString :: "tx_iso_level \<Rightarrow> string" where
  "isolationLevelString Serializable = ''serializable''"
| "isolationLevelString RepeatableRead = ''repeatable_read''"
| "isolationLevelString ReadCommitted = ''read_committed''"
| "isolationLevelString ReadUncommitted = ''read_uncommitted''"
| "isolationLevelString IsoDefault = ''default''"

definition newDoxMeta :: "tx_options \<Rightarrow> tx_meta" where
  "newDoxMeta opts = \<lparr>tm_method = ''dox'', tm_accessMode = accessModeString (AccessMode opts),
                      tm_isolation = isolationLevelString (IsoLevel opts)\<rparr>"

definition meta_labels :: "tx_meta \<Rightarrow> string list" where
  "meta_labels m = [tm_method m, tm_accessMode m, tm_isolation m]"

definition IncActive :: "tx_meta \<Rightarrow> (world, unit) state" where
  "IncActive m = modify (active_tx_update (\<lambda>g. g(meta_labels m := g (meta_labels m) + 1)))"

definition DecActive :: "tx_meta \<Rightarrow> (world, unit) state" where
  "DecActive m = modify (active_tx_update (\<lambda>g. g(meta_labels m := g (meta_labels m) - 1)))"

definition Observe :: "tx_meta \<Rightarrow> string \<Rightarrow> time \<Rightarrow> (world, unit) state" where
  "Observe m outc startedAt = do {
     _ \<leftarrow> emit_w (Metric ''transactions_total'' [tm_method m, outc, tm_accessMode m, tm_isolation m]);
     now \<leftarrow> now_w;
     emit_w (Sample ''transaction_duration_seconds''
       [tm_method m, outc, tm_accessMode m, tm_isolation m] (now - startedAt)) }"

text \<open>
  The three \<open>mustRegister\<close> functions differ in the type of the collector. \<open>existing\<close> is the
  collector an AlreadyRegisteredError carries, with the kind it has.
\<close>

datatype collector_kind = CounterVec | GaugeVec | HistogramVec | OtherCollector

datatype 'c register_result =
    Registered
  | AlreadyRegistered collector_kind 'c
  | RegisterFailed string

definition mustRegister :: "collector_kind \<Rightarrow> ('c \<Rightarrow> 'c register_result) \<Rightarrow> 'c \<Rightarrow> 'c outcome" where
  "mustRegister kind register collector =
     (case register collector of
        Registered \<Rightarrow> Ok collector
      | AlreadyRegistered k existing \<Rightarrow>
          (if k = kind then Ok existing
           else Panic ''duplicate metrics collector registration attempted'')
      | RegisterFailed e \<Rightarrow> Panic e)"

definition mustRegisterCounterVec :: "('c \<Rightarrow> 'c register_result) \<Rightarrow> 'c \<Rightarrow> 'c outcome" where
  "mustRegisterCounterVec = mustRegister CounterVec"

definition mustRegisterGaugeVec :: "('c \<Rightarrow> 'c register_result) \<Rightarrow> 'c \<Rightarrow> 'c outcome" where
  "mustRegisterGaugeVec = mustRegister GaugeVec"

definition mustRegisterHistogramVec :: "('c \<Rightarrow> 'c register_result) \<Rightarrow> 'c \<Rightarrow> 'c outcome" where
  "mustRegisterHistogramVec = mustRegister HistogramVec"

section \<open>options.go\<close>

record ('l, 'r) tx_mgr_options =
  to_log :: "'l option"
  to_registerer :: "'r option"

definition WithLogger :: "'l option \<Rightarrow> ('l, 'r) tx_mgr_options \<Rightarrow> ('l, 'r) tx_mgr_options" where
  "WithLogger l opts = opts\<lparr>to_log := l\<rparr>"

definition WithRegisterer :: "'r option \<Rightarrow> ('l, 'r) tx_mgr_options \<Rightarrow> ('l, 'r) tx_mgr_options" where
  "WithRegisterer r opts = opts\<lparr>to_registerer := r\<rparr>"

text \<open>\<open>deflt\<close> is the process-wide logger if one is set, \<open>fallback\<close> the result of making one.\<close>

definition resolveLogger :: "'l option \<Rightarrow> 'l outcome \<Rightarrow> 'l option \<Rightarrow> 'l outcome" where
  "resolveLogger deflt fallback log =
     (case log of Some l \<Rightarrow> Ok l
      | None \<Rightarrow>
          (case deflt of Some l \<Rightarrow> Ok l
           | None \<Rightarrow> (case fallback of Err e \<Rightarrow> Panic (err_text e) | r \<Rightarrow> r)))"

definition buildOptions ::
  "'l option \<Rightarrow> 'l outcome \<Rightarrow> 'r \<Rightarrow>
   (('l, 'r) tx_mgr_options \<Rightarrow> ('l, 'r) tx_mgr_options) option list \<Rightarrow>
   ('l, 'r) tx_mgr_options outcome" where
  "buildOptions deflt fallback registerer opts =
     (case resolveLogger deflt fallback None of
        Panic p \<Rightarrow> Panic p
      | Err e \<Rightarrow> Err e
      | Ok l \<Rightarrow>
          (let resolved = fold (\<lambda>opt o'. case opt of None \<Rightarrow> o' | Some f \<Rightarrow> f o') opts
                            \<lparr>to_log = Some l, to_registerer = Some registerer\<rparr> in
           case resolveLogger deflt fallback (to_log resolved) of
             Panic p \<Rightarrow> Panic p
           | Err e \<Rightarrow> Err e
           | Ok l' \<Rightarrow> Ok (resolved\<lparr>to_log := Some l'\<rparr>)))"

section \<open>ctx-manager.go\<close>

definition MasterConnection :: "(world, unit) go" where
  "MasterConnection = acquire"

definition ReadOnlyConnection :: "(world, unit) go" where
  "ReadOnlyConnection = acquire"

definition no_close :: "(world, unit) state" where
  "no_close = State_Monad.return ()"

definition getConnectionOrTx ::
  "ctx \<Rightarrow> string \<Rightarrow> (world, unit) go \<Rightarrow> (world, executor \<times> (world, unit) state) go" where
  "getConnectionOrTx c source connectionProvider =
     (case TxValue c of
        Some v \<Rightarrow>
          after (emit_w (LogLine ''debug'' ''Using transaction executor from context'')) (ok (v, no_close))
      | None \<Rightarrow>
          call connectionProvider (\<lambda>r. case r of
            Inl e \<Rightarrow> after (emit_w (LogLine ''error'' ''Failed to acquire executor connection'')) (fail e)
          | Inr _ \<Rightarrow>
              after (emit_w (LogLine ''debug'' ''Acquired executor connection''))
                (ok (ConnExec, release))))"

definition GetDefaultOrTx :: "ctx \<Rightarrow> (world, executor \<times> (world, unit) state) go" where
  "GetDefaultOrTx c = getConnectionOrTx c ''master'' MasterConnection"

definition GetReadOnlyOrTx :: "ctx \<Rightarrow> (world, executor \<times> (world, unit) state) go" where
  "GetReadOnlyOrTx c = getConnectionOrTx c ''read_only'' ReadOnlyConnection"

section \<open>manager.go\<close>

text \<open>A deferred function that recovers a panic of \<open>m\<close> and handles it with \<open>h\<close>.\<close>

definition recovering :: "('w, 'a) go \<Rightarrow> (string \<Rightarrow> ('w, 'a) go) \<Rightarrow> ('w, 'a) go" where
  "recovering m h = do { r \<leftarrow> m; (case r of Panic p \<Rightarrow> h p | _ \<Rightarrow> State_Monad.return r) }"

record tx_manager =
  tx_pool :: bool

definition beginTransaction :: "tx_options option \<Rightarrow> (world, unit) go" where
  "beginTransaction opts = (case opts of None \<Rightarrow> begin_tx | Some o' \<Rightarrow> begin_tx)"

definition tx_ctx :: "ctx \<Rightarrow> ctx" where
  "tx_ctx c = c\<lparr>TxValue := Some TxExec\<rparr>"

definition rollback_failed :: "err + unit \<Rightarrow> err option" where
  "rollback_failed r = (case r of Inl e \<Rightarrow> if errors_is e (Lib PgxErrTxClosed) then None else Some e
                        | Inr _ \<Rightarrow> None)"

text \<open>
  A callback's result stands for what it assigns to the variables it captures before it
  returns nil (\<open>unit\<close> when there are none).
\<close>

definition run_callback :: "tx_meta \<Rightarrow> time \<Rightarrow> ctx \<Rightarrow> (ctx \<Rightarrow> (world, 'a) go) \<Rightarrow> (world, 'a) go" where
  "run_callback meta startedAt c fn =
     call (fn (tx_ctx c)) (\<lambda>r. case r of
       Inl e \<Rightarrow>
         after (emit_w (LogLine ''warn'' ''Transaction callback returned error, rolling back''))
           (call rollback_tx (\<lambda>rb. case rollback_failed rb of
              Some rollbackErr \<Rightarrow>
                after (emit_w (LogLine ''error'' ''Failed to rollback transaction''))
                  (after (Observe meta ''rollback_failed'' startedAt)
                    (fail (Wrapped (err_text rollbackErr @ '': '' @ err_text e) [e])))
            | None \<Rightarrow> after (Observe meta ''rolled_back'' startedAt) (fail e)))
     | Inr x \<Rightarrow>
         call commit_tx (\<lambda>cr. case cr of
           Inl e \<Rightarrow>
             after (emit_w (LogLine ''error'' ''Failed to commit transaction''))
               (after (Observe meta ''commit_failed'' startedAt) (fail e))
         | Inr _ \<Rightarrow>
             after (emit_w (LogLine ''debug'' ''Transaction committed''))
               (after (Observe meta ''committed'' startedAt) (ok x))))"

definition rollback_on_panic :: "tx_meta \<Rightarrow> time \<Rightarrow> string \<Rightarrow> (world, 'a) go" where
  "rollback_on_panic meta startedAt recovered =
     call rollback_tx (\<lambda>rb. case rollback_failed rb of
       Some rollbackErr \<Rightarrow>
         after (emit_w (LogLine ''error'' ''Failed to rollback transaction after panic''))
           (after (Observe meta ''panic_rollback_failed'' startedAt) (panic recovered))
     | None \<Rightarrow>
         after (emit_w (LogLine ''warn'' ''Rolled back transaction after panic''))
           (after (Observe meta ''panic_rolled_back'' startedAt) (panic recovered)))"

definition execute ::
  "tx_manager \<Rightarrow> ctx \<Rightarrow> tx_meta \<Rightarrow> tx_options option \<Rightarrow> (ctx \<Rightarrow> (world, 'a) go) \<Rightarrow> (world, 'a) go" where
  "execute t c meta opts fn = do {
     startedAt \<leftarrow> now_w;
     (if \<not> tx_pool t then
        after (emit_w (LogLine ''error'' ''Failed to execute transaction''))
          (after (Observe meta ''pool_missing'' startedAt)
            (fail (NewErr ''transaction manager pool is nil'')))
      else
        after (emit_w (LogLine ''debug'' ''Acquiring master connection for transaction''))
          (call MasterConnection (\<lambda>r. case r of
             Inl e \<Rightarrow>
               after (emit_w (LogLine ''error'' ''Failed to acquire master connection for transaction''))
                 (after (Observe meta ''acquire_connection_failed'' startedAt) (fail e))
           | Inr _ \<Rightarrow>
               deferred
                 (call (beginTransaction opts) (\<lambda>b. case b of
                    Inl e \<Rightarrow>
                      after (emit_w (LogLine ''error'' ''Failed to begin transaction''))
                        (after (Observe meta ''begin_failed'' startedAt) (fail e))
                  | Inr _ \<Rightarrow>
                      after (IncActive meta)
                        (deferred
                          (after (emit_w (LogLine ''debug'' ''Transaction started''))
                            (recovering (run_callback meta startedAt c fn)
                              (rollback_on_panic meta startedAt)))
                          (DecActive meta))))
                 release))) }"

definition Do :: "tx_manager \<Rightarrow> ctx \<Rightarrow> (ctx \<Rightarrow> (world, 'a) go) \<Rightarrow> (world, 'a) go" where
  "Do t c fn = execute t c newDoMeta None fn"

definition Dox :: "tx_manager \<Rightarrow> ctx \<Rightarrow> (ctx \<Rightarrow> (world, 'a) go) \<Rightarrow> tx_options \<Rightarrow> (world, 'a) go" where
  "Dox t c fn opts = execute t c (newDoxMeta opts) (Some opts) fn"

section \<open>What the transaction manager promises\<close>

lemma wp_Observe [wp_rules]:
  "wp (Observe m outc t) Q w =
   Q () (events_update (\<lambda>es. es @ [Sample ''transaction_duration_seconds''
            [tm_method m, outc, tm_accessMode m, tm_isolation m] (clock w (ticks w) - t)])
          (ticks_update Suc (events_update (\<lambda>es. es @ [Metric ''transactions_total''
            [tm_method m, outc, tm_accessMode m, tm_isolation m]]) w)))"
  by (simp add: Observe_def wp_rules)

lemma wp_recovering:
  "wp (recovering m h) Q w =
   wp m (\<lambda>r. case r of Panic p \<Rightarrow> wp (h p) Q | _ \<Rightarrow> Q r) w"
  unfolding recovering_def wp_bind
  by (rule arg_cong [where f = "\<lambda>P. wp m P w"]) (auto simp: wp_rules fun_eq_iff split: outcome.splits)

text \<open>
  \<open>alike u w\<close>: only the tables, the transaction, the clock and the log may differ.
  \<open>ended\<close>: the transaction is over and one outcome is counted.
\<close>

definition alike :: "world \<Rightarrow> world \<Rightarrow> bool" where
  "alike u w \<longleftrightarrow> held_conns w = held_conns u \<and> active_tx w = active_tx u \<and> faults w = faults u
     \<and> locked_elsewhere w = locked_elsewhere u \<and> uuid_source w = uuid_source u \<and> tx_events w = tx_events u \<and> svc_events w = svc_events u"

definition counted :: "string \<Rightarrow> event list \<Rightarrow> event list \<Rightarrow> bool" where
  "counted outc es fs \<longleftrightarrow> (\<exists>m a i t.
     fs = es @ [Metric ''transactions_total'' [m, outc, a, i],
                Sample ''transaction_duration_seconds'' [m, outc, a, i] t])"

lemma counted_append [simp]:
  "counted outc es (es @ [Metric ''transactions_total'' [m, x, a, i],
     Sample ''transaction_duration_seconds'' [m, x, a, i] t]) \<longleftrightarrow> outc = x"
  by (auto simp: counted_def)

definition ended :: "world \<Rightarrow> bool \<Rightarrow> world \<Rightarrow> bool" where
  "ended w committed v \<longleftrightarrow>
     saved v = None \<and> held_conns v = held_conns w \<and> active_tx v = active_tx w \<and>
     faults v = faults w \<and> locked_elsewhere v = locked_elsewhere w \<and> uuid_source v = uuid_source w \<and> (aborted v \<longrightarrow> aborted w) \<and>
     svc_events v = svc_events w \<and>
     (\<exists>outc. counted outc (tx_events w) (tx_events v) \<and> (outc = ''committed'') = committed)"

lemma wp_log:
  assumes "\<And>v. tables v = tables w \<Longrightarrow> saved v = saved w \<Longrightarrow> aborted v = aborted w \<Longrightarrow> alike w v \<Longrightarrow> wp res Q v"
  shows "wp (after (emit_w (LogLine level msg)) res) Q w"
  unfolding wp_rules by (rule assms) (simp_all add: alike_def events_defs)

lemma wp_ending:
  assumes "saved w = None" "aborted w \<longrightarrow> aborted u" "alike u w"
    and "\<And>v. tables v = tables w \<Longrightarrow> aborted v = aborted w \<Longrightarrow> ended u (outc = ''committed'') v \<Longrightarrow> wp res Q v"
  shows "wp (after (Observe meta outc t) res) Q w"
  unfolding wp_rules using assms(1-3)
  by (intro assms(4)) (simp_all add: alike_def ended_def events_defs counted_def)

lemma wp_commit_tx:
  assumes "saved w = Some d"
    and "\<And>r v. saved v = None \<Longrightarrow> aborted v = False \<Longrightarrow> alike w v \<Longrightarrow>
            (case r of Ok _ \<Rightarrow> tables v = tables w
             | Err e \<Rightarrow> lost_answer e \<and> \<not> calm w \<and> (tables v = d \<or> tables v = tables w)
             | Panic p \<Rightarrow> False) \<Longrightarrow> Q r v"
  shows "wp commit_tx Q w"
proof (cases "calm w")
  case True
  with assms show ?thesis
    by (simp add: commit_tx_def wp_rules keep_tx_def events_defs alike_def calm_def)
next
  case False
  with assms show ?thesis
    by (simp add: commit_tx_def wp_rules undo_tx_def keep_tx_def events_defs alike_def lost_answer_def
        split: option.split fault.split)
qed

lemma wp_rollback_tx:
  assumes "saved w = Some d"
    and "\<And>r v. saved v = None \<Longrightarrow> aborted v = False \<Longrightarrow> alike w v \<Longrightarrow> tables v = d \<Longrightarrow>
            (case r of Ok _ \<Rightarrow> True | Err e \<Rightarrow> lost_answer e | Panic p \<Rightarrow> False) \<Longrightarrow> Q r v"
  shows "wp rollback_tx Q w"
  using assms by (simp add: rollback_tx_def wp_rules undo_tx_def events_defs alike_def split: option.split)

text \<open>
  \<open>R\<close> is what the callback promises of its result, the tables it leaves, and whether the world
  is still calm; \<open>d\<close> are the tables at the start of the transaction.
\<close>

type_synonym 'a callback_rel = "'a outcome \<Rightarrow> db \<Rightarrow> bool \<Rightarrow> bool"

definition came_from :: "'a callback_rel \<Rightarrow> err \<Rightarrow> bool" where
  "came_from R e \<longleftrightarrow> (\<exists>e' d b. (e = e' \<or> (\<exists>m. e = Wrapped m [e'])) \<and> R (Err e') d b)"

lemma came_fromI: "R (Err e) d b \<Longrightarrow> came_from R e" "R (Err e) d b \<Longrightarrow> came_from R (Wrapped m [e])"
  by (auto simp: came_from_def)

lemma came_fromE:
  assumes "came_from R e"
  obtains e' d b where "R (Err e') d b" "\<And>s. errors_is e s = errors_is e' s"
  using assms by (auto simp: came_from_def)

definition panicked :: "'a callback_rel \<Rightarrow> string \<Rightarrow> bool" where
  "panicked R p \<longleftrightarrow> (\<exists>d b. R (Panic p) d b)"

lemma panickedI: "R (Panic p) d b \<Longrightarrow> panicked R p"
  by (auto simp: panicked_def)

definition callback_post ::
  "bool \<Rightarrow> db \<Rightarrow> 'a callback_rel \<Rightarrow> world \<Rightarrow> 'a outcome \<Rightarrow> world \<Rightarrow> bool" where
  "callback_post fine d R w r v =
     (case r of
        Ok x \<Rightarrow> ended w True v \<and> (\<exists>b. R (Ok x) (tables v) b)
      | Err e \<Rightarrow> ended w False v \<and>
           (tables v = d \<and> (came_from R e \<or> lost_answer e \<and> (\<not> fine \<or> (\<exists>x d'. R (Ok x) d' False)))
            \<or> lost_answer e \<and> (\<exists>x. R (Ok x) (tables v) False))
      | Panic p \<Rightarrow> ended w False v \<and> tables v = d \<and> panicked R p)"

lemma rollback_on_panic_post:
  assumes sv: "saved v = Some d" and same: "alike w v" and R: "R (Panic p) d' b"
  shows "wp (rollback_on_panic meta t p) (callback_post fine d R w) v"
  unfolding rollback_on_panic_def wp_call
  by (rule wp_rollback_tx [OF sv])
    (use R same in \<open>auto simp: rollback_failed_def wp_panic callback_post_def alike_def split: outcome.splits
      intro!: wp_log wp_ending [where u = w] dest: panickedI\<close>)

text \<open>The contract of a callback in the transaction that \<open>w\<close> has open.\<close>

definition callback_ok :: "'a callback_rel \<Rightarrow> (ctx \<Rightarrow> (world, 'a) go) \<Rightarrow> ctx \<Rightarrow> world \<Rightarrow> bool" where
  "callback_ok R fn c w \<longleftrightarrow>
     wp (fn (tx_ctx c)) (\<lambda>r v. session v = session w \<and> tx_events v = tx_events w \<and> svc_events v = svc_events w \<and> R r (tables v) (calm v)) w"

lemma run_callback_post:
  assumes sv: "saved w = Some d"
    and body: "callback_ok R fn c w"
  shows "wp (recovering (run_callback meta t c fn) (rollback_on_panic meta t)) (callback_post fine d R w) w"
  unfolding run_callback_def wp_call wp_recovering
proof (rule wp_conseq [OF body [unfolded callback_ok_def]], goal_cases)
  case (1 r v)
  then have sv': "saved v = Some d" and same: "alike w v" and R: "R r (tables v) (calm v)"
    using sv by (auto simp: session_def alike_def)
  show ?case
  proof (cases r)
    case (Ok x)
    have lost: "\<exists>y d'. R (Ok y) d' False" if "\<not> calm v"
      using R Ok that by auto
    show ?thesis
      unfolding Ok outcome.case sum.case wp_call
      by (rule wp_commit_tx [OF sv'])
        (use R Ok same lost in \<open>auto simp: wp_ok wp_fail alike_def callback_post_def split: outcome.splits
          intro!: wp_log wp_ending [where u = w]; blast\<close>)
  next
    case (Err e)
    show ?thesis
      unfolding Err outcome.case sum.case
    proof (rule wp_log)
      fix u
      assume u: "tables u = tables v" "saved u = saved v" "aborted u = aborted v" "alike v u"
      then have "saved u = Some d" using sv' by simp
      then show "wp (call rollback_tx (\<lambda>rb. case rollback_failed rb of
                Some rollbackErr \<Rightarrow>
                  after (emit_w (LogLine ''error'' ''Failed to rollback transaction''))
                    (after (Observe meta ''rollback_failed'' t)
                      (fail (Wrapped (err_text rollbackErr @ '': '' @ err_text e) [e])))
              | None \<Rightarrow> after (Observe meta ''rolled_back'' t) (fail e)))
              (\<lambda>r. case r of Panic p \<Rightarrow> wp (rollback_on_panic meta t p) (callback_post fine d R w)
                     | _ \<Rightarrow> callback_post fine d R w r) u"
        unfolding wp_call
        by (rule wp_rollback_tx)
          (use R Err same u in \<open>auto simp: wp_fail alike_def rollback_failed_def callback_post_def
            split: outcome.splits intro!: wp_log wp_ending [where u = w] dest: came_fromI\<close>)
    qed
  next
    case (Panic p)
    with R rollback_on_panic_post [OF sv' same] show ?thesis by auto
  qed
qed

lemma wp_execute:
  assumes sv: "saved w = None"
    and body: "\<And>v. tables v = tables w \<Longrightarrow> saved v = Some (tables w) \<Longrightarrow> (calm w \<Longrightarrow> calm v) \<Longrightarrow>
       uuid_source v = uuid_source w \<Longrightarrow> locked_elsewhere v = locked_elsewhere w \<Longrightarrow> callback_ok R fn c v"
  shows "wp (execute t c meta opts fn) (callback_post (tx_pool t \<and> calm w) (tables w) R w) w"
proof -
  let ?post = "callback_post (tx_pool t \<and> calm w) (tables w) R w"
  have failed: "wp (after (Observe meta outc s) (fail e)) (callback_post False (tables w) R w) v"
    if "tables v = tables w" "saved v = None" "aborted v = aborted w" "alike w v" "outc \<noteq> ''committed''"
      "lost_answer e" for v outc s e
    using that by (intro wp_ending [where u = w]) (auto simp: wp_fail callback_post_def)
  have started: "wp (recovering (run_callback meta s c fn) (rollback_on_panic meta s))
        (\<lambda>r v. ?post r
           (held_conns_update (\<lambda>n. n - 1) (active_tx_update (\<lambda>g. g(meta_labels meta := g (meta_labels meta) - 1)) v))) v"
    if "tables v = tables w" "saved v = Some (tables w)" "aborted v = False" "held_conns v = Suc (held_conns w)"
      "active_tx v = (active_tx w)(meta_labels meta := active_tx w (meta_labels meta) + 1)"
      "faults v = faults w" "locked_elsewhere v = locked_elsewhere w" "uuid_source v = uuid_source w" "tx_events v = tx_events w" "svc_events v = svc_events w" for v s
  proof -
    have "callback_ok R fn c v" using body that by (auto simp: calm_def)
    from run_callback_post [where fine = "tx_pool t \<and> calm w", OF that(2) this] show ?thesis
      by (rule wp_conseq)
        (use that in \<open>auto simp: callback_post_def ended_def events_defs split: outcome.splits\<close>)
  qed
  show ?thesis
  proof (cases "tx_pool t")
    case False
    then show ?thesis using sv
      by (auto simp: execute_def wp_bind wp_now intro!: wp_log failed)
        (auto simp: alike_def events_defs lost_answer_def session_def)
  next
    case pool: True
    show ?thesis
    proof (cases "faults w (db_calls w)")
      case (Some f)
      then have "\<not> calm w" by (auto simp: calm_def)
      with pool sv Some show ?thesis
        by (auto simp: execute_def MasterConnection_def acquire_def wp_rules events_defs
            callback_post_def ended_def)
    next
      case ok: None
      show ?thesis
      proof (cases "faults w (Suc (db_calls w))")
        case (Some f)
        then have "\<not> calm w" by (auto simp: calm_def)
        with pool ok sv Some show ?thesis
          by (auto simp: execute_def MasterConnection_def acquire_def beginTransaction_def begin_tx_def wp_rules
              events_defs callback_post_def ended_def split: option.split)
      next
        case None
        with pool ok show ?thesis
          by (auto simp: execute_def MasterConnection_def acquire_def beginTransaction_def begin_tx_def
              IncActive_def DecActive_def wp_rules
              split: option.split intro!: wp_conseq [OF started])
            (auto simp: events_defs)
      qed
    qed
  qed
qed

section \<open>Properties\<close>

text \<open>
  C1: a transaction is all or nothing: if Do returns nil the callback's writes are in the tables,
  if it returns an error or panics the tables are the ones before the call - except when the
  answer to COMMIT was lost, and then they are all there. On every path, panics included, the
  connection goes back to the pool, no transaction stays open, the gauge of active transactions
  is back where it was, and exactly one outcome is counted, which is committed iff Do returned nil.
\<close>
theorem Do_all_or_nothing:
  assumes "saved w = None"
    and "\<And>v. tables v = tables w \<Longrightarrow> saved v = Some (tables w) \<Longrightarrow> callback_ok R fn c v"
    and "run_state (Do t c fn) w = (r, w')"
  shows "session w' = session w \<and> svc_events w' = svc_events w
    \<and> (\<exists>outc. counted outc (tx_events w) (tx_events w') \<and> (outc = ''committed'' \<longleftrightarrow> (\<exists>x. r = Ok x)))
    \<and> (case r of
         Ok x \<Rightarrow> \<exists>b. R (Ok x) (tables w') b
       | Err e \<Rightarrow> tables w' = tables w \<or> lost_answer e \<and> (\<exists>x. R (Ok x) (tables w') False)
       | Panic p \<Rightarrow> tables w' = tables w \<and> panicked R p)"
  using wpD [OF wp_execute [where fn = fn and c = c and R = R, OF assms(1,2)] assms(3) [unfolded Do_def]] assms(1)
  by (cases r) (auto simp: callback_post_def ended_def session_def)

definition insert_then_fail :: "ctx \<Rightarrow> (world, unit) go" where
  "insert_then_fail c = andThen
     (run_stmt TxExec (InsertStmt ''auth_outbox_messages'' [[(''id'', VUuid 1)]] NoConflict False))
     (\<lambda>_. fail (NewErr ''late failure''))"

lemma Do_all_or_nothing_witness:
  "tables (snd (run_state (Do \<lparr>tx_pool = True\<rparr> background insert_then_fail) empty_world)) = tables empty_world"
proof (cases "run_state (Do \<lparr>tx_pool = True\<rparr> background insert_then_fail) empty_world")
  case (Pair r w')
  have "saved empty_world = None" by (simp add: empty_world_def)
  moreover have "callback_ok (\<lambda>r d b. \<exists>e. r = Err e) insert_then_fail background v" for v
    unfolding insert_then_fail_def callback_ok_def wp_andThen
    by (rule wp_run_stmt) (auto simp: stmt_post_def events_defs wp_fail split: outcome.splits)
  ultimately show ?thesis
    using Do_all_or_nothing [where c = background and fn = insert_then_fail, OF _ _ Pair]
    by (cases r) (auto simp: Pair)
qed

end
