(* ===== verification/PostgresBase.thy ===== *)
theory PostgresBase
  imports TxManager
begin

text \<open>
  internal/repository/postgresbase/repository.go: the generic repository over a model type,
  every operation of it, with the connection it takes, the statement goqu builds, the error
  translation and the deferred close.
\<close>

section \<open>Models, options and locks\<close>

text \<open>
  The interface Model, with the zero value that \<open>newModel\<close> makes and the struct scan that
  \<open>pgx.RowToStructByName\<close> derives from the struct tags.
\<close>

record 'm model =
  md_Params :: "'m \<Rightarrow> (string \<times> value) list"
  md_Fields :: "string list"
  md_PrimaryKey :: "'m \<Rightarrow> string \<times> value"
  md_scan :: "row \<Rightarrow> 'm option"
  md_zero :: 'm

record 'm repo =
  rp_table :: string
  rp_model :: "'m model"

definition NewRepository :: "'m model \<Rightarrow> string \<Rightarrow> 'm repo" where
  "NewRepository m t = \<lparr>rp_table = t, rp_model = m\<rparr>"

definition LockForUpdate :: string where "LockForUpdate = ''FOR UPDATE''"
definition LockForNoKeyUpdate :: string where "LockForNoKeyUpdate = ''FOR NO KEY UPDATE''"
definition LockForShare :: string where "LockForShare = ''FOR SHARE''"
definition LockForKeyShare :: string where "LockForKeyShare = ''FOR KEY SHARE''"
definition LockWait :: string where "LockWait = ''''"
definition LockNoWait :: string where "LockNoWait = ''NOWAIT''"
definition LockSkipLocked :: string where "LockSkipLocked = ''SKIP LOCKED''"

lemmas lock_defs = LockForUpdate_def LockForNoKeyUpdate_def LockForShare_def LockForKeyShare_def
  LockWait_def LockNoWait_def LockSkipLocked_def

record lock_options =
  lk_Mode :: string
  lk_WaitPolicy :: string
  lk_OfTables :: "string list"

record order_by =
  ob_Column :: string
  ob_Desc :: bool

record select_options =
  so_Limit :: nat
  so_Offset :: nat
  so_OrderBy :: "order_by list"

type_synonym select_option = "(select_options \<Rightarrow> select_options) option"

definition WithLimit :: "nat \<Rightarrow> select_option" where
  "WithLimit n = Some (\<lambda>opts. opts\<lparr>so_Limit := n\<rparr>)"

definition WithOffset :: "nat \<Rightarrow> select_option" where
  "WithOffset n = Some (\<lambda>opts. opts\<lparr>so_Offset := n\<rparr>)"

definition WithOrderBy :: "order_by list \<Rightarrow> select_option" where
  "WithOrderBy os = Some (\<lambda>opts. opts\<lparr>so_OrderBy := so_OrderBy opts @ os\<rparr>)"

definition Asc :: "string \<Rightarrow> order_by" where
  "Asc c = \<lparr>ob_Column = c, ob_Desc = False\<rparr>"

definition Desc :: "string \<Rightarrow> order_by" where
  "Desc c = \<lparr>ob_Column = c, ob_Desc = True\<rparr>"

definition unsafe_char :: "char \<Rightarrow> bool" where
  "unsafe_char c \<longleftrightarrow>
     c \<in> set [CHR '' '', CHR 0x09, CHR 0x0A, CHR 0x0D, CHR '';'', CHR 0x22, CHR 0x27]"

fun lock_tables :: "nat \<Rightarrow> string list \<Rightarrow> string \<Rightarrow> err + string" where
  "lock_tables index [] builder = Inr builder"
| "lock_tables index (table # rest) builder =
     (if TrimSpace table = [] then Inl (NewErr ''lock table name is empty'')
      else if list_ex unsafe_char table then Inl (NewErr (''unsafe lock table name: '' @ table))
      else lock_tables (index + 1) rest (builder @ (if index > 0 then '', '' else []) @ table))"

definition LockOptions_SQL :: "lock_options \<Rightarrow> err + string" where
  "LockOptions_SQL lock =
     (let mode = (if lk_Mode lock = [] then LockForUpdate else lk_Mode lock) in
      if mode \<notin> set [LockForUpdate, LockForNoKeyUpdate, LockForShare, LockForKeyShare]
      then Inl (NewErr (''unsupported postgres lock mode: '' @ mode))
      else
        (case (if lk_OfTables lock \<noteq> [] then lock_tables 0 (lk_OfTables lock) (mode @ '' OF '')
               else Inr mode) of
           Inl e \<Rightarrow> Inl e
         | Inr text \<Rightarrow>
             (if lk_WaitPolicy lock = LockWait then Inr text
              else if lk_WaitPolicy lock \<in> set [LockNoWait, LockSkipLocked]
              then Inr (text @ '' '' @ lk_WaitPolicy lock)
              else Inl (NewErr (''unsupported postgres lock wait policy: '' @ lk_WaitPolicy lock)))))"

definition applySelectOptions :: "select_ds \<Rightarrow> select_option list \<Rightarrow> select_ds" where
  "applySelectOptions dataset opts =
     (let resolved = fold (\<lambda>opt r. case opt of None \<Rightarrow> r | Some f \<Rightarrow> f r) opts
                       \<lparr>so_Limit = 0, so_Offset = 0, so_OrderBy = []\<rparr>;
          expressions = map (\<lambda>b. (ob_Column b, ob_Desc b))
                          (filter (\<lambda>b. ob_Column b \<noteq> []) (so_OrderBy resolved));
          d1 = (if expressions \<noteq> [] then dataset\<lparr>sd_order := expressions\<rparr> else dataset);
          d2 = (if so_Limit resolved > 0 then d1\<lparr>sd_limit := Some (so_Limit resolved)\<rparr> else d1) in
      (if so_Offset resolved > 0 then d2\<lparr>sd_offset := Some (so_Offset resolved)\<rparr> else d2))"

definition selectDataset :: "'m repo \<Rightarrow> expr option \<Rightarrow> select_option list \<Rightarrow> select_ds" where
  "selectDataset repo wh opts =
     applySelectOptions
       \<lparr>sd_table = rp_table repo, sd_where = wh, sd_order = [], sd_limit = None, sd_offset = None\<rparr> opts"

definition paramsWithout :: "(string \<times> 'v) list \<Rightarrow> string list \<Rightarrow> (string \<times> 'v) list" where
  "paramsWithout params columns = filter (\<lambda>(k, v). k \<notin> set columns) params"

definition set_to :: "(string \<times> value) list \<Rightarrow> (string \<times> setval) list" where
  "set_to ps = map (\<lambda>(k, v). (k, SetTo v)) ps"

definition upsertDataset :: "'m repo \<Rightarrow> 'm \<Rightarrow> string \<Rightarrow> (string \<times> value) list \<Rightarrow> bool \<Rightarrow> stmt" where
  "upsertDataset repo m conflictTarget update ret =
     (if update = []
      then InsertStmt (rp_table repo) [md_Params (rp_model repo) m] DoNothing ret
      else InsertStmt (rp_table repo) [md_Params (rp_model repo) m]
             (DoUpdate conflictTarget (set_to update)) ret)"

definition primaryKeyColumn :: "'m repo \<Rightarrow> string" where
  "primaryKeyColumn repo = fst (md_PrimaryKey (rp_model repo) (md_zero (rp_model repo)))"

section \<open>Calls into goqu and pgx\<close>

text \<open>\<open>ToSQL\<close> may refuse a value; the row collectors scan the rows the statement returned.\<close>

definition ToSQL :: "stmt \<Rightarrow> (world, stmt) go" where
  "ToSQL st = do {
     f \<leftarrow> next_fault;
     (case f of None \<Rightarrow> ok st | Some g \<Rightarrow> fail (NewErr ''goqu: unable to encode value'')) }"

definition Query :: "executor \<Rightarrow> stmt \<Rightarrow> (world, row list) go" where
  "Query x st = andThen (run_stmt x st) (\<lambda>(rows, n). ok rows)"

definition Exec :: "executor \<Rightarrow> stmt \<Rightarrow> (world, nat) go" where
  "Exec x st = andThen (run_stmt x st) (\<lambda>(rows, n). ok n)"

definition CollectOneRow :: "(row \<Rightarrow> 'm option) \<Rightarrow> row list \<Rightarrow> err + 'm" where
  "CollectOneRow scan rows =
     (case rows of [] \<Rightarrow> Inl (Sentinel (Lib PgxErrNoRows))
      | r # _ \<Rightarrow> (case scan r of None \<Rightarrow> Inl (NewErr ''can't scan into dest'') | Some m \<Rightarrow> Inr m))"

fun CollectRows :: "(row \<Rightarrow> 'm option) \<Rightarrow> row list \<Rightarrow> err + 'm list" where
  "CollectRows scan [] = Inr []"
| "CollectRows scan (r # rs) =
     (case scan r of None \<Rightarrow> Inl (NewErr ''can't scan into dest'')
      | Some m \<Rightarrow> (case CollectRows scan rs of Inl e \<Rightarrow> Inl e | Inr ms \<Rightarrow> Inr (m # ms)))"

definition lift :: "err + 'a \<Rightarrow> ('w, 'a) go" where
  "lift r = (case r of Inl e \<Rightarrow> fail e | Inr x \<Rightarrow> ok x)"

definition QueryRow :: "executor \<Rightarrow> stmt \<Rightarrow> (row \<Rightarrow> 'a option) \<Rightarrow> (world, 'a) go" where
  "QueryRow x st scan = andThen (Query x st) (\<lambda>rows. lift (CollectOneRow scan rows))"

text \<open>\<open>if errors.Is(err, pgx.ErrNoRows) { return result, e }\<close>\<close>

definition no_rows_as :: "ports_err \<Rightarrow> err + 'a \<Rightarrow> ('w, 'a) go" where
  "no_rows_as e r =
     (case r of Inr x \<Rightarrow> ok x
      | Inl d \<Rightarrow> (if errors_is d (Lib PgxErrNoRows) then fail (Sentinel (Ports e)) else fail d))"

text \<open>
  \<open>connection, closeConnection, err := \<dots>; if err != nil { return err }; defer closeConnection()\<close>
\<close>

definition on_default :: "ctx \<Rightarrow> (executor \<Rightarrow> (world, 'a) go) \<Rightarrow> (world, 'a) go" where
  "on_default c body = andThen (GetDefaultOrTx c) (\<lambda>p. deferred (body (fst p)) (snd p))"

definition on_read_only :: "ctx \<Rightarrow> (executor \<Rightarrow> (world, 'a) go) \<Rightarrow> (world, 'a) go" where
  "on_read_only c body = andThen (GetReadOnlyOrTx c) (\<lambda>p. deferred (body (fst p)) (snd p))"

section \<open>Reading\<close>

definition SelectOne :: "'m repo \<Rightarrow> ctx \<Rightarrow> stmt \<Rightarrow> (world, 'm) go" where
  "SelectOne repo c sql =
     on_read_only c (\<lambda>connection.
       andThen (Query connection sql)
         (\<lambda>rows. no_rows_as ErrNotFound (CollectOneRow (md_scan (rp_model repo)) rows)))"

definition Select :: "'m repo \<Rightarrow> ctx \<Rightarrow> stmt \<Rightarrow> (world, 'm list) go" where
  "Select repo c sql =
     on_read_only c (\<lambda>connection.
       andThen (Query connection sql) (\<lambda>rows. lift (CollectRows (md_scan (rp_model repo)) rows)))"

definition SelectBy :: "'m repo \<Rightarrow> ctx \<Rightarrow> expr option \<Rightarrow> select_option list \<Rightarrow> (world, 'm list) go" where
  "SelectBy repo c wh opts =
     andThen (ToSQL (SelectStmt (selectDataset repo wh opts) None)) (Select repo c)"

definition SelectOneBy :: "'m repo \<Rightarrow> ctx \<Rightarrow> expr option \<Rightarrow> select_option list \<Rightarrow> (world, 'm) go" where
  "SelectOneBy repo c wh opts =
     andThen (ToSQL (SelectStmt (selectDataset repo wh (opts @ [WithLimit 1])) None)) (SelectOne repo c)"

definition FindByPrimaryKey :: "'m repo \<Rightarrow> ctx \<Rightarrow> value \<Rightarrow> (world, 'm) go" where
  "FindByPrimaryKey repo c i = SelectOneBy repo c (Some (EEq (primaryKeyColumn repo) i)) [WithLimit 1]"

definition FindByPrimaryKeys :: "'m repo \<Rightarrow> ctx \<Rightarrow> value list \<Rightarrow> select_option list \<Rightarrow> (world, 'm list) go" where
  "FindByPrimaryKeys repo c ids opts =
     (if ids = [] then ok [] else SelectBy repo c (Some (EIn (primaryKeyColumn repo) ids)) opts)"

definition scan_int :: "string \<Rightarrow> row \<Rightarrow> int option" where
  "scan_int col r = (case r col of Some (VInt i) \<Rightarrow> Some i | _ \<Rightarrow> None)"

definition scan_bool :: "string \<Rightarrow> row \<Rightarrow> bool option" where
  "scan_bool col r = (case r col of Some (VBool b) \<Rightarrow> Some b | _ \<Rightarrow> None)"

definition Exists :: "'m repo \<Rightarrow> ctx \<Rightarrow> expr \<Rightarrow> (world, bool) go" where
  "Exists repo c wh =
     andThen (ToSQL (ExistsStmt (rp_table repo) wh)) (\<lambda>sql.
       on_read_only c (\<lambda>connection.
         call (QueryRow connection sql (scan_int ''1'')) (\<lambda>r. case r of
           Inl e \<Rightarrow> (if errors_is e (Lib PgxErrNoRows) then ok False else fail e)
         | Inr _ \<Rightarrow> ok True)))"

definition Count :: "'m repo \<Rightarrow> ctx \<Rightarrow> expr list \<Rightarrow> (world, int) go" where
  "Count repo c wh =
     andThen (ToSQL (CountStmt (rp_table repo) wh)) (\<lambda>sql.
       on_read_only c (\<lambda>connection. QueryRow connection sql (scan_int ''count'')))"

section \<open>Writing\<close>

definition affected :: "ports_err \<Rightarrow> nat \<Rightarrow> ('w, unit) go" where
  "affected e n = (if n = 0 then fail (Sentinel (Ports e)) else ok ())"

definition Update :: "'m repo \<Rightarrow> ctx \<Rightarrow> 'm \<Rightarrow> (world, unit) go" where
  "Update repo c m =
     on_default c (\<lambda>connection.
       (case md_PrimaryKey (rp_model repo) m of (primaryKey, primaryValue) \<Rightarrow>
         andThen (ToSQL (UpdateStmt (rp_table repo) (set_to (md_Params (rp_model repo) m))
                    (EEq primaryKey primaryValue) False)) (\<lambda>sql.
         andThen (Exec connection sql) (affected ErrNoAffectedRows))))"

definition UpdateReturning :: "'m repo \<Rightarrow> ctx \<Rightarrow> 'm \<Rightarrow> (world, 'm) go" where
  "UpdateReturning repo c m =
     on_default c (\<lambda>connection.
       (case md_PrimaryKey (rp_model repo) m of (primaryKey, primaryValue) \<Rightarrow>
         andThen (ToSQL (UpdateStmt (rp_table repo) (set_to (md_Params (rp_model repo) m))
                    (EEq primaryKey primaryValue) True)) (\<lambda>sql.
         andThen (Query connection sql)
           (\<lambda>rows. no_rows_as ErrNoAffectedRows (CollectOneRow (md_scan (rp_model repo)) rows)))))"

definition UpdateFieldsWhere :: "'m repo \<Rightarrow> ctx \<Rightarrow> expr \<Rightarrow> (string \<times> setval) list \<Rightarrow> (world, nat) go" where
  "UpdateFieldsWhere repo c wh sets =
     on_default c (\<lambda>connection.
       if sets = [] then ok 0
       else andThen (ToSQL (UpdateStmt (rp_table repo) sets wh False)) (Exec connection))"

definition UpdateFieldsByPrimaryKey :: "'m repo \<Rightarrow> ctx \<Rightarrow> value \<Rightarrow> (string \<times> setval) list \<Rightarrow> (world, unit) go" where
  "UpdateFieldsByPrimaryKey repo c i sets =
     andThen (UpdateFieldsWhere repo c (EEq (primaryKeyColumn repo) i) sets) (affected ErrNoAffectedRows)"

definition Create :: "'m repo \<Rightarrow> ctx \<Rightarrow> 'm \<Rightarrow> (world, unit) go" where
  "Create repo c m =
     on_default c (\<lambda>connection.
       andThen (ToSQL (InsertStmt (rp_table repo) [md_Params (rp_model repo) m] NoConflict False))
         (\<lambda>sql. andThen (Exec connection sql) (\<lambda>_. ok ())))"

definition CreateReturning :: "'m repo \<Rightarrow> ctx \<Rightarrow> 'm \<Rightarrow> (world, 'm) go" where
  "CreateReturning repo c m =
     on_default c (\<lambda>connection.
       andThen (ToSQL (InsertStmt (rp_table repo) [md_Params (rp_model repo) m] NoConflict True))
         (\<lambda>sql. QueryRow connection sql (md_scan (rp_model repo))))"

definition Upsert :: "'m repo \<Rightarrow> ctx \<Rightarrow> 'm \<Rightarrow> string \<Rightarrow> (string \<times> value) list \<Rightarrow> (world, unit) go" where
  "Upsert repo c m conflictTarget update =
     on_default c (\<lambda>connection.
       andThen (ToSQL (upsertDataset repo m conflictTarget update False))
         (\<lambda>sql. andThen (Exec connection sql) (\<lambda>_. ok ())))"

definition UpsertReturning :: "'m repo \<Rightarrow> ctx \<Rightarrow> 'm \<Rightarrow> string \<Rightarrow> (string \<times> value) list \<Rightarrow> (world, 'm) go" where
  "UpsertReturning repo c m conflictTarget update =
     on_default c (\<lambda>connection.
       andThen (ToSQL (upsertDataset repo m conflictTarget update True))
         (\<lambda>sql. QueryRow connection sql (md_scan (rp_model repo))))"

definition UpsertByPrimaryKey :: "'m repo \<Rightarrow> ctx \<Rightarrow> 'm \<Rightarrow> (world, unit) go" where
  "UpsertByPrimaryKey repo c m =
     (let primaryKey = fst (md_PrimaryKey (rp_model repo) m) in
      Upsert repo c m primaryKey (paramsWithout (md_Params (rp_model repo) m) [primaryKey]))"

definition UpsertByPrimaryKeyReturning :: "'m repo \<Rightarrow> ctx \<Rightarrow> 'm \<Rightarrow> (world, 'm) go" where
  "UpsertByPrimaryKeyReturning repo c m =
     (let primaryKey = fst (md_PrimaryKey (rp_model repo) m) in
      UpsertReturning repo c m primaryKey (paramsWithout (md_Params (rp_model repo) m) [primaryKey]))"

definition CreateBatch :: "'m repo \<Rightarrow> ctx \<Rightarrow> 'm list \<Rightarrow> (world, unit) go" where
  "CreateBatch repo c models =
     (if models = [] then ok ()
      else on_default c (\<lambda>connection.
        andThen (ToSQL (InsertStmt (rp_table repo) (map (md_Params (rp_model repo)) models) NoConflict False))
          (\<lambda>sql. andThen (Exec connection sql) (\<lambda>_. ok ()))))"

definition Delete :: "'m repo \<Rightarrow> ctx \<Rightarrow> value list \<Rightarrow> (world, unit) go" where
  "Delete repo c ids =
     (if ids = [] then ok ()
      else on_default c (\<lambda>connection.
        andThen (ToSQL (DeleteStmt (rp_table repo) (EIn (primaryKeyColumn repo) ids) False))
          (\<lambda>sql. andThen (Exec connection sql) (affected ErrNoAffectedRows))))"

definition DeleteByPrimaryKey :: "'m repo \<Rightarrow> ctx \<Rightarrow> value \<Rightarrow> (world, unit) go" where
  "DeleteByPrimaryKey repo c i = Delete repo c [i]"

definition DeleteWhere :: "'m repo \<Rightarrow> ctx \<Rightarrow> expr \<Rightarrow> (world, nat) go" where
  "DeleteWhere repo c wh =
     on_default c (\<lambda>connection.
       andThen (ToSQL (DeleteStmt (rp_table repo) wh False)) (Exec connection))"

definition DeleteWhereReturning :: "'m repo \<Rightarrow> ctx \<Rightarrow> expr \<Rightarrow> (world, 'm list) go" where
  "DeleteWhereReturning repo c wh =
     on_default c (\<lambda>connection.
       andThen (ToSQL (DeleteStmt (rp_table repo) wh True)) (\<lambda>sql.
       andThen (Query connection sql) (\<lambda>rows. lift (CollectRows (md_scan (rp_model repo)) rows))))"

definition deleteOneReturning :: "'m repo \<Rightarrow> ctx \<Rightarrow> expr \<Rightarrow> (world, 'm) go" where
  "deleteOneReturning repo c wh =
     andThen (DeleteWhereReturning repo c wh)
       (\<lambda>rows. case rows of [] \<Rightarrow> fail (Sentinel (Ports ErrNotFound)) | m # _ \<Rightarrow> ok m)"

definition DeleteByPrimaryKeyReturning :: "'m repo \<Rightarrow> ctx \<Rightarrow> value \<Rightarrow> (world, 'm) go" where
  "DeleteByPrimaryKeyReturning repo c i = deleteOneReturning repo c (EEq (primaryKeyColumn repo) i)"

section \<open>Locking\<close>

definition selectForLockSQL :: "'m repo \<Rightarrow> expr option \<Rightarrow> lock_options \<Rightarrow> select_option list \<Rightarrow> (world, stmt) go" where
  "selectForLockSQL repo wh lock opts =
     andThen (ToSQL (SelectStmt (selectDataset repo wh opts) None)) (\<lambda>_.
       (case LockOptions_SQL lock of
          Inl e \<Rightarrow> fail e
        | Inr lockSQL \<Rightarrow> ok (SelectStmt (selectDataset repo wh opts) (Some lockSQL))))"

definition SelectForLock ::
  "'m repo \<Rightarrow> ctx \<Rightarrow> expr option \<Rightarrow> lock_options \<Rightarrow> select_option list \<Rightarrow> (world, 'm list) go" where
  "SelectForLock repo c wh lock opts =
     andThen (selectForLockSQL repo wh lock opts) (\<lambda>sql.
       on_default c (\<lambda>connection.
         andThen (Query connection sql) (\<lambda>rows. lift (CollectRows (md_scan (rp_model repo)) rows))))"

definition SelectOneForLock ::
  "'m repo \<Rightarrow> ctx \<Rightarrow> expr option \<Rightarrow> lock_options \<Rightarrow> select_option list \<Rightarrow> (world, 'm) go" where
  "SelectOneForLock repo c wh lock opts =
     andThen (selectForLockSQL repo wh lock (opts @ [WithLimit 1])) (\<lambda>sql.
       on_default c (\<lambda>connection.
         andThen (Query connection sql)
           (\<lambda>rows. no_rows_as ErrNotFound (CollectOneRow (md_scan (rp_model repo)) rows))))"

definition LockByPrimaryKey :: "'m repo \<Rightarrow> ctx \<Rightarrow> value \<Rightarrow> lock_options \<Rightarrow> (world, 'm) go" where
  "LockByPrimaryKey repo c i lock =
     SelectOneForLock repo c (Some (EEq (primaryKeyColumn repo) i)) lock [WithLimit 1]"

definition LockByPrimaryKeys ::
  "'m repo \<Rightarrow> ctx \<Rightarrow> value list \<Rightarrow> lock_options \<Rightarrow> select_option list \<Rightarrow> (world, 'm list) go" where
  "LockByPrimaryKeys repo c ids lock opts =
     (if ids = [] then ok []
      else SelectForLock repo c (Some (EIn (primaryKeyColumn repo) ids)) lock opts)"

definition int64_arg :: "64 word \<Rightarrow> value" where
  "int64_arg k = VInt (sint k)"

definition int32_arg :: "32 word \<Rightarrow> value" where
  "int32_arg k = VInt (sint k)"

definition AdvisoryTransactionLock :: "'m repo \<Rightarrow> ctx \<Rightarrow> 64 word \<Rightarrow> (world, unit) go" where
  "AdvisoryTransactionLock repo c key =
     on_default c (\<lambda>connection.
       andThen (Exec connection (RawStmt ''select pg_advisory_xact_lock($1)'' [int64_arg key])) (\<lambda>_. ok ()))"

definition TryAdvisoryTransactionLock :: "'m repo \<Rightarrow> ctx \<Rightarrow> 64 word \<Rightarrow> (world, bool) go" where
  "TryAdvisoryTransactionLock repo c key =
     on_default c (\<lambda>connection.
       QueryRow connection (RawStmt ''select pg_try_advisory_xact_lock($1)'' [int64_arg key]) (scan_bool ''locked''))"

definition AdvisoryTransactionLock2 :: "'m repo \<Rightarrow> ctx \<Rightarrow> 32 word \<Rightarrow> 32 word \<Rightarrow> (world, unit) go" where
  "AdvisoryTransactionLock2 repo c key1 key2 =
     on_default c (\<lambda>connection.
       andThen (Exec connection (RawStmt ''select pg_advisory_xact_lock($1, $2)'' [int32_arg key1, int32_arg key2]))
         (\<lambda>_. ok ()))"

definition TryAdvisoryTransactionLock2 :: "'m repo \<Rightarrow> ctx \<Rightarrow> 32 word \<Rightarrow> 32 word \<Rightarrow> (world, bool) go" where
  "TryAdvisoryTransactionLock2 repo c key1 key2 =
     on_default c (\<lambda>connection.
       QueryRow connection (RawStmt ''select pg_try_advisory_xact_lock($1, $2)'' [int32_arg key1, int32_arg key2])
         (scan_bool ''locked''))"

section \<open>What every operation answers\<close>

text \<open>
  An operation that runs the statement \<open>st\<close> and turns its rows and its row count into a result
  with \<open>f\<close>: its result is the one of the statement on the tables it found, and the tables are
  the ones the statement left; or the world was not calm and it returns an error of the
  infrastructure. The session is unchanged, so the connection it took is back in the pool.
\<close>

definition answers ::
  "executor \<Rightarrow> stmt \<Rightarrow> (row list \<Rightarrow> nat \<Rightarrow> 'a outcome) \<Rightarrow> world \<Rightarrow> 'a outcome \<Rightarrow> world \<Rightarrow> bool" where
  "answers x st f w r v \<longleftrightarrow>
     session v = session w \<and> journal v = journal w \<and>
     (case pg_run (locked_elsewhere w) st (tables w) of
        Inl e0 \<Rightarrow>
          tables v = tables w \<and>
          (r = Err e0 \<and> (calm w \<and> x = ConnExec \<longrightarrow> calm v) \<or> \<not> calm w \<and> (\<exists>e. r = Err e \<and> lost_answer e))
      | Inr (d, rows, n) \<Rightarrow>
          r = f rows n \<and> tables v = d \<and> (calm w \<longrightarrow> calm v)
          \<or> \<not> calm w \<and> (\<exists>e. r = Err e \<and> lost_answer e) \<and> (tables v = tables w \<or> tables v = d))"

definition exec_of :: "ctx \<Rightarrow> executor" where
  "exec_of c = (case TxValue c of None \<Rightarrow> ConnExec | Some x \<Rightarrow> x)"

lemma lost_answer_new [simp]: "lost_answer (NewErr m)"
  by (simp add: lost_answer_def)

lemma fault_not_calm: "faults w n = Some f \<Longrightarrow> \<not> calm w"
  by (auto simp: calm_def)

lemma run_stmt_answers:
  assumes k: "\<And>rows n. k rows n = State_Monad.return (f rows n)"
    and w: "tables w = tables w0" "session w = session w0" "journal w = journal w0" "aborted w = aborted w0"
  shows "wp (andThen (run_stmt x st) (\<lambda>(rows, n). k rows n)) (answers x st f w0) w"
  unfolding wp_andThen
proof (rule wp_run_stmt, goal_cases)
  case (1 r v)
  have "calm w = calm w0" "locked_elsewhere w = locked_elsewhere w0"
    using w by (auto simp: calm_def session_def)
  with 1 w show ?case
    by (cases r; cases "pg_run (locked_elsewhere w0) st (tables w0)")
      (auto simp: stmt_post_def answers_def k wp_return journal_def)
qed

lemma wp_ToSQL:
  assumes "\<And>v. tables v = tables w \<Longrightarrow> session v = session w \<Longrightarrow> journal v = journal w \<Longrightarrow>
              aborted v = aborted w \<Longrightarrow> wp (k st) Q v"
    and "\<And>v. tables v = tables w \<Longrightarrow> session v = session w \<Longrightarrow> journal v = journal w \<Longrightarrow>
              aborted v = aborted w \<Longrightarrow> \<not> calm w \<Longrightarrow> Q (Err (NewErr ''goqu: unable to encode value'')) v"
  shows "wp (andThen (ToSQL st) k) Q w"
proof (cases "faults w (db_calls w)")
  case None
  then show ?thesis
    by (auto simp: ToSQL_def wp_rules intro!: assms(1)) (simp_all add: session_def journal_def)
next
  case (Some f)
  then show ?thesis
    by (auto simp: ToSQL_def wp_rules dest: fault_not_calm intro!: assms(2)) (simp_all add: session_def journal_def)
qed

lemma answers_lost:
  assumes "tables v = tables w" "session v = session w" "journal v = journal w" "\<not> calm w" "lost_answer e"
  shows "answers x st f w (Err e) v"
  using assms by (auto simp: answers_def split: sum.split)

lemma on_connection_answers:
  assumes body: "\<And>v. tables v = tables w \<Longrightarrow> aborted v = aborted w \<Longrightarrow> journal v = journal w \<Longrightarrow>
       faults v = faults w \<Longrightarrow> locked_elsewhere v = locked_elsewhere w \<Longrightarrow>
       wp (m (exec_of c)) (answers (exec_of c) st f v) v"
    and prov: "provider = acquire"
  shows "wp (andThen (getConnectionOrTx c src provider) (\<lambda>p. deferred (m (fst p)) (snd p)))
           (answers (exec_of c) st f w) w"
proof (cases "TxValue c")
  case None
  show ?thesis
  proof (cases "faults w (db_calls w)")
    case N: None
    with None show ?thesis
      by (auto simp: getConnectionOrTx_def prov acquire_def wp_rules exec_of_def intro!: wp_conseq [OF body [unfolded exec_of_def None option.case]])
        (auto simp: answers_def session_def calm_def journal_def split: sum.splits)
  next
    case (Some f)
    then have "\<not> calm w" by (rule fault_not_calm)
    with None Some show ?thesis
      by (auto simp: getConnectionOrTx_def prov acquire_def wp_rules journal_def session_def intro!: answers_lost)
  qed
next
  case (Some y)
  then show ?thesis
    by (auto simp: getConnectionOrTx_def no_close_def wp_rules exec_of_def intro!: wp_conseq [OF body [unfolded exec_of_def Some option.case]])
      (auto simp: answers_def session_def calm_def journal_def split: sum.splits)
qed

lemma andThen_run:
  "andThen (Query x st) kq = andThen (run_stmt x st) (\<lambda>(rows, n). kq rows)"
  "andThen (Exec x st) ke = andThen (run_stmt x st) (\<lambda>(rows, n). ke n)"
  "QueryRow x st scan = andThen (run_stmt x st) (\<lambda>(rows, n). lift (CollectOneRow scan rows))"
  by (rule state.expand, rule ext, auto simp: QueryRow_def Query_def Exec_def run_rules split: prod.splits outcome.splits)+

lemma write_answers:
  assumes "\<And>rows n. k rows n = State_Monad.return (f rows n)"
  shows "wp (on_default c (\<lambda>x. andThen (ToSQL st) (\<lambda>sql. andThen (run_stmt x sql) (\<lambda>(rows, n). k rows n))))
           (answers (exec_of c) st f w) w"
  unfolding on_default_def GetDefaultOrTx_def MasterConnection_def
  by (rule on_connection_answers [where m = "\<lambda>x. andThen (ToSQL st) (\<lambda>sql. andThen (run_stmt x sql) (\<lambda>(rows, n). k rows n))"])
    (auto intro!: wp_ToSQL run_stmt_answers assms answers_lost)

lemma write_answers_raw:
  assumes "\<And>rows n. k rows n = State_Monad.return (f rows n)"
  shows "wp (on_default c (\<lambda>x. andThen (run_stmt x st) (\<lambda>(rows, n). k rows n))) (answers (exec_of c) st f w) w"
  unfolding on_default_def GetDefaultOrTx_def MasterConnection_def
  by (rule on_connection_answers [where m = "\<lambda>x. andThen (run_stmt x st) (\<lambda>(rows, n). k rows n)"])
    (auto intro!: run_stmt_answers assms)

lemma read_answers:
  assumes "\<And>rows n. k rows n = State_Monad.return (f rows n)"
  shows "wp (on_read_only c (\<lambda>x. andThen (run_stmt x st) (\<lambda>(rows, n). k rows n))) (answers (exec_of c) st f w) w"
  unfolding on_read_only_def GetReadOnlyOrTx_def ReadOnlyConnection_def
  by (rule on_connection_answers [where m = "\<lambda>x. andThen (run_stmt x st) (\<lambda>(rows, n). k rows n)"])
    (auto intro!: run_stmt_answers assms)

lemma answers_moved:
  assumes "tables v = tables w" "session v = session w" "journal v = journal w" "aborted v = aborted w"
  shows "answers x st f v r u = answers x st f w r u"
proof -
  have c: "calm v = calm w" and l: "locked_elsewhere v = locked_elsewhere w"
    using assms by (auto simp: calm_def session_def)
  show ?thesis unfolding answers_def assms(1-3) c l ..
qed

lemma ToSQL_then_answers:
  assumes "\<And>v. wp (k st) (answers x st' f v) v"
  shows "wp (andThen (ToSQL st) k) (answers x st' f w) w"
proof (rule wp_ToSQL)
  fix v
  assume v: "tables v = tables w" "session v = session w" "journal v = journal w" "aborted v = aborted w"
  have "answers x st' f v = answers x st' f w"
    by (intro ext) (simp add: answers_moved [OF v])
  with assms [of v] show "wp (k st) (answers x st' f w) v" by simp
qed (auto intro: answers_lost)

definition row_or :: "ports_err \<Rightarrow> (row \<Rightarrow> 'm option) \<Rightarrow> row list \<Rightarrow> nat \<Rightarrow> 'm outcome" where
  "row_or e scan rows n =
     (case CollectOneRow scan rows of Inr m \<Rightarrow> Ok m
      | Inl d \<Rightarrow> (if errors_is d (Lib PgxErrNoRows) then Err (Sentinel (Ports e)) else Err d))"

definition row_of :: "(row \<Rightarrow> 'm option) \<Rightarrow> row list \<Rightarrow> nat \<Rightarrow> 'm outcome" where
  "row_of scan rows n = (case CollectOneRow scan rows of Inr m \<Rightarrow> Ok m | Inl d \<Rightarrow> Err d)"

definition rows_of :: "(row \<Rightarrow> 'm option) \<Rightarrow> row list \<Rightarrow> nat \<Rightarrow> 'm list outcome" where
  "rows_of scan rows n = (case CollectRows scan rows of Inr m \<Rightarrow> Ok m | Inl d \<Rightarrow> Err d)"

definition count_of :: "row list \<Rightarrow> nat \<Rightarrow> nat outcome" where
  "count_of rows n = Ok n"

definition done_of :: "row list \<Rightarrow> nat \<Rightarrow> unit outcome" where
  "done_of rows n = Ok ()"

definition affected_of :: "row list \<Rightarrow> nat \<Rightarrow> unit outcome" where
  "affected_of rows n = (if n = 0 then Err (Sentinel (Ports ErrNoAffectedRows)) else Ok ())"

lemmas result_defs = row_or_def row_of_def rows_of_def count_of_def done_of_def affected_of_def

lemma pure_results:
  "no_rows_as e (CollectOneRow scan rows) = State_Monad.return (row_or e scan rows n)"
  "lift (CollectOneRow scan rows) = State_Monad.return (row_of scan rows n)"
  "lift (CollectRows scan rows) = State_Monad.return (rows_of scan rows n)"
  "ok m = State_Monad.return (count_of rows m)"
  "ok () = State_Monad.return (done_of rows n)"
  "affected ErrNoAffectedRows n = State_Monad.return (affected_of rows n)"
  by (auto simp: no_rows_as_def lift_def affected_def result_defs ok_def fail_def split: sum.split)


subsection \<open>The operations\<close>

lemmas read_ops = SelectOne_def Select_def andThen_run

lemma Select_answers:
  "wp (SelectOne repo c st) (answers (exec_of c) st (row_or ErrNotFound (md_scan (rp_model repo))) w) w"
  "wp (Select repo c st) (answers (exec_of c) st (rows_of (md_scan (rp_model repo))) w) w"
  unfolding read_ops by (rule read_answers; rule pure_results)+

lemma SelectBy_answers:
  "wp (SelectOneBy repo c wh opts)
     (answers (exec_of c) (SelectStmt (selectDataset repo wh (opts @ [WithLimit 1])) None)
       (row_or ErrNotFound (md_scan (rp_model repo))) w) w"
  "wp (SelectBy repo c wh opts)
     (answers (exec_of c) (SelectStmt (selectDataset repo wh opts) None) (rows_of (md_scan (rp_model repo))) w) w"
  unfolding SelectOneBy_def SelectBy_def by (rule ToSQL_then_answers; rule Select_answers)+

lemma Count_answers:
  "wp (Count repo c wh) (answers (exec_of c) (CountStmt (rp_table repo) wh) (row_of (scan_int ''count'')) w) w"
  unfolding Count_def andThen_run by (intro ToSQL_then_answers read_answers pure_results)

lemma Update_answers:
  "wp (Update repo c m)
     (answers (exec_of c) (UpdateStmt (rp_table repo) (set_to (md_Params (rp_model repo) m))
        (EEq (fst (md_PrimaryKey (rp_model repo) m)) (snd (md_PrimaryKey (rp_model repo) m))) False) affected_of w) w"
  "wp (UpdateReturning repo c m)
     (answers (exec_of c) (UpdateStmt (rp_table repo) (set_to (md_Params (rp_model repo) m))
        (EEq (fst (md_PrimaryKey (rp_model repo) m)) (snd (md_PrimaryKey (rp_model repo) m))) True)
        (row_or ErrNoAffectedRows (md_scan (rp_model repo))) w) w"
  unfolding Update_def UpdateReturning_def andThen_run split_beta
  by (rule write_answers [unfolded split_beta]; rule pure_results)+

lemma Create_answers:
  "wp (Create repo c m)
     (answers (exec_of c) (InsertStmt (rp_table repo) [md_Params (rp_model repo) m] NoConflict False) done_of w) w"
  "wp (CreateReturning repo c m)
     (answers (exec_of c) (InsertStmt (rp_table repo) [md_Params (rp_model repo) m] NoConflict True)
        (row_of (md_scan (rp_model repo))) w) w"
  unfolding Create_def CreateReturning_def andThen_run by (rule write_answers; rule pure_results)+

lemma Upsert_answers:
  "wp (Upsert repo c m t u) (answers (exec_of c) (upsertDataset repo m t u False) done_of w) w"
  "wp (UpsertReturning repo c m t u)
     (answers (exec_of c) (upsertDataset repo m t u True) (row_of (md_scan (rp_model repo))) w) w"
  unfolding Upsert_def UpsertReturning_def andThen_run by (rule write_answers; rule pure_results)+

lemma CreateBatch_answers:
  "ms \<noteq> [] \<Longrightarrow> wp (CreateBatch repo c ms)
     (answers (exec_of c) (InsertStmt (rp_table repo) (map (md_Params (rp_model repo)) ms) NoConflict False) done_of w) w"
  unfolding CreateBatch_def andThen_run by (simp, rule write_answers, rule pure_results)

lemma Delete_answers:
  "ids \<noteq> [] \<Longrightarrow> wp (Delete repo c ids)
     (answers (exec_of c) (DeleteStmt (rp_table repo) (EIn (primaryKeyColumn repo) ids) False) affected_of w) w"
  unfolding Delete_def andThen_run by (simp, rule write_answers, rule pure_results)

lemma DeleteWhereReturning_answers:
  "wp (DeleteWhereReturning repo c wh)
     (answers (exec_of c) (DeleteStmt (rp_table repo) wh True) (rows_of (md_scan (rp_model repo))) w) w"
  unfolding DeleteWhereReturning_def andThen_run by (rule write_answers; rule pure_results)

lemma selectForLock_text:
  "LockOptions_SQL lock = Inr txt \<Longrightarrow>
   andThen (selectForLockSQL repo wh lock opts) k =
   andThen (ToSQL (SelectStmt (selectDataset repo wh opts) None))
     (\<lambda>_. k (SelectStmt (selectDataset repo wh opts) (Some txt)))"
  by (rule state.expand, rule ext) (auto simp: selectForLockSQL_def run_rules split: prod.splits outcome.splits)

lemma Lock_answers:
  "LockOptions_SQL lock = Inr txt \<Longrightarrow>
   wp (SelectForLock repo c wh lock opts)
     (answers (exec_of c) (SelectStmt (selectDataset repo wh opts) (Some txt)) (rows_of (md_scan (rp_model repo))) w) w"
  "LockOptions_SQL lock = Inr txt \<Longrightarrow>
   wp (SelectOneForLock repo c wh lock opts)
     (answers (exec_of c) (SelectStmt (selectDataset repo wh (opts @ [WithLimit 1])) (Some txt))
       (row_or ErrNotFound (md_scan (rp_model repo))) w) w"
  unfolding SelectForLock_def SelectOneForLock_def andThen_run
  by (simp_all add: selectForLock_text)
    (intro ToSQL_then_answers write_answers_raw pure_results)+

lemma Advisory_answers:
  "wp (AdvisoryTransactionLock repo c k)
     (answers (exec_of c) (RawStmt ''select pg_advisory_xact_lock($1)'' [int64_arg k]) done_of w) w"
  "wp (TryAdvisoryTransactionLock repo c k)
     (answers (exec_of c) (RawStmt ''select pg_try_advisory_xact_lock($1)'' [int64_arg k]) (row_of (scan_bool ''locked'')) w) w"
  "wp (AdvisoryTransactionLock2 repo c k1 k2)
     (answers (exec_of c) (RawStmt ''select pg_advisory_xact_lock($1, $2)'' [int32_arg k1, int32_arg k2]) done_of w) w"
  "wp (TryAdvisoryTransactionLock2 repo c k1 k2)
     (answers (exec_of c) (RawStmt ''select pg_try_advisory_xact_lock($1, $2)'' [int32_arg k1, int32_arg k2])
        (row_of (scan_bool ''locked'')) w) w"
  unfolding AdvisoryTransactionLock_def TryAdvisoryTransactionLock_def AdvisoryTransactionLock2_def
    TryAdvisoryTransactionLock2_def andThen_run
  by (rule write_answers_raw; rule pure_results)+

section \<open>The locking clause\<close>

definition harmless :: "char \<Rightarrow> bool" where
  "harmless c \<longleftrightarrow> c = CHR '' '' \<or> \<not> unsafe_char c"

lemma lock_tables_safe:
  assumes "lock_tables i ts b = Inr t" "list_all harmless b"
  shows "(\<exists>s. t = b @ s) \<and> list_all harmless t"
  using assms
proof (induction i ts b rule: lock_tables.induct)
  case (2 index table rest builder)
  let ?b = "builder @ (if index > 0 then '', '' else []) @ table"
  have ok: "TrimSpace table \<noteq> []" "\<not> list_ex unsafe_char table" and
    rest: "lock_tables (index + 1) rest ?b = Inr t"
    using 2(2) by (auto split: if_splits)
  have "list_all harmless table" using ok(2) by (simp add: list_all_iff list_ex_iff harmless_def)
  moreover have "list_all harmless '', ''" by (simp add: harmless_def unsafe_char_def)
  ultimately have "list_all harmless ?b" using 2(3) by simp
  with 2(1) [OF ok rest] show ?case by auto
qed simp



end
