(* ===== verification/Repositories.thy ===== *)
theory Repositories
  imports PostgresBase Ports
begin

text \<open>
  internal/repository: the four repositories on top of the generic one, and the proofs that they
  and the transaction manager satisfy the contracts of internal/ports on the PostgreSQL world.
\<close>

section \<open>The repositories\<close>

definition user_model :: "user_account model" where
  "user_model =
     \<lparr>md_Params = UserAccount_Params, md_Fields = UserAccount_Fields,
      md_PrimaryKey = UserAccount_PrimaryKey, md_scan = scan_user,
      md_zero = \<lparr>ua_ID = 0, ua_Login = [], ua_Email = [], ua_FirstName = [], ua_LastName = [],
                 ua_Provider = [], ua_CreatedAt = 0, ua_UpdatedAt = 0\<rparr>\<rparr>"

definition credential_model :: "password_credential model" where
  "credential_model =
     \<lparr>md_Params = PasswordCredential_Params, md_Fields = PasswordCredential_Fields,
      md_PrimaryKey = PasswordCredential_PrimaryKey, md_scan = scan_credential,
      md_zero = \<lparr>pc_UserID = 0, pc_PasswordHash = [], pc_CreatedAt = 0, pc_UpdatedAt = 0\<rparr>\<rparr>"

definition identity_model :: "external_identity model" where
  "identity_model =
     \<lparr>md_Params = ExternalIdentity_Params, md_Fields = ExternalIdentity_Fields,
      md_PrimaryKey = ExternalIdentity_PrimaryKey, md_scan = scan_identity,
      md_zero = \<lparr>ei_ID = 0, ei_UserID = 0, ei_Provider = [], ei_Subject = [], ei_CreatedAt = 0,
                 ei_UpdatedAt = 0\<rparr>\<rparr>"

definition outbox_model :: "outbox_message model" where
  "outbox_model =
     \<lparr>md_Params = OutboxMessage_Params, md_Fields = OutboxMessage_Fields,
      md_PrimaryKey = OutboxMessage_PrimaryKey, md_scan = scan_outbox,
      md_zero = \<lparr>om_ID = 0, om_Topic = [], om_MessageKey = [], om_Payload = [], om_Status = [],
                 om_AttemptCount = 0, om_LastError = [], om_PublishedAt = None,
                 om_NextAttemptAt = None, om_CreatedAt = 0, om_UpdatedAt = 0\<rparr>\<rparr>"

definition users_base :: "user_account repo" where
  "users_base = NewRepository user_model ''auth_users''"

definition credentials_base :: "password_credential repo" where
  "credentials_base = NewRepository credential_model ''auth_password_credentials''"

definition identities_base :: "external_identity repo" where
  "identities_base = NewRepository identity_model ''auth_external_identities''"

definition outbox_base :: "outbox_message repo" where
  "outbox_base = NewRepository outbox_model ''auth_outbox_messages''"

lemmas base_defs = users_base_def credentials_base_def identities_base_def outbox_base_def NewRepository_def
  user_model_def credential_model_def identity_model_def outbox_model_def primaryKeyColumn_def
  UserAccount_PrimaryKey_def PasswordCredential_PrimaryKey_def ExternalIdentity_PrimaryKey_def
  OutboxMessage_PrimaryKey_def

text \<open>\<open>uuid.Parse\<close> of an argument, its error wrapped with what was parsed.\<close>

definition with_uuid :: "string \<Rightarrow> string \<Rightarrow> (uuid \<Rightarrow> (world, 'a) go) \<Rightarrow> (world, 'a) go" where
  "with_uuid what s k =
     (case uuid_Parse s of Ok i \<Rightarrow> k i | Err e \<Rightarrow> fail (wrap what e) | Panic p \<Rightarrow> panic p)"

subsection \<open>authusers\<close>

definition users_GetByID :: "ctx \<Rightarrow> string \<Rightarrow> (world, user_account) go" where
  "users_GetByID c i = with_uuid ''parse user id'' i (\<lambda>parsedID. FindByPrimaryKey users_base c (VUuid parsedID))"

definition users_GetByLogin :: "ctx \<Rightarrow> string \<Rightarrow> (world, user_account) go" where
  "users_GetByLogin c login = SelectOneBy users_base c (Some (EEq ''login'' (VStr login))) [WithLimit 1]"

definition users_GetByEmail :: "ctx \<Rightarrow> string \<Rightarrow> (world, user_account) go" where
  "users_GetByEmail c email = SelectOneBy users_base c (Some (EEq ''email'' (VStr email))) [WithLimit 1]"

definition users_Create :: "ctx \<Rightarrow> user_account \<Rightarrow> (world, unit) go" where
  "users_Create c account = Create users_base c account"

subsection \<open>passwordcredentials\<close>

definition credentials_GetByUserID :: "ctx \<Rightarrow> string \<Rightarrow> (world, password_credential) go" where
  "credentials_GetByUserID c userID =
     with_uuid ''parse user id'' userID (\<lambda>parsedID. FindByPrimaryKey credentials_base c (VUuid parsedID))"

definition credentials_Create :: "ctx \<Rightarrow> password_credential \<Rightarrow> (world, unit) go" where
  "credentials_Create c credential = Create credentials_base c credential"

subsection \<open>externalidentities\<close>

definition identities_GetByProviderSubject :: "ctx \<Rightarrow> string \<Rightarrow> string \<Rightarrow> (world, external_identity) go" where
  "identities_GetByProviderSubject c provider subject =
     SelectOneBy identities_base c
       (Some (EAnd [EEq ''provider'' (VStr provider), EEq ''subject'' (VStr subject)])) [WithLimit 1]"

definition identities_Create :: "ctx \<Rightarrow> external_identity \<Rightarrow> (world, unit) go" where
  "identities_Create c identity = Create identities_base c identity"

subsection \<open>outboxmessages\<close>

definition outbox_Create :: "ctx \<Rightarrow> outbox_message option \<Rightarrow> (world, unit) go" where
  "outbox_Create c message =
     (case message of
        None \<Rightarrow> panic ''invalid memory address or nil pointer dereference''
      | Some m \<Rightarrow> Create outbox_base c m)"

definition pickable :: "time \<Rightarrow> expr" where
  "pickable now =
     EOr [EEq ''status'' (VStr OutboxStatusPending),
          EAnd [EEq ''status'' (VStr OutboxStatusFailed),
                EOr [ENull ''next_attempt_at'', ELte ''next_attempt_at'' (VTime now)]],
          EAnd [EEq ''status'' (VStr OutboxStatusProcessing),
                ELte ''updated_at'' (VTime (now - five_minutes))]]"

definition outbox_PickPending :: "ctx \<Rightarrow> nat \<Rightarrow> (world, outbox_message list) go" where
  "outbox_PickPending c limit = do {
     now \<leftarrow> now_w;
     SelectForLock outbox_base c (Some (pickable now))
       \<lparr>lk_Mode = LockForUpdate, lk_WaitPolicy = LockSkipLocked, lk_OfTables = []\<rparr>
       [WithOrderBy [Asc ''next_attempt_at'', Asc ''created_at''], WithLimit limit] }"

definition outbox_MarkProcessing :: "ctx \<Rightarrow> string \<Rightarrow> (world, unit) go" where
  "outbox_MarkProcessing c i =
     with_uuid ''parse outbox id'' i (\<lambda>parsedID. do {
       now \<leftarrow> now_w;
       UpdateFieldsByPrimaryKey outbox_base c (VUuid parsedID)
         [(''status'', SetTo (VStr OutboxStatusProcessing)), (''updated_at'', SetTo (VTime now)),
          (''next_attempt_at'', SetTo VNull)] })"

definition outbox_MarkSent :: "ctx \<Rightarrow> string \<Rightarrow> (world, unit) go" where
  "outbox_MarkSent c i =
     with_uuid ''parse outbox id'' i (\<lambda>parsedID. do {
       now \<leftarrow> now_w;
       UpdateFieldsByPrimaryKey outbox_base c (VUuid parsedID)
         [(''status'', SetTo (VStr OutboxStatusSent)), (''published_at'', SetTo (VTime now)),
          (''updated_at'', SetTo (VTime now)), (''last_error'', SetTo (VStr [])),
          (''next_attempt_at'', SetTo VNull)] })"

definition outbox_MarkFailed :: "ctx \<Rightarrow> string \<Rightarrow> string \<Rightarrow> time \<Rightarrow> (world, unit) go" where
  "outbox_MarkFailed c i lastError nextAttemptAt =
     with_uuid ''parse outbox id'' i (\<lambda>parsedID. do {
       now \<leftarrow> now_w;
       UpdateFieldsByPrimaryKey outbox_base c (VUuid parsedID)
         [(''status'', SetTo (VStr OutboxStatusFailed)), (''last_error'', SetTo (VStr lastError)),
          (''attempt_count'', SetPlus ''attempt_count'' 1), (''updated_at'', SetTo (VTime now)),
          (''next_attempt_at'', SetTo (VTime nextAttemptAt))] })"

section \<open>The stored entities\<close>

definition user_row :: "user_account \<Rightarrow> row" where
  "user_row u = map_of (UserAccount_Params u)"

definition cred_row :: "password_credential \<Rightarrow> row" where
  "cred_row c = map_of (PasswordCredential_Params c)"

definition ident_row :: "external_identity \<Rightarrow> row" where
  "ident_row i = map_of (ExternalIdentity_Params i)"

definition outbox_row :: "outbox_message \<Rightarrow> row" where
  "outbox_row m = map_of (OutboxMessage_Params m)"

lemmas row_defs = user_row_def cred_row_def ident_row_def outbox_row_def
lemmas params_defs = UserAccount_Params_def PasswordCredential_Params_def ExternalIdentity_Params_def
  OutboxMessage_Params_def

text \<open>The tables that hold the entities of a store, and nothing else.\<close>

definition holds :: "db \<Rightarrow> store \<Rightarrow> bool" where
  "holds d s \<longleftrightarrow>
     d ''auth_users'' = map user_row (st_users s)
     \<and> d ''auth_password_credentials'' = map cred_row (st_creds s)
     \<and> d ''auth_external_identities'' = map ident_row (st_idents s)
     \<and> d ''auth_outbox_messages'' = map outbox_row (st_outbox s)"

definition read_db :: "db \<Rightarrow> store" where
  "read_db d =
     \<lparr>st_users = map (the \<circ> scan_user) (d ''auth_users''),
      st_creds = map (the \<circ> scan_credential) (d ''auth_password_credentials''),
      st_idents = map (the \<circ> scan_identity) (d ''auth_external_identities''),
      st_outbox = map (the \<circ> scan_outbox) (d ''auth_outbox_messages'')\<rparr>"

lemma scan_rows [simp]:
  "scan_user (user_row u) = Some u" "scan_credential (cred_row c) = Some c"
  "scan_identity (ident_row i) = Some i" "scan_outbox (outbox_row m) = Some m"
  by (simp_all add: row_defs scan_user_Params scan_credential_Params scan_identity_Params scan_outbox_Params)

lemma holds_read: "holds d s \<Longrightarrow> read_db d = s"
  by (simp add: holds_def read_db_def comp_def)

lemma col_rows [simp]:
  "col_value (user_row u) ''id'' = VUuid (ua_ID u)" "col_value (user_row u) ''login'' = VStr (ua_Login u)"
  "col_value (user_row u) ''email'' = VStr (ua_Email u)"
  "col_value (cred_row c) ''user_id'' = VUuid (pc_UserID c)"
  "col_value (ident_row i) ''id'' = VUuid (ei_ID i)" "col_value (ident_row i) ''user_id'' = VUuid (ei_UserID i)"
  "col_value (ident_row i) ''provider'' = VStr (ei_Provider i)"
  "col_value (ident_row i) ''subject'' = VStr (ei_Subject i)"
  "col_value (outbox_row m) ''id'' = VUuid (om_ID m)"
  "col_value (outbox_row m) ''status'' = VStr (om_Status m)"
  "col_value (outbox_row m) ''updated_at'' = VTime (om_UpdatedAt m)"
  "col_value (outbox_row m) ''created_at'' = VTime (om_CreatedAt m)"
  "col_value (outbox_row m) ''next_attempt_at'' = opt_time (om_NextAttemptAt m)"
  by (simp_all add: row_defs params_defs col_value_def)

lemma new_rows:
  "new_row (UserAccount_Params u) = user_row (norm_user u)"
  "new_row (PasswordCredential_Params c) = cred_row (norm_cred c)"
  "new_row (ExternalIdentity_Params i) = ident_row (norm_ident i)"
  "new_row (OutboxMessage_Params m) = outbox_row (norm_outbox m)"
  by (simp_all add: new_row_def row_defs params_defs norm_defs to_us_def opt_time_def split: option.split)

section \<open>The contracts hold\<close>

text \<open>
  The ghost of a world: its session and, inside a transaction, the events of the transaction
  manager, which nothing the callback does may add to.
\<close>

type_synonym ghost = "session \<times> event list option"

definition db_obs :: "(ghost, world) obs" where
  "db_obs =
     \<lparr>Inv = (\<lambda>g w. session w = fst g \<and> (\<forall>es. snd g = Some es \<longrightarrow> tx_events w = es)
         \<and> holds (tables w) (read_db (tables w)) \<and> store_ok (read_db (tables w))),
      Outside = (\<lambda>g. fst (fst g) = None \<and> snd g = None),
      Ids = (\<lambda>g. range (session_ids (fst g))),
      Held = (\<lambda>g m. session_locks (fst g) ''auth_outbox_messages'' (outbox_row m)),
      View = (\<lambda>w. read_db (tables w)),
      Calm = calm,
      Journal = svc_events\<rparr>"

lemma obs_sel [simp]:
  "Inv db_obs g w \<longleftrightarrow> session w = fst g \<and> (\<forall>es. snd g = Some es \<longrightarrow> tx_events w = es)
      \<and> holds (tables w) (read_db (tables w)) \<and> store_ok (read_db (tables w))"
  "Outside db_obs g \<longleftrightarrow> fst (fst g) = None \<and> snd g = None" "View db_obs w = read_db (tables w)"
  "Calm db_obs = calm" "Ids db_obs g = range (session_ids (fst g))"
  "Held db_obs g = (\<lambda>m. session_locks (fst g) ''auth_outbox_messages'' (outbox_row m))" "Journal db_obs = svc_events"
  by (simp_all add: db_obs_def)

lemma dataset_one:
  "selectDataset repo (Some e) ([WithLimit 1] @ [WithLimit 1]) =
     \<lparr>sd_table = rp_table repo, sd_where = Some e, sd_order = [], sd_limit = Some 1, sd_offset = None\<rparr>"
  by (simp add: selectDataset_def applySelectOptions_def WithLimit_def)

lemma select_one_found:
  assumes a: "answers x (SelectStmt (selectDataset repo (Some e) ([WithLimit 1] @ [WithLimit 1])) None)
      (row_or ErrNotFound (md_scan (rp_model repo))) w r v"
    and i: "Inv db_obs g w" and sc: "schema (rp_table repo) \<noteq> None"
    and xs: "tables w (rp_table repo) = map row xs" "\<And>x. md_scan (rp_model repo) (row x) = Some x"
      "\<And>x. eval_expr e (row x) = P x"
  shows "unchanged db_obs g w v \<and> found (calm w) P xs r"
proof -
  have hits: "take 1 (filter (where_ok (Some e)) (map row xs)) = map row (take 1 (filter P xs))"
    by (simp add: filter_map take_map o_def where_ok_def xs(3))
  have run: "pg_run (locked_elsewhere w) (SelectStmt (selectDataset repo (Some e) ([WithLimit 1] @ [WithLimit 1])) None)
      (tables w) = Inr (tables w, map row (take 1 (filter P xs)), length (take 1 (filter P xs)))"
    unfolding dataset_one using sc hits
    by (auto simp: pg_select_def order_rows_def opt_take_def opt_drop_def xs(1) simp del: take_Suc split: option.split)
  show ?thesis
  proof (cases "filter P xs")
    case Nil
    then have "\<forall>x\<in>set xs. \<not> P x" by (simp add: filter_empty_conv)
    with a i run Nil show ?thesis
      by (auto simp: answers_def unchanged_def found_def row_or_def CollectOneRow_def not_found_def lost_answer_def dest: journal_same)
  next
    case (Cons y ys)
    then have "y \<in> set xs" "P y" by (auto dest: filter_eq_ConsD)
    with a i run Cons show ?thesis
      by (auto simp: answers_def unchanged_def found_def row_or_def CollectOneRow_def not_found_def lost_answer_def xs(2) dest: journal_same)
  qed
qed

lemma holds_tables:
  "holds d (read_db d) \<Longrightarrow> d ''auth_users'' = map user_row (st_users (read_db d))"
  "holds d (read_db d) \<Longrightarrow> d ''auth_password_credentials'' = map cred_row (st_creds (read_db d))"
  "holds d (read_db d) \<Longrightarrow> d ''auth_external_identities'' = map ident_row (st_idents (read_db d))"
  "holds d (read_db d) \<Longrightarrow> d ''auth_outbox_messages'' = map outbox_row (st_outbox (read_db d))"
  by (simp_all add: holds_def)

lemma find_one:
  assumes "Inv db_obs g w" "schema (rp_table repo) \<noteq> None" "tables w (rp_table repo) = map row xs"
    "\<And>x. md_scan (rp_model repo) (row x) = Some x" "\<And>x. eval_expr e (row x) = P x"
  shows "wp (SelectOneBy repo c (Some e) [WithLimit 1]) (\<lambda>r v. unchanged db_obs g w v \<and> found (calm w) P xs r) w"
  by (rule wp_conseq [OF SelectBy_answers(1)]) (rule select_one_found; use assms in blast)

lemma base_sel [simp]:
  "rp_table users_base = ''auth_users''" "md_scan (rp_model users_base) = scan_user"
  "md_Params (rp_model users_base) = UserAccount_Params" "primaryKeyColumn users_base = ''id''"
  "rp_table credentials_base = ''auth_password_credentials''" "md_scan (rp_model credentials_base) = scan_credential"
  "md_Params (rp_model credentials_base) = PasswordCredential_Params" "primaryKeyColumn credentials_base = ''user_id''"
  "rp_table identities_base = ''auth_external_identities''" "md_scan (rp_model identities_base) = scan_identity"
  "md_Params (rp_model identities_base) = ExternalIdentity_Params"
  "rp_table outbox_base = ''auth_outbox_messages''" "md_scan (rp_model outbox_base) = scan_outbox"
  "md_Params (rp_model outbox_base) = OutboxMessage_Params" "primaryKeyColumn outbox_base = ''id''"
  by (simp_all add: base_defs)

lemma with_uuid_String [simp]: "with_uuid what (uuid_String i) k = k i"
  by (simp add: with_uuid_def)

lemma users_lookup:
  assumes "Inv db_obs g w"
  shows "wp (users_GetByID c (uuid_String i))
      (\<lambda>r v. unchanged db_obs g w v \<and> found (calm w) (\<lambda>u. ua_ID u = i) (st_users (read_db (tables w))) r) w"
    and "wp (users_GetByLogin c l)
      (\<lambda>r v. unchanged db_obs g w v \<and> found (calm w) (\<lambda>u. ua_Login u = l) (st_users (read_db (tables w))) r) w"
    and "wp (users_GetByEmail c l)
      (\<lambda>r v. unchanged db_obs g w v \<and> found (calm w) (\<lambda>u. ua_Email u = l) (st_users (read_db (tables w))) r) w"
  unfolding users_GetByID_def with_uuid_String FindByPrimaryKey_def users_GetByLogin_def users_GetByEmail_def
  by (rule find_one [where row = user_row]; use assms in \<open>simp add: schema_def holds_tables\<close>)+

lemma credentials_lookup:
  assumes "Inv db_obs g w"
  shows "wp (credentials_GetByUserID c (uuid_String i))
      (\<lambda>r v. unchanged db_obs g w v \<and> found (calm w) (\<lambda>u. pc_UserID u = i) (st_creds (read_db (tables w))) r) w"
  unfolding credentials_GetByUserID_def with_uuid_String FindByPrimaryKey_def
  by (rule find_one [where row = cred_row]; use assms in \<open>simp add: schema_def holds_tables\<close>)

lemma identities_lookup:
  assumes "Inv db_obs g w"
  shows "wp (identities_GetByProviderSubject c p s)
      (\<lambda>r v. unchanged db_obs g w v
         \<and> found (calm w) (\<lambda>x. ei_Provider x = p \<and> ei_Subject x = s) (st_idents (read_db (tables w))) r) w"
  unfolding identities_GetByProviderSubject_def
  by (rule find_one [where row = ident_row]; use assms in \<open>simp add: schema_def holds_tables\<close>)

text \<open>One INSERT of one row.\<close>

lemma insert_created:
  assumes a: "answers x (InsertStmt (rp_table repo) [md_Params (rp_model repo) m] NoConflict False) done_of w r v"
    and i: "Inv db_obs g w" and sc: "schema (rp_table repo) = Some sc"
    and row: "new_row (md_Params (rp_model repo) m) = rw"
    and dup: "violates_unique sc (tables w (rp_table repo)) rw = dup (read_db (tables w))"
    and ref: "violates_ref sc (tables w) rw = dangling (read_db (tables w))"
    and add: "\<not> dup (read_db (tables w)) \<Longrightarrow> \<not> dangling (read_db (tables w)) \<Longrightarrow>
      holds ((tables w)(rp_table repo := tables w (rp_table repo) @ [rw])) (add (read_db (tables w)))
      \<and> store_ok (add (read_db (tables w)))"
  shows "created db_obs g w add dup dangling r v"
proof -
  have run: "pg_run (locked_elsewhere w) (InsertStmt (rp_table repo) [md_Params (rp_model repo) m] NoConflict False) (tables w) =
     (if dangling (read_db (tables w)) then Inl ref_violation
      else if dup (read_db (tables w)) then Inl unique_violation
      else Inr ((tables w)(rp_table repo := tables w (rp_table repo) @ [rw]), [], 1))"
    by (simp add: sc row pg_insert_row_def dup ref)
  have viol: "as_pg_code ref_violation = Some ''23503''" "as_pg_code unique_violation = Some ''23505''"
    "\<not> errors_is ref_violation s" "\<not> errors_is unique_violation s" for s
    by (simp_all add: ref_violation_def unique_violation_def)
  show ?thesis
  proof (cases "dangling (read_db (tables w)) \<or> dup (read_db (tables w))")
    case True
    with a [unfolded answers_def run] i show ?thesis
      by (auto simp: created_def viol split: if_splits dest: journal_same)
  next
    case False
    with add have h: "holds ((tables w)(rp_table repo := tables w (rp_table repo) @ [rw])) (add (read_db (tables w)))"
      "store_ok (add (read_db (tables w)))"
      by auto
    from holds_read [OF h(1)] h False a [unfolded answers_def run] i show ?thesis
      by (auto simp: created_def done_of_def split: if_splits dest: journal_same)
  qed
qed

lemma create_law:
  assumes "Inv db_obs g w" "schema (rp_table repo) = Some sc" "new_row (md_Params (rp_model repo) m) = rw"
    "violates_unique sc (tables w (rp_table repo)) rw = dup (read_db (tables w))"
    "violates_ref sc (tables w) rw = dangling (read_db (tables w))"
    "\<not> dup (read_db (tables w)) \<Longrightarrow> \<not> dangling (read_db (tables w)) \<Longrightarrow>
      holds ((tables w)(rp_table repo := tables w (rp_table repo) @ [rw])) (add (read_db (tables w)))
      \<and> store_ok (add (read_db (tables w)))"
  shows "wp (Create repo c m) (created db_obs g w add dup dangling) w"
  by (rule wp_conseq [OF Create_answers(1)]) (rule insert_created; use assms in blast)

lemma holds_add:
  assumes "holds d s"
  shows "holds (d(''auth_users'' := map user_row (st_users s) @ [user_row (norm_user u)])) (add_user u s)"
    and "holds (d(''auth_password_credentials'' := map cred_row (st_creds s) @ [cred_row (norm_cred c)])) (add_cred c s)"
    and "holds (d(''auth_external_identities'' := map ident_row (st_idents s) @ [ident_row (norm_ident i)])) (add_ident i s)"
    and "holds (d(''auth_outbox_messages'' := map outbox_row (st_outbox s) @ [outbox_row (norm_outbox m)])) (add_outbox m s)"
  using assms by (simp_all add: holds_def add_defs)

lemma creates:
  assumes i: "Inv db_obs g w"
  shows "wp (users_Create c u) (created db_obs g w (add_user u) (dup_user u) (\<lambda>_. False)) w"
    and "wp (credentials_Create c pc) (created db_obs g w (add_cred pc) (dup_cred pc) (no_user (pc_UserID pc))) w"
    and "wp (identities_Create c ei) (created db_obs g w (add_ident ei) (dup_ident ei) (no_user (ei_UserID ei))) w"
    and "wp (outbox_Create c (Some m)) (created db_obs g w (add_outbox m) (dup_outbox m) (\<lambda>_. False)) w"
proof -
  have h: "holds (tables w) (read_db (tables w))" "store_ok (read_db (tables w))" using i by auto
  note keys = schema_def new_rows violates_unique_def violates_ref_def same_key_def list_ex_iff holds_tables
    dup_defs image_iff
  show "wp (users_Create c u) (created db_obs g w (add_user u) (dup_user u) (\<lambda>_. False)) w"
    unfolding users_Create_def
    by (rule create_law [OF i, where sc = "the (schema (rp_table users_base))" and rw = "user_row (norm_user u)"]; use h holds_add(1) [of _ _ u] store_ok_add(1) [of _ u] in \<open>simp add: keys\<close>)
  show "wp (credentials_Create c pc) (created db_obs g w (add_cred pc) (dup_cred pc) (no_user (pc_UserID pc))) w"
    unfolding credentials_Create_def
    by (rule create_law [OF i, where sc = "the (schema (rp_table credentials_base))" and rw = "cred_row (norm_cred pc)"]; use h holds_add(2) [of _ _ pc] store_ok_add(2) [of _ pc] in \<open>simp add: keys\<close>)
  show "wp (identities_Create c ei) (created db_obs g w (add_ident ei) (dup_ident ei) (no_user (ei_UserID ei))) w"
    unfolding identities_Create_def
    by (rule create_law [OF i, where sc = "the (schema (rp_table identities_base))" and rw = "ident_row (norm_ident ei)"]; use h holds_add(3) [of _ _ ei] store_ok_add(3) [of _ ei] in \<open>simp add: keys\<close>)
  show "wp (outbox_Create c (Some m)) (created db_obs g w (add_outbox m) (dup_outbox m) (\<lambda>_. False)) w"
    unfolding outbox_Create_def option.case
    by (rule create_law [OF i, where sc = "the (schema (rp_table outbox_base))" and rw = "outbox_row (norm_outbox m)"]; use h holds_add(4) [of _ _ m] store_ok_add(4) [of _ m] in \<open>simp add: keys\<close>)
qed


lemma outbox_Create_nil:
  "Inv db_obs g w \<Longrightarrow> wp (outbox_Create c None) (\<lambda>r v. unchanged db_obs g w v \<and> (\<exists>p. r = Panic p)) w"
  by (simp add: outbox_Create_def wp_panic unchanged_def)

text \<open>The transaction manager and the runtime on this world.\<close>

lemma ended_session:
  "ended w k v \<Longrightarrow> saved w = None \<Longrightarrow>
   session v = session w \<and> svc_events v = svc_events w \<and> (calm w \<longrightarrow> calm v)"
  by (auto simp: ended_def session_def calm_def)

lemma Do_law:
  assumes i: "Inv db_obs g w" and out: "Outside db_obs g"
    and f: "\<And>g' tc v. Inv db_obs g' v \<Longrightarrow> View db_obs v = View db_obs w \<Longrightarrow>
      (Calm db_obs w \<Longrightarrow> Calm db_obs v) \<Longrightarrow> Ids db_obs g' = Ids db_obs g \<Longrightarrow>
      Held db_obs g' = Held db_obs g \<Longrightarrow>
      wp (f tc) (\<lambda>r v'. Inv db_obs g' v' \<and> Journal db_obs v' = Journal db_obs v
        \<and> Q r (View db_obs v') (Calm db_obs v')) v"
  shows "wp (Do \<lparr>tx_pool = True\<rparr> c f) (tx_done db_obs g Q w) w"
proof -
  let ?R = "\<lambda>r d b. holds d (read_db d) \<and> store_ok (read_db d) \<and> Q r (read_db d) b"
  have g: "session w = fst g" "fst (fst g) = None" "snd g = None" using i out by auto
  have sv: "saved w = None" using g(1,2) by (metis session_def fst_conv)
  have cb: "callback_ok ?R f c v"
    if "tables v = tables w" "saved v = Some (tables w)" "calm w \<Longrightarrow> calm v" "uuid_source v = uuid_source w"
      "locked_elsewhere v = locked_elsewhere w" for v
  proof -
    have ids: "Ids db_obs (session v, Some (tx_events v)) = Ids db_obs g"
      using that(4) g(1) by (metis obs_sel(5) fst_conv session_ids)
    have held: "Held db_obs (session v, Some (tx_events v)) = Held db_obs g"
      unfolding obs_sel g(1) [symmetric] fst_conv session_locks that(5) ..
    have inv: "Inv db_obs (session v, Some (tx_events v)) v" "View db_obs v = View db_obs w" "calm w \<longrightarrow> calm v"
      using that(1,3) i by auto
    show ?thesis
      unfolding callback_ok_def
      by (rule wp_conseq [OF f [OF inv(1,2) _ ids held]]) (use inv(3) in auto)
  qed
  show ?thesis
    unfolding Do_def
  proof (rule wp_conseq [OF wp_execute [where R = ?R, OF sv cb]], goal_cases)
    case (6 r v)
    have cf: "from_callback Q e" if "came_from ?R e" for e
      using that by (auto simp: came_from_def from_callback_def intro: like_err_simps)
    from 6 obtain k where "ended w k v" by (auto simp: callback_post_def split: outcome.splits)
    from ended_session [OF this sv] i g 6 show ?case
      by (cases r) (auto simp: callback_post_def tx_done_def panicked_def dest: cf)
  qed auto
qed

interpretation users: user_repository db_obs users_GetByID users_GetByLogin users_GetByEmail users_Create
  by unfold_locales (auto simp del: obs_sel simp: obs_sel(3,4) users_lookup creates(1), simp add: obs_sel)

interpretation credentials: credential_repository db_obs credentials_GetByUserID credentials_Create
  by unfold_locales (auto simp del: obs_sel simp: obs_sel(3,4) credentials_lookup creates(2))

interpretation identities: identity_repository db_obs identities_GetByProviderSubject identities_Create
  by unfold_locales (auto simp del: obs_sel simp: obs_sel(3,4) identities_lookup creates(3))

interpretation outbox: outbox_writer db_obs outbox_Create
  by unfold_locales (auto simp del: obs_sel simp: creates(4) outbox_Create_nil)

interpretation tx: transactions db_obs "Do \<lparr>tx_pool = True\<rparr>"
  by unfold_locales (rule Do_law; blast)

interpretation runtime: clock_and_ids db_obs "world_runtime marshal"
  by (unfold_locales;
    auto simp: world_runtime_def uuid_w_def wp_rules unchanged_def session_def session_ids_def events_defs calm_def
      split: option.split; metis rangeI)

section \<open>A database between transactions\<close>

text \<open>No transaction is open and the tables hold the entities of a consistent store.\<close>

definition db_ready :: "world \<Rightarrow> bool" where
  "db_ready w \<longleftrightarrow> saved w = None \<and> holds (tables w) (read_db (tables w)) \<and> store_ok (read_db (tables w))"

definition stored :: "world \<Rightarrow> store" where
  "stored w = read_db (tables w)"

lemma db_ready_Inv: "db_ready w \<longleftrightarrow> Inv db_obs (session w, None) w \<and> Outside db_obs (session w, None)"
  by (auto simp: db_ready_def session_def)

lemma world_ids:
  assumes "\<forall>n. \<exists>i. uuid_source w n = Some i \<and> P i"
  shows "None \<notin> Ids db_obs (session w, x)" "Some i \<in> Ids db_obs (session w, x) \<Longrightarrow> P i"
proof -
  have *: "uuid_source w n \<noteq> None" "uuid_source w n = Some i \<Longrightarrow> P i" for n i
    using assms by (metis option.distinct(1) option.inject)+
  show "None \<notin> Ids db_obs (session w, x)"
    using *(1) by (simp add: image_iff eq_commute [of None])
  show "Some i \<in> Ids db_obs (session w, x) \<Longrightarrow> P i"
    using *(2) by (auto simp: image_iff eq_commute [of "Some i"])
qed

lemma empty_world_sel:
  "tables empty_world = (\<lambda>_. [])" "saved empty_world = None" "faults empty_world = (\<lambda>_. None)"
  "aborted empty_world = False" "events empty_world = []" "uuid_source empty_world = (\<lambda>n. Some (of_nat (Suc n)))"
  by (simp_all add: empty_world_def)

lemma stored_empty: "stored empty_world = \<lparr>st_users = [], st_creds = [], st_idents = [], st_outbox = []\<rparr>"
  by (simp add: stored_def empty_world_sel read_db_def)

lemma ready_empty: "db_ready empty_world" "calm empty_world"
  unfolding db_ready_def stored_empty [unfolded stored_def]
  by (simp_all add: empty_world_sel holds_def store_ok_def calm_def)

end
