(* ===== verification/AuthWorld.thy ===== *)
theory AuthWorld
  imports Tokens YandexLogin Repositories
begin

text \<open>
  internal/app/authsvc/application.go: the authentication service over its PostgreSQL
  repositories, the transaction manager, bcrypt and JWT tokens, and what its operations do to
  the stored entities.
\<close>

section \<open>The service on the PostgreSQL world\<close>

text \<open>The dependencies authsvc/application.go wires; the HTTP client of Yandex is a parameter.\<close>

definition auth_world ::
  "bcrypt_lib \<Rightarrow> int \<Rightarrow> jwt_lib \<Rightarrow> token_service \<Rightarrow> (string \<Rightarrow> string) \<Rightarrow> (string \<Rightarrow> err + yandex_profile) \<Rightarrow>
   (user_created_event \<Rightarrow> string outcome) \<Rightarrow> world auth_deps" where
  "auth_world bc cost jl ts url exchange marshal =
     \<lparr>ad_TxDo = Do \<lparr>tx_pool = True\<rparr>,
      ad_GetByID = users_GetByID, ad_GetByLogin = users_GetByLogin, ad_GetByEmail = users_GetByEmail,
      ad_CreateUser = users_Create,
      ad_GetByUserID = credentials_GetByUserID, ad_CreateCredential = credentials_Create,
      ad_GetByProviderSubject = identities_GetByProviderSubject, ad_CreateIdentity = identities_Create,
      ad_CreateOutbox = outbox_Create,
      ad_Hash = bcrypt_Hash bc cost, ad_Validate = bcrypt_Validate bc,
      ad_IssueTokens = IssueTokens jl ts,
      ad_Yandex = Some \<lparr>BuildAuthURL = url,
                        ExchangeCode = (\<lambda>c code. case exchange code of Inl e \<Rightarrow> fail e | Inr p \<Rightarrow> ok p)\<rparr>,
      ad_StateTokens = Some (token_states jl ts),
      ad_Runtime = world_runtime marshal\<rparr>"

lemma unchanged_ticks:
  "Inv db_obs g w \<Longrightarrow> unchanged db_obs g w (ticks_update f w)"
  by (simp add: unchanged_def session_def events_defs calm_def)

lemma IssueTokens_quiet:
  "Inv db_obs g w \<Longrightarrow> wp (IssueTokens l s u) (\<lambda>r v. unchanged db_obs g w v \<and>
     (case r of Ok t \<Rightarrow> True | Err e \<Rightarrow> \<not> signs l | Panic p \<Rightarrow> False)) w"
  unfolding IssueTokens_def Generate_def generateRefreshToken_def
  by (auto simp: wp_rules unchanged_ticks signs_def simp del: obs_sel split: sum.split ; metis Inl_Inr_False)

lemma verify_quiet:
  "Inv db_obs g w \<Longrightarrow> wp (verify_yandex_state l s t) (\<lambda>r v. unchanged db_obs g w v \<and> (\<forall>p. r \<noteq> Panic p)) w"
  unfolding verify_yandex_state_def
  by (auto simp: wp_rules unchanged_ticks simp del: obs_sel split: sum.split)

lemma auth_world_sel:
  "ad_TxDo (auth_world bc cost jl ts url exchange marshal) = Do \<lparr>tx_pool = True\<rparr>"
  "ad_GetByID (auth_world bc cost jl ts url exchange marshal) = users_GetByID"
  "ad_GetByLogin (auth_world bc cost jl ts url exchange marshal) = users_GetByLogin"
  "ad_GetByEmail (auth_world bc cost jl ts url exchange marshal) = users_GetByEmail"
  "ad_CreateUser (auth_world bc cost jl ts url exchange marshal) = users_Create"
  "ad_GetByUserID (auth_world bc cost jl ts url exchange marshal) = credentials_GetByUserID"
  "ad_CreateCredential (auth_world bc cost jl ts url exchange marshal) = credentials_Create"
  "ad_GetByProviderSubject (auth_world bc cost jl ts url exchange marshal) = identities_GetByProviderSubject"
  "ad_CreateIdentity (auth_world bc cost jl ts url exchange marshal) = identities_Create"
  "ad_CreateOutbox (auth_world bc cost jl ts url exchange marshal) = outbox_Create"
  "ad_Hash (auth_world bc cost jl ts url exchange marshal) = bcrypt_Hash bc cost"
  "ad_Validate (auth_world bc cost jl ts url exchange marshal) = bcrypt_Validate bc"
  "ad_IssueTokens (auth_world bc cost jl ts url exchange marshal) = IssueTokens jl ts"
  "ad_StateTokens (auth_world bc cost jl ts url exchange marshal) = Some (token_states jl ts)"
  "ad_Runtime (auth_world bc cost jl ts url exchange marshal) = world_runtime marshal"
  by (simp_all add: auth_world_def)

locale hashing =
  fixes bc :: bcrypt_lib
  assumes hash_valid: "bcrypt_law bc"

sublocale hashing \<subseteq> svc: auth_service db_obs "auth_world bc cost jl ts url exchange marshal"
    "\<lambda>p. \<exists>e. bc_generate bc cost p = Inl e" "\<not> signs jl"
  for cost jl ts url exchange marshal
proof (intro auth_service.intro auth_service_axioms.intro, unfold auth_world_sel)
  show "user_repository db_obs users_GetByID users_GetByLogin users_GetByEmail users_Create"
    by (rule users.user_repository_axioms)
  show "credential_repository db_obs credentials_GetByUserID credentials_Create"
    by (rule credentials.credential_repository_axioms)
  show "identity_repository db_obs identities_GetByProviderSubject identities_Create"
    by (rule identities.identity_repository_axioms)
  show "outbox_writer db_obs outbox_Create"
    by (rule outbox.outbox_writer_axioms)
  show "transactions db_obs (Do \<lparr>tx_pool = True\<rparr>)"
    by (rule tx.transactions_axioms)
  show "clock_and_ids db_obs (world_runtime marshal)"
    by (rule runtime.clock_and_ids_axioms)
next
  fix g w p
  assume "Inv db_obs g w"
  then show "wp (bcrypt_Hash bc cost p) (\<lambda>r v. unchanged db_obs g w v \<and>
      (case r of Ok h \<Rightarrow> bcrypt_Validate bc p h = None | Err e \<Rightarrow> \<exists>e. bc_generate bc cost p = Inl e | Panic q \<Rightarrow> False)) w"
    using hash_valid
    by (auto simp: bcrypt_Hash_def bcrypt_Validate_def bcrypt_law_def wp_rules unchanged_def split: sum.split)
next
  fix g w u
  assume "Inv db_obs g w"
  then show "wp (IssueTokens jl ts u) (\<lambda>r v. unchanged db_obs g w v \<and>
      (case r of Ok t \<Rightarrow> True | Err e \<Rightarrow> \<not> signs jl | Panic p \<Rightarrow> False)) w"
    by (rule IssueTokens_quiet)
next
  fix st g w t
  assume "Some (token_states jl ts) = Some st" "Inv db_obs g w"
  then show "wp (VerifyYandexState st t) (\<lambda>r v. unchanged db_obs g w v \<and> (\<forall>p. r \<noteq> Panic p)) w"
    using verify_quiet [of g w] by (auto simp: token_states_def simp del: obs_sel)
next
  fix y g w c t
  assume "ad_Yandex (auth_world bc cost jl ts url exchange marshal) = Some y" "Inv db_obs g w"
  then show "wp (ExchangeCode y c t) (\<lambda>r v. unchanged db_obs g w v \<and> (\<forall>p. r \<noteq> Panic p)) w"
    by (auto simp: auth_world_def wp_rules unchanged_def split: sum.split)
qed

context hashing
begin

lemmas Register_world = svc.Register_law
lemmas Login_world = svc.Login_law
lemmas Yandex_world = svc.CompleteYandexLogin_law

end

section \<open>Properties of the service on the PostgreSQL world\<close>

definition op_statuses :: "world \<Rightarrow> (string \<times> string) list" where
  "op_statuses w = statuses (svc_events w)"

lemma stuck_world:
  "stuck db_obs (auth_world bc cost jl ts url exchange marshal) (session w, None) st \<longleftrightarrow>
     None \<in> range (uuid_source w) \<or> (\<exists>ev. \<forall>x. marshal ev \<noteq> Ok x)
     \<or> (\<exists>i. Some i \<in> range (uuid_source w) \<and> (i \<in> ua_ID ` set (st_users st) \<or> i \<in> om_ID ` set (st_outbox st)))"
  by (simp add: stuck_def unmarshalled_def auth_world_sel world_runtime_def)

text \<open>What a registration needs beyond a database that answers.\<close>

definition can_register ::
  "bcrypt_lib \<Rightarrow> int \<Rightarrow> jwt_lib \<Rightarrow> (user_created_event \<Rightarrow> string outcome) \<Rightarrow> register_input \<Rightarrow> world \<Rightarrow> bool" where
  "can_register bc cost jl marshal input w \<longleftrightarrow>
     validateRegisterInput input = None
     \<and> \<not> taken (normalizeLogin (ri_Login input)) (normalizeEmail (ri_Email input)) (stored w)
     \<and> (\<exists>h. bc_generate bc cost (ri_Password input) = Inr h) \<and> signs jl
     \<and> (\<forall>ev. \<exists>x. marshal ev = Ok x)
     \<and> (\<forall>n. \<exists>i. uuid_source w n = Some i
          \<and> i \<notin> ua_ID ` set (st_users (stored w)) \<and> i \<notin> om_ID ` set (st_outbox (stored w)))"

lemma can_register_not_refused:
  assumes "can_register bc cost jl marshal input w"
  shows "\<not> register_refused db_obs (auth_world bc cost jl ts url exchange marshal)
     ((\<exists>e. bc_generate bc cost (ri_Password input) = Inl e) \<or> \<not> signs jl) input (session w, None) (stored w)"
  using assms by (auto simp: register_refused_def stuck_world can_register_def image_iff dest: sym)
    (metis option.inject option.distinct(1))+

lemma Register_ends_world:
  assumes "bcrypt_law bc" and "db_ready w"
    and "run_state (Register (auth_world bc cost jl ts url exchange marshal) c input) w = (r, w')"
  shows "session w' = session w \<and> db_ready w' \<and> (calm w \<longrightarrow> calm w')
    \<and> (calm w \<and> can_register bc cost jl marshal input w \<longrightarrow> (\<exists>x. r = Ok x))
    \<and> (case r of
         Panic p \<Rightarrow> stored w' = stored w \<and> op_statuses w' = op_statuses w
       | _ \<Rightarrow> \<exists>status. op_statuses w' = op_statuses w @ [(''register'', status)]
               \<and> register_post (auth_world bc cost jl ts url exchange marshal) input (calm w)
                    (stored w) (stored w') status r)"
proof -
  have hb: "hashing bc" using assms(1) by unfold_locales
  have e: "register_ends db_obs (auth_world bc cost jl ts url exchange marshal)
      ((\<exists>e. bc_generate bc cost (ri_Password input) = Inl e) \<or> \<not> signs jl) input (session w, None) w r w'"
    using assms(2) by (intro wpD [OF hashing.Register_world [OF hb] assms(3)]) (simp_all add: db_ready_Inv del: obs_sel)
  have "can_register bc cost jl marshal input w \<Longrightarrow> calm w \<Longrightarrow> \<exists>x. r = Ok x"
    using e can_register_not_refused [of bc cost jl marshal input w ts url exchange]
    by (simp add: register_ends_def stored_def)
  with e show ?thesis
    using assms(2)
    by (cases r) (auto simp: register_ends_def db_ready_def stored_def op_statuses_def session_def)
qed

text \<open>
  C3: registration is all or nothing. On every path - invalid input, taken login or e-mail,
  hashing failure, database failure, lost answers, token failure, panic - the session is as
  before and exactly one operation status is counted (none on a panic). If Register returns a
  result, exactly one user with the normalised login and e-mail, one credential whose hash
  validates the password and one pending users.created message are added, the login and the
  e-mail were free, and the result is that user's. If it returns an error before the
  transaction ends nothing is stored; the duplicate error is returned only when the login or
  the e-mail is taken.
\<close>
theorem Register_correct:
  assumes "bcrypt_law bc" and "db_ready w"
    and "run_state (Register (auth_world bc cost jl ts url exchange marshal) c input) w = (r, w')"
  shows "session w' = session w \<and> db_ready w' \<and> (calm w \<longrightarrow> calm w')
    \<and> (case r of
         Panic p \<Rightarrow> stored w' = stored w \<and> op_statuses w' = op_statuses w
       | _ \<Rightarrow> \<exists>status. op_statuses w' = op_statuses w @ [(''register'', status)]
               \<and> register_post (auth_world bc cost jl ts url exchange marshal) input (calm w)
                    (stored w) (stored w') status r)"
  using Register_ends_world [OF assms] by simp


text \<open>
  C4: registration gets through. If the database answers, the input is valid, the login and the
  e-mail are free, the password can be hashed, tokens and events can be encoded and the generated
  UUIDs are new, Register returns a result: a user with the normalised login and e-mail, a
  credential with a hash of the password and a pending message are stored, and success is counted.
\<close>
theorem Register_succeeds:
  assumes "bcrypt_law bc" and "db_ready w" and "calm w" and "can_register bc cost jl marshal input w"
  shows "\<exists>res w' u cr t.
      run_state (Register (auth_world bc cost jl ts url exchange marshal) c input) w = (Ok res, w')
      \<and> registered_as (auth_world bc cost jl ts url exchange marshal) input u cr (stored w) (stored w')
      \<and> res = auth_result u t AuthProviderPassword
      \<and> op_statuses w' = op_statuses w @ [(''register'', ''success'')]"
proof -
  obtain r w' where run: "run_state (Register (auth_world bc cost jl ts url exchange marshal) c input) w = (r, w')"
    by fastforce
  note ends = Register_ends_world [OF assms(1,2) run]
  with assms(3,4) obtain res where "r = Ok res" by blast
  with ends run show ?thesis by (auto simp: register_post_def)
qed

section \<open>Login\<close>

lemma Login_ends_world:
  assumes "bcrypt_law bc" and "db_ready w"
    and "run_state (Login (auth_world bc cost jl ts url exchange marshal) c input) w = (r, w')"
  shows "session w' = session w \<and> db_ready w' \<and> (calm w \<longrightarrow> calm w') \<and> stored w' = stored w
    \<and> (\<exists>status. op_statuses w' = op_statuses w @ [(''login'', status)]
         \<and> login_post (auth_world bc cost jl ts url exchange marshal) (\<not> signs jl) input (calm w) (stored w) status r)"
proof -
  have hb: "hashing bc" using assms(1) by unfold_locales
  have "login_ends db_obs (auth_world bc cost jl ts url exchange marshal) (\<not> signs jl) input (session w, None) w r w'"
    using assms(2) by (intro wpD [OF hashing.Login_world [OF hb] assms(3)]) (simp_all add: db_ready_Inv del: obs_sel)
  then show ?thesis
    using assms(2)
    by (auto simp: login_ends_def recorded_def db_ready_def stored_def op_statuses_def session_def)
qed

text \<open>The user that an identifier and a password authenticate, if any.\<close>

definition authenticates :: "bcrypt_lib \<Rightarrow> login_input \<Rightarrow> store \<Rightarrow> user_account option" where
  "authenticates bc input st =
     (case find (identifies (li_Identifier input)) (st_users st) of
        None \<Rightarrow> None
      | Some u \<Rightarrow>
          (case find (\<lambda>cr. pc_UserID cr = ua_ID u) (st_creds st) of
             None \<Rightarrow> None
           | Some cr \<Rightarrow> if bc_compare bc (pc_PasswordHash cr) (li_Password input) = None then Some u else None))"

lemma find_unique: "distinct (map f xs) \<Longrightarrow> x \<in> set xs \<Longrightarrow> find (\<lambda>y. f y = f x) xs = Some x"
  by (induction xs) (auto simp: rev_image_eqI)

lemma find_user:
  assumes "store_ok st" "u \<in> set (st_users st)" "identifies ident u"
  shows "find (identifies ident) (st_users st) = Some u"
proof (cases "has_char (CHR ''@'') (TrimSpace ident)")
  case True
  with assms(3) have "identifies ident = (\<lambda>y. ua_Email y = ua_Email u)" by (auto simp: identifies_def)
  with assms(1,2) find_unique [of ua_Email "st_users st" u] show ?thesis by (simp add: store_ok_def)
next
  case False
  with assms(3) have "identifies ident = (\<lambda>y. ua_Login y = ua_Login u)" by (auto simp: identifies_def)
  with assms(1,2) find_unique [of ua_Login "st_users st" u] show ?thesis by (simp add: store_ok_def)
qed

lemma find_cred:
  assumes "store_ok st" "cr \<in> set (st_creds st)" "pc_UserID cr = i"
  shows "find (\<lambda>x. pc_UserID x = i) (st_creds st) = Some cr"
  using assms find_unique [of pc_UserID "st_creds st" cr] by (simp add: store_ok_def)

lemma authenticates_valid:
  assumes "store_ok st" "u \<in> set (st_users st)" "identifies (li_Identifier input) u"
    "cr \<in> set (st_creds st)" "pc_UserID cr = ua_ID u"
  shows "authenticates bc input st =
    (if bc_compare bc (pc_PasswordHash cr) (li_Password input) = None then Some u else None)"
  using find_user [OF assms(1-3)] find_cred [OF assms(1,4,5)] by (simp add: authenticates_def)

lemma authenticates_none:
  "\<forall>u\<in>set (st_users st). \<not> identifies (li_Identifier input) u \<Longrightarrow> authenticates bc input st = None"
  "store_ok st \<Longrightarrow> u \<in> set (st_users st) \<Longrightarrow> identifies (li_Identifier input) u \<Longrightarrow>
     \<forall>cr\<in>set (st_creds st). pc_UserID cr \<noteq> ua_ID u \<Longrightarrow> authenticates bc input st = None"
  using find_user [of st u "li_Identifier input"]
    find_None_iff [of "identifies (li_Identifier input)" "st_users st"]
    find_None_iff [of "\<lambda>cr. pc_UserID cr = ua_ID u" "st_creds st"]
  by (auto simp: authenticates_def)

lemma login_post_authenticates:
  assumes "store_ok st" "login_post (auth_world bc cost jl ts url exchange marshal) k input fine st status r"
  shows "case validateLoginInput input of
      Some e \<Rightarrow> r = Err e
    | None \<Rightarrow>
       (case r of
          Ok res \<Rightarrow> \<exists>u t. authenticates bc input st = Some u \<and> res = auth_result u t (ua_Provider u)
        | Err e \<Rightarrow> fine \<and> \<not> k \<longrightarrow> authenticates bc input st = None \<and> e = Sentinel (Auth ErrInvalidCredentials)
        | Panic p \<Rightarrow> False)"
proof (cases "validateLoginInput input")
  case None
  with assms(2) show ?thesis
    by (auto simp: login_post_def auth_world_sel bcrypt_Validate_def authenticates_none(1) authenticates_none(2) [OF assms(1)]
        authenticates_valid [OF assms(1)] split: outcome.splits)
qed (use assms(2) in \<open>auto simp: login_post_def\<close>)

text \<open>
  C5: login decides by the stored entities alone. It changes nothing; with valid input it returns
  a result only for the user whose e-mail (for an identifier with an @) or login (for one without)
  is the normalised identifier and whose stored hash matches the password, and the result is that
  user's; when the database answers and tokens can be signed, every other attempt ends in the one
  error invalid credentials, which does not tell an unknown user from a wrong password. Exactly
  one operation status is counted.
\<close>
theorem Login_decides:
  assumes "bcrypt_law bc" and "db_ready w"
    and "run_state (Login (auth_world bc cost jl ts url exchange marshal) c input) w = (r, w')"
  shows "session w' = session w \<and> db_ready w' \<and> stored w' = stored w
    \<and> (\<exists>status. op_statuses w' = op_statuses w @ [(''login'', status)])
    \<and> (case validateLoginInput input of
         Some e \<Rightarrow> r = Err e
       | None \<Rightarrow>
          (case r of
             Ok res \<Rightarrow> \<exists>u t. authenticates bc input (stored w) = Some u \<and> res = auth_result u t (ua_Provider u)
           | Err e \<Rightarrow> calm w \<and> signs jl \<longrightarrow>
               authenticates bc input (stored w) = None \<and> e = Sentinel (Auth ErrInvalidCredentials)
           | Panic p \<Rightarrow> False))"
proof -
  have "store_ok (stored w)" using assms(2) by (simp add: db_ready_def stored_def)
  with Login_ends_world [OF assms] show ?thesis
    by (auto dest: login_post_authenticates simp: split: option.splits outcome.splits)
qed

lemma Login_answers:
  assumes "bcrypt_law bc" and "db_ready w" and "calm w" and "signs jl" and "validateLoginInput input = None"
  shows "case fst (run_state (Login (auth_world bc cost jl ts url exchange marshal) c input) w) of
       Ok res \<Rightarrow> \<exists>u t. authenticates bc input (stored w) = Some u \<and> res = auth_result u t (ua_Provider u)
     | Err e \<Rightarrow> authenticates bc input (stored w) = None \<and> e = Sentinel (Auth ErrInvalidCredentials)
     | Panic p \<Rightarrow> False"
proof -
  obtain r w' where run: "run_state (Login (auth_world bc cost jl ts url exchange marshal) c input) w = (r, w')"
    by fastforce
  have "store_ok (stored w)" using assms(2) by (simp add: db_ready_def stored_def)
  with Login_ends_world [OF assms(1,2) run] assms(3-5) show ?thesis
    unfolding run fst_conv by (auto dest: login_post_authenticates split: outcome.splits)
qed

lemma registered_authenticates:
  assumes "store_ok st'" "registered_as (auth_world bc cost jl ts url exchange marshal) input u cr st st1"
    and "set (st_users st1) \<subseteq> set (st_users st')" "set (st_creds st1) \<subseteq> set (st_creds st')"
    and "li_Password l = ri_Password input"
    and "li_Identifier l = ri_Login input \<and> \<not> has_char (CHR ''@'') (TrimSpace (ri_Login input))
       \<or> li_Identifier l = ri_Email input \<and> has_char (CHR ''@'') (TrimSpace (ri_Email input))"
  shows "authenticates bc l st' = Some (norm_user u)"
proof -
  have "norm_user u \<in> set (st_users st')" "norm_cred cr \<in> set (st_creds st')"
    using assms(2-4) by (auto simp: registered_as_def add_defs)
  moreover have "identifies (li_Identifier l) (norm_user u)"
    using assms(2,6) by (auto simp: registered_as_def identifies_def normalizeLogin_def normalizeEmail_def)
  ultimately show ?thesis
    using authenticates_valid [OF assms(1), where u = "norm_user u" and cr = "norm_cred cr" and input = l] assms(2,5)
    by (simp add: registered_as_def auth_world_sel bcrypt_Validate_def)
qed

text \<open>
  C6: who registers can log in. After a registration that returned a result, and whatever else
  happened to the database as long as its users and credentials are still there, a login with the
  same password and the registered login (without an @) or e-mail (with an @) returns a result
  for the same user.
\<close>
theorem Register_then_Login:
  assumes "bcrypt_law bc" and "db_ready w"
    and "run_state (Register (auth_world bc cost jl ts url exchange marshal) c input) w = (Ok res, w1)"
    and "db_ready v" and "calm v" and "signs jl"
    and "set (st_users (stored w1)) \<subseteq> set (st_users (stored v))"
    and "set (st_creds (stored w1)) \<subseteq> set (st_creds (stored v))"
    and "li_Password l = ri_Password input"
    and "li_Identifier l = ri_Login input \<and> \<not> has_char (CHR ''@'') (TrimSpace (ri_Login input))
       \<or> li_Identifier l = ri_Email input \<and> has_char (CHR ''@'') (TrimSpace (ri_Email input))"
  shows "\<exists>res' v'. run_state (Login (auth_world bc cost jl ts url exchange marshal) c' l) v = (Ok res', v')
    \<and> ar_UserID res' = ar_UserID res \<and> ar_Provider res' = ar_Provider res"
proof -
  obtain u cr t where reg: "registered_as (auth_world bc cost jl ts url exchange marshal) input u cr (stored w) (stored w1)"
      "res = auth_result u t AuthProviderPassword" and valid: "validateRegisterInput input = None"
    using Register_ends_world [OF assms(1-3)] by (auto simp: register_post_def)
  have ok: "store_ok (stored v)" using assms(4) by (simp add: db_ready_def stored_def)
  note found = registered_authenticates [OF ok reg(1) assms(7-10)]
  have "validateLoginInput l = None"
    using valid assms(9,10) by (auto simp: validateRegisterInput_def validateLoginInput_def split: if_splits)
  from Login_answers [OF assms(1,4-6) this, of cost ts url exchange marshal c'] found
  obtain t where "fst (run_state (Login (auth_world bc cost jl ts url exchange marshal) c' l) v)
      = Ok (auth_result (norm_user u) t (ua_Provider u))"
    by (cases "fst (run_state (Login (auth_world bc cost jl ts url exchange marshal) c' l) v)") auto
  then obtain v' where "run_state (Login (auth_world bc cost jl ts url exchange marshal) c' l) v
      = (Ok (auth_result (norm_user u) t (ua_Provider u)), v')"
    by (metis prod.collapse)
  with reg show ?thesis by (auto simp: auth_result_def registered_as_def)
qed

text \<open>
  C8: a login that has an @ in it cannot be used to log in. The identifier is then taken for an
  e-mail address: unless some user has it as the e-mail, the login of that name and its right
  password end in invalid credentials. (Registration accepts such a login.)
\<close>
theorem Login_with_at_in_login:
  assumes "bcrypt_law bc" and "db_ready w" and "calm w" and "signs jl"
    and "u \<in> set (st_users (stored w))" and "ua_Login u = normalizeLogin (li_Identifier l)"
    and "has_char (CHR ''@'') (TrimSpace (li_Identifier l))" and "TrimSpace (li_Password l) \<noteq> []"
    and "\<And>x. x \<in> set (st_users (stored w)) \<Longrightarrow> ua_Email x \<noteq> ua_Login u"
  shows "fst (run_state (Login (auth_world bc cost jl ts url exchange marshal) c l) w)
    = Err (Sentinel (Auth ErrInvalidCredentials))"
proof -
  have "authenticates bc l (stored w) = None"
    using assms(6,7,9) by (intro authenticates_none(1)) (auto simp: identifies_def normalizeEmail_def normalizeLogin_def)
  moreover have "validateLoginInput l = None"
    using assms(7,8) by (auto simp: validateLoginInput_def has_char_def)
  ultimately show ?thesis
    using Login_answers [OF assms(1-4), of l cost ts url exchange marshal c]
    by (cases "fst (run_state (Login (auth_world bc cost jl ts url exchange marshal) c l) w)") auto
qed

section \<open>Yandex login\<close>


lemma wp_verify_state:
  assumes "\<And>v. fst (run_state (verify_yandex_state l s t) v) \<noteq> Ok ()"
    and "\<And>e v. db_calls v = db_calls w \<Longrightarrow> Q (Err e) v"
  shows "wp (verify_yandex_state l s t) Q w"
proof (rule wpI)
  fix r v
  assume run: "run_state (verify_yandex_state l s t) w = (r, v)"
  have "r \<noteq> Ok ()" using assms(1) [of w] run by simp
  moreover have "wp (verify_yandex_state l s t) (\<lambda>r v. (\<forall>p. r \<noteq> Panic p) \<and> db_calls v = db_calls w) w"
    unfolding verify_yandex_state_def by (auto simp: wp_rules split: sum.split)
  then have "(\<forall>p. r \<noteq> Panic p) \<and> db_calls v = db_calls w" using run by (rule wpD)
  ultimately show "Q r v" using assms(2) by (cases r) auto
qed


section \<open>Examples\<close>

definition example_bcrypt :: bcrypt_lib where
  "example_bcrypt = \<lparr>bc_generate = (\<lambda>cost p. Inr (''$2a$10$'' @ p)),
     bc_compare = (\<lambda>h p. if h = ''$2a$10$'' @ p then None else Some (NewErr ''mismatch''))\<rparr>"

definition example_jwt :: jwt_lib where
  "example_jwt = \<lparr>jl_sign = (\<lambda>k cs. Inr k), jl_parse = (\<lambda>t. Inl (NewErr ''malformed'')), jl_verify = (\<lambda>t k. False)\<rparr>"

definition example_auth :: "world auth_deps" where
  "example_auth = auth_world example_bcrypt 10 example_jwt (New_tokens ''secret'' 900000000000 0) (\<lambda>s. s)
     (\<lambda>c. Inl (NewErr ''refused'')) (\<lambda>e. Ok (uc_UserID e))"

definition example_input :: register_input where
  "example_input = \<lparr>ri_Login = '' Bob@home '', ri_Email = ''Bob@x.y'', ri_Password = ''pw'',
     ri_FirstName = ''B'', ri_LastName = ''C''\<rparr>"

lemma example_laws:
  "bcrypt_law example_bcrypt" "signs example_jwt" "db_ready empty_world" "calm empty_world"
  "stored empty_world = \<lparr>st_users = [], st_creds = [], st_idents = [], st_outbox = []\<rparr>"
  by (simp_all add: bcrypt_law_def example_bcrypt_def signs_def example_jwt_def ready_empty stored_empty)

lemma example_can_register: "can_register example_bcrypt 10 example_jwt (\<lambda>e. Ok (uc_UserID e)) example_input empty_world"
  unfolding can_register_def example_laws(5)
proof (intro conjI)
  show "validateRegisterInput example_input = None" by code_simp
  show "\<exists>h. bc_generate example_bcrypt 10 (ri_Password example_input) = Inr h"
    by (simp add: example_bcrypt_def)
qed (simp_all add: example_laws(2) taken_def empty_world_sel(6))

lemma example_Register:
  obtains res w' where "run_state (Register example_auth background example_input) empty_world = (Ok res, w')"
proof (cases "run_state (Register example_auth background example_input) empty_world")
  case (Pair r w')
  from Register_ends_world [OF example_laws(1,3) Pair [unfolded example_auth_def]] example_laws(4) example_can_register
  have "\<exists>x. r = Ok x" by blast
  with Pair that show thesis by blast
qed

lemma Register_correct_witness:
  "\<exists>res w'. run_state (Register example_auth background example_input) empty_world = (Ok res, w')
     \<and> session w' = session empty_world \<and> db_ready w'"
proof (rule example_Register)
  fix res w'
  assume run: "run_state (Register example_auth background example_input) empty_world = (Ok res, w')"
  from Register_correct [OF example_laws(1,3) run [unfolded example_auth_def]] run show ?thesis by blast
qed

lemma Register_succeeds_witness:
  "\<exists>res w'. run_state (Register example_auth background example_input) empty_world = (Ok res, w')
     \<and> op_statuses w' = op_statuses empty_world @ [(''register'', ''success'')]"
proof -
  have "\<exists>res w' u cr t. run_state (Register example_auth background example_input) empty_world = (Ok res, w')
      \<and> registered_as example_auth example_input u cr (stored empty_world) (stored w')
      \<and> res = auth_result u t AuthProviderPassword
      \<and> op_statuses w' = op_statuses empty_world @ [(''register'', ''success'')]"
    unfolding example_auth_def by (rule Register_succeeds [OF example_laws(1,3,4) example_can_register])
  then show ?thesis by blast
qed

definition example_login :: login_input where
  "example_login = \<lparr>li_Identifier = ''Bob@x.y'', li_Password = ''pw''\<rparr>"

lemma Login_decides_witness:
  "fst (run_state (Login example_auth background example_login) empty_world) = Err (Sentinel (Auth ErrInvalidCredentials))"
proof (cases "run_state (Login example_auth background example_login) empty_world")
  case (Pair r w')
  have "validateLoginInput example_login = None" by code_simp
  with Login_decides [OF example_laws(1,3) Pair [unfolded example_auth_def]] example_laws(2,4,5) Pair
  show ?thesis by (auto simp: authenticates_def split: outcome.splits)
qed

lemma Register_then_Login_witness:
  "\<exists>w1 v' res res'. run_state (Register example_auth background example_input) empty_world = (Ok res, w1)
     \<and> run_state (Login example_auth background example_login) w1 = (Ok res', v') \<and> ar_UserID res' = ar_UserID res"
proof (rule example_Register)
  fix res w1
  assume run: "run_state (Register example_auth background example_input) empty_world = (Ok res, w1)"
  note ends = Register_ends_world [OF example_laws(1,3) run [unfolded example_auth_def]]
  have "has_char (CHR ''@'') (TrimSpace (ri_Email example_input))" by code_simp
  then have "\<exists>res' v'. run_state (Login example_auth background example_login) w1 = (Ok res', v')
      \<and> ar_UserID res' = ar_UserID res \<and> ar_Provider res' = ar_Provider res"
    using ends example_laws unfolding example_auth_def
    by (intro Register_then_Login [OF example_laws(1,3) run [unfolded example_auth_def]])
      (auto simp: example_login_def example_input_def)
  with run show ?thesis by blast
qed

lemma Login_with_at_in_login_witness:
  "\<exists>w1 res. run_state (Register example_auth background example_input) empty_world = (Ok res, w1)
     \<and> fst (run_state (Login example_auth background \<lparr>li_Identifier = ''Bob@home'', li_Password = ''pw''\<rparr>) w1)
       = Err (Sentinel (Auth ErrInvalidCredentials))"
proof (rule example_Register)
  fix res w1
  assume run: "run_state (Register example_auth background example_input) empty_world = (Ok res, w1)"
  note ends = Register_ends_world [OF example_laws(1,3) run [unfolded example_auth_def]]
  have norm: "normalizeLogin (ri_Login example_input) = ''bob@home''" "normalizeEmail (ri_Email example_input) = ''bob@x.y''"
    "normalizeLogin ''Bob@home'' = ''bob@home''" "has_char (CHR ''@'') (TrimSpace ''Bob@home'')" "TrimSpace ''pw'' \<noteq> []"
    by code_simp+
  obtain u where u: "st_users (stored w1) = [norm_user u]" "ua_Login u = ''bob@home''" "ua_Email u = ''bob@x.y''"
    using ends norm(1,2) example_laws(5) by (auto simp: register_post_def registered_as_def add_defs)
  let ?l = "\<lparr>li_Identifier = ''Bob@home'', li_Password = ''pw''\<rparr>"
  have "fst (run_state (Login example_auth background ?l) w1) = Err (Sentinel (Auth ErrInvalidCredentials))"
    unfolding example_auth_def
    by (rule Login_with_at_in_login [OF example_laws(1) _ _ example_laws(2), where u = "norm_user u"])
      (use ends example_laws norm u in auto)
  with run show "\<exists>w1 res. run_state (Register example_auth background example_input) empty_world = (Ok res, w1)
     \<and> fst (run_state (Login example_auth background ?l) w1) = Err (Sentinel (Auth ErrInvalidCredentials))"
    by blast
qed


definition example_auth2 :: "world auth_deps" where
  "example_auth2 = auth_world example_bcrypt 10 (table_jwt example_table) example_service (\<lambda>s. s)
     (\<lambda>c. Inl (NewErr ''refused'')) (\<lambda>e. Ok (uc_UserID e))"


end
