(* ===== verification/GrpcValidate.thy ===== *)
theory GrpcValidate
  imports Prelude
begin

text \<open>
  internal/adapters/primary/generated/auth/v1/auth.pb.validate.go: the rules the interceptor of the
  gRPC server checks on the requests. \<open>mail.ParseAddress\<close> is an argument.
\<close>

section \<open>Runes\<close>

text \<open>
  \<open>utf8.RuneCountInString\<close>: the encodings of the Unicode table 3-7, and one rune for every byte that
  starts none.
\<close>

definition byte :: "char \<Rightarrow> nat" where
  "byte c = of_char c"

definition continuation :: "char \<Rightarrow> bool" where
  "continuation c \<longleftrightarrow> 128 \<le> byte c \<and> byte c \<le> 191"

definition second_byte :: "nat \<Rightarrow> char \<Rightarrow> bool" where
  "second_byte a c \<longleftrightarrow>
     (if a = 224 then 160 \<le> byte c \<and> byte c \<le> 191
      else if a = 237 then 128 \<le> byte c \<and> byte c \<le> 159
      else if a = 240 then 144 \<le> byte c \<and> byte c \<le> 191
      else if a = 244 then 128 \<le> byte c \<and> byte c \<le> 143
      else continuation c)"

fun rune_width :: "string \<Rightarrow> nat" where
  "rune_width [] = 0"
| "rune_width (a # s) =
     (let n = (if 194 \<le> byte a \<and> byte a \<le> 223 then 2
               else if 224 \<le> byte a \<and> byte a \<le> 239 then 3
               else if 240 \<le> byte a \<and> byte a \<le> 244 then 4 else 1 :: nat) in
      if n = 1 then 1
      else if length s < n - 1 then 1
      else if second_byte (byte a) (hd s) \<and> list_all continuation (take (n - 2) (tl s)) then n
      else 1)"

function rune_count :: "string \<Rightarrow> nat" where
  "rune_count [] = 0"
| "rune_count (a # s) = Suc (rune_count (drop (rune_width (a # s)) (a # s)))"
  by pat_completeness auto
termination
  by (relation "measure length") (auto simp: Let_def)

section \<open>Violations\<close>

record violation =
  vi_message :: string
  vi_field :: string
  vi_reason :: string
  vi_cause :: "err option"

definition violation_text :: "violation \<Rightarrow> string" where
  "violation_text v =
     ''invalid '' @ vi_message v @ ''.'' @ vi_field v @ '': '' @ vi_reason v
     @ (case vi_cause v of None \<Rightarrow> [] | Some e \<Rightarrow> '' | caused by: '' @ err_text e)"

definition length_rule :: "string \<Rightarrow> string \<Rightarrow> nat \<Rightarrow> nat \<Rightarrow> string \<Rightarrow> violation option outcome" where
  "length_rule message field lo hi s =
     (let l = rune_count s in
      Ok (if l < lo \<or> hi < l
          then Some \<lparr>vi_message = message, vi_field = field,
                     vi_reason = ''value length must be between '' @ nat_text lo @ '' and '' @ nat_text hi @ '' runes, inclusive'',
                     vi_cause = None\<rparr>
          else None))"

text \<open>The rules in order, up to the first violation or all of them.\<close>

fun check_rules :: "bool \<Rightarrow> violation option outcome list \<Rightarrow> violation list \<Rightarrow> err option outcome" where
  "check_rules everything [] errors =
     Ok (if errors = [] then None else Some (NewErr (join ''; '' (map violation_text errors))))"
| "check_rules everything (r # rs) errors =
     (case r of
        Panic p \<Rightarrow> Panic p
      | Err e \<Rightarrow> Err e
      | Ok None \<Rightarrow> check_rules everything rs errors
      | Ok (Some v) \<Rightarrow>
          (if \<not> everything then Ok (Some (NewErr (violation_text v))) else check_rules everything rs (errors @ [v])))"

section \<open>E-mail addresses\<close>

fun split_on :: "char \<Rightarrow> string \<Rightarrow> string list" where
  "split_on c [] = [[]]"
| "split_on c (x # s) =
     (if x = c then [] # split_on c s
      else (case split_on c s of [] \<Rightarrow> [[x]] | p # ps \<Rightarrow> (x # p) # ps))"

definition trim_suffix :: "char \<Rightarrow> string \<Rightarrow> string" where
  "trim_suffix c s = (if s \<noteq> [] \<and> last s = c then butlast s else s)"

definition host_char :: "char \<Rightarrow> bool" where
  "host_char c \<longleftrightarrow> 97 \<le> byte c \<and> byte c \<le> 122 \<or> 48 \<le> byte c \<and> byte c \<le> 57 \<or> c = CHR ''-''"

definition host_part :: "string \<Rightarrow> err option" where
  "host_part part =
     (if part = [] \<or> 63 < length part then Some (NewErr ''hostname part must be non-empty and cannot exceed 63 characters'')
      else if hd part = CHR ''-'' then Some (NewErr ''hostname parts cannot begin with hyphens'')
      else if last part = CHR ''-'' then Some (NewErr ''hostname parts cannot end with hyphens'')
      else if \<not> list_all host_char part
      then Some (NewErr ''hostname parts can only contain alphanumeric characters or hyphens'')
      else None)"

primrec host_parts :: "string list \<Rightarrow> err option" where
  "host_parts [] = None"
| "host_parts (p # ps) = (case host_part p of Some e \<Rightarrow> Some e | None \<Rightarrow> host_parts ps)"

definition validateHostname :: "string \<Rightarrow> err option" where
  "validateHostname host =
     (let s = ToLower (trim_suffix (CHR ''.'') host) in
      if 253 < length host then Some (NewErr ''hostname cannot exceed 253 characters'')
      else host_parts (split_on (CHR ''.'') s))"

definition validateEmail :: "(string \<Rightarrow> err + string) \<Rightarrow> string \<Rightarrow> err option outcome" where
  "validateEmail ParseAddress addr =
     (case ParseAddress addr of
        Inl e \<Rightarrow> Ok (Some e)
      | Inr address \<Rightarrow>
          (if 254 < length address then Ok (Some (NewErr ''email addresses cannot exceed 254 characters''))
           else
             (let local = takeWhile (\<lambda>c. c \<noteq> CHR ''@'') address; rest = dropWhile (\<lambda>c. c \<noteq> CHR ''@'') address in
              if 64 < length local then Ok (Some (NewErr ''email address local phrase cannot exceed 64 characters''))
              else if rest = [] then Panic ''index out of range [1] with length 1''
              else Ok (validateHostname (tl rest)))))"

section \<open>The requests\<close>

record register_request =
  rq_Login :: string
  rq_Email :: string
  rq_Password :: string
  rq_FirstName :: string
  rq_LastName :: string

record login_request =
  lq_Identifier :: string
  lq_Password :: string

record complete_request =
  cq_Code :: string
  cq_State :: string

text \<open>A request is \<open>None\<close> when its pointer is nil.\<close>

definition RegisterRequest_validate :: "(string \<Rightarrow> err + string) \<Rightarrow> bool \<Rightarrow> register_request option \<Rightarrow> err option outcome" where
  "RegisterRequest_validate ParseAddress everything request =
     (case request of
        None \<Rightarrow> Ok None
      | Some m \<Rightarrow>
          check_rules everything
            [length_rule ''RegisterRequest'' ''Login'' 1 64 (rq_Login m),
             length_rule ''RegisterRequest'' ''Email'' 1 254 (rq_Email m),
             (case validateEmail ParseAddress (rq_Email m) of
                Ok e \<Rightarrow>
                  Ok (map_option (\<lambda>e. \<lparr>vi_message = ''RegisterRequest'', vi_field = ''Email'',
                    vi_reason = ''value must be a valid email address'', vi_cause = Some e\<rparr>) e)
              | Err e \<Rightarrow> Err e
              | Panic p \<Rightarrow> Panic p),
             length_rule ''RegisterRequest'' ''Password'' 8 128 (rq_Password m),
             length_rule ''RegisterRequest'' ''FirstName'' 1 128 (rq_FirstName m),
             length_rule ''RegisterRequest'' ''LastName'' 1 128 (rq_LastName m)] [])"

definition LoginRequest_validate :: "bool \<Rightarrow> login_request option \<Rightarrow> err option outcome" where
  "LoginRequest_validate everything request =
     (case request of
        None \<Rightarrow> Ok None
      | Some m \<Rightarrow>
          check_rules everything
            [length_rule ''LoginRequest'' ''Identifier'' 1 254 (lq_Identifier m),
             length_rule ''LoginRequest'' ''Password'' 1 128 (lq_Password m)] [])"

definition GetYandexAuthURLRequest_validate :: "bool \<Rightarrow> err option outcome" where
  "GetYandexAuthURLRequest_validate everything = check_rules everything [] []"

definition CompleteYandexLoginRequest_validate :: "bool \<Rightarrow> complete_request option \<Rightarrow> err option outcome" where
  "CompleteYandexLoginRequest_validate everything request =
     (case request of
        None \<Rightarrow> Ok None
      | Some m \<Rightarrow>
          check_rules everything
            [length_rule ''CompleteYandexLoginRequest'' ''Code'' 1 4096 (cq_Code m),
             length_rule ''CompleteYandexLoginRequest'' ''State'' 1 4096 (cq_State m)] [])"

end
