(* ===== verification/GrpcAuth.thy ===== *)
theory GrpcAuth
  imports AuthWorld GrpcValidate
begin

text \<open>
  internal/adapters/primary/grpc/auth: the gRPC server over the application service, with the
  interceptor that validates requests and records metrics. A status error is its code and message;
  an answer is a status error or a response.
\<close>

section \<open>service.go\<close>

datatype grpc_code = OK | InvalidArgument | Unauthenticated | AlreadyExists | FailedPrecondition | NotFound | Internal
  | Unimplemented

fun code_text :: "grpc_code \<Rightarrow> string" where
  "code_text OK = ''OK''"
| "code_text InvalidArgument = ''InvalidArgument''"
| "code_text Unauthenticated = ''Unauthenticated''"
| "code_text AlreadyExists = ''AlreadyExists''"
| "code_text FailedPrecondition = ''FailedPrecondition''"
| "code_text NotFound = ''NotFound''"
| "code_text Internal = ''Internal''"
| "code_text Unimplemented = ''Unimplemented''"

type_synonym grpc_status = "grpc_code \<times> string"

record auth_response =
  rs_UserId :: string
  rs_AccessToken :: string
  rs_RefreshToken :: string
  rs_Provider :: string
  rs_CreatedAt :: "time option"

text \<open>The zero \<open>time.Time\<close>: the first of January of the year 1.\<close>

definition zero_time :: time where
  "zero_time = - 62135596800000000000"

definition toAuthResponse :: "auth_result option \<Rightarrow> auth_response" where
  "toAuthResponse result =
     (case result of
        None \<Rightarrow> \<lparr>rs_UserId = [], rs_AccessToken = [], rs_RefreshToken = [], rs_Provider = [], rs_CreatedAt = None\<rparr>
      | Some r \<Rightarrow>
          \<lparr>rs_UserId = ar_UserID r, rs_AccessToken = ar_AccessToken r, rs_RefreshToken = ar_RefreshToken r,
           rs_Provider = ar_Provider r,
           rs_CreatedAt = (if ar_CreatedAt r = zero_time then None else Some (ar_CreatedAt r))\<rparr>)"

definition mapAppError :: "err \<Rightarrow> grpc_status" where
  "mapAppError e =
     (if list_ex (errors_is e)
           [Auth ErrLoginRequired, Auth ErrEmailRequired, Auth ErrPasswordRequired, Auth ErrYandexCodeRequired,
            Auth ErrYandexStateRequired, Auth ErrFirstNameRequired, Auth ErrLastNameRequired, Auth ErrIdentifierRequired]
      then (InvalidArgument, err_text e)
      else if errors_is e (Auth ErrInvalidCredentials) then (Unauthenticated, err_text e)
      else if errors_is e (Auth ErrUserAlreadyExists) then (AlreadyExists, err_text e)
      else if errors_is e (Auth ErrUnsupportedAuthState) then (FailedPrecondition, err_text e)
      else if errors_is e (Auth ErrYandexProfileIncomplete) then (FailedPrecondition, err_text e)
      else if errors_is e (Ports ErrNotFound) then (NotFound, err_text e)
      else (Internal, err_text e))"

definition answered :: "('a \<Rightarrow> 'r) \<Rightarrow> ('w, 'a) go \<Rightarrow> ('w, grpc_status + 'r) go" where
  "answered respond m =
     call m (\<lambda>r. case r of Inl e \<Rightarrow> ok (Inl (mapAppError e)) | Inr x \<Rightarrow> ok (Inr (respond x)))"

text \<open>The getters of a nil request give empty strings.\<close>

definition register_fields :: "register_request option \<Rightarrow> register_input" where
  "register_fields request =
     (case request of
        None \<Rightarrow> \<lparr>ri_Login = [], ri_Email = [], ri_Password = [], ri_FirstName = [], ri_LastName = []\<rparr>
      | Some m \<Rightarrow> \<lparr>ri_Login = rq_Login m, ri_Email = rq_Email m, ri_Password = rq_Password m,
                   ri_FirstName = rq_FirstName m, ri_LastName = rq_LastName m\<rparr>)"

definition login_fields :: "login_request option \<Rightarrow> login_input" where
  "login_fields request =
     (case request of
        None \<Rightarrow> \<lparr>li_Identifier = [], li_Password = []\<rparr>
      | Some m \<Rightarrow> \<lparr>li_Identifier = lq_Identifier m, li_Password = lq_Password m\<rparr>)"

definition complete_fields :: "complete_request option \<Rightarrow> yandex_input" where
  "complete_fields request =
     (case request of None \<Rightarrow> \<lparr>yi_Code = [], yi_State = []\<rparr> | Some m \<Rightarrow> \<lparr>yi_Code = cq_Code m, yi_State = cq_State m\<rparr>)"

definition grpc_Register :: "'w auth_deps \<Rightarrow> ctx \<Rightarrow> register_request option \<Rightarrow> ('w, grpc_status + auth_response) go" where
  "grpc_Register s c request = answered (\<lambda>result. toAuthResponse (Some result)) (Register s c (register_fields request))"

definition grpc_Login :: "'w auth_deps \<Rightarrow> ctx \<Rightarrow> login_request option \<Rightarrow> ('w, grpc_status + auth_response) go" where
  "grpc_Login s c request = answered (\<lambda>result. toAuthResponse (Some result)) (Login s c (login_fields request))"

definition grpc_GetYandexAuthURL :: "'w auth_deps \<Rightarrow> ('w, grpc_status + string) go" where
  "grpc_GetYandexAuthURL s = answered id (GetYandexAuthURL s)"

definition grpc_CompleteYandexLogin ::
  "'w auth_deps \<Rightarrow> ctx \<Rightarrow> complete_request option \<Rightarrow> ('w, grpc_status + auth_response) go" where
  "grpc_CompleteYandexLogin s c request =
     answered (\<lambda>result. toAuthResponse (Some result)) (CompleteYandexLogin s c (complete_fields request))"

section \<open>interceptor.go\<close>

definition answer_code :: "grpc_status + 'r \<Rightarrow> grpc_code" where
  "answer_code answer = (case answer of Inl (code, _) \<Rightarrow> code | Inr _ \<Rightarrow> OK)"

definition status_text :: "grpc_status \<Rightarrow> string" where
  "status_text s = ''rpc error: code = '' @ code_text (fst s) @ '' desc = '' @ snd s"

definition server_observe :: "'w runtime \<Rightarrow> string \<Rightarrow> grpc_code \<Rightarrow> time \<Rightarrow> ('w, unit) state" where
  "server_observe rt method code startedAt = do {
     _ \<leftarrow> Emit rt (Metric ''auth_grpc_requests_total'' [method, code_text code]);
     now \<leftarrow> Now rt;
     Emit rt (Sample ''auth_grpc_request_duration_seconds'' [method, code_text code] (now - startedAt)) }"

definition unary ::
  "'w runtime \<Rightarrow> string \<Rightarrow> err option outcome \<Rightarrow> ('w, grpc_status + 'r) go \<Rightarrow> ('w, grpc_status + 'r) go" where
  "unary rt method validation handler = do {
     startedAt \<leftarrow> Now rt;
     (case validation of
        Panic p \<Rightarrow> panic p
      | Err e \<Rightarrow> fail e
      | Ok (Some e) \<Rightarrow>
          after (Emit rt (SpanError (err_text e)))
            (after (Emit rt (LogLine ''warn'' ''gRPC request validation failed''))
              (after (server_observe rt method InvalidArgument startedAt) (ok (Inl (InvalidArgument, err_text e)))))
      | Ok None \<Rightarrow>
          andThen handler (\<lambda>answer. do {
            _ \<leftarrow> Now rt;
            after (case answer of
                Inl s \<Rightarrow> do {
                  _ \<leftarrow> Emit rt (SpanError (status_text s));
                  Emit rt (LogLine (if fst s = Internal then ''error'' else ''warn'') ''gRPC request failed'') }
              | Inr _ \<Rightarrow> do {
                  _ \<leftarrow> Emit rt (SpanOk ''ok'');
                  Emit rt (LogLine ''info'' ''gRPC request handled'') })
              (after (server_observe rt method (answer_code answer) startedAt) (ok answer)) })) }"

text \<open>Every request has \<open>ValidateAll\<close>.\<close>

datatype any_request =
    AnyRegister "register_request option" | AnyLogin "login_request option" | AnyYandexURL
  | AnyComplete "complete_request option"

definition validateRequest :: "(string \<Rightarrow> err + string) \<Rightarrow> any_request \<Rightarrow> err option outcome" where
  "validateRequest ParseAddress request =
     (case request of
        AnyRegister m \<Rightarrow> RegisterRequest_validate ParseAddress True m
      | AnyLogin m \<Rightarrow> LoginRequest_validate True m
      | AnyYandexURL \<Rightarrow> GetYandexAuthURLRequest_validate True
      | AnyComplete m \<Rightarrow> CompleteYandexLoginRequest_validate True m)"

section \<open>The methods of the server\<close>

text \<open>The interceptor around the handler of a method, as the generated auth_grpc.pb.go calls them.\<close>

definition serve_Register ::
  "(string \<Rightarrow> err + string) \<Rightarrow> 'w auth_deps \<Rightarrow> ctx \<Rightarrow> register_request option \<Rightarrow> ('w, grpc_status + auth_response) go" where
  "serve_Register ParseAddress s c request =
     unary (ad_Runtime s) ''/auth.v1.AuthService/Register'' (validateRequest ParseAddress (AnyRegister request))
       (grpc_Register s c request)"

definition serve_Login :: "(string \<Rightarrow> err + string) \<Rightarrow> 'w auth_deps \<Rightarrow> ctx \<Rightarrow> login_request option \<Rightarrow> ('w, grpc_status + auth_response) go" where
  "serve_Login ParseAddress s c request =
     unary (ad_Runtime s) ''/auth.v1.AuthService/Login'' (validateRequest ParseAddress (AnyLogin request)) (grpc_Login s c request)"

definition serve_GetYandexAuthURL :: "(string \<Rightarrow> err + string) \<Rightarrow> 'w auth_deps \<Rightarrow> ('w, grpc_status + string) go" where
  "serve_GetYandexAuthURL ParseAddress s =
     unary (ad_Runtime s) ''/auth.v1.AuthService/GetYandexAuthURL'' (validateRequest ParseAddress AnyYandexURL) (grpc_GetYandexAuthURL s)"

definition serve_CompleteYandexLogin ::
  "(string \<Rightarrow> err + string) \<Rightarrow> 'w auth_deps \<Rightarrow> ctx \<Rightarrow> complete_request option \<Rightarrow> ('w, grpc_status + auth_response) go" where
  "serve_CompleteYandexLogin ParseAddress s c request =
     unary (ad_Runtime s) ''/auth.v1.AuthService/CompleteYandexLogin'' (validateRequest ParseAddress (AnyComplete request))
       (grpc_CompleteYandexLogin s c request)"

section \<open>What a client learns from a login\<close>

lemma check_rules_no_panic:
  "list_all (\<lambda>r. \<exists>v. r = Ok v) rs \<Longrightarrow> \<exists>e. check_rules everything rs errors = Ok e"
  by (induction everything rs errors rule: check_rules.induct) (auto split: option.splits)

lemma LoginRequest_validate_Ok: "\<exists>e. LoginRequest_validate True request = Ok e"
  by (auto simp: LoginRequest_validate_def length_rule_def Let_def split: option.split intro!: check_rules_no_panic)

text \<open>The request is the last one counted, with the code of its answer.\<close>

definition request_counted :: "string \<Rightarrow> grpc_code \<Rightarrow> world \<Rightarrow> bool" where
  "request_counted method code w \<longleftrightarrow>
     (\<exists>es d. events w = es @ [Metric ''auth_grpc_requests_total'' [method, code_text code],
                             Sample ''auth_grpc_request_duration_seconds'' [method, code_text code] d])"

definition login_answer ::
  "bcrypt_lib \<Rightarrow> jwt_lib \<Rightarrow> login_request option \<Rightarrow> world \<Rightarrow> grpc_status + auth_response \<Rightarrow> bool" where
  "login_answer bc jl request w answer \<longleftrightarrow>
     (case answer of
        Inr response \<Rightarrow>
          \<exists>u. authenticates bc (login_fields request) (stored w) = Some u \<and> rs_UserId response = uuid_String (ua_ID u)
      | Inl s \<Rightarrow>
          calm w \<and> signs jl \<longrightarrow>
            (if validateLoginInput (login_fields request) = None
             then authenticates bc (login_fields request) (stored w) = None \<and> s = (Unauthenticated, ''invalid credentials'')
             else fst s = InvalidArgument))"

definition login_served ::
  "bcrypt_lib \<Rightarrow> jwt_lib \<Rightarrow> login_request option \<Rightarrow> world \<Rightarrow> (grpc_status + auth_response) outcome \<Rightarrow> world \<Rightarrow> bool" where
  "login_served bc jl request w r w' \<longleftrightarrow>
     session w' = session w \<and> stored w' = stored w
     \<and> (\<exists>answer. r = Ok answer \<and> request_counted ''/auth.v1.AuthService/Login'' (answer_code answer) w'
          \<and> (case LoginRequest_validate True request of
               Ok (Some e) \<Rightarrow> answer = Inl (InvalidArgument, err_text e)
             | _ \<Rightarrow> login_answer bc jl request w answer))"

lemma grpc_Login_wp:
  assumes "bcrypt_law bc" and "db_ready w"
  shows "wp (grpc_Login (auth_world bc cost jl ts url exchange marshal) c request)
    (\<lambda>r v. session v = session w \<and> stored v = stored w \<and> (\<exists>answer. r = Ok answer \<and> login_answer bc jl request w answer)) w"
  unfolding grpc_Login_def answered_def
proof (rule wp_callI [OF wpI [OF Login_decides [OF assms]]], assumption, goal_cases)
  case (1 res v)
  then show ?case
    by (auto simp: wp_ok login_answer_def toAuthResponse_def auth_result_def split: option.splits)
next
  case (2 e v)
  then show ?case
    by (auto simp: wp_ok login_answer_def mapAppError_def validateLoginInput_def split: option.splits if_splits)
next
  case (3 p v)
  then show ?case by (auto simp: validateLoginInput_def split: option.splits if_splits)
qed

lemma world_ticks [simp]:
  "session (ticks_update f w) = session w" "stored (ticks_update f w) = stored w" "db_ready (ticks_update f w) = db_ready w"
  "session (events_update g w) = session w" "stored (events_update g w) = stored w"
  "calm (ticks_update f w) = calm w"
  by (simp_all add: session_def stored_def db_ready_def calm_def)

lemma server_runtime: "Now (world_runtime marshal) = now_w" "Emit (world_runtime marshal) = emit_w"
  by (simp_all add: world_runtime_def)

text \<open>
  What a client learns from a login. The server answers every request, changes nothing of what is
  stored and counts the request under the code of its answer. A request that breaks a rule of the
  protocol is refused before the service is asked. Otherwise a response names the user whose stored
  password matches, and - when the database answers and tokens can be signed - every other attempt
  with an identifier and a password is refused with the one status Unauthenticated, invalid
  credentials: whether the account exists is not told.
\<close>
theorem serve_Login_answers:
  assumes "bcrypt_law bc" and "db_ready w"
    and "run_state (serve_Login ParseAddress (auth_world bc cost jl ts url exchange marshal) c request) w = (r, w')"
  shows "login_served bc jl request w r w'"
proof (rule wpD [OF _ assms(3)])
  obtain v where v: "LoginRequest_validate True request = Ok v" using LoginRequest_validate_Ok by blast
  let ?w = "ticks_update Suc w"
  have ready: "db_ready ?w" using assms(2) by simp
  show "wp (serve_Login ParseAddress (auth_world bc cost jl ts url exchange marshal) c request) (login_served bc jl request w) w"
  proof (cases v)
    case (Some e)
    with v show ?thesis
      by (simp add: serve_Login_def validateRequest_def unary_def auth_world_sel world_runtime_def server_observe_def wp_rules
          login_served_def request_counted_def answer_code_def)
  next
    case None
    show ?thesis
      unfolding serve_Login_def unary_def validateRequest_def any_request.case v None outcome.case option.case auth_world_sel server_runtime wp_bind wp_now
    proof (rule wp_andThenI [OF grpc_Login_wp [OF assms(1) ready]], goal_cases)
      case (1 answer u)
      then show ?case
        by (cases answer)
          (auto simp: wp_rules server_observe_def server_runtime login_served_def request_counted_def v None login_answer_def
            answer_code_def)
    qed auto
  qed
qed

text \<open>An unknown user, and a request without a password.\<close>

lemma serve_Login_answers_witness:
  "fst (run_state (serve_Login Inr example_auth background (Some \<lparr>lq_Identifier = ''bob'', lq_Password = ''secret''\<rparr>)) empty_world) =
     Ok (Inl (Unauthenticated, ''invalid credentials''))
   \<and> (\<exists>m. fst (run_state (serve_Login Inr example_auth background (Some \<lparr>lq_Identifier = ''bob'', lq_Password = []\<rparr>)) empty_world) =
     Ok (Inl (InvalidArgument, m)))"
proof -
  let ?run = "\<lambda>request. run_state (serve_Login Inr example_auth background request) empty_world"
  have served: "login_served example_bcrypt example_jwt request empty_world (fst (?run request)) (snd (?run request))" for request
    unfolding example_auth_def by (rule serve_Login_answers [OF example_laws(1,3) surjective_pairing])
  let ?a = "Some \<lparr>lq_Identifier = ''bob'', lq_Password = ''secret''\<rparr>" and ?b = "Some \<lparr>lq_Identifier = ''bob'', lq_Password = []\<rparr>"
  have a: "LoginRequest_validate True ?a = Ok None" "validateLoginInput (login_fields ?a) = None" by code_simp+
  have "case LoginRequest_validate True ?b of Ok (Some e) \<Rightarrow> True | _ \<Rightarrow> False" by code_simp
  then obtain e where b: "LoginRequest_validate True ?b = Ok (Some e)" by (auto split: outcome.splits option.splits)
  have "authenticates example_bcrypt (login_fields ?a) (stored empty_world) = None"
    by (simp add: authenticates_def example_laws(5))
  moreover from served [of ?a] a(1) obtain answer
    where "fst (?run ?a) = Ok answer" "login_answer example_bcrypt example_jwt ?a empty_world answer"
    by (auto simp: login_served_def)
  ultimately have "fst (?run ?a) = Ok (Inl (Unauthenticated, ''invalid credentials''))"
    using a(2) example_laws(2,4) by (cases answer) (auto simp: login_answer_def)
  moreover from served [of ?b] b have "fst (?run ?b) = Ok (Inl (InvalidArgument, err_text e))"
    by (auto simp: login_served_def)
  ultimately show ?thesis by blast
qed

end
