(* ===== verification/OutboxQueue.thy ===== *)
theory OutboxQueue
  imports Repositories "HOL-Library.Multiset"
begin

text \<open>
  internal/repository/outboxmessages as a queue: picking the due messages past the locks of other
  workers and marking them, over the PostgreSQL world.
\<close>

section \<open>Ordering rows\<close>

lemma mset_insert_by: "mset (insert_by le x xs) = add_mset x (mset xs)"
  by (induction xs) auto

lemma mset_sort_by [simp]: "mset (sort_by le xs) = mset xs"
  by (induction xs) (simp_all add: sort_by_def mset_insert_by)

lemma mset_order_rows [simp]: "mset (order_rows ks rs) = mset rs"
  by (simp add: order_rows_def)

lemma length_order_rows [simp]: "length (order_rows ks rs) = length rs"
  using mset_order_rows [of ks rs] by (rule mset_eq_length)

section \<open>Picking\<close>

lemma due_row: "eval_expr (pickable now) (outbox_row m) \<longleftrightarrow> due now m"
  by (auto simp: pickable_def outbox_row_def OutboxMessage_Params_def due_def col_value_def to_us_def
      opt_time_def OutboxStatusPending_def OutboxStatusFailed_def OutboxStatusProcessing_def split: option.splits)

lemma CollectRows_outbox: "set rs \<subseteq> range outbox_row \<Longrightarrow> CollectRows scan_outbox rs = Inr (map (the \<circ> scan_outbox) rs)"
  by (induction rs) auto

lemma scan_outbox_map: "map (the \<circ> scan_outbox) (map outbox_row ms) = ms"
  by (induction ms) auto

text \<open>A sublist of the ordered rows of some messages, taken from the front.\<close>

lemma collected_messages:
  assumes rs: "mset rs = mset (map outbox_row F)" and d: "distinct (map om_ID F)"
  shows "set (map (the \<circ> scan_outbox) (take k rs)) \<subseteq> set F"
    and "distinct (map om_ID (map (the \<circ> scan_outbox) (take k rs)))"
    and "length (map (the \<circ> scan_outbox) (take k rs)) = min k (length F)"
    and "CollectRows scan_outbox (take k rs) = Inr (map (the \<circ> scan_outbox) (take k rs))"
proof -
  have ms: "mset (map (the \<circ> scan_outbox) rs) = mset F"
    using rs scan_outbox_map by (metis mset_map)
  then have "set (map (the \<circ> scan_outbox) rs) = set F" "length rs = length F"
    by (metis set_mset_mset) (metis ms length_map size_mset)
  then show "set (map (the \<circ> scan_outbox) (take k rs)) \<subseteq> set F"
    "length (map (the \<circ> scan_outbox) (take k rs)) = min k (length F)"
    by (auto dest: in_set_takeD)
  have "mset (map om_ID (map (the \<circ> scan_outbox) rs)) = mset (map om_ID F)"
    using ms by (metis mset_map)
  with d have "distinct (map om_ID (map (the \<circ> scan_outbox) rs))"
    using mset_eq_imp_distinct_iff by blast
  then have "distinct (take k (map om_ID (map (the \<circ> scan_outbox) rs)))" by (rule distinct_take)
  then show "distinct (map om_ID (map (the \<circ> scan_outbox) (take k rs)))" by (simp only: take_map)
  have "set rs = set (map outbox_row F)" using rs by (metis set_mset_mset)
  then show "CollectRows scan_outbox (take k rs) = Inr (map (the \<circ> scan_outbox) (take k rs))"
    by (intro CollectRows_outbox) (auto dest!: in_set_takeD)
qed

definition pick_options :: "nat \<Rightarrow> select_option list" where
  "pick_options limit = [WithOrderBy [Asc ''next_attempt_at'', Asc ''created_at''], WithLimit limit]"

lemma pick_dataset:
  "selectDataset outbox_base wh (pick_options n) =
     \<lparr>sd_table = ''auth_outbox_messages'', sd_where = wh,
      sd_order = [(''next_attempt_at'', False), (''created_at'', False)],
      sd_limit = (if n > 0 then Some n else None), sd_offset = None\<rparr>"
  by (simp add: selectDataset_def applySelectOptions_def pick_options_def WithOrderBy_def WithLimit_def Asc_def
      outbox_base_def NewRepository_def outbox_model_def)

lemma pick_lock_text:
  "LockOptions_SQL \<lparr>lk_Mode = LockForUpdate, lk_WaitPolicy = LockSkipLocked, lk_OfTables = []\<rparr>
     = Inr ''FOR UPDATE SKIP LOCKED''"
  by (simp add: LockOptions_SQL_def lock_defs)

lemma skip_locked:
  "ends_with ''FOR UPDATE SKIP LOCKED'' ''SKIP LOCKED''" "\<not> ends_with ''FOR UPDATE SKIP LOCKED'' ''NOWAIT''"
  by (simp_all add: ends_with_def)

lemma pick_law:
  assumes i: "Inv db_obs g w"
  shows "wp (outbox_PickPending c n) (\<lambda>r v. unchanged db_obs g w v \<and>
      (case r of
         Ok ms \<Rightarrow> \<exists>now. picked now (Held db_obs g) n (View db_obs w) ms
       | Err e \<Rightarrow> \<not> Calm db_obs w \<and> lost_answer e
       | Panic p \<Rightarrow> False)) w"
  unfolding outbox_PickPending_def pick_options_def [symmetric]
proof (rule wp_bindI [OF runtime.now_law [unfolded world_runtime_def runtime.select_convs, OF i]],
    rule wp_conseq [OF Lock_answers(1) [OF pick_lock_text]], goal_cases)
  case (1 now u r v)
  let ?st = "read_db (tables w)" and ?sc = "locked_elsewhere u ''auth_outbox_messages''"
  have u: "Inv db_obs g u" "tables u = tables w \<Longrightarrow> True" "read_db (tables u) = ?st" "calm w \<longrightarrow> calm u"
    "svc_events u = svc_events w"
    using 1(1) by (auto simp: unchanged_def)
  let ?F = "filter (\<lambda>m. due now m \<and> \<not> ?sc (outbox_row m)) (st_outbox ?st)"
  have tab: "tables u ''auth_outbox_messages'' = map outbox_row (st_outbox ?st)"
    using u(1,3) by (simp add: holds_def)
  have free: "filter (\<lambda>r. \<not> ?sc r) (filter (where_ok (Some (pickable now))) (map outbox_row (st_outbox ?st))) = map outbox_row ?F"
    by (induction "st_outbox ?st") (simp_all add: where_ok_def due_row filter_map o_def conj_commute)
  let ?ks = "[(''next_attempt_at'', False), (''created_at'', False)]"
  let ?rs = "order_rows ?ks (map outbox_row ?F)"
  let ?k = "if n > 0 then n else length ?rs"
  have d: "distinct (map om_ID ?F)"
    using u(1,3) by (auto simp: store_ok_def intro: distinct_map_filter)
  have len: "length ?rs = length ?F"
    by simp
  note got = collected_messages [OF mset_order_rows [of ?ks] d, of ?k]
  let ?ms = "map (the \<circ> scan_outbox) (take ?k ?rs)"
  have run: "pg_run (locked_elsewhere u) (SelectStmt (selectDataset outbox_base (Some (pickable now)) (pick_options n))
      (Some ''FOR UPDATE SKIP LOCKED'')) (tables u) = Inr (tables u, take ?k ?rs, length (take ?k ?rs))"
    unfolding pick_dataset
    by (simp add: schema_def pg_select_def skip_locked Let_def tab free opt_take_def opt_drop_def del: filter_filter)
  have held: "Held db_obs g = (\<lambda>m. ?sc (outbox_row m))"
    using u(1) unfolding obs_sel by (metis (no_types) session_locks)
  have p: "picked now (\<lambda>m. ?sc (outbox_row m)) n ?st ?ms"
    using got len by (simp add: picked_def)
  show ?case
  proof (cases r)
    case (Ok ms)
    with 1(2) [unfolded answers_def run] have "ms = ?ms" "tables v = tables u" "session v = session u"
        "journal v = journal u" "calm u \<longrightarrow> calm v"
      by (auto simp: rows_of_def got(4))
    moreover have "picked now (Held db_obs g) n ?st ms"
      unfolding held by (subst \<open>ms = ?ms\<close>) (rule p)
    ultimately show ?thesis using Ok u by (auto simp: unchanged_def dest: journal_same)
  next
    case (Err e)
    with 1(2) [unfolded answers_def run] u show ?thesis
      by (auto simp: rows_of_def got(4) unchanged_def dest: journal_same)
  next
    case (Panic p)
    with 1(2) [unfolded answers_def run] show ?thesis by (auto simp: rows_of_def got(4))
  qed
qed

section \<open>Marking\<close>

lemma UpdateFieldsWhere_answers:
  "sets \<noteq> [] \<Longrightarrow> wp (UpdateFieldsWhere repo c wh sets)
     (answers (exec_of c) (UpdateStmt (rp_table repo) sets wh False) count_of w) w"
  unfolding UpdateFieldsWhere_def
  by (simp only: if_False Exec_def [abs_def], rule write_answers, rule pure_results)

lemma UpdateFields_answers:
  assumes "sets \<noteq> []"
  shows "wp (UpdateFieldsByPrimaryKey repo c i sets)
     (answers (exec_of c) (UpdateStmt (rp_table repo) sets (EEq (primaryKeyColumn repo) i) False) affected_of w) w"
  unfolding UpdateFieldsByPrimaryKey_def
  by (rule wp_andThenI [OF UpdateFieldsWhere_answers [OF assms]])
    (auto simp: answers_def count_of_def affected_of_def affected_def wp_rules split: sum.splits)

lemma sint_count_up: "sint (x :: 32 word) \<noteq> 2 ^ 31 - 1 \<Longrightarrow> sint (x + 1) = sint x + 1"
  using sint_ge [of x] sint_lt [of x]
  by (simp add: sint_word_ariths signed_take_bit_int_eq_self)

definition sets_processing :: "time \<Rightarrow> (string \<times> setval) list" where
  "sets_processing now =
     [(''status'', SetTo (VStr OutboxStatusProcessing)), (''updated_at'', SetTo (VTime now)),
      (''next_attempt_at'', SetTo VNull)]"

definition sets_sent :: "time \<Rightarrow> (string \<times> setval) list" where
  "sets_sent now =
     [(''status'', SetTo (VStr OutboxStatusSent)), (''published_at'', SetTo (VTime now)),
      (''updated_at'', SetTo (VTime now)), (''last_error'', SetTo (VStr [])), (''next_attempt_at'', SetTo VNull)]"

definition sets_failed :: "string \<Rightarrow> time \<Rightarrow> time \<Rightarrow> (string \<times> setval) list" where
  "sets_failed txt again now =
     [(''status'', SetTo (VStr OutboxStatusFailed)), (''last_error'', SetTo (VStr txt)),
      (''attempt_count'', SetPlus ''attempt_count'' 1), (''updated_at'', SetTo (VTime now)),
      (''next_attempt_at'', SetTo (VTime again))]"

lemma overflows_sets:
  "\<not> overflows (sets_processing now) r" "\<not> overflows (sets_sent now) r"
  "overflows (sets_failed txt again now) (outbox_row m) \<longleftrightarrow> sint (om_AttemptCount m) = 2 ^ 31 - 1"
  using sint_ge [of "om_AttemptCount m"] sint_lt [of "om_AttemptCount m"]
  by (auto simp: overflows_def sets_processing_def sets_sent_def sets_failed_def col_value_def outbox_row_def
      OutboxMessage_Params_def)

lemma update_row_sets:
  "update_row (sets_processing now) (outbox_row m) = outbox_row (as_processing now m)"
  "update_row (sets_sent now) (outbox_row m) = outbox_row (as_sent now m)"
  "sint (om_AttemptCount m) \<noteq> 2 ^ 31 - 1 \<Longrightarrow>
   update_row (sets_failed txt again now) (outbox_row m) = outbox_row (as_failed txt again now m)"
  by (rule ext; simp add: update_row_def sets_processing_def sets_sent_def sets_failed_def col_value_def outbox_row_def
      OutboxMessage_Params_def as_defs opt_time_def to_us_def sint_count_up map_add_def)+

text \<open>The rows of messages with distinct ids keep the unique key of the table.\<close>

lemma all_unique_outbox:
  "distinct (map om_ID ms) \<Longrightarrow> all_unique \<lparr>ts_unique = [[''id'']], ts_refs = []\<rparr> (map outbox_row ms)"
  by (induction ms) (auto simp: violates_unique_def same_key_def list_ex_iff)

lemma update_outbox:
  assumes d: "distinct (map om_ID ms)"
    and upd: "\<And>m. \<not> bad m \<Longrightarrow> update_row sets (outbox_row m) = outbox_row (f m)"
    and over: "\<And>m. overflows sets (outbox_row m) = bad m"
    and same: "\<And>m. om_ID (f m) = om_ID m"
    and t: "d ''auth_outbox_messages'' = map outbox_row ms"
  shows "pg_run held (UpdateStmt ''auth_outbox_messages'' sets (EEq ''id'' (VUuid i)) False) d =
    (if \<exists>m\<in>set ms. om_ID m = i \<and> bad m then Inl out_of_range
     else Inr (d(''auth_outbox_messages'' := map outbox_row (map (\<lambda>m. if om_ID m = i then f m else m) ms)),
               [], length (filter (\<lambda>m. om_ID m = i) ms)))"
proof -
  let ?e = "eval_expr (EEq ''id'' (VUuid i))"
  have hit: "?e (outbox_row m) \<longleftrightarrow> om_ID m = i" for m by simp
  have fl: "filter ?e (d ''auth_outbox_messages'') = map outbox_row (filter (\<lambda>m. om_ID m = i) ms)"
    unfolding t by (induction ms) (simp_all add: hit del: eval_expr.simps)
  have ov: "list_ex (overflows sets) (filter ?e (d ''auth_outbox_messages'')) \<longleftrightarrow> (\<exists>m\<in>set ms. om_ID m = i \<and> bad m)"
    unfolding fl by (auto simp: list_ex_iff over)
  show ?thesis
  proof (cases "\<exists>m\<in>set ms. om_ID m = i \<and> bad m")
    case True
    with ov show ?thesis by (simp add: schema_def pg_update_def del: eval_expr.simps)
  next
    case False
    have rs: "map (\<lambda>r. if ?e r then update_row sets r else r) (d ''auth_outbox_messages'')
        = map outbox_row (map (\<lambda>m. if om_ID m = i then f m else m) ms)"
      unfolding t using False by (auto simp: hit upd simp del: eval_expr.simps)
    have "om_ID \<circ> (\<lambda>m. if om_ID m = i then f m else m) = om_ID" by (rule ext) (simp add: same)
    with d have "distinct (map om_ID (map (\<lambda>m. if om_ID m = i then f m else m) ms))" by simp
    from all_unique_outbox [OF this] ov False fl rs show ?thesis
      by (simp add: schema_def pg_update_def violates_ref_def list_ex_iff del: eval_expr.simps map_map)
  qed
qed

lemma mark_law:
  assumes i: "Inv db_obs g w"
    and sets: "\<And>now. sets now \<noteq> []"
    and upd: "\<And>m now. \<not> bad m \<Longrightarrow> update_row (sets now) (outbox_row m) = outbox_row (f now m)"
    and over: "\<And>m now. overflows (sets now) (outbox_row m) = bad m"
    and same: "\<And>m now. om_ID (f now m) = om_ID m"
  shows "wp (do { now \<leftarrow> now_w; UpdateFieldsByPrimaryKey outbox_base c (VUuid j) (sets now) })
     (marked db_obs g w j f (\<exists>m\<in>set (st_outbox (View db_obs w)). om_ID m = j \<and> bad m)) w"
proof (rule wp_bindI [OF runtime.now_law [unfolded world_runtime_def runtime.select_convs, OF i]],
    rule wp_conseq [OF UpdateFields_answers [OF sets]], goal_cases)
  case (1 now u r v)
  let ?st = "read_db (tables w)"
  have u: "Inv db_obs g u" "read_db (tables u) = ?st" "calm w \<longrightarrow> calm u" "svc_events u = svc_events w"
    using 1(1) by (auto simp: unchanged_def)
  have d: "distinct (map om_ID (st_outbox ?st))" and ok: "store_ok ?st"
    using u(1,2) by (auto simp: store_ok_def)
  have h: "holds (tables u) ?st" using u(1,2) by simp
  then have t: "tables u ''auth_outbox_messages'' = map outbox_row (st_outbox ?st)" by (simp add: holds_def)
  let ?d = "(tables u)(''auth_outbox_messages'' := map outbox_row (map (\<lambda>m. if om_ID m = j then f now m else m) (st_outbox ?st)))"
  have run: "pg_run held (UpdateStmt ''auth_outbox_messages'' (sets now) (EEq ''id'' (VUuid j)) False) (tables u) =
    (if \<exists>m\<in>set (st_outbox ?st). om_ID m = j \<and> bad m then Inl out_of_range
     else Inr (?d, [], length (filter (\<lambda>m. om_ID m = j) (st_outbox ?st))))" for held
    by (rule update_outbox [where d = "tables u", OF d _ _ _ t]) (fact upd over same)+
  have h': "holds ?d (mark j (f now) ?st)" using h by (simp add: holds_def mark_def)
  have okm: "store_ok (mark j (f now) ?st)" by (rule store_ok_mark [OF ok same])
  have q: "length (filter (\<lambda>m. om_ID m = j) (st_outbox ?st)) = 0 \<longleftrightarrow> \<not> queued j ?st"
    by (auto simp: queued_def filter_empty_conv)
  have nochange: "mark j (f now) ?st = ?st" if "\<not> queued j ?st"
    using that by (intro store.equality) (auto simp: mark_def queued_def intro!: map_idI)
  show ?case
  proof (cases "\<exists>m\<in>set (st_outbox ?st). om_ID m = j \<and> bad m")
    case True
    note a = 1(2) [unfolded base_sel answers_def run if_P [OF True] sum.case]
    have "as_pg_code out_of_range = Some ''22003''" by (simp add: out_of_range_def)
    with a u True show ?thesis
      by (auto simp: marked_def dest: journal_same)
  next
    case False
    note a = 1(2) [unfolded base_sel answers_def run if_not_P [OF False] sum.case prod.case]
    note e = holds_read [OF h']
    from a consider
        (answered) "r = affected_of [] (length (filter (\<lambda>m. om_ID m = j) (st_outbox ?st)))" "tables v = ?d" "calm u \<longrightarrow> calm v"
      | (lost) e where "\<not> calm u" "r = Err e" "lost_answer e" "tables v = tables u \<or> tables v = ?d"
      by blast
    then show ?thesis
    proof cases
      case answered
      with a u h' okm e False q nochange show ?thesis
        by (cases "queued j ?st") (auto simp: marked_def affected_of_def dest: journal_same)
    next
      case lost
      with a u h' okm e show ?thesis
        by (auto simp: marked_def dest: journal_same)
    qed
  qed
qed

lemma outbox_MarkProcessing_law:
  "Inv db_obs g w \<Longrightarrow> wp (outbox_MarkProcessing c (uuid_String i)) (marked db_obs g w i as_processing False) w"
  unfolding outbox_MarkProcessing_def with_uuid_String sets_processing_def [symmetric]
  using mark_law [where bad = "\<lambda>_. False" and sets = sets_processing and f = as_processing]
  by (simp add: overflows_sets update_row_sets as_defs) (simp add: sets_processing_def)

lemma outbox_MarkSent_law:
  "Inv db_obs g w \<Longrightarrow> wp (outbox_MarkSent c (uuid_String i)) (marked db_obs g w i as_sent False) w"
  unfolding outbox_MarkSent_def with_uuid_String sets_sent_def [symmetric]
  using mark_law [where bad = "\<lambda>_. False" and sets = sets_sent and f = as_sent]
  by (simp add: overflows_sets update_row_sets as_defs) (simp add: sets_sent_def)

lemma outbox_MarkFailed_law:
  "Inv db_obs g w \<Longrightarrow> wp (outbox_MarkFailed c (uuid_String i) txt again)
     (marked db_obs g w i (as_failed txt again) (worn_out i (View db_obs w))) w"
  unfolding outbox_MarkFailed_def with_uuid_String sets_failed_def [symmetric] worn_out_def
  by (rule mark_law [OF _ _ update_row_sets(3) overflows_sets(3)])
    (simp_all add: as_defs sets_failed_def)

interpretation queue: outbox_queue db_obs outbox_Create outbox_PickPending outbox_MarkProcessing outbox_MarkSent
    outbox_MarkFailed
  by unfold_locales
    (auto simp del: obs_sel simp: obs_sel(4) pick_law outbox_MarkProcessing_law outbox_MarkSent_law outbox_MarkFailed_law)

end
