(* ===== verification/Producer.thy ===== *)
theory Producer
  imports World
begin

text \<open>
  pkg/adapters/kafka/producer: the configuration, the runtime options, the metrics and the typed
  messages of the Kafka producers, and the synchronous producer. sarama's client is an argument:
  its calls are operations of the world \<open>'w\<close>.
\<close>

section \<open>config.go\<close>

record sasl_config =
  sl_Enable :: bool
  sl_Username :: string
  sl_Password :: string
  sl_Mechanism :: string

record tls_config =
  tl_Enabled :: bool
  tl_ClientCert :: string
  tl_ClientKey :: string
  tl_RootCert :: string

record network_config =
  nw_Sasl :: sasl_config
  nw_TLS :: tls_config

record saving_config =
  sv_Errors :: bool
  sv_Succeeded :: bool

record produce_settings =
  ps_RequiredAcks :: "16 word"
  ps_Idempotency :: bool
  ps_TransactionalID :: string
  ps_SaveReturningStatus :: saving_config

record registry_config =
  sr_URL :: string
  sr_Subject :: string

record producer_config =
  pc_Topic :: string
  pc_Brokers :: "string list"
  pc_CompressionType :: "8 word"
  pc_Network :: network_config
  pc_ProduceSettings :: produce_settings
  pc_SchemaRegistry :: registry_config

text \<open>What the code sets of \<open>sarama.Config\<close>.\<close>

record sarama_config =
  sc_Version :: string
  sc_Partitioner :: string
  sc_ReturnErrors :: bool
  sc_ReturnSuccesses :: bool
  sc_Idempotent :: bool
  sc_TransactionID :: string
  sc_Compression :: "8 word"
  sc_RequiredAcks :: "16 word"
  sc_MaxOpenRequests :: nat
  sc_SASL :: "(string \<times> string \<times> string) option"
  sc_TLS :: "(string \<times> string) option"

text \<open>The standard library and sarama: key pairs, certificate pools and the validation of a configuration.\<close>

record tls_library =
  X509KeyPair :: "string \<Rightarrow> string \<Rightarrow> err + string"
  AppendCertsFromPEM :: "string \<Rightarrow> bool"
  sarama_Validate :: "sarama_config \<Rightarrow> err option"

definition validateConfig :: "producer_config \<Rightarrow> err option" where
  "validateConfig config =
     (if pc_Topic config = [] then Some (Sentinel (ProdCfg ErrProducerTopicRequired))
      else if pc_Brokers config = [] then Some (Sentinel (ProdCfg ErrProducerBrokersRequired))
      else if pc_CompressionType config \<notin> {0, 1, 2, 3, 4}
      then Some (Wrapped (producer_config_err_text ErrUnsupportedCompression @ '': '' @ int_text (sint (pc_CompressionType config)))
             [Sentinel (ProdCfg ErrUnsupportedCompression)])
      else if ps_RequiredAcks (pc_ProduceSettings config) \<notin> {0, 1, -1}
      then Some (Wrapped (producer_config_err_text ErrUnsupportedRequiredAcks @ '': ''
              @ int_text (sint (ps_RequiredAcks (pc_ProduceSettings config)))) [Sentinel (ProdCfg ErrUnsupportedRequiredAcks)])
      else None)"

definition sasl_mechanism :: "string \<Rightarrow> string" where
  "sasl_mechanism m =
     (if m = ''SCRAM-SHA-512'' then ''SCRAM-SHA-512''
      else if m = ''SCRAM-SHA-256'' then ''SCRAM-SHA-256''
      else if m = ''PLAIN'' then ''PLAIN''
      else ''SCRAM-SHA-256'')"

definition BuildProduceConfig :: "tls_library \<Rightarrow> producer_config \<Rightarrow> err + sarama_config" where
  "BuildProduceConfig lib config =
     (case validateConfig config of
        Some e \<Rightarrow> Inl e
      | None \<Rightarrow>
          (let s = pc_ProduceSettings config; n = pc_Network config;
               base = \<lparr>sc_Version = ''2.3.0.0'', sc_Partitioner = ''round-robin'',
                       sc_ReturnErrors = sv_Errors (ps_SaveReturningStatus s),
                       sc_ReturnSuccesses = sv_Succeeded (ps_SaveReturningStatus s),
                       sc_Idempotent = ps_Idempotency s, sc_TransactionID = ps_TransactionalID s,
                       sc_Compression = pc_CompressionType config, sc_RequiredAcks = ps_RequiredAcks s,
                       sc_MaxOpenRequests = (if ps_Idempotency s \<or> ps_TransactionalID s \<noteq> [] then 1 else 5),
                       sc_SASL =
                         (if sl_Enable (nw_Sasl n)
                          then Some (sl_Username (nw_Sasl n), sl_Password (nw_Sasl n), sasl_mechanism (sl_Mechanism (nw_Sasl n)))
                          else None),
                       sc_TLS = None\<rparr>;
               secured =
                 (if tl_Enabled (nw_TLS n) then
                    (case X509KeyPair lib (tl_ClientCert (nw_TLS n)) (tl_ClientKey (nw_TLS n)) of
                       Inl e \<Rightarrow> Inl (wrap2 (ProdCfg ErrProducerTLSClientKeyPair) e)
                     | Inr cert \<Rightarrow>
                         (if \<not> AppendCertsFromPEM lib (tl_RootCert (nw_TLS n))
                          then Inl (Sentinel (ProdCfg ErrProducerTLSRootCert))
                          else Inr (base\<lparr>sc_TLS := Some (cert, tl_RootCert (nw_TLS n))\<rparr>)))
                  else Inr base) in
           case secured of
             Inl e \<Rightarrow> Inl e
           | Inr cfg \<Rightarrow>
               (case sarama_Validate lib cfg of
                  Some e \<Rightarrow> Inl (wrap2 (ProdCfg ErrValidateSaramaConfig) e)
                | None \<Rightarrow> Inr cfg)))"

section \<open>typed.go\<close>

record 'a typed_message =
  tm_Topic :: string
  tm_Key :: string
  tm_Headers :: "(string \<times> string) list"
  tm_Value :: 'a

text \<open>
  A message for sarama. The headers stand in the order in which the map was walked; \<open>pm_Value\<close>
  is \<open>None\<close> for a nil value.
\<close>

record 'a producer_message =
  pm_Topic :: string
  pm_Key :: "string option"
  pm_Headers :: "(string \<times> string) list"
  pm_Value :: "string option"
  pm_Metadata :: "'a typed_message option"

definition resolveTopic :: "string \<Rightarrow> string \<Rightarrow> string" where
  "resolveTopic defaultTopic messageTopic = (if messageTopic \<noteq> [] then messageTopic else defaultTopic)"

definition ToProducerMessage ::
  "string \<Rightarrow> 'a typed_message \<Rightarrow> ('a \<Rightarrow> ('w, string) go) \<Rightarrow> ('w, 'a producer_message) go" where
  "ToProducerMessage defaultTopic message serializer =
     call (serializer (tm_Value message)) (\<lambda>r. case r of
       Inl e \<Rightarrow> fail (wrap2 (ProdSend ErrSerializeMessagePayload) e)
     | Inr payload \<Rightarrow>
         (let topic = resolveTopic defaultTopic (tm_Topic message) in
          ok \<lparr>pm_Topic = topic,
              pm_Key = (if tm_Key message \<noteq> [] then Some (tm_Key message) else None),
              pm_Headers = tm_Headers message,
              pm_Value = Some payload,
              pm_Metadata = Some (message\<lparr>tm_Topic := topic\<rparr>)\<rparr>))"

definition ExtractTypedMessage :: "'a producer_message option \<Rightarrow> 'a typed_message option" where
  "ExtractTypedMessage message = (case message of None \<Rightarrow> None | Some m \<Rightarrow> pm_Metadata m)"

definition MessagePayloadSize :: "'a producer_message option \<Rightarrow> nat" where
  "MessagePayloadSize message =
     (case message of None \<Rightarrow> 0 | Some m \<Rightarrow> (case pm_Value m of None \<Rightarrow> 0 | Some payload \<Rightarrow> length payload))"

section \<open>options.go\<close>

datatype producer_metrics = NoopMetrics | MetricsIn string

record 'a error_context =
  ec_Operation :: string
  ec_Topic :: string
  ec_Message :: "'a typed_message option"
  ec_Err :: err

record ('w, 'a) runtime_options =
  ro_registerer :: "string option"
  ro_metrics :: "producer_metrics option"
  ro_metricsEnabled :: bool
  ro_errorHandler :: "('a error_context \<Rightarrow> ('w, unit) state) option"

type_synonym ('w, 'a) producer_option = "('w, 'a) runtime_options \<Rightarrow> ('w, 'a) runtime_options"

definition WithPrometheusRegisterer :: "string option \<Rightarrow> ('w, 'a) producer_option" where
  "WithPrometheusRegisterer registerer options = options\<lparr>ro_registerer := registerer\<rparr>"

definition WithProducerMetrics :: "producer_metrics option \<Rightarrow> ('w, 'a) producer_option" where
  "WithProducerMetrics m options = options\<lparr>ro_metrics := m\<rparr>"

definition WithoutProducerMetrics :: "('w, 'a) producer_option" where
  "WithoutProducerMetrics options = options\<lparr>ro_metricsEnabled := False\<rparr>"

definition WithErrorHandler :: "('a error_context \<Rightarrow> ('w, unit) state) option \<Rightarrow> ('w, 'a) producer_option" where
  "WithErrorHandler handler options = options\<lparr>ro_errorHandler := handler\<rparr>"

definition NewRuntimeOptions :: "('w, 'a) producer_option list \<Rightarrow> ('w, 'a) runtime_options" where
  "NewRuntimeOptions opts =
     fold (\<lambda>opt options. opt options) opts
       \<lparr>ro_registerer = None, ro_metrics = None, ro_metricsEnabled = True, ro_errorHandler = None\<rparr>"

text \<open>The metrics of a registry are named after it; \<open>ResolveProducerMetrics\<close> uses the default one.\<close>

definition ResolveMetrics :: "('w, 'a) runtime_options \<Rightarrow> producer_metrics" where
  "ResolveMetrics o' =
     (if \<not> ro_metricsEnabled o' then NoopMetrics
      else case ro_metrics o' of
        Some m \<Rightarrow> m
      | None \<Rightarrow> (case ro_registerer o' of Some r \<Rightarrow> MetricsIn r | None \<Rightarrow> MetricsIn ''default''))"

definition HandleError ::
  "('w, 'a) runtime_options \<Rightarrow> string \<Rightarrow> string \<Rightarrow> 'a typed_message option \<Rightarrow> err option \<Rightarrow> ('w, unit) state" where
  "HandleError o' operation topic message e =
     (case (ro_errorHandler o', e) of
        (Some handler, Some e) \<Rightarrow>
          handler \<lparr>ec_Operation = operation, ec_Topic = topic, ec_Message = message, ec_Err = e\<rparr>
      | _ \<Rightarrow> State_Monad.return ())"

section \<open>metrics.go\<close>

definition ObserveOperation ::
  "'w runtime \<Rightarrow> producer_metrics \<Rightarrow> string \<Rightarrow> string \<Rightarrow> string \<Rightarrow> string \<Rightarrow> time \<Rightarrow> ('w, unit) state" where
  "ObserveOperation rt m producerType topic operation status startedAt =
     (if m = NoopMetrics then State_Monad.return ()
      else do {
        _ \<leftarrow> Emit rt (Metric ''kafka_producer_operations_total'' [producerType, topic, operation, status]);
        now \<leftarrow> Now rt;
        Emit rt (Sample ''kafka_producer_operation_duration_seconds'' [producerType, topic, operation, status] (now - startedAt)) })"

definition ObservePayload :: "'w runtime \<Rightarrow> producer_metrics \<Rightarrow> string \<Rightarrow> string \<Rightarrow> nat \<Rightarrow> ('w, unit) state" where
  "ObservePayload rt m producerType topic bytes =
     (if m = NoopMetrics \<or> bytes = 0 then State_Monad.return ()
      else Emit rt (Sample ''kafka_producer_payload_bytes'' [producerType, topic] (int bytes)))"

definition ObserveAsyncEvent :: "'w runtime \<Rightarrow> producer_metrics \<Rightarrow> string \<Rightarrow> string \<Rightarrow> ('w, unit) state" where
  "ObserveAsyncEvent rt m topic event =
     (if m = NoopMetrics then State_Monad.return () else Emit rt (Metric ''kafka_producer_async_events_total'' [topic, event]))"

definition ObserveMessages :: "'w runtime \<Rightarrow> producer_metrics \<Rightarrow> string \<Rightarrow> string \<Rightarrow> string \<Rightarrow> int \<Rightarrow> ('w, unit) state" where
  "ObserveMessages rt m producerType topic status count =
     (if m = NoopMetrics \<or> count \<le> 0 then State_Monad.return ()
      else Emit rt (Sample ''kafka_producer_messages_total'' [producerType, topic, status] count))"

section \<open>The clients of sarama and the topic producers\<close>

text \<open>\<open>sarama.SyncProducer\<close>; \<open>TxnAbortable\<close> is the bit \<open>ProducerTxnFlagAbortableError\<close> of \<open>TxnStatus\<close>.\<close>

record ('w, 'a) sync_client =
  SendMessage :: "'a producer_message \<Rightarrow> ('w, unit) go"
  SendMessages :: "'a producer_message list \<Rightarrow> ('w, unit) go"
  BeginTxn :: "('w, unit) go"
  CommitTxn :: "('w, unit) go"
  AbortTxn :: "('w, unit) go"
  TxnAbortable :: "('w, bool) state"
  AddOffsetsToTxn :: "(string \<times> (nat \<times> int) list) list \<Rightarrow> string \<Rightarrow> ('w, unit) go"
  CloseClient :: "('w, unit) go"

record ('w, 'a, 'c) topic_producer =
  tp_topic :: string
  tp_producer :: 'c
  tp_serializer :: "'a \<Rightarrow> ('w, string) go"
  tp_metrics :: producer_metrics
  tp_options :: "('w, 'a) runtime_options"
  tp_runtime :: "'w runtime"

definition log_line :: "('w, 'a, 'c) topic_producer \<Rightarrow> string \<Rightarrow> string \<Rightarrow> ('w, unit) state" where
  "log_line t level message = Emit (tp_runtime t) (LogLine level message)"

definition ObserveOp :: "('w, 'a, 'c) topic_producer \<Rightarrow> string \<Rightarrow> string \<Rightarrow> string \<Rightarrow> string \<Rightarrow> time \<Rightarrow> ('w, unit) state" where
  "ObserveOp t = ObserveOperation (tp_runtime t) (tp_metrics t)"

text \<open>
  What the three constructors share after the configuration is built: the client, the default
  serializer, the logger, the options. \<open>nobody\<close> is \<open>logger.DefaultLogger()\<close>.
\<close>

definition new_producer ::
  "'w runtime \<Rightarrow> ('w, 'c) go \<Rightarrow> producer_config_err \<Rightarrow> 'l option \<Rightarrow> ('a \<Rightarrow> ('w, string) go) \<Rightarrow> string
   \<Rightarrow> producer_config \<Rightarrow> 'l option \<Rightarrow> ('a \<Rightarrow> ('w, string) go) option \<Rightarrow> ('w, 'a) producer_option list
   \<Rightarrow> ('w, ('w, 'a, 'c) topic_producer) go" where
  "new_producer rt connected refused nobody fallback configured cfg log serializer opts =
     call connected (\<lambda>r. case r of
       Inl e \<Rightarrow> fail (wrap2 (ProdCfg refused) e)
     | Inr client \<Rightarrow>
         (if (if log = None then nobody else log) = None then fail (Sentinel (ProdCfg ErrProducerLoggerIsNil))
          else after (Emit rt (LogLine ''info'' configured))
            (ok \<lparr>tp_topic = pc_Topic cfg, tp_producer = client,
                 tp_serializer = (case serializer of None \<Rightarrow> fallback | Some s \<Rightarrow> s),
                 tp_metrics = ResolveMetrics (NewRuntimeOptions opts), tp_options = NewRuntimeOptions opts,
                 tp_runtime = rt\<rparr>)))"

definition report_all :: "producer_config \<Rightarrow> producer_config" where
  "report_all cfg =
     cfg\<lparr>pc_ProduceSettings := (pc_ProduceSettings cfg)\<lparr>ps_SaveReturningStatus := \<lparr>sv_Errors = True, sv_Succeeded = True\<rparr>\<rparr>\<rparr>"

section \<open>sync-producer\<close>

type_synonym ('w, 'a) sync_producer = "('w, 'a, ('w, 'a) sync_client) topic_producer"

definition sync_NewTopicProducer ::
  "tls_library \<Rightarrow> 'w runtime \<Rightarrow> (string list \<Rightarrow> sarama_config \<Rightarrow> ('w, ('w, 'a) sync_client) go) \<Rightarrow> 'l option
   \<Rightarrow> ('a \<Rightarrow> ('w, string) go) \<Rightarrow> producer_config \<Rightarrow> 'l option \<Rightarrow> ('a \<Rightarrow> ('w, string) go) option
   \<Rightarrow> ('w, 'a) producer_option list \<Rightarrow> ('w, ('w, 'a) sync_producer) go" where
  "sync_NewTopicProducer lib rt NewSyncProducer nobody fallback config log serializer opts =
     (let cfg = report_all config in
      case BuildProduceConfig lib cfg of
        Inl e \<Rightarrow> fail (wrap2 (ProdCfg ErrBuildSaramaConfig) e)
      | Inr saramaConfig \<Rightarrow>
          new_producer rt (NewSyncProducer (pc_Brokers cfg) saramaConfig) ErrCreateSyncProducer nobody fallback
            ''Configured Kafka producer'' cfg log serializer opts)"

definition sync_SendTypedMessage :: "('w, 'a) sync_producer \<Rightarrow> 'a typed_message \<Rightarrow> ('w, unit) go" where
  "sync_SendTypedMessage t message = do {
     startedAt \<leftarrow> Now (tp_runtime t);
     call (ToProducerMessage (tp_topic t) message (tp_serializer t)) (\<lambda>r. case r of
       Inl e \<Rightarrow>
         after (ObserveOp t ''sync'' (tp_topic t) ''send_single'' ''error'' startedAt)
           (after (HandleError (tp_options t) ''send_single'' (tp_topic t) (Some message) (Some e)) (fail e))
     | Inr producerMessage \<Rightarrow>
         after (ObservePayload (tp_runtime t) (tp_metrics t) ''sync'' (pm_Topic producerMessage)
                  (MessagePayloadSize (Some producerMessage)))
           (call (SendMessage (tp_producer t) producerMessage) (\<lambda>r. case r of
              Inl e \<Rightarrow>
                after (log_line t ''error'' (producer_send_err_text ErrSendMessage))
                  (after (ObserveOp t ''sync'' (pm_Topic producerMessage) ''send_single'' ''error'' startedAt)
                    (after (HandleError (tp_options t) ''send_single'' (pm_Topic producerMessage) (Some message) (Some e))
                      (fail (wrap2 (ProdSend ErrSendMessage) e))))
            | Inr _ \<Rightarrow>
                after (log_line t ''debug'' ''Kafka message sent'')
                  (after (ObserveOp t ''sync'' (pm_Topic producerMessage) ''send_single'' ''success'' startedAt)
                    (after (ObserveMessages (tp_runtime t) (tp_metrics t) ''sync'' (pm_Topic producerMessage) ''success'' 1)
                      (ok ())))))) }"

text \<open>The messages of a batch; it is left, with nothing sent, at the first that cannot be serialized.\<close>

primrec sync_batch ::
  "('w, 'a) sync_producer \<Rightarrow> time \<Rightarrow> 'a typed_message list \<Rightarrow> ('w, 'a producer_message list) go" where
  "sync_batch t startedAt [] = ok []"
| "sync_batch t startedAt (m # ms) =
     call (ToProducerMessage (tp_topic t) m (tp_serializer t)) (\<lambda>r. case r of
       Inl e \<Rightarrow>
         after (ObserveOp t ''sync'' (tp_topic t) ''send_batch'' ''error'' startedAt)
           (after (HandleError (tp_options t) ''send_batch'' (tp_topic t) (Some m) (Some e)) (fail e))
     | Inr x \<Rightarrow>
         after (ObservePayload (tp_runtime t) (tp_metrics t) ''sync'' (pm_Topic x) (MessagePayloadSize (Some x)))
           (andThen (sync_batch t startedAt ms) (\<lambda>xs. ok (x # xs))))"

text \<open>One call of the error handler for each message of a batch that was not sent.\<close>

primrec handle_each :: "('w, 'a, 'c) topic_producer \<Rightarrow> err \<Rightarrow> ('a producer_message \<times> 'a typed_message option) list \<Rightarrow> ('w, unit) state" where
  "handle_each t e [] = State_Monad.return ()"
| "handle_each t e (p # ps) = do {
     _ \<leftarrow> HandleError (tp_options t) ''send_batch'' (pm_Topic (fst p)) (snd p) (Some e);
     handle_each t e ps }"

definition sync_SendTypedMessages :: "('w, 'a) sync_producer \<Rightarrow> 'a typed_message list \<Rightarrow> ('w, unit) go" where
  "sync_SendTypedMessages t messages = do {
     startedAt \<leftarrow> Now (tp_runtime t);
     andThen (sync_batch t startedAt messages) (\<lambda>producerMessages.
       call (SendMessages (tp_producer t) producerMessages) (\<lambda>r. case r of
         Inl e \<Rightarrow>
           after (log_line t ''error'' (producer_send_err_text ErrSendMessages))
             (after (ObserveOp t ''sync'' (tp_topic t) ''send_batch'' ''error'' startedAt)
               (after (handle_each t e (zip producerMessages (map Some messages)))
                 (fail (wrap2 (ProdSend ErrSendMessages) e))))
       | Inr _ \<Rightarrow>
           after (log_line t ''debug'' ''Kafka messages sent'')
             (after (ObserveOp t ''sync'' (tp_topic t) ''send_batch'' ''success'' startedAt)
               (after (ObserveMessages (tp_runtime t) (tp_metrics t) ''sync'' (tp_topic t) ''success''
                         (int (length producerMessages)))
                 (ok ()))))) }"

definition sync_SendTypedMessagesTx :: "('w, 'a) sync_producer \<Rightarrow> 'a typed_message list \<Rightarrow> ('w, unit) go" where
  "sync_SendTypedMessagesTx t messages = sync_SendTypedMessages t messages"

definition sync_Close :: "('w, 'a) sync_producer \<Rightarrow> ('w, unit) go" where
  "sync_Close t =
     andThen (CloseClient (tp_producer t)) (\<lambda>_. after (log_line t ''info'' ''Kafka producer closed'') (ok ()))"

end
