(* ===== verification/Avro.thy ===== *)
theory Avro
  imports World
begin

text \<open>
  internal/adapters/secondary/kafka/user_created_avro.go: the Avro encoding of a created user with
  the schema id of the registry, on the world; and what its bytes mean, by a reader written from
  the Avro specification (zigzag variable-length integers, length-prefixed strings).
\<close>

unbundle bit_operations_syntax

section \<open>Variable-length integers\<close>

definition zigzag :: "64 word \<Rightarrow> 64 word" where
  "zigzag value = push_bit 1 value XOR signed_drop_bit 63 value"

lemma unat_drop_7: "unat (drop_bit 7 (e :: 64 word)) = unat e div 128"
  unfolding unat_drop_bit_eq by (simp add: drop_bit_eq_div)

lemma drop_7_less: "0x80 \<le> e \<Longrightarrow> unat (drop_bit 7 e) < unat (e :: 64 word)"
  unfolding unat_drop_7 by (simp add: word_le_nat_alt)

function varint :: "64 word \<Rightarrow> string" where
  "varint encoded =
     (if 0x80 \<le> encoded then char_of (unat (encoded OR 0x80)) # varint (drop_bit 7 encoded)
      else [char_of (unat encoded)])"
  by auto
termination by (relation "measure unat") (simp_all add: drop_7_less)

declare varint.simps [simp del]

definition writeAvroLong :: "string \<Rightarrow> 64 word \<Rightarrow> string" where
  "writeAvroLong buf value = buf @ varint (zigzag value)"

definition writeAvroString :: "string \<Rightarrow> string \<Rightarrow> string" where
  "writeAvroString buf value = writeAvroLong buf (word_of_nat (length value)) @ value"

text \<open>The reader of the specification.\<close>

definition unzigzag :: "64 word \<Rightarrow> 64 word" where
  "unzigzag w = drop_bit 1 w XOR (if bit w 0 then - 1 else 0)"

fun read_varint :: "string \<Rightarrow> (nat \<times> string) option" where
  "read_varint [] = None"
| "read_varint (c # cs) =
     (if of_char c < (128 :: nat) then Some (of_char c, cs)
      else case read_varint cs of None \<Rightarrow> None | Some (n, rest) \<Rightarrow> Some (of_char c - 128 + 128 * n, rest))"

definition read_long :: "string \<Rightarrow> (64 word \<times> string) option" where
  "read_long s = (case read_varint s of None \<Rightarrow> None | Some (n, rest) \<Rightarrow> Some (unzigzag (word_of_nat n), rest))"

definition read_string :: "string \<Rightarrow> (string \<times> string) option" where
  "read_string s =
     (case read_long s of None \<Rightarrow> None
      | Some (n, rest) \<Rightarrow> (if unat n \<le> length rest then Some (take (unat n) rest, drop (unat n) rest) else None))"

lemma bit_zigzag_0: "bit (zigzag v) 0 = bit v 63"
  unfolding zigzag_def bit_xor_iff bit_push_bit_iff bit_signed_drop_bit_iff by simp

lemma bit_zigzag_Suc: "n < 64 \<Longrightarrow> bit (zigzag v) (Suc n) \<longleftrightarrow> n \<noteq> 63 \<and> bit v n \<noteq> bit v 63"
  unfolding zigzag_def bit_xor_iff bit_push_bit_iff bit_signed_drop_bit_iff
  by (auto simp: le_Suc_eq dest: bit_imp_le_length)

lemma unzigzag_zigzag [simp]: "unzigzag (zigzag v) = v"
proof (rule bit_word_eqI)
  fix n
  assume n: "n < LENGTH(64)"
  then show "bit (unzigzag (zigzag v)) n = bit v n"
    using bit_zigzag_Suc [of n v] unfolding unzigzag_def bit_zigzag_0 bit_xor_iff bit_drop_bit_eq
    by auto
qed

lemma bit_128: "bit (0x80 :: 64 word) n \<longleftrightarrow> n = 7"
proof -
  have "(0x80 :: 64 word) = 2 ^ 7" by simp
  then show ?thesis by (auto simp only: bit_exp_iff) simp
qed

lemma or_128: "unat (e OR 0x80 :: 64 word) mod 256 = 128 + unat e mod 128"
proof -
  have "take_bit 8 (unat (e OR 0x80)) = 2 ^ 7 OR take_bit 7 (unat e)"
  proof (rule bit_eqI)
    fix n
    show "bit (take_bit 8 (unat (e OR 0x80))) n = bit (2 ^ 7 OR take_bit 7 (unat e)) n"
      unfolding bit_take_bit_iff bit_or_iff bit_unsigned_iff bit_128 bit_exp_iff
      by auto
  qed
  also have "\<dots> = 2 ^ 7 + take_bit 7 (unat e)"
    by (rule disjunctive_add [symmetric]) (unfold bit_exp_iff bit_take_bit_iff, auto)
  finally show ?thesis by (simp add: take_bit_eq_mod)
qed

lemma read_varint_varint: "read_varint (varint e @ rest) = Some (unat e, rest)"
proof (induction e rule: varint.induct)
  case (1 e)
  show ?case
  proof (cases "0x80 \<le> e")
    case True
    have "(of_char (char_of (unat (e OR 0x80)) :: char) :: nat) = 128 + unat e mod 128"
      by (simp add: or_128)
    with 1 [OF True] True show ?thesis
      by (subst varint.simps) (simp add: unat_drop_7)
  next
    case False
    then have "unat e < 128" by (simp add: word_le_nat_alt)
    with False show ?thesis by (subst varint.simps) simp
  qed
qed

lemma length_varint: "unat e < 128 ^ Suc n \<Longrightarrow> length (varint e) \<le> Suc n"
proof (induction n arbitrary: e)
  case 0
  then show ?case by (subst varint.simps) (simp add: word_le_nat_alt)
next
  case (Suc n)
  then have "unat (drop_bit 7 e) < 128 ^ Suc n"
    unfolding unat_drop_7 by (simp add: less_mult_imp_div_less mult.commute)
  with Suc.IH show ?case by (subst varint.simps) simp
qed

lemma varint_not_Nil: "varint e \<noteq> []"
  by (subst varint.simps) simp

lemma read_long_write: "read_long (writeAvroLong [] v @ rest) = Some (v, rest)"
  by (simp add: read_long_def writeAvroLong_def read_varint_varint)

lemma read_string_write:
  assumes "length s < 2 ^ 63"
  shows "read_string (writeAvroString [] s @ rest) = Some (s, rest)"
proof -
  have "unat (word_of_nat (length s) :: 64 word) = length s"
    using assms by (simp add: unat_of_nat)
  then show ?thesis
    using read_long_write [of "word_of_nat (length s)" "s @ rest"]
    by (simp add: read_string_def writeAvroString_def)
qed

lemma write_append:
  "writeAvroLong buf v = buf @ writeAvroLong [] v" "writeAvroString buf s = buf @ writeAvroString [] s"
  by (simp_all add: writeAvroLong_def writeAvroString_def)

section \<open>The encoder\<close>

text \<open>
  What the encoder takes from libraries: \<open>url.PathEscape\<close>, whether a URL makes an HTTP
  request, and \<open>json.Unmarshal\<close> of the registry's answer and of the event.
\<close>

record avro_library =
  PathEscape :: "string \<Rightarrow> string"
  NewRequest :: "string \<Rightarrow> err option"
  UnmarshalID :: "string \<Rightarrow> err + int"
  UnmarshalUserCreated :: "string \<Rightarrow> err + user_created_event"

record user_created_encoder =
  en_registryURL :: string
  en_subject :: string

definition http_post :: "(world, http_answer) state" where
  "http_post = do {
     a \<leftarrow> reads (\<lambda>w. registry w (registry_calls w));
     _ \<leftarrow> modify (registry_calls_update Suc);
     State_Monad.return a }"

definition ensureSchemaID :: "avro_library \<Rightarrow> user_created_encoder \<Rightarrow> (world, int) go" where
  "ensureSchemaID lib e = do {
     known \<leftarrow> reads schema_id;
     (if known \<noteq> 0 then ok known
      else case NewRequest lib (en_registryURL e @ ''/subjects/'' @ PathEscape lib (en_subject e) @ ''/versions'') of
        Some x \<Rightarrow> fail (wrap ''build schema registry http request'' x)
      | None \<Rightarrow> do {
          a \<leftarrow> http_post;
          (case a of
             NoAnswer m \<Rightarrow> fail (wrap ''register user created schema'' (NewErr m))
           | BrokenBody m \<Rightarrow> fail (wrap ''read schema registry response'' (NewErr m))
           | Answer status body \<Rightarrow>
               (if status < 200 \<or> 300 \<le> status
                then fail (NewErr (''register user created schema: status='' @ int_text status @ '' body='' @ body))
                else case UnmarshalID lib body of
                  Inl x \<Rightarrow> fail (wrap ''decode schema registry response'' x)
                | Inr i \<Rightarrow>
                    (if i \<le> 0 then fail (NewErr (''schema registry returned invalid schema id: '' @ int_text i))
                     else after (modify (schema_id_update (\<lambda>_. i))) (ok i)))) }) }"

text \<open>The four bytes of \<open>binary.Write\<close> in big-endian order.\<close>

definition big_endian :: "32 word \<Rightarrow> string" where
  "big_endian x = map (\<lambda>k. char_of (unat (drop_bit k x))) [24, 16, 8, 0]"

definition encode_user_created :: "int \<Rightarrow> user_created_event \<Rightarrow> string" where
  "encode_user_created schemaID event =
     writeAvroLong
       (writeAvroString
         (writeAvroString (char_of (0 :: nat) # big_endian (word_of_int schemaID)) (uc_UserID event))
         (uc_Provider event))
       (word_of_int (uc_OccurredAt event div 1000000))"

definition Encode :: "avro_library \<Rightarrow> user_created_encoder \<Rightarrow> user_created_event \<Rightarrow> (world, string) go" where
  "Encode lib e event = andThen (ensureSchemaID lib e) (\<lambda>schemaID. ok (encode_user_created schemaID event))"

section \<open>What a consumer reads\<close>

definition read_big_endian :: "string \<Rightarrow> nat" where
  "read_big_endian s = foldl (\<lambda>n c. 256 * n + of_char c) 0 s"

definition read_user_created :: "string \<Rightarrow> (nat \<times> string \<times> string \<times> 64 word) option" where
  "read_user_created s =
     (if take 1 s \<noteq> [char_of (0 :: nat)] \<or> length s < 5 then None
      else do {
        (user, s1) \<leftarrow> read_string (drop 5 s);
        (provider, s2) \<leftarrow> read_string s1;
        (occurred, s3) \<leftarrow> read_long s2;
        (if s3 = [] then Some (read_big_endian (take 4 (drop 1 s)), user, provider, occurred) else None) })"

lemma four_digits:
  assumes "n < (2 :: nat) ^ 32"
  shows "256 * (256 * (256 * (n div 2 ^ 24 mod 256) + n div 2 ^ 16 mod 256) + n div 2 ^ 8 mod 256) + n mod 256 = n"
proof -
  have "n div 2 ^ 24 < 256" using assms by (simp add: less_mult_imp_div_less)
  moreover have "256 * (n div 2 ^ 24) + n div 2 ^ 16 mod 256 = n div 2 ^ 16"
    using mult_div_mod_eq [of 256 "n div 2 ^ 16"] by (simp add: div_mult2_eq [symmetric])
  moreover have "256 * (n div 2 ^ 16) + n div 2 ^ 8 mod 256 = n div 2 ^ 8"
    using mult_div_mod_eq [of 256 "n div 2 ^ 8"] by (simp add: div_mult2_eq [symmetric])
  ultimately show ?thesis using mult_div_mod_eq [of 256 n] by simp
qed

lemma read_big_endian_write: "read_big_endian (big_endian x) = unat x"
proof -
  have d: "of_char (char_of (unat (drop_bit k x)) :: char) = unat x div 2 ^ k mod 256" for k
    unfolding unat_drop_bit_eq by (simp add: drop_bit_eq_div)
  have "unat x < 2 ^ LENGTH(32)" by (rule unsigned_less)
  then show ?thesis
    unfolding read_big_endian_def big_endian_def list.map foldl.simps d
    using four_digits [of "unat x"] by simp
qed

lemma length_big_endian [simp]: "length (big_endian x) = 4"
  by (simp add: big_endian_def)

lemma read_encoded:
  assumes "length (uc_UserID event) < 2 ^ 63" and "length (uc_Provider event) < 2 ^ 63"
  shows "read_user_created (encode_user_created i event) =
    Some (unat (word_of_int i :: 32 word), uc_UserID event, uc_Provider event, word_of_int (uc_OccurredAt event div 1000000))"
proof -
  let ?long = "writeAvroLong [] (word_of_int (uc_OccurredAt event div 1000000))"
  let ?body = "writeAvroString [] (uc_UserID event) @ writeAvroString [] (uc_Provider event) @ ?long"
  have enc: "encode_user_created i event = char_of (0 :: nat) # big_endian (word_of_int i) @ ?body"
    unfolding encode_user_created_def by (simp add: write_append [of "_ # _"] write_append [of "_ @ _"])
  have four: "take 4 (big_endian (word_of_int i) @ ?body) = big_endian (word_of_int i)"
    and rest: "drop 4 (big_endian (word_of_int i) @ ?body) = ?body" by simp_all
  have five: "length (encode_user_created i event) \<ge> 5" unfolding enc by simp
  have long: "read_long ?long = Some (word_of_int (uc_OccurredAt event div 1000000), [])"
    using read_long_write [of _ "[]"] by simp
  have drop5: "drop 5 (encode_user_created i event) = ?body" unfolding enc using rest by (simp add: numeral_eq_Suc)
  show ?thesis
    unfolding read_user_created_def drop5
    using five by (simp add: read_string_write [OF assms(1)] read_string_write [OF assms(2)] long enc four read_big_endian_write)
qed

text \<open>
  C18: the bytes published for a created user are read back by the Avro specification: the magic
  byte, the schema id, the user id, the provider and the time in milliseconds, and nothing else -
  whatever the strings contain, empty ones and negative times included.
\<close>
theorem encoded_user_created_is_read:
  assumes "0 \<le> i" and "i < 2 ^ 32" and "length (uc_UserID event) < 2 ^ 63" and "length (uc_Provider event) < 2 ^ 63"
  shows "read_user_created (encode_user_created i event) =
    Some (nat i, uc_UserID event, uc_Provider event, word_of_int (uc_OccurredAt event div 1000000))"
proof -
  have "unat (word_of_int i :: 32 word) = nat i"
    using assms(1,2) by (simp add: unat_eq_nat_uint uint_word_of_int)
  with read_encoded [OF assms(3,4), of i] show ?thesis by simp
qed

definition example_created :: user_created_event where
  "example_created = \<lparr>uc_UserID = ''u1'', uc_Provider = ''password'', uc_OccurredAt = - 1\<rparr>"

lemma encoded_user_created_is_read_witness:
  "read_user_created (encode_user_created 7 example_created) = Some (7, ''u1'', ''password'', - 1)"
  using encoded_user_created_is_read [of 7 example_created] by (simp add: example_created_def)

text \<open>
  An Avro long takes one to ten bytes, whatever its value.
\<close>
theorem avro_long_length: "1 \<le> length (writeAvroLong [] v) \<and> length (writeAvroLong [] v) \<le> 10"
proof -
  have "unat (zigzag v) < 2 ^ LENGTH(64)" by (rule unsigned_less)
  then have "unat (zigzag v) < 128 ^ Suc 9" by simp
  from length_varint [OF this] varint_not_Nil [of "zigzag v"] show ?thesis
    by (simp add: writeAvroLong_def Suc_le_eq)
qed

text \<open>
  The schema is registered once: what an encoder that knows its schema id answers depends on
  nothing else, and it makes no call.
\<close>

lemma ensureSchemaID_known:
  "schema_id w \<noteq> 0 \<Longrightarrow> run_state (ensureSchemaID lib e) w = (Ok (schema_id w), w)"
  by (simp add: ensureSchemaID_def run_rules)

text \<open>A step that touches neither the database nor the metrics and spans.\<close>

definition quiet :: "world \<Rightarrow> world \<Rightarrow> bool" where
  "quiet w v \<longleftrightarrow> tables v = tables w \<and> session v = session w \<and> aborted v = aborted w \<and> journal v = journal w"

lemma quiet_simps [simp]: "quiet w w" "quiet w (schema_id_update f v) = quiet w v"
  "quiet w (registry_calls_update g v) = quiet w v" "quiet w (sends_update g v) = quiet w v"
  by (simp_all add: quiet_def session_def journal_def)

lemma ensureSchemaID_post:
  "wp (ensureSchemaID lib e) (\<lambda>r v. quiet w v \<and> registry_calls v \<le> Suc (registry_calls w) \<and>
     (case r of
        Ok i \<Rightarrow> schema_id v = i \<and> i \<noteq> 0 \<and> (schema_id w \<noteq> 0 \<or> 0 < i)
      | Err x \<Rightarrow> schema_id v = 0 \<and> schema_id w = 0
      | Panic p \<Rightarrow> False)) w"
proof (cases "schema_id w = 0")
  case False
  then show ?thesis by (simp add: ensureSchemaID_def wp_rules)
next
  case known: True
  show ?thesis
  proof (cases "NewRequest lib (en_registryURL e @ ''/subjects/'' @ PathEscape lib (en_subject e) @ ''/versions'')")
    case (Some x)
    with known show ?thesis unfolding ensureSchemaID_def Some by (simp add: wp_rules)
  next
    case None
    show ?thesis
      unfolding ensureSchemaID_def None
      by (cases "registry w (registry_calls w)")
        (use known in \<open>auto simp: http_post_def wp_rules split: sum.split\<close>)
  qed
qed

lemma Encode_post:
  "wp (Encode lib e ev) (\<lambda>r v. quiet w v \<and> registry_calls v \<le> Suc (registry_calls w) \<and>
     (case r of
        Ok s \<Rightarrow> s = encode_user_created (schema_id v) ev \<and> schema_id v \<noteq> 0
      | Err x \<Rightarrow> schema_id v = 0 | Panic p \<Rightarrow> False)) w"
  unfolding Encode_def by (rule wp_andThenI [OF ensureSchemaID_post]) (auto simp: wp_rules)

end
