(* ===== verification/Publisher.thy ===== *)
theory Publisher
  imports Producer Avro Repositories
begin

text \<open>
  internal/adapters/secondary/kafka/outbox_publisher.go: the publisher of outbox messages, a
  synchronous producer with the serializer of user_created_avro.go, on the broker of the world.
\<close>

section \<open>The serializer\<close>

definition newOutboxSerializer :: "avro_library \<Rightarrow> producer_config \<Rightarrow> string \<Rightarrow> (world, string) go" where
  "newOutboxSerializer lib cfg value =
     (if TrimSpace (sr_URL (pc_SchemaRegistry cfg)) = [] then ok value
      else (let subject = TrimSpace (sr_Subject (pc_SchemaRegistry cfg));
                encoder = \<lparr>en_registryURL = TrimRight CHR ''/'' (TrimSpace (sr_URL (pc_SchemaRegistry cfg))),
                           en_subject = (if subject = [] then pc_Topic cfg @ ''-value'' else subject)\<rparr> in
            case UnmarshalUserCreated lib value of
              Inl e \<Rightarrow> fail (wrap ''decode user created event'' e)
            | Inr event \<Rightarrow> Encode lib encoder event))"

section \<open>The broker\<close>

text \<open>
  What becomes of a send: the broker refuses the message, or it writes it, and then its answer may
  still be lost. A producer without a transactional id refuses transactions.
\<close>

definition no_transactions :: "(world, unit) go" where
  "no_transactions = fail (NewErr ''kafka: producer is not transactional'')"

definition broker_send :: "'a producer_message \<Rightarrow> (world, unit) go" where
  "broker_send message = do {
     f \<leftarrow> reads (\<lambda>w. broker w (sends w));
     _ \<leftarrow> modify (sends_update Suc);
     (case f of
        Some (Before e) \<Rightarrow> fail (driver_error e)
      | _ \<Rightarrow>
        after (emit_w (Delivered (pm_Topic message) (case pm_Key message of None \<Rightarrow> [] | Some k \<Rightarrow> k)
                 (case pm_Value message of None \<Rightarrow> [] | Some p \<Rightarrow> p)))
          (case f of Some g \<Rightarrow> fail (fault_err g) | None \<Rightarrow> ok ())) }"

definition broker_client :: "(world, 'a) sync_client" where
  "broker_client =
     \<lparr>SendMessage = broker_send, SendMessages = (\<lambda>ms. foreach ms broker_send),
      BeginTxn = no_transactions, CommitTxn = no_transactions, AbortTxn = no_transactions,
      TxnAbortable = State_Monad.return False, AddOffsetsToTxn = (\<lambda>_ _. no_transactions), CloseClient = ok ()\<rparr>"

section \<open>The publisher\<close>

type_synonym publisher = "(world, string) sync_producer"

definition NewOutboxPublisher ::
  "tls_library \<Rightarrow> avro_library \<Rightarrow> world runtime \<Rightarrow> (string list \<Rightarrow> sarama_config \<Rightarrow> (world, (world, string) sync_client) go)
   \<Rightarrow> 'l option \<Rightarrow> (string \<Rightarrow> (world, string) go) \<Rightarrow> producer_config \<Rightarrow> 'l option \<Rightarrow> (world, publisher) go" where
  "NewOutboxPublisher tls lib rt NewSyncProducer nobody fallback cfg log =
     sync_NewTopicProducer tls rt NewSyncProducer nobody fallback cfg log (Some (newOutboxSerializer lib cfg)) []"

definition Publish_outbox :: "publisher \<Rightarrow> ctx \<Rightarrow> outbox_message \<Rightarrow> (world, unit) go" where
  "Publish_outbox p c message =
     sync_SendTypedMessage p
       \<lparr>tm_Topic = om_Topic message, tm_Key = om_MessageKey message, tm_Headers = [], tm_Value = om_Payload message\<rparr>"

definition Close_outbox :: "publisher \<Rightarrow> (world, unit) go" where
  "Close_outbox p = sync_Close p"

text \<open>The producer the constructor makes on the broker.\<close>

definition outbox_producer :: "avro_library \<Rightarrow> (user_created_event \<Rightarrow> string outcome) \<Rightarrow> producer_config \<Rightarrow> publisher" where
  "outbox_producer lib marshal cfg =
     \<lparr>tp_topic = pc_Topic cfg, tp_producer = broker_client, tp_serializer = newOutboxSerializer lib cfg,
      tp_metrics = MetricsIn ''default'', tp_options = NewRuntimeOptions [], tp_runtime = world_runtime marshal\<rparr>"

lemma NewOutboxPublisher_makes:
  assumes "run_state (NewOutboxPublisher tls lib (world_runtime marshal) (\<lambda>_ _. ok broker_client) nobody fallback cfg log) w = (Ok p, v)"
  shows "p = outbox_producer lib marshal cfg"
  using assms
  by (auto simp: NewOutboxPublisher_def sync_NewTopicProducer_def new_producer_def report_all_def Let_def run_rules
      outbox_producer_def ResolveMetrics_def NewRuntimeOptions_def split: sum.splits if_splits)

section \<open>The contract\<close>

text \<open>
  A stored payload and the bytes the broker gets for it: the payload itself, or with a schema registry
  the Avro encoding of the event it holds.
\<close>

definition on_the_wire :: "avro_library \<Rightarrow> producer_config \<Rightarrow> string \<Rightarrow> string \<Rightarrow> bool" where
  "on_the_wire lib cfg payload p \<longleftrightarrow>
     (if TrimSpace (sr_URL (pc_SchemaRegistry cfg)) = [] then p = payload
      else \<exists>event i. UnmarshalUserCreated lib payload = Inr event \<and> i \<noteq> 0 \<and> p = encode_user_created i event)"

text \<open>A step that only adds events of services to the journal.\<close>

definition said :: "world \<Rightarrow> event list \<Rightarrow> world \<Rightarrow> bool" where
  "said w es v \<longleftrightarrow>
     tables v = tables w \<and> session v = session w \<and> aborted v = aborted w
     \<and> tx_events v = tx_events w \<and> svc_events v = svc_events w @ es"

lemma said_quiet: "quiet w v \<Longrightarrow> said w [] v"
  by (auto simp: said_def quiet_def dest: journal_same)

lemma said_trans: "said w es v \<Longrightarrow> said v fs u \<Longrightarrow> said w (es @ fs) u"
  by (simp add: said_def)

lemma said_emit: "\<not> tx_event e \<Longrightarrow> said w (if is_log e then [] else [e]) (events_update (\<lambda>es. es @ [e]) w)"
  by (simp add: said_def session_def events_defs)

lemma said_skip [simp]: "said w [] (sends_update f w)" "said w [] (ticks_update f w)" "said w [] w"
  by (simp_all add: said_def session_def events_defs)

text \<open>A step of the producer that the broker does not see.\<close>

definition aside :: "(world, unit) state \<Rightarrow> bool" where
  "aside m \<longleftrightarrow> (\<forall>w. wp m (\<lambda>_ v. \<exists>es. said w es v \<and> deliveries es = []) w)"

lemma aside_skip: "aside (State_Monad.return ())"
  by (auto simp: aside_def wp_rules deliveries_def intro!: exI [of _ "[]"])

lemma aside_emit: "\<not> tx_event e \<Longrightarrow> \<not> is_delivery e \<Longrightarrow> aside (emit_w e)"
  unfolding aside_def wp_emit
  by (intro allI exI [of _ "if is_log e then [] else [e]"]) (simp add: said_emit deliveries_def)

lemma aside_bind: "aside m \<Longrightarrow> aside k \<Longrightarrow> aside (do { _ \<leftarrow> m; k })"
  unfolding aside_def wp_bind
  apply (rule allI, drule spec, erule wp_conseq, clarify, drule spec, erule wp_conseq, clarify)
  apply (rule exI, rule conjI, erule (1) said_trans)
  apply (simp add: deliveries_def)
  done

lemma wp_aside: "aside m \<Longrightarrow> (\<And>v es. said w es v \<Longrightarrow> deliveries es = [] \<Longrightarrow> wp k Q v) \<Longrightarrow> wp (after m k) Q w"
  unfolding aside_def wp_after by (drule spec, erule wp_conseq) blast

lemma aside_now: "(\<And>t. aside (k t)) \<Longrightarrow> aside (do { t \<leftarrow> now_w; k t })"
  unfolding aside_def wp_bind wp_now
  by (intro allI, rule wp_conseq, drule_tac x = "clock w (ticks w)" in meta_spec, erule spec)
    (auto simp: said_def session_def events_defs)

lemma world_runtime_sel [simp]:
  "Now (world_runtime marshal) = now_w" "Emit (world_runtime marshal) = emit_w"
  by (simp_all add: world_runtime_def)

lemma outbox_producer_sel [simp]:
  "tp_topic (outbox_producer lib marshal cfg) = pc_Topic cfg"
  "tp_producer (outbox_producer lib marshal cfg) = broker_client"
  "tp_serializer (outbox_producer lib marshal cfg) = newOutboxSerializer lib cfg"
  "tp_runtime (outbox_producer lib marshal cfg) = world_runtime marshal"
  "SendMessage broker_client = broker_send"
  by (simp_all add: outbox_producer_def broker_client_def)

lemma aside_parts:
  "aside (ObserveOp (outbox_producer lib marshal cfg) k t o' st startedAt)"
  "aside (log_line (outbox_producer lib marshal cfg) level m)"
  "aside (HandleError (tp_options (outbox_producer lib marshal cfg)) o' t mo eo)"
  "aside (ObservePayload (world_runtime marshal) (tp_metrics (outbox_producer lib marshal cfg)) k t n)"
  "aside (ObserveMessages (world_runtime marshal) (tp_metrics (outbox_producer lib marshal cfg)) k t st i)"
  by (auto simp: ObserveOp_def ObserveOperation_def log_line_def HandleError_def NewRuntimeOptions_def outbox_producer_def
      ObservePayload_def ObserveMessages_def intro!: aside_bind aside_now aside_emit aside_skip)

lemma serializer_post:
  "wp (newOutboxSerializer lib cfg x) (\<lambda>r v. quiet w v \<and>
     (case r of Ok p \<Rightarrow> on_the_wire lib cfg x p | Err e \<Rightarrow> True | Panic p \<Rightarrow> False)) w"
  unfolding newOutboxSerializer_def Let_def
  by (auto simp: wp_ok wp_fail on_the_wire_def split: sum.split intro!: wp_conseq [OF Encode_post] split: outcome.splits)

lemma broker_send_post:
  "wp (broker_send x) (\<lambda>r v. (\<forall>p. r \<noteq> Panic p) \<and> (\<exists>es. said w es v \<and>
      (es = [Delivered (pm_Topic x) (case pm_Key x of None \<Rightarrow> [] | Some k \<Rightarrow> k) (case pm_Value x of None \<Rightarrow> [] | Some p \<Rightarrow> p)]
       \<or> es = [] \<and> (\<forall>y. r \<noteq> Ok y)))) w"
proof -
  have d: "said w [Delivered t k p] (events_update (\<lambda>es. es @ [Delivered t k p]) (sends_update Suc w))" for t k p
    using said_emit [of "Delivered t k p" "sends_update Suc w"] by (simp add: said_def session_def events_defs)
  have sent: "\<exists>es. said w es (events_update (\<lambda>es. es @ [Delivered t k p]) (sends_update Suc w))
      \<and> (es = [Delivered t k p] \<or> es = [] \<and> b)" for t k p b
    using d by blast
  have unsent: "\<exists>es. said w es (sends_update Suc w) \<and> (es = [Delivered t k p] \<or> es = [])" for t k p
    using said_skip(1) by blast
  show ?thesis
    using sent [where b = True] sent [where b = False]
    by (cases "broker w (sends w)"; (cases "the (broker w (sends w))")?)
      (simp_all add: broker_send_def wp_rules unsent)
qed

lemma message_post:
  "wp (ToProducerMessage d msg (newOutboxSerializer lib cfg)) (\<lambda>r v. quiet w v \<and>
     (case r of
        Ok x \<Rightarrow> pm_Topic x = resolveTopic d (tm_Topic msg) \<and> pm_Key x = (if tm_Key msg \<noteq> [] then Some (tm_Key msg) else None)
          \<and> (\<exists>p. pm_Value x = Some p \<and> on_the_wire lib cfg (tm_Value msg) p)
      | Err e \<Rightarrow> True | Panic p \<Rightarrow> False)) w"
  unfolding ToProducerMessage_def by (rule wp_callI [OF serializer_post]) (auto simp: wp_ok wp_fail Let_def)

lemma said_more:
  "said w es v \<Longrightarrow> said v fs u \<Longrightarrow> deliveries fs = [] \<Longrightarrow> \<exists>gs. said w gs u \<and> deliveries gs = deliveries es"
  by (rule exI [of _ "es @ fs"]) (auto simp: deliveries_def intro: said_trans)

text \<open>Publishing: the broker has written the message when nil is returned.\<close>

lemma Publish_said:
  "wp (Publish_outbox (outbox_producer lib marshal cfg) c m)
     (\<lambda>r v. \<exists>es. said w es v \<and> published (on_the_wire lib cfg) m r (deliveries es)) w"
  unfolding Publish_outbox_def sync_SendTypedMessage_def wp_bind outbox_producer_sel world_runtime_sel wp_now
proof (rule wp_callI [OF message_post], goal_cases)
  case (1 x v)
  have x: "said w [] v" using 1 by (auto simp: said_def quiet_def session_def events_defs)
  have key: "(case pm_Key x of None \<Rightarrow> [] | Some k \<Rightarrow> k) = om_MessageKey m" and topic: "om_Topic m \<noteq> [] \<longrightarrow> pm_Topic x = om_Topic m"
    using 1 by (auto simp: resolveTopic_def)
  obtain p where p: "pm_Value x = Some p" "on_the_wire lib cfg (om_Payload m) p" using 1 by auto
  show ?case
    unfolding sum.case
  proof (rule wp_aside [OF aside_parts(4)], rule wp_callI [OF broker_send_post], goal_cases)
    case (1 v1 es1 y v2)
    then have d: "said w (es1 @ [Delivered (pm_Topic x) (om_MessageKey m) p]) v2"
      using x unfolding key p by (auto dest: said_trans)
    show ?case
      unfolding sum.case
    proof (rule wp_aside [OF aside_parts(2)], rule wp_aside [OF aside_parts(1)], rule wp_aside [OF aside_parts(5)])
      fix v3 es3 v4 es4 v5 es5
      assume "said v2 es3 v3" "deliveries es3 = []" "said v3 es4 v4" "deliveries es4 = []"
      from this(1-4) said_more [OF d] obtain gs where "said w gs v4"
          "deliveries gs = deliveries (es1 @ [Delivered (pm_Topic x) (om_MessageKey m) p])"
        by (metis said_more)
      moreover assume "said v4 es5 v5" "deliveries es5 = []"
      ultimately obtain gs where "said w gs v5"
          "deliveries gs = deliveries (es1 @ [Delivered (pm_Topic x) (om_MessageKey m) p])"
        by (metis said_more)
      with 1 topic p(2) show "wp (ok ()) (\<lambda>r v. \<exists>es. said w es v \<and> published (on_the_wire lib cfg) m r (deliveries es)) v5"
        unfolding wp_ok by (intro exI [of _ gs] conjI) (auto simp: published_def delivers_def deliveries_def)
    qed
  next
    case (2 v1 es1 e v2)
    then obtain es2 where es2: "said v1 es2 v2" "es2 = [] \<or> es2 = [Delivered (pm_Topic x) (om_MessageKey m) p]"
      unfolding key p by auto
    have d: "said w (es1 @ es2) v2" using said_trans [OF said_trans [OF x 2(1)] es2(1)] by simp
    note d = d es2(2)
    show ?case
      unfolding sum.case
    proof (rule wp_aside [OF aside_parts(2)], rule wp_aside [OF aside_parts(1)], rule wp_aside [OF aside_parts(3)])
      fix v3 es3 v4 es4 v5 es5
      assume "said v2 es3 v3" "deliveries es3 = []" "said v3 es4 v4" "deliveries es4 = []"
      from this(1-4) said_more [OF d(1)] obtain gs where "said w gs v4" "deliveries gs = deliveries (es1 @ es2)"
        by (metis said_more)
      moreover assume "said v4 es5 v5" "deliveries es5 = []"
      ultimately obtain gs where "said w gs v5" "deliveries gs = deliveries (es1 @ es2)"
        by (metis said_more)
      with 2 d(2) topic p(2) show "wp (fail (wrap2 (ProdSend ErrSendMessage) e))
          (\<lambda>r v. \<exists>es. said w es v \<and> published (on_the_wire lib cfg) m r (deliveries es)) v5"
        unfolding wp_fail by (intro exI [of _ gs] conjI) (auto simp: published_def delivers_def deliveries_def)
    qed
  qed auto
next
  case (2 e v)
  then have x: "said w [] v" by (auto simp: said_def quiet_def session_def events_defs)
  show ?case
    unfolding sum.case
  proof (rule wp_aside [OF aside_parts(1)], rule wp_aside [OF aside_parts(3)])
    fix v1 es1 v2 es2
    assume "said v es1 v1" "deliveries es1 = []" "said v1 es2 v2" "deliveries es2 = []"
    then obtain gs where "said w gs v2" "deliveries gs = []"
      by (metis said_more [OF x] said_more deliveries_def filter.simps(1))
    then show "wp (fail e) (\<lambda>r v. \<exists>es. said w es v \<and> published (on_the_wire lib cfg) m r (deliveries es)) v2"
      unfolding wp_fail by (intro exI [of _ gs] conjI) (auto simp: published_def)
  qed
qed auto

interpretation publisher: event_publisher db_obs "Publish_outbox (outbox_producer lib marshal cfg)" "on_the_wire lib cfg" for lib marshal cfg
proof unfold_locales
  fix g w c m
  assume i: "Inv db_obs g w"
  show "wp (Publish_outbox (outbox_producer lib marshal cfg) c m) (\<lambda>r v. Inv db_obs g v \<and> View db_obs v = View db_obs w
      \<and> (Calm db_obs w \<longrightarrow> Calm db_obs v) \<and> (\<exists>es. Journal db_obs v = Journal db_obs w @ es \<and> published (on_the_wire lib cfg) m r (deliveries es))) w"
    by (rule wp_conseq [OF Publish_said]) (use i in \<open>auto simp: said_def calm_def session_def\<close>)
qed

end
