(* ===== verification/OutboxWorker.thy ===== *)
theory OutboxWorker
  imports OutboxQueue Publisher
begin

text \<open>
  internal/application/outbox/worker.go: the worker that publishes the outbox. It is written over
  its dependencies; its law is proved over the contracts of the queue, the transactions and the
  publisher, and holds on the PostgreSQL world with the Kafka publisher by interpretation.
\<close>

section \<open>The worker\<close>

text \<open>The transaction manager stands twice, once for each type of what its callback captures.\<close>

record 'w outbox_worker =
  ow_TxDo :: "ctx \<Rightarrow> (ctx \<Rightarrow> ('w, unit) go) \<Rightarrow> ('w, unit) go"
  ow_TxDoMessages :: "ctx \<Rightarrow> (ctx \<Rightarrow> ('w, outbox_message list) go) \<Rightarrow> ('w, outbox_message list) go"
  ow_PickPending :: "ctx \<Rightarrow> nat \<Rightarrow> ('w, outbox_message list) go"
  ow_MarkProcessing :: "ctx \<Rightarrow> string \<Rightarrow> ('w, unit) go"
  ow_MarkSent :: "ctx \<Rightarrow> string \<Rightarrow> ('w, unit) go"
  ow_MarkFailed :: "ctx \<Rightarrow> string \<Rightarrow> string \<Rightarrow> time \<Rightarrow> ('w, unit) go"
  ow_Publish :: "ctx \<Rightarrow> outbox_message \<Rightarrow> ('w, unit) go"
  ow_Runtime :: "'w runtime"
  ow_BatchSize :: nat
  ow_Interval :: time

definition seconds :: "int \<Rightarrow> time" where
  "seconds n = n * 1000000000"

definition retryBackoff :: "32 word \<Rightarrow> time" where
  "retryBackoff attempt =
     (if sint attempt \<le> 1 then seconds 5
      else if attempt = 2 then seconds 15
      else if attempt = 3 then seconds 30
      else if sint attempt \<le> 5 then seconds 60
      else seconds 300)"

definition worker_observe :: "'w outbox_worker \<Rightarrow> string \<Rightarrow> time \<Rightarrow> ('w, unit) state" where
  "worker_observe s status startedAt = do {
     _ \<leftarrow> Emit (ow_Runtime s) (Metric ''auth_outbox_iterations_total'' [status]);
     now \<leftarrow> Now (ow_Runtime s);
     Emit (ow_Runtime s) (Sample ''auth_outbox_iteration_duration_seconds'' [status] (now - startedAt)) }"

text \<open>The callback of the first transaction: the picked messages, with what it sets of them in memory.\<close>

definition pick_batch :: "'w outbox_worker \<Rightarrow> ctx \<Rightarrow> ('w, outbox_message list) go" where
  "pick_batch s txCtx =
     andThen (ow_PickPending s txCtx (ow_BatchSize s)) (\<lambda>picked.
       andThen (foreach picked (\<lambda>message.
           call (ow_MarkProcessing s txCtx (uuid_String (om_ID message))) (\<lambda>r. case r of
             Inl e \<Rightarrow> fail (wrap ''mark outbox message as processing'' e) | Inr _ \<Rightarrow> ok ())))
         (\<lambda>_. ok (map (\<lambda>m. m\<lparr>om_Status := OutboxStatusProcessing, om_NextAttemptAt := None\<rparr>) picked)))"

definition worker_span :: "'w outbox_worker \<Rightarrow> event \<Rightarrow> ('w, unit) state" where
  "worker_span s e = Emit (ow_Runtime s) e"

text \<open>The messages of the batch, one after the other; a failure to mark one as sent ends the iteration.\<close>

primrec publish_batch :: "'w outbox_worker \<Rightarrow> ctx \<Rightarrow> time \<Rightarrow> outbox_message list \<Rightarrow> ('w, unit) go" where
  "publish_batch s c startedAt [] = ok ()"
| "publish_batch s c startedAt (message # rest) =
     call (ow_Publish s c message) (\<lambda>r. case r of
       Inl e \<Rightarrow>
         after (worker_span s (SpanError (err_text e))) (do {
           now \<leftarrow> Now (ow_Runtime s);
           call (ow_TxDo s c (\<lambda>txCtx. ow_MarkFailed s txCtx (uuid_String (om_ID message)) (err_text e)
                    (now + retryBackoff (om_AttemptCount message + 1))))
             (\<lambda>_. after (worker_observe s ''publish_error'' startedAt) (publish_batch s c startedAt rest)) })
     | Inr _ \<Rightarrow>
         call (ow_TxDo s c (\<lambda>txCtx. ow_MarkSent s txCtx (uuid_String (om_ID message)))) (\<lambda>r. case r of
           Inl e \<Rightarrow>
             after (worker_span s (SpanError (err_text e)))
               (after (worker_observe s ''mark_sent_error'' startedAt) (fail e))
         | Inr _ \<Rightarrow> publish_batch s c startedAt rest))"

definition RunOnce :: "'w outbox_worker \<Rightarrow> ctx \<Rightarrow> ('w, unit) go" where
  "RunOnce s c = do {
     startedAt \<leftarrow> Now (ow_Runtime s);
     call (ow_TxDoMessages s c (pick_batch s)) (\<lambda>r. case r of
       Inl e \<Rightarrow>
         after (worker_span s (SpanError (err_text e)))
           (after (worker_observe s ''pick_error'' startedAt) (fail e))
     | Inr messages \<Rightarrow>
         (if messages = [] then
            after (worker_span s (SpanOk ''idle'')) (after (worker_observe s ''idle'' startedAt) (ok ()))
          else andThen (publish_batch s c startedAt messages) (\<lambda>_.
            after (worker_span s (SpanOk ''processed''))
              (after (worker_observe s ''success'' startedAt) (ok ()))))) }"

text \<open>
  The loop of the worker, over what its \<open>select\<close> receives: a tick, or the end of the context.
  Without the end of the context it runs on: the ticks are a list of which every prefix is possible.
\<close>

datatype wakeup = Tick | CtxDone

fun Run_worker :: "'w outbox_worker \<Rightarrow> ctx \<Rightarrow> wakeup list \<Rightarrow> ('w, unit) go" where
  "Run_worker s c [] = ok ()"
| "Run_worker s c (CtxDone # ws) = ok ()"
| "Run_worker s c (Tick # ws) =
     call (RunOnce s c) (\<lambda>r. case r of
       Inl e \<Rightarrow> after (worker_span s (LogLine ''error'' ''Outbox worker iteration failed'')) (Run_worker s c ws)
     | Inr _ \<Rightarrow> Run_worker s c ws)"

section \<open>What an iteration means for the stored messages\<close>

text \<open>The messages are marked as processing, in turn.\<close>

primrec taken :: "outbox_message list \<Rightarrow> store \<Rightarrow> store \<Rightarrow> bool" where
  "taken [] st st' = (st' = st)"
| "taken (m # ms) st st' = (\<exists>now. taken ms (mark (om_ID m) (as_processing now) st) st')"

text \<open>
  What becomes of a batch: the messages the broker has written meanwhile, the stored entities
  afterwards, and whether the batch was worked through. \<open>fine\<close> says that no call fails for a
  reason outside the program.
\<close>

inductive drained :: "(string \<Rightarrow> string \<Rightarrow> bool) \<Rightarrow> bool \<Rightarrow> store \<Rightarrow> outbox_message list \<Rightarrow> event list \<Rightarrow> store \<Rightarrow> bool \<Rightarrow> bool" for enc fine where
  finished: "drained enc fine st [] [] st True"
| sent: "delivers enc m d \<Longrightarrow> drained enc fine (mark (om_ID m) (as_sent now) st) ms ds st' k \<Longrightarrow>
    drained enc fine st (m # ms) (d # ds) st' k"
| failed: "published enc m (Err e) ds0 \<Longrightarrow>
    drained enc fine (mark (om_ID m) (as_failed (err_text e) (now + retryBackoff (om_AttemptCount m + 1)) at) st) ms ds st' k \<Longrightarrow>
    drained enc fine st (m # ms) (ds0 @ ds) st' k"
| unmarked: "published enc m (Err e) ds0 \<Longrightarrow> \<not> fine \<or> worn_out (om_ID m) st \<Longrightarrow> drained enc fine st ms ds st' k \<Longrightarrow>
    drained enc fine st (m # ms) (ds0 @ ds) st' k"
| stopped: "delivers enc m d \<Longrightarrow> \<not> fine \<Longrightarrow> st' = st \<or> st' = mark (om_ID m) (as_sent now) st \<Longrightarrow>
    drained enc fine st (m # ms) [d] st' False"

lemma drained_mono: "drained enc True st ms ds st' k \<Longrightarrow> drained enc fine st ms ds st' k"
  by (induction rule: drained.induct) (auto intro: drained.intros)

lemma drained_weaken: "drained enc f st ms ds st' k \<Longrightarrow> (f' \<longrightarrow> f) \<Longrightarrow> drained enc f' st ms ds st' k"
  by (cases f; cases f') (simp_all add: drained_mono)

lemma taken_append: "taken (xs @ ys) st st' \<longleftrightarrow> (\<exists>mid. taken xs st mid \<and> taken ys mid st')"
  by (induction xs arbitrary: st) auto

lemma as_same [simp]:
  "om_ID (as_processing now m) = om_ID m" "om_ID (as_sent now m) = om_ID m" "om_ID (as_failed txt again now m) = om_ID m"
  by (simp_all add: as_defs)

lemma mark_ids: "(\<And>m. om_ID (f m) = om_ID m) \<Longrightarrow> map om_ID (st_outbox (mark i f st)) = map om_ID (st_outbox st)"
  by (simp add: mark_def)

lemma queued_ids: "queued i st \<longleftrightarrow> i \<in> set (map om_ID (st_outbox st))"
  by (simp add: queued_def)

lemma queued_mark: "(\<And>m. om_ID (f m) = om_ID m) \<Longrightarrow> queued i (mark j f st) = queued i st"
  by (simp only: queued_ids mark_ids)

lemma queued_marks [simp]:
  "queued i (mark j (as_processing now) st) = queued i st" "queued i (mark j (as_sent now) st) = queued i st"
  "queued i (mark j (as_failed txt again now) st) = queued i st"
  by (simp_all add: queued_mark)

lemma taken_queued: "taken ms st st' \<Longrightarrow> queued i st' = queued i st"
  by (induction ms arbitrary: st) (simp, metis taken.simps(2) queued_marks(1))

definition as_picked :: "outbox_message \<Rightarrow> outbox_message" where
  "as_picked m = m\<lparr>om_Status := OutboxStatusProcessing, om_NextAttemptAt := None\<rparr>"

definition worker_ends ::
  "('g, 'w) obs \<Rightarrow> 'w outbox_worker \<Rightarrow> (string \<Rightarrow> string \<Rightarrow> bool) \<Rightarrow> 'g \<Rightarrow> 'w \<Rightarrow> unit outcome \<Rightarrow> 'w \<Rightarrow> bool" where
  "worker_ends b s enc g w r v \<longleftrightarrow>
     Inv b g v \<and> (Calm b w \<longrightarrow> Calm b v) \<and>
     (\<exists>ds. deliveries (Journal b v) = deliveries (Journal b w) @ ds \<and>
       ((\<exists>e. r = Err e) \<and> \<not> Calm b w \<and> ds = [] \<and> View b v = View b w
        \<or> (\<exists>now ms st1. picked now (Held b g) (ow_BatchSize s) (View b w) ms \<and> taken ms (View b w) st1 \<and>
             ((\<exists>e. r = Err e) \<and> \<not> Calm b w \<and> ds = [] \<and> View b v = st1
              \<or> drained enc (Calm b w) st1 (map as_picked ms) ds (View b v) (r = Ok ())))))"

locale outbox_service =
  outbox_queue b Create "ow_PickPending s" "ow_MarkProcessing s" "ow_MarkSent s" "ow_MarkFailed s"
  + txu: transactions b "ow_TxDo s"
  + txm: transactions b "ow_TxDoMessages s"
  + event_publisher b "ow_Publish s" enc
  + clock_and_ids b "ow_Runtime s"
  for b :: "('g, 'w) obs" and Create :: "ctx \<Rightarrow> outbox_message option \<Rightarrow> ('w, unit) go" and s :: "'w outbox_worker" and enc :: "string \<Rightarrow> string \<Rightarrow> bool"
begin

definition steady :: "'g \<Rightarrow> 'w \<Rightarrow> 'w \<Rightarrow> bool" where
  "steady g w v \<longleftrightarrow> Inv b g v \<and> View b v = View b w \<and> (Calm b w \<longrightarrow> Calm b v)
     \<and> deliveries (Journal b v) = deliveries (Journal b w)"

lemma steady_trans: "steady g w v \<Longrightarrow> steady g v u \<Longrightarrow> steady g w u"
  by (simp add: steady_def)

lemma steady_unchanged: "unchanged b g w v \<Longrightarrow> steady g w v"
  by (simp add: unchanged_def steady_def)

lemma span_steady:
  "Inv b g w \<Longrightarrow> \<not> tx_event ev \<Longrightarrow> \<not> is_delivery ev \<Longrightarrow> wp (worker_span s ev) (\<lambda>_ v. steady g w v) w"
  unfolding worker_span_def by (rule wp_conseq [OF emit_law]) (auto simp: steady_def deliveries_def)

lemma steady_Inv: "steady g w v \<Longrightarrow> Inv b g v"
  by (simp add: steady_def)

lemma observe_steady:
  assumes "Inv b g w"
  shows "wp (worker_observe s st t) (\<lambda>_ v. steady g w v) w"
  unfolding worker_observe_def worker_span_def [symmetric]
proof (rule wp_bindI [OF span_steady [OF assms]], simp, simp)
  fix v
  assume v: "steady g w v"
  show "wp (do { now \<leftarrow> Now (ow_Runtime s);
      worker_span s (Sample ''auth_outbox_iteration_duration_seconds'' [st] (now - t)) }) (\<lambda>_ v. steady g w v) v"
  proof (rule wp_bindI [OF now_law [OF steady_Inv [OF v]]])
    fix now u
    assume "unchanged b g v u"
    with v have u: "steady g w u" by (blast intro: steady_unchanged steady_trans)
    show "wp (worker_span s (Sample ''auth_outbox_iteration_duration_seconds'' [st] (now - t))) (\<lambda>_ v. steady g w v) u"
      by (rule wp_conseq [OF span_steady [OF steady_Inv [OF u]]]) (auto intro: steady_trans [OF u])
  qed
qed

lemma mark_tx:
  assumes i: "Inv b g w" "Outside b g"
    and M: "\<And>g tc v. Inv b g v \<Longrightarrow> wp (M tc) (marked b g v i f (bad (View b v))) v"
  shows "wp (ow_TxDo s c M) (\<lambda>r v. Inv b g v \<and> Journal b v = Journal b w \<and> (Calm b w \<longrightarrow> Calm b v) \<and>
     (case r of
        Ok _ \<Rightarrow> \<exists>now. View b v = mark i (f now) (View b w)
      | Err e \<Rightarrow> (View b v = View b w \<or> \<not> Calm b w \<and> (\<exists>now. View b v = mark i (f now) (View b w)))
          \<and> (Calm b w \<longrightarrow> bad (View b w) \<or> \<not> queued i (View b w))
      | Panic p \<Rightarrow> False)) w"
proof -
  let ?Q = "\<lambda>r st' k. case r of
      Ok x \<Rightarrow> (\<exists>now. st' = mark i (f now) (View b w)) \<and> (Calm b w \<longrightarrow> k)
    | Err e \<Rightarrow> Calm b w \<longrightarrow> bad (View b w) \<or> \<not> queued i (View b w)
    | Panic p \<Rightarrow> False"
  show ?thesis
    by (rule wp_conseq [OF txu.do_law [where Q = ?Q, OF i]], rule wp_conseq [OF M], assumption)
      (auto simp: marked_def tx_done_def from_callback_def split: outcome.splits)
qed

text \<open>The first transaction.\<close>

definition pick_rel :: "'g \<Rightarrow> bool \<Rightarrow> store \<Rightarrow> outbox_message list outcome \<Rightarrow> store \<Rightarrow> bool \<Rightarrow> bool" where
  "pick_rel g fine st r st' k \<longleftrightarrow>
     (case r of
        Ok xs \<Rightarrow> (\<exists>now ms. picked now (Held b g) (ow_BatchSize s) st ms \<and> taken ms st st' \<and> xs = map as_picked ms)
          \<and> (fine \<longrightarrow> k)
      | Err e \<Rightarrow> \<not> fine
      | Panic p \<Rightarrow> False)"

lemma picked_queued: "picked now held n st ms \<Longrightarrow> m \<in> set ms \<Longrightarrow> queued (om_ID m) st"
  by (auto simp: picked_def Let_def queued_def)

lemma pick_batch_law:
  assumes i: "Inv b g w"
  shows "wp (pick_batch s c) (\<lambda>r v. Inv b g v \<and> Journal b v = Journal b w \<and> pick_rel g (Calm b w) (View b w) r (View b v) (Calm b v)) w"
  unfolding pick_batch_def
proof (rule wp_andThenI [OF pick [OF i]], goal_cases)
  case (1 ms u)
  then obtain now where p: "picked now (Held b g) (ow_BatchSize s) (View b w) ms" and u: "unchanged b g w u" by auto
  have vu: "View b u = View b w" "Inv b g u" "Journal b u = Journal b w" "Calm b w \<longrightarrow> Calm b u"
    using u by (auto simp: unchanged_def)
  let ?I = "\<lambda>rest v. Inv b g v \<and> Journal b v = Journal b w \<and> (Calm b w \<longrightarrow> Calm b v) \<and>
      (\<exists>dn. ms = dn @ rest \<and> taken dn (View b w) (View b v))"
  let ?P = "\<lambda>r v. Inv b g v \<and> Journal b v = Journal b w \<and>
      (case r of Ok _ \<Rightarrow> taken ms (View b w) (View b v) \<and> (Calm b w \<longrightarrow> Calm b v) | Err e \<Rightarrow> \<not> Calm b w | Panic p \<Rightarrow> False)"
  have loop: "wp (foreach ms (\<lambda>message. call (ow_MarkProcessing s c (uuid_String (om_ID message)))
      (\<lambda>r. case r of Inl e \<Rightarrow> fail (wrap ''mark outbox message as processing'' e) | Inr _ \<Rightarrow> ok ()))) ?P u"
  proof (rule wp_foreach [where I = ?I], goal_cases)
    case 1
    then show ?case using vu by (auto intro: exI [of _ "[]"])
  next
    case (2 x rest v)
    then obtain dn where dn: "ms = dn @ x # rest" "taken dn (View b w) (View b v)" by auto
    have q: "queued (om_ID x) (View b v)"
      unfolding taken_queued [OF dn(2)] using picked_queued [OF p] dn(1) by simp
    show ?case
      by (rule wp_callI [OF mark_processing]; (use 2 in blast)?)
        (use 2 dn q in \<open>auto simp: marked_def wp_ok wp_fail taken_append intro!: exI [of _ "dn @ [x]"]\<close>)
  next
    case (3 v)
    then show ?case by auto
  qed
  show ?case
    by (rule wp_andThenI [OF loop]) (use p in \<open>auto simp: wp_ok pick_rel_def as_picked_def [abs_def]\<close>)
next
  case (2 e v)
  then show ?case by (auto simp: pick_rel_def unchanged_def)
next
  case (3 p v)
  then show ?case by simp
qed

lemma pick_tx:
  assumes "Inv b g w" "Outside b g"
  shows "wp (ow_TxDoMessages s c (pick_batch s)) (\<lambda>r v. Inv b g v \<and> Journal b v = Journal b w \<and> (Calm b w \<longrightarrow> Calm b v) \<and>
     (case r of
        Ok xs \<Rightarrow> pick_rel g False (View b w) (Ok xs) (View b v) True
      | Err e \<Rightarrow> \<not> Calm b w \<and> (View b v = View b w \<or> (\<exists>xs. pick_rel g False (View b w) (Ok xs) (View b v) True))
      | Panic p \<Rightarrow> False)) w"
  by (rule wp_conseq [OF txm.do_law [where Q = "pick_rel g (Calm b w) (View b w)", OF assms]],
      rule wp_conseq [OF pick_batch_law], assumption)
    (auto simp: tx_done_def pick_rel_def from_callback_def split: outcome.splits)

text \<open>The batch.\<close>

definition batch_ends :: "'g \<Rightarrow> outbox_message list \<Rightarrow> 'w \<Rightarrow> unit outcome \<Rightarrow> 'w \<Rightarrow> bool" where
  "batch_ends g ms w r v \<longleftrightarrow> Inv b g v \<and> (Calm b w \<longrightarrow> Calm b v) \<and>
     (\<exists>ds. deliveries (Journal b v) = deliveries (Journal b w) @ ds \<and>
        drained enc (Calm b w) (View b w) ms ds (View b v) (r = Ok ()))"

text \<open>One step of the batch, then the rest of it from where the step ended.\<close>

lemma batch_step:
  assumes rest: "batch_ends g ms v r u" and calm: "Calm b w \<longrightarrow> Calm b v"
    and ds0: "deliveries (Journal b v) = deliveries (Journal b w) @ ds0"
    and step: "\<And>ds st' k. drained enc (Calm b w) (View b v) ms ds st' k \<Longrightarrow> drained enc (Calm b w) (View b w) (m # ms) (ds0 @ ds) st' k"
  shows "batch_ends g (m # ms) w r u"
proof -
  obtain ds where ds: "deliveries (Journal b u) = deliveries (Journal b v) @ ds"
    and d: "drained enc (Calm b v) (View b v) ms ds (View b u) (r = Ok ())"
    using rest by (auto simp: batch_ends_def)
  have "drained enc (Calm b w) (View b v) ms ds (View b u) (r = Ok ())"
    using drained_weaken [OF d calm] .
  from step [OF this] ds ds0 rest calm show ?thesis
    unfolding batch_ends_def by (metis append.assoc)
qed

lemma publish_batch_law:
  assumes "Inv b g w" "Outside b g" "list_all (\<lambda>m. queued (om_ID m) (View b w)) ms"
  shows "wp (publish_batch s c t ms) (batch_ends g ms w) w"
  using assms
proof (induction ms arbitrary: w)
  case Nil
  then show ?case by (auto simp: wp_ok batch_ends_def intro: drained.finished)
next
  case (Cons m ms)
  show ?case
    unfolding publish_batch.simps
  proof (rule wp_callI [OF publish_law [OF Cons.prems(1)]], goal_cases)
    case (1 x v)
    then obtain d where d: "deliveries (Journal b v) = deliveries (Journal b w) @ [d]" "delivers enc m d"
      by (auto simp: published_def deliveries_def)
    show ?case
      unfolding sum.case
    proof (rule wp_callI [OF mark_tx [where g = g and f = as_sent and bad = "\<lambda>_. False" and i = "om_ID m"]], goal_cases)
      case (4 x u)
      then obtain now where u: "View b u = mark (om_ID m) (as_sent now) (View b w)" using 1 by auto
      have all: "list_all (\<lambda>m. queued (om_ID m) (View b u)) ms" using Cons.prems(3) by (simp add: u)
      show ?case
        unfolding sum.case
        by (rule wp_conseq [OF Cons.IH [OF _ Cons.prems(2) all]], (use 4 in simp),
            rule batch_step [where v = u and ?ds0.0 = "[d]"])
          (use 1 4 d in \<open>auto simp: u intro: drained.sent [where now = now]\<close>)
    next
      case (5 e u)
      then have u: "Inv b g u" "Calm b w \<longrightarrow> Calm b u" and nf: "\<not> Calm b w"
        and st: "View b u = View b w \<or> (\<exists>now. View b u = mark (om_ID m) (as_sent now) (View b w))"
        using 1 Cons.prems(3) by auto
      show ?case
        unfolding sum.case
      proof (rule wp_afterI [OF span_steady [OF u(1)]], simp, simp)
        fix u1
        assume u1: "steady g u u1"
        show "wp (after (worker_observe s ''mark_sent_error'' t) (fail e)) (batch_ends g (m # ms) w) u1"
        proof (rule wp_afterI [OF observe_steady [OF steady_Inv [OF u1]]])
          fix u2
          assume "steady g u1 u2"
          with u1 have "steady g u u2" by (rule steady_trans)
          with u nf st d 5 show "wp (fail e) (batch_ends g (m # ms) w) u2"
            by (auto simp: wp_fail batch_ends_def steady_def intro!: exI [of _ "[d]"] intro: drained.stopped)
        qed
      qed
    qed (use 1 Cons.prems mark_sent in auto)
  next
    case (2 e v)
    then obtain ds0 where ds0: "deliveries (Journal b v) = deliveries (Journal b w) @ ds0" "published enc m (Err e) ds0"
      by (auto simp: deliveries_def)
    show ?case
      unfolding sum.case
    proof (rule wp_afterI [OF span_steady [where g = g]], (use 2 in simp), simp, simp)
      fix v1
      assume v1: "steady g v v1"
      show "wp (do {
           now \<leftarrow> Now (ow_Runtime s);
           call (ow_TxDo s c (\<lambda>txCtx. ow_MarkFailed s txCtx (uuid_String (om_ID m)) (err_text e)
                    (now + retryBackoff (om_AttemptCount m + 1))))
             (\<lambda>_. after (worker_observe s ''publish_error'' t) (publish_batch s c t ms)) }) (batch_ends g (m # ms) w) v1"
      proof (rule wp_bindI [OF now_law [OF steady_Inv [OF v1]]])
        fix now v2
        assume "unchanged b g v1 v2"
        with v1 have v2: "steady g v v2" by (blast intro: steady_unchanged steady_trans)
        let ?again = "now + retryBackoff (om_AttemptCount m + 1)"
        let ?stays = "\<lambda>u. View b u = View b w \<and> (Calm b w \<longrightarrow> worn_out (om_ID m) (View b w))"
        let ?fails = "\<lambda>u. \<exists>at. View b u = mark (om_ID m) (as_failed (err_text e) ?again at) (View b w)"
        have rest: "wp (after (worker_observe s ''publish_error'' t) (publish_batch s c t ms)) (batch_ends g (m # ms) w) u"
          if u: "Inv b g u" "Journal b u = Journal b v2" "Calm b w \<longrightarrow> Calm b u" "?stays u \<or> ?fails u" for u
        proof (rule wp_afterI [OF observe_steady [OF u(1)]])
          fix u1
          assume u1: "steady g u u1"
          have all: "list_all (\<lambda>m. queued (om_ID m) (View b u1)) ms"
            using u1 u(4) Cons.prems(3) by (auto simp: steady_def)
          show "wp (publish_batch s c t ms) (batch_ends g (m # ms) w) u1"
            by (rule wp_conseq [OF Cons.IH [OF steady_Inv [OF u1] Cons.prems(2) all]],
                rule batch_step [where v = u1 and ?ds0.0 = ds0])
              (use u u1 v2 ds0 2 in \<open>auto simp: steady_def intro: drained.failed drained.unmarked\<close>)
        qed
        show "wp (call (ow_TxDo s c (\<lambda>txCtx. ow_MarkFailed s txCtx (uuid_String (om_ID m)) (err_text e) ?again))
             (\<lambda>_. after (worker_observe s ''publish_error'' t) (publish_batch s c t ms))) (batch_ends g (m # ms) w) v2"
          by (rule wp_callI [OF mark_tx [where g = g and f = "as_failed (err_text e) ?again" and bad = "worn_out (om_ID m)" and i = "om_ID m"]])
            (use v2 2 Cons.prems mark_failed in \<open>auto simp: steady_def intro!: rest\<close>)
      qed
    qed
  next
    case (3 p v)
    then show ?case by (simp add: published_def)
  qed
qed

text \<open>What follows the batch only reports.\<close>

lemma report_law:
  assumes "worker_ends b s enc g w r v" "\<not> tx_event ev" "\<not> is_delivery ev"
  shows "wp (after (worker_span s ev) (after (worker_observe s st t) (State_Monad.return r))) (worker_ends b s enc g w) v"
proof (rule wp_afterI [OF span_steady [where g = g]])
  show "Inv b g v" using assms(1) by (simp add: worker_ends_def)
  fix u
  assume u: "steady g v u"
  show "wp (after (worker_observe s st t) (State_Monad.return r)) (worker_ends b s enc g w) u"
    by (rule wp_afterI [OF observe_steady [OF steady_Inv [OF u]]])
      (use assms(1) u in \<open>simp add: wp_return worker_ends_def steady_def\<close>)
qed (fact assms)+

lemma RunOnce_law:
  assumes "Inv b g w" "Outside b g"
  shows "wp (RunOnce s c) (worker_ends b s enc g w) w"
  unfolding RunOnce_def
proof (rule wp_bindI [OF now_law [OF assms(1)]])
  fix t v
  assume v: "unchanged b g w v"
  then have vw: "View b v = View b w" "Journal b v = Journal b w" "Calm b w \<longrightarrow> Calm b v"
    by (auto simp: unchanged_def)
  show "wp (call (ow_TxDoMessages s c (pick_batch s)) (\<lambda>r. case r of
       Inl e \<Rightarrow>
         after (worker_span s (SpanError (err_text e)))
           (after (worker_observe s ''pick_error'' t) (fail e))
     | Inr messages \<Rightarrow>
         (if messages = [] then
            after (worker_span s (SpanOk ''idle'')) (after (worker_observe s ''idle'' t) (ok ()))
          else andThen (publish_batch s c t messages) (\<lambda>_.
            after (worker_span s (SpanOk ''processed''))
              (after (worker_observe s ''success'' t) (ok ())))))) (worker_ends b s enc g w) v"
  proof (rule wp_callI [OF pick_tx [OF unchanged_Inv [OF v] assms(2)]], goal_cases)
    case (1 xs u)
    then obtain now ms where p: "picked now (Held b g) (ow_BatchSize s) (View b w) ms" "taken ms (View b w) (View b u)"
        "xs = map as_picked ms"
      by (auto simp: pick_rel_def vw)
    show ?case
    proof (cases "xs = []")
      case True
      have "worker_ends b s enc g w (Ok ()) u"
        using 1 p True vw unfolding worker_ends_def
        by (intro conjI exI [of _ "[]"] disjI2 exI [of _ now] exI [of _ ms] exI [of _ "View b u"])
          (auto intro: drained.finished)
      from report_law [OF this, of "SpanOk ''idle''" "''idle''" t] True show ?thesis by (simp add: ok_def)
    next
      case False
      have "list_all (\<lambda>m. queued (om_ID m) (View b u)) xs"
        using picked_queued [OF p(1)] by (auto simp: p(3) as_picked_def list_all_iff taken_queued [OF p(2)])
      then have "wp (publish_batch s c t xs) (batch_ends g xs u) u"
        using 1 assms(2) by (intro publish_batch_law) auto
      then have batch: "wp (publish_batch s c t xs) (worker_ends b s enc g w) u"
      proof (rule wp_conseq)
        fix r z
        assume "batch_ends g xs u r z"
        then obtain ds where "Inv b g z" "Calm b u \<longrightarrow> Calm b z" "deliveries (Journal b z) = deliveries (Journal b u) @ ds"
            and d: "drained enc (Calm b u) (View b u) (map as_picked ms) ds (View b z) (r = Ok ())"
          by (auto simp: batch_ends_def p(3))
        then show "worker_ends b s enc g w r z"
          unfolding worker_ends_def using 1 vw p(1,2) drained_weaken [OF d, of "Calm b w"]
          by (intro conjI exI [of _ ds] disjI2 exI [of _ now] exI [of _ ms] exI [of _ "View b u"]) auto
      qed
      show ?thesis
        unfolding sum.case if_not_P [OF False]
        by (rule wp_andThenI [OF batch], unfold ok_def, rule report_law) simp_all
    qed
  next
    case (2 e u)
    then have st: "View b u = View b w \<or> (\<exists>now ms. picked now (Held b g) (ow_BatchSize s) (View b w) ms \<and> taken ms (View b w) (View b u))"
      by (auto simp: pick_rel_def vw)
    have "worker_ends b s enc g w (Err e) u"
      unfolding worker_ends_def using 2 vw st by (intro conjI exI [of _ "[]"]) (simp_all, blast?)
    from report_law [OF this, of "SpanError (err_text e)" "''pick_error''" t] show ?case by (simp add: fail_def)
  next
    case (3 p u)
    then show ?case by simp
  qed
qed

end

section \<open>The worker on the PostgreSQL world\<close>

definition NewWorker ::
  "(user_created_event \<Rightarrow> string outcome) \<Rightarrow> (ctx \<Rightarrow> outbox_message \<Rightarrow> (world, unit) go) \<Rightarrow> world outbox_worker" where
  "NewWorker marshal publish =
     \<lparr>ow_TxDo = Do \<lparr>tx_pool = True\<rparr>, ow_TxDoMessages = Do \<lparr>tx_pool = True\<rparr>,
      ow_PickPending = outbox_PickPending, ow_MarkProcessing = outbox_MarkProcessing,
      ow_MarkSent = outbox_MarkSent, ow_MarkFailed = outbox_MarkFailed, ow_Publish = publish,
      ow_Runtime = world_runtime marshal, ow_BatchSize = 50, ow_Interval = seconds 2\<rparr>"

lemma NewWorker_sel [simp]:
  "ow_TxDo (NewWorker marshal pub) = Do \<lparr>tx_pool = True\<rparr>" "ow_TxDoMessages (NewWorker marshal pub) = Do \<lparr>tx_pool = True\<rparr>"
  "ow_PickPending (NewWorker marshal pub) = outbox_PickPending"
  "ow_MarkProcessing (NewWorker marshal pub) = outbox_MarkProcessing"
  "ow_MarkSent (NewWorker marshal pub) = outbox_MarkSent" "ow_MarkFailed (NewWorker marshal pub) = outbox_MarkFailed"
  "ow_Publish (NewWorker marshal pub) = pub" "ow_Runtime (NewWorker marshal pub) = world_runtime marshal"
  "ow_BatchSize (NewWorker marshal pub) = 50"
  by (simp_all add: NewWorker_def)

definition kafka_worker ::
  "avro_library \<Rightarrow> (user_created_event \<Rightarrow> string outcome) \<Rightarrow> producer_config \<Rightarrow> world outbox_worker" where
  "kafka_worker lib marshal cfg = NewWorker marshal (Publish_outbox (outbox_producer lib marshal cfg))"

interpretation worker: outbox_service db_obs outbox_Create "kafka_worker lib marshal cfg" "on_the_wire lib cfg" for lib marshal cfg
  unfolding outbox_service_def kafka_worker_def NewWorker_sel
  by (intro conjI queue.outbox_queue_axioms tx.transactions_axioms publisher.event_publisher_axioms
      runtime.clock_and_ids_axioms)

lemma RunOnce_ends:
  assumes "db_ready w" and "run_state (RunOnce (kafka_worker lib marshal cfg) c) w = (r, w')"
  shows "worker_ends db_obs (kafka_worker lib marshal cfg) (on_the_wire lib cfg) (session w, None) w r w'"
  using assms(1) by (intro wpD [OF worker.RunOnce_law assms(2)]) (simp_all add: db_ready_Inv del: obs_sel)

section \<open>What the relations say of one message\<close>

lemma drained_worked_through: "drained enc True st ms ds st' k \<Longrightarrow> k"
  by (induction rule: drained.induct) auto

text \<open>A message before and after a batch: as it was, or marked once according to its publication.\<close>

definition marked_once :: "(string \<Rightarrow> string \<Rightarrow> bool) \<Rightarrow> outbox_message list \<Rightarrow> event list \<Rightarrow> outbox_message \<Rightarrow> outbox_message \<Rightarrow> bool" where
  "marked_once enc ms ds m m' \<longleftrightarrow> m' = m \<or>
     (\<exists>x\<in>set ms. om_ID x = om_ID m \<and>
        ((\<exists>now. m' = as_sent now m \<and> (\<exists>d\<in>set ds. delivers enc x d))
         \<or> (\<exists>txt t now. m' = as_failed txt (t + retryBackoff (om_AttemptCount x + 1)) now m)))"

lemma marked_once_mono: "marked_once enc ms ds m m' \<Longrightarrow> set ms \<subseteq> set ms2 \<Longrightarrow> set ds \<subseteq> set ds2 \<Longrightarrow> marked_once enc ms2 ds2 m m'"
  unfolding marked_once_def by blast

lemma marked_once_same_id: "marked_once enc ms ds m m' \<Longrightarrow> om_ID m' = om_ID m"
  by (auto simp: marked_once_def)

lemma marked_once_other: "marked_once enc ms ds m m' \<Longrightarrow> om_ID m' \<notin> om_ID ` set ms \<Longrightarrow> m' = m"
  by (auto simp: marked_once_def image_iff)

lemma marked_sent:
  "om_ID y = om_ID m \<Longrightarrow> delivers enc m d \<Longrightarrow> d \<in> set ds \<Longrightarrow> marked_once enc (m # ms) ds y (as_sent now y)"
  unfolding marked_once_def by auto

lemma marked_failed:
  "om_ID y = om_ID m \<Longrightarrow> marked_once enc (m # ms) ds y (as_failed txt (t + retryBackoff (om_AttemptCount m + 1)) now y)"
  unfolding marked_once_def by (rule disjI2, rule bexI [of _ m], rule conjI, simp, rule disjI2, intro exI, rule refl, simp)

lemma marked_not: "marked_once enc ms ds y y"
  by (simp add: marked_once_def)

lemma marked_store_id: "y \<in> set (st_outbox (mark i f st)) \<Longrightarrow> om_ID y = i \<Longrightarrow> (\<And>y. om_ID (f y) = om_ID y) \<Longrightarrow> \<exists>z. y = f z"
  by (auto simp: mark_def split: if_splits)

text \<open>One mark before a batch that does not hold its message.\<close>

lemma mark_then_batch:
  assumes rest: "list_all2 (marked_once enc ms ds) (st_outbox (mark (om_ID m) f st)) ys"
    and new: "om_ID m \<notin> om_ID ` set ms" and same: "\<And>y. om_ID (f y) = om_ID y"
    and first: "\<And>y. om_ID y = om_ID m \<Longrightarrow> marked_once enc (m # ms) (ds0 @ ds) y (f y)"
  shows "list_all2 (marked_once enc (m # ms) (ds0 @ ds)) (st_outbox st) ys"
proof -
  have "marked_once enc (m # ms) (ds0 @ ds) y z" if "marked_once enc ms ds (if om_ID y = om_ID m then f y else y) z" for y z
  proof (cases "om_ID y = om_ID m")
    case True
    with that new have "z = f y" by (auto simp: marked_once_def same image_iff)
    with first [OF True] show ?thesis by simp
  next
    case False
    with that show ?thesis by (auto intro: marked_once_mono)
  qed
  with rest show ?thesis by (auto simp: mark_def list_all2_map1 elim: list_all2_mono)
qed

lemma drained_marked:
  assumes "drained enc fine st ms ds st' k" and "distinct (map om_ID ms)"
  shows "list_all2 (marked_once enc ms ds) (st_outbox st) (st_outbox st')
    \<and> st_users st' = st_users st \<and> st_creds st' = st_creds st \<and> st_idents st' = st_idents st"
  using assms
proof (induction rule: drained.induct)
  case (finished st)
  then show ?case by (simp add: list_all2_refl marked_not)
next
  case (sent m d now st ms ds st' k)
  then have "list_all2 (marked_once enc (m # ms) ([d] @ ds)) (st_outbox st) (st_outbox st')"
    by (intro mark_then_batch [where f = "as_sent now"] marked_sent) auto
  with sent show ?case by simp
next
  case (failed m e ds0 now at st ms ds st' k)
  then have "list_all2 (marked_once enc (m # ms) (ds0 @ ds)) (st_outbox st) (st_outbox st')"
    by (intro mark_then_batch [where f = "as_failed (err_text e) (now + retryBackoff (om_AttemptCount m + 1)) at"] marked_failed) auto
  with failed show ?case by simp
next
  case (unmarked m e ds0 st ms ds st' k)
  then show ?case by (auto elim!: list_all2_mono marked_once_mono)
next
  case (stopped m d st' st now ms)
  have "list_all2 (marked_once enc ([m]) ([d] @ [])) (st_outbox st) (st_outbox (mark (om_ID m) (as_sent now) st))"
    by (rule mark_then_batch [where f = "as_sent now"]) (use stopped in \<open>auto simp: list_all2_refl marked_not intro: marked_sent\<close>)
  then have "list_all2 (marked_once enc (m # ms) [d]) (st_outbox st) (st_outbox (mark (om_ID m) (as_sent now) st))"
    by (rule list_all2_mono) (auto elim: marked_once_mono)
  with stopped show ?case by (auto simp: list_all2_refl marked_not)
qed

text \<open>When nothing fails outside the program, no message of the batch is left as it was picked.\<close>

definition settled_message :: "outbox_message \<Rightarrow> bool" where
  "settled_message m \<longleftrightarrow> om_Status m \<in> {OutboxStatusSent, OutboxStatusFailed} \<or> sint (om_AttemptCount m) = 2 ^ 31 - 1"

lemma list_all2_other: "list_all2 P xs ys \<Longrightarrow> y \<in> set ys \<Longrightarrow> \<exists>x\<in>set xs. P x y"
  by (induction rule: list_all2_induct) auto

lemma drained_settled:
  assumes "drained enc True st ms ds st' k" and "distinct (map om_ID ms)" and "distinct (map om_ID (st_outbox st))"
  shows "\<forall>m'\<in>set (st_outbox st'). om_ID m' \<in> om_ID ` set ms \<longrightarrow> settled_message m'"
  using assms
proof (induction rule: drained.induct)
  case (finished st)
  then show ?case by simp
next
  case (sent m d now st ms ds st' k)
  have "settled_message m'" if m': "m' \<in> set (st_outbox st')" "om_ID m' = om_ID m" for m'
  proof -
    have "list_all2 (marked_once enc ms ds) (st_outbox (mark (om_ID m) (as_sent now) st)) (st_outbox st')"
      using drained_marked [OF sent.hyps(2)] sent.prems by simp
    from list_all2_other [OF this m'(1)] obtain y where y: "y \<in> set (st_outbox (mark (om_ID m) (as_sent now) st))" "marked_once enc ms ds y m'" ..
    have "m' = y" by (rule marked_once_other [OF y(2)]) (use m'(2) sent.prems in auto)
    with marked_store_id [OF y(1)] m'(2) obtain z where "m' = (as_sent now) z" by auto
    then show ?thesis by (simp add: settled_message_def as_sent_def)
  qed
  with sent show ?case by (auto simp: mark_ids)
next
  case (failed m e ds0 now at st ms ds st' k)
  let ?f = "as_failed (err_text e) (now + retryBackoff (om_AttemptCount m + 1)) at"
  have "settled_message m'" if m': "m' \<in> set (st_outbox st')" "om_ID m' = om_ID m" for m'
  proof -
    have "list_all2 (marked_once enc ms ds) (st_outbox (mark (om_ID m) ?f st)) (st_outbox st')"
      using drained_marked [OF failed.hyps(2)] failed.prems by simp
    from list_all2_other [OF this m'(1)] obtain y where y: "y \<in> set (st_outbox (mark (om_ID m) ?f st))" "marked_once enc ms ds y m'" ..
    have "m' = y" by (rule marked_once_other [OF y(2)]) (use m'(2) failed.prems in auto)
    with marked_store_id [OF y(1)] m'(2) obtain z where "m' = ?f z" by auto
    then show ?thesis by (simp add: settled_message_def as_failed_def)
  qed
  with failed show ?case by (auto simp: mark_ids)
next
  case (unmarked m e ds0 st ms ds st' k)
  have "settled_message m'" if m': "m' \<in> set (st_outbox st')" "om_ID m' = om_ID m" for m'
  proof -
    from unmarked.hyps obtain z where z: "z \<in> set (st_outbox st)" "om_ID z = om_ID m" "sint (om_AttemptCount z) = 2 ^ 31 - 1"
      by (auto simp: worn_out_def)
    have "list_all2 (marked_once enc ms ds) (st_outbox st) (st_outbox st')"
      using drained_marked [OF unmarked.hyps(3)] unmarked.prems by simp
    from list_all2_other [OF this m'(1)] obtain y where y: "y \<in> set (st_outbox st)" "marked_once enc ms ds y m'" ..
    have "m' = y" by (rule marked_once_other [OF y(2)]) (use m'(2) unmarked.prems in auto)
    moreover have "y = z" using unmarked.prems(2) y(1) z(1,2) m'(2) \<open>m' = y\<close> by (auto simp: distinct_map inj_on_def)
    ultimately show ?thesis using z(3) by (simp add: settled_message_def)
  qed
  with unmarked show ?case by auto
qed simp

lemma mark_outbox: "st_outbox (mark i f st) = map (\<lambda>m. if om_ID m = i then f m else m) (st_outbox st)"
  by (simp add: mark_def)

lemma list_all2_mono_in:
  "list_all2 P xs ys \<Longrightarrow> (\<And>x y. x \<in> set xs \<Longrightarrow> P x y \<Longrightarrow> Q x y) \<Longrightarrow> list_all2 Q xs ys"
  by (induction rule: list_all2_induct) auto

lemma drained_length: "drained enc fine st ms ds st' k \<Longrightarrow> length ds \<le> length ms"
  by (induction rule: drained.induct) (auto simp: published_def)

lemma taken_marked:
  assumes "taken ms st st'"
  shows "list_all2 (\<lambda>m m'. m' = m \<or> om_ID m \<in> om_ID ` set ms \<and> (\<exists>now. m' = as_processing now m)) (st_outbox st) (st_outbox st')
    \<and> st_users st' = st_users st \<and> st_creds st' = st_creds st \<and> st_idents st' = st_idents st"
  using assms
proof (induction ms arbitrary: st)
  case Nil
  then show ?case by (simp add: list_all2_refl)
next
  case (Cons m ms)
  then obtain now where t: "taken ms (mark (om_ID m) (as_processing now) st) st'" by auto
  have twice: "as_processing b (as_processing a y) = as_processing b y" for a b y
    by (simp add: as_processing_def)
  have "list_all2 (\<lambda>m m'. m' = m \<or> om_ID m \<in> om_ID ` set ms \<and> (\<exists>now. m' = as_processing now m))
      (st_outbox (mark (om_ID m) (as_processing now) st)) (st_outbox st')"
    using Cons.IH [OF t] by simp
  then have "list_all2 (\<lambda>y z. z = y \<or> om_ID y \<in> om_ID ` set (m # ms) \<and> (\<exists>now. z = as_processing now y)) (st_outbox st) (st_outbox st')"
    unfolding mark_outbox list_all2_map1
    by (rule list_all2_mono) (auto simp: twice split: if_splits)
  with Cons.IH [OF t] show ?case by simp
qed

lemma taken_ids: "taken ms st st' \<Longrightarrow> map om_ID (st_outbox st') = map om_ID (st_outbox st)"
  by (induction ms arbitrary: st) (simp, metis taken.simps(2) mark_ids as_same(1))

text \<open>One message before and after an iteration.\<close>

definition same_content :: "outbox_message \<Rightarrow> outbox_message \<Rightarrow> bool" where
  "same_content m m' \<longleftrightarrow> om_ID m' = om_ID m \<and> om_Topic m' = om_Topic m \<and> om_MessageKey m' = om_MessageKey m
     \<and> om_Payload m' = om_Payload m \<and> om_CreatedAt m' = om_CreatedAt m"

definition iterated :: "(string \<Rightarrow> string \<Rightarrow> bool) \<Rightarrow> time \<Rightarrow> event list \<Rightarrow> outbox_message \<Rightarrow> outbox_message \<Rightarrow> bool" where
  "iterated enc now ds m m' \<longleftrightarrow> m' = m \<or>
     due now m \<and> same_content m m' \<and>
     (om_Status m' = OutboxStatusProcessing \<and> om_AttemptCount m' = om_AttemptCount m
      \<or> om_Status m' = OutboxStatusSent \<and> (\<exists>d\<in>set ds. delivers enc m d)
      \<or> om_Status m' = OutboxStatusFailed \<and> om_AttemptCount m' = om_AttemptCount m + 1
        \<and> (\<exists>t. om_NextAttemptAt m' = Some (to_us (t + retryBackoff (om_AttemptCount m + 1)))))"

lemma picked_drained:
  assumes st: "store_ok st" and p: "picked now held n st ms" and t: "taken ms st st1"
    and d: "drained enc fine st1 (map as_picked ms) ds st' k"
  shows "list_all2 (iterated enc now ds) (st_outbox st) (st_outbox st')"
proof -
  have ids: "distinct (map om_ID (map as_picked ms))" and sub: "set ms \<subseteq> set (st_outbox st)"
    using p by (auto simp: picked_def Let_def as_picked_def comp_def)
  have due: "due now m" if "m \<in> set ms" for m
    using p that by (auto simp: picked_def Let_def)
  have uniq: "x = m" if "x \<in> set ms" "m \<in> set (st_outbox st)" "om_ID x = om_ID m" for x m
    using that sub st by (auto simp: store_ok_def distinct_map inj_on_def)
  from taken_marked [OF t] have "list_all2 (\<lambda>m m'. m' = m \<or> om_ID m \<in> om_ID ` set ms \<and> (\<exists>now. m' = as_processing now m))
      (st_outbox st) (st_outbox st1)" ..
  moreover from drained_marked [OF d ids] have "list_all2 (marked_once enc (map as_picked ms) ds) (st_outbox st1) (st_outbox st')" ..
  ultimately have both: "list_all2 (\<lambda>m m'. \<exists>y. (y = m \<or> om_ID m \<in> om_ID ` set ms \<and> (\<exists>now. y = as_processing now m))
      \<and> marked_once enc (map as_picked ms) ds y m') (st_outbox st) (st_outbox st')"
    by (rule list_all2_trans [rotated]) blast
  have step: "iterated enc now ds m m'"
    if m: "m \<in> set (st_outbox st)" and y: "y = m \<or> om_ID m \<in> om_ID ` set ms \<and> (\<exists>now. y = as_processing now m)"
      and mo: "marked_once enc (map as_picked ms) ds y m'" for m y m'
  proof (cases "m \<in> set ms")
    case False
    then have "om_ID m \<notin> om_ID ` set ms" using uniq m by (metis imageE)
    with y mo show ?thesis by (auto simp: iterated_def marked_once_def as_picked_def image_iff)
  next
    case True
    have x: "x = as_picked m" if "x \<in> set (map as_picked ms)" "om_ID x = om_ID m" for x
    proof -
      from that(1) obtain x0 where "x0 \<in> set ms" "x = as_picked x0" by auto
      with that(2) uniq [of x0 m] m show ?thesis by (simp add: as_picked_def)
    qed
    have del: "delivers enc (as_picked m) d = delivers enc m d" for d by (simp add: delivers_def as_picked_def)
    have cnt: "om_AttemptCount (as_picked m) = om_AttemptCount m" by (simp add: as_picked_def)
    have yid: "om_ID y = om_ID m" using y by auto
    from mo consider "m' = y"
      | now1 d where "m' = as_sent now1 y" "d \<in> set ds" "delivers enc m d"
      | why t0 now1 where "m' = as_failed why (t0 + retryBackoff (om_AttemptCount m + 1)) now1 y"
      unfolding marked_once_def yid using x del cnt by metis
    then show ?thesis
      using due [OF True] y by cases (auto simp: iterated_def same_content_def as_defs)
  qed
  show ?thesis
    using both by (rule list_all2_mono_in) (use step in blast)
qed

text \<open>A batch of which nothing was published or marked.\<close>

lemma drained_left: "drained enc False st ms [] st True"
proof (induction ms)
  case Nil
  show ?case by (rule drained.finished)
next
  case (Cons m ms)
  have "published enc m (Err (NewErr [])) []" by (simp add: published_def)
  from drained.unmarked [OF this _ Cons] show ?case by simp
qed

lemma taken_iterated:
  assumes "store_ok st" and "picked now held n st ms" and "taken ms st st1"
  shows "list_all2 (iterated enc now []) (st_outbox st) (st_outbox st1)"
  by (rule picked_drained [OF assms drained_left])

section \<open>The properties\<close>

lemma RunOnce_safe:
  assumes "db_ready w" and "run_state (RunOnce (kafka_worker lib marshal cfg) c) w = (r, w')"
  shows "session w' = session w \<and> db_ready w' \<and> st_users (stored w') = st_users (stored w)
    \<and> st_creds (stored w') = st_creds (stored w) \<and> st_idents (stored w') = st_idents (stored w)
    \<and> (\<exists>now ds. deliveries (svc_events w') = deliveries (svc_events w) @ ds \<and> length ds \<le> 50
         \<and> list_all2 (iterated (on_the_wire lib cfg) now ds) (st_outbox (stored w)) (st_outbox (stored w')))"
proof -
  note e = RunOnce_ends [OF assms]
  then have "session w' = session w" "db_ready w'"
    using assms(1) by (auto simp: worker_ends_def db_ready_def session_def)
  have ok: "store_ok (stored w)" using assms(1) by (simp add: db_ready_def stored_def)
  have refl: "list_all2 (iterated (on_the_wire lib cfg) now ds) xs xs" for now ds xs by (simp add: list_all2_refl iterated_def)
  from e obtain ds where ds: "deliveries (svc_events w') = deliveries (svc_events w) @ ds"
    and c: "stored w' = stored w \<and> ds = []
      \<or> (\<exists>now ms st1 k. picked now (Held db_obs (session w, None)) 50 (stored w) ms \<and> taken ms (stored w) st1 \<and>
           (ds = [] \<and> stored w' = st1 \<or> drained (on_the_wire lib cfg) (calm w) st1 (map as_picked ms) ds (stored w') k))"
    unfolding worker_ends_def kafka_worker_def NewWorker_sel obs_sel(1-5,7) stored_def [symmetric] by blast
  from c have "st_users (stored w') = st_users (stored w) \<and> st_creds (stored w') = st_creds (stored w)
      \<and> st_idents (stored w') = st_idents (stored w) \<and> length ds \<le> 50
      \<and> (\<exists>now. list_all2 (iterated (on_the_wire lib cfg) now ds) (st_outbox (stored w)) (st_outbox (stored w')))"
  proof (elim disjE exE conjE)
    assume "stored w' = stored w" "ds = []"
    then show ?thesis using refl by simp
  next
    fix now ms st1 k
    assume p: "picked now (Held db_obs (session w, None)) 50 (stored w) ms" and t: "taken ms (stored w) st1" and "ds = []" "stored w' = st1"
    then show ?thesis using taken_marked [OF t] taken_iterated [OF ok p t] by auto
  next
    fix now ms st1 k
    assume p: "picked now (Held db_obs (session w, None)) 50 (stored w) ms" and t: "taken ms (stored w) st1"
      and d: "drained (on_the_wire lib cfg) (calm w) st1 (map as_picked ms) ds (stored w') k"
    have "distinct (map om_ID (map as_picked ms))" "length ms \<le> 50"
      using p by (auto simp: picked_def Let_def as_picked_def comp_def)
    with picked_drained [OF ok p t d] drained_length [OF d] taken_marked [OF t] drained_marked [OF d]
    show ?thesis by auto
  qed
  with \<open>session w' = session w\<close> \<open>db_ready w'\<close> ds show ?thesis by blast
qed


lemma length_filter_imp: "(\<And>x. P x \<Longrightarrow> Q x) \<Longrightarrow> length (filter P xs) \<le> length (filter Q xs)"
  by (induction xs) auto

text \<open>The message is locked by another session.\<close>

definition locked :: "world \<Rightarrow> outbox_message \<Rightarrow> bool" where
  "locked w m = locked_elsewhere w ''auth_outbox_messages'' (outbox_row m)"

lemma RunOnce_calm:
  assumes "db_ready w" and "calm w"
  obtains w' now ms where "run_state (RunOnce (kafka_worker lib marshal cfg) c) w = (Ok (), w')"
    "picked now (locked w) 50 (stored w) ms"
    "\<forall>m'\<in>set (st_outbox (stored w')). om_ID m' \<in> om_ID ` set ms \<longrightarrow> settled_message m'"
proof -
  obtain r w' where run: "run_state (RunOnce (kafka_worker lib marshal cfg) c) w = (r, w')" by fastforce
  have held: "Held db_obs (session w, None) = locked w" by (rule ext) (simp add: locked_def)
  from RunOnce_ends [OF assms(1) run] assms(2) obtain now ms st1 ds where
    p: "picked now (locked w) 50 (stored w) ms" and t: "taken ms (stored w) st1"
    and d: "drained (on_the_wire lib cfg) True st1 (map as_picked ms) ds (stored w') (r = Ok ())"
    unfolding worker_ends_def kafka_worker_def NewWorker_sel obs_sel(1-5,7) held stored_def [symmetric] by auto
  have "distinct (map om_ID (map as_picked ms))" "om_ID ` set (map as_picked ms) = om_ID ` set ms"
    using p by (auto simp: picked_def Let_def as_picked_def comp_def image_image)
  moreover have "distinct (map om_ID (st_outbox st1))"
    using assms(1) taken_ids [OF t] by (simp add: db_ready_def stored_def store_ok_def)
  ultimately have "\<forall>m'\<in>set (st_outbox (stored w')). om_ID m' \<in> om_ID ` set ms \<longrightarrow> settled_message m'"
    using drained_settled [OF d] by simp
  moreover have "r = Ok ()" using drained_worked_through [OF d] .
  ultimately show thesis using that run p by blast
qed


text \<open>
  No pending message is overlooked. If the database answers and the outbox holds at most fifty
  messages that are not sent yet, then after one iteration every message that was pending and not
  locked by another worker is sent or failed.
\<close>
theorem RunOnce_reaches_pending:
  assumes "db_ready w" and "calm w"
    and few: "length (filter (\<lambda>m. om_Status m \<noteq> OutboxStatusSent) (st_outbox (stored w))) \<le> 50"
    and m: "m \<in> set (st_outbox (stored w))" "om_Status m = OutboxStatusPending" "\<not> locked w m"
  shows "\<exists>w'. run_state (RunOnce (kafka_worker lib marshal cfg) c) w = (Ok (), w')
    \<and> (\<forall>m'\<in>set (st_outbox (stored w')). om_ID m' = om_ID m \<longrightarrow> settled_message m')"
proof (rule RunOnce_calm [OF assms(1,2), of lib marshal cfg c])
  fix w' now ms
  assume run: "run_state (RunOnce (kafka_worker lib marshal cfg) c) w = (Ok (), w')"
    and p: "picked now (locked w) 50 (stored w) ms"
    and all: "\<forall>m'\<in>set (st_outbox (stored w')). om_ID m' \<in> om_ID ` set ms \<longrightarrow> settled_message m'"
  let ?free = "filter (\<lambda>m. due now m \<and> \<not> locked w m) (st_outbox (stored w))"
  have "length ?free \<le> length (filter (\<lambda>m. om_Status m \<noteq> OutboxStatusSent) (st_outbox (stored w)))"
    by (rule length_filter_imp) (auto simp: due_def OutboxStatusSent_def OutboxStatusPending_def OutboxStatusFailed_def
      OutboxStatusProcessing_def)
  with few p have len: "length ms = length ?free" and sub: "set ms \<subseteq> set ?free" and d: "distinct (map om_ID ms)"
    by (auto simp: picked_def Let_def)
  have "card (set ms) = length ms" using d by (simp add: distinct_card distinct_map)
  then have "set ms = set ?free"
    using len sub card_length [of ?free] by (metis card_subset_eq card_mono finite_set le_antisym)
  moreover have "due now m" using m(2) by (simp add: due_def)
  ultimately have "m \<in> set ms" using m(1,3) by simp
  with run all show ?thesis by (metis image_eqI)
qed

text \<open>
  The pause before a message is tried again never shrinks with the attempts, and lies between
  five seconds and five minutes for every int32 - the negative ones of a wrapped counter included.
\<close>
theorem retryBackoff_bounds:
  assumes "sint a \<le> sint b"
  shows "retryBackoff a \<le> retryBackoff b \<and> seconds 5 \<le> retryBackoff a \<and> retryBackoff b \<le> seconds 300"
proof -
  have *: "x = 2 \<longleftrightarrow> sint x = 2" "x = 3 \<longleftrightarrow> sint x = 3" for x :: "32 word"
    using signed_word_eqI [of x 2] signed_word_eqI [of x 3] by auto
  show ?thesis using assms by (auto simp: retryBackoff_def seconds_def *)
qed

text \<open>Examples.\<close>

definition example_pending :: outbox_message where
  "example_pending =
     \<lparr>om_ID = 1, om_Topic = UserCreatedTopic, om_MessageKey = ''k'', om_Payload = ''{}'', om_Status = OutboxStatusPending,
      om_AttemptCount = 0, om_LastError = [], om_PublishedAt = None, om_NextAttemptAt = None, om_CreatedAt = 0, om_UpdatedAt = 0\<rparr>"

definition outbox_world :: "outbox_message \<Rightarrow> world" where
  "outbox_world m = empty_world\<lparr>tables := (\<lambda>_. [])(''auth_outbox_messages'' := [outbox_row m])\<rparr>"

lemma stored_outbox_world: "stored (outbox_world m) = \<lparr>st_users = [], st_creds = [], st_idents = [], st_outbox = [m]\<rparr>"
  by (simp add: stored_def outbox_world_def read_db_def)

lemma ready_outbox_world: "db_ready (outbox_world m)" "calm (outbox_world m)"
  unfolding db_ready_def stored_outbox_world [unfolded stored_def]
  by (simp_all add: outbox_world_def empty_world_def holds_def store_ok_def calm_def)

definition example_library :: avro_library where
  "example_library =
     \<lparr>PathEscape = (\<lambda>s. s), NewRequest = (\<lambda>_. None), UnmarshalID = (\<lambda>_. Inr 1),
      UnmarshalUserCreated = (\<lambda>_. Inl (NewErr ''unexpected end of JSON input''))\<rparr>"

definition example_producer :: producer_config where
  "example_producer =
     \<lparr>pc_Topic = ''users.created'', pc_Brokers = [''localhost:9092''], pc_CompressionType = 0,
      pc_Network = \<lparr>nw_Sasl = \<lparr>sl_Enable = False, sl_Username = [], sl_Password = [], sl_Mechanism = []\<rparr>,
        nw_TLS = \<lparr>tl_Enabled = False, tl_ClientCert = [], tl_ClientKey = [], tl_RootCert = []\<rparr>\<rparr>,
      pc_ProduceSettings = \<lparr>ps_RequiredAcks = -1, ps_Idempotency = False, ps_TransactionalID = [],
        ps_SaveReturningStatus = \<lparr>sv_Errors = True, sv_Succeeded = True\<rparr>\<rparr>,
      pc_SchemaRegistry = \<lparr>sr_URL = [], sr_Subject = []\<rparr>\<rparr>"

definition example_worker :: "world outbox_worker" where
  "example_worker = kafka_worker example_library (\<lambda>e. Ok (uc_UserID e)) example_producer"



lemma RunOnce_reaches_pending_witness:
  "\<exists>w'. run_state (RunOnce example_worker background) (outbox_world example_pending) = (Ok (), w')
     \<and> list_all settled_message (filter (\<lambda>m'. om_ID m' = 1) (st_outbox (stored w')))"
proof -
  have few: "length (filter (\<lambda>m. om_Status m \<noteq> OutboxStatusSent) (st_outbox (stored (outbox_world example_pending)))) \<le> 50"
    by (simp add: stored_outbox_world)
  have m0: "example_pending \<in> set (st_outbox (stored (outbox_world example_pending)))"
    by (simp add: stored_outbox_world)
  have m: "om_Status example_pending = OutboxStatusPending"
      "\<not> locked (outbox_world example_pending) example_pending" "om_ID example_pending = 1"
    by (simp_all add: example_pending_def locked_def outbox_world_def empty_world_def)
  from RunOnce_reaches_pending [OF ready_outbox_world few m0 m(1,2), of example_library "\<lambda>e. Ok (uc_UserID e)"
      example_producer background]
  show ?thesis unfolding example_worker_def [symmetric] m(3) by (auto simp: list_all_iff)
qed

lemma retryBackoff_bounds_witness: "retryBackoff 2 \<le> retryBackoff 6"
  using retryBackoff_bounds [of 2 6] by simp

end
