(* ===== verification/DlqConsumer.thy ===== *)
theory DlqConsumer
  imports Domain
begin

text \<open>
  pkg/adapters/kafka/consumer/dql: the consumer group of one topic with its dead-letter queue
  (base_consumer_group_of_topic.go, claim_mode.go): processing, saving, marking and batching.
  sarama's session and the functions of the user (unmarshalling, the domain function, the savers)
  are arguments; the user's functions have a state \<open>'s\<close> of their own.
\<close>

section \<open>The state\<close>

record consumer_message =
  cm_Topic :: string
  cm_Partition :: "32 word"
  cm_Offset :: "64 word"
  cm_Key :: string
  cm_Value :: string
  cm_Headers :: "(string \<times> string) list"

text \<open>
  The clock, the random source of \<open>uuid.NewString\<close>, what \<open>ctx.Err()\<close> answers each time it
  is asked, the calls of \<open>session.MarkMessage\<close> and \<open>session.Commit\<close>, the atomic counters, and
  the metrics and logs.
\<close>

record 's kstate =
  ks_user :: 's
  ks_clock :: "nat \<Rightarrow> time"
  ks_ticks :: nat
  ks_uuids :: "nat \<Rightarrow> string option"
  ks_drawn :: nat
  ks_ctx :: "nat \<Rightarrow> err option"
  ks_asked :: nat
  ks_marks :: "(consumer_message \<times> string) list"
  ks_commits :: nat
  ks_received :: "64 word"
  ks_success :: "64 word"
  ks_decode_failed :: "64 word"
  ks_processing_failed :: "64 word"
  ks_dlq_writes :: "64 word"
  ks_events :: "event list"

definition on_user :: "('s, 'a) go \<Rightarrow> ('s kstate, 'a) go" where
  "on_user m = do {
     k \<leftarrow> State_Monad.get;
     (case run_state m (ks_user k) of (r, s) \<Rightarrow> do {
        _ \<leftarrow> State_Monad.set (k\<lparr>ks_user := s\<rparr>);
        State_Monad.return r }) }"

definition now_k :: "('s kstate, time) state" where
  "now_k = do {
     t \<leftarrow> reads (\<lambda>k. ks_clock k (ks_ticks k));
     _ \<leftarrow> modify (ks_ticks_update Suc);
     State_Monad.return t }"

definition uuid_k :: "('s kstate, string) go" where
  "uuid_k = do {
     u \<leftarrow> reads (\<lambda>k. ks_uuids k (ks_drawn k));
     _ \<leftarrow> modify (ks_drawn_update Suc);
     (case u of None \<Rightarrow> panic ''crypto/rand: unavailable'' | Some s \<Rightarrow> ok s) }"

definition ctx_err :: "('s kstate, err option) state" where
  "ctx_err = do {
     e \<leftarrow> reads (\<lambda>k. ks_ctx k (ks_asked k));
     _ \<leftarrow> modify (ks_asked_update Suc);
     State_Monad.return e }"

definition emit_k :: "event \<Rightarrow> ('s kstate, unit) state" where
  "emit_k e = modify (ks_events_update (\<lambda>es. es @ [e]))"

definition MarkMessage :: "consumer_message \<Rightarrow> string \<Rightarrow> ('s kstate, unit) state" where
  "MarkMessage m reason = modify (ks_marks_update (\<lambda>ms. ms @ [(m, reason)]))"

definition Commit :: "('s kstate, unit) state" where
  "Commit = modify (ks_commits_update Suc)"

section \<open>The consumer\<close>

text \<open>The type a message is decoded into, as \<open>reflect\<close> sees it.\<close>

datatype object_type = NilType | NonPointer string | Pointer string bool

type_synonym 's saver = "time option \<Rightarrow> dlq_message \<Rightarrow> ('s, unit) go"
type_synonym 's batch_saver = "time option \<Rightarrow> dlq_message list \<Rightarrow> ('s, unit) go"

record ('s, 'o) base_consumer =
  bc_groupID :: string
  bc_topic :: string
  bc_dlqSave :: bool
  bc_dlqRetries :: int
  bc_dlqTimeout :: time
  bc_batchEnabled :: bool
  bc_batchSize :: int
  bc_batchTimeout :: time
  bc_perMessageDebugLog :: bool
  bc_logEveryNMessages :: "64 word"
  bc_startedAt :: time
  bc_objectType :: object_type
  bc_unmarshal :: "string \<Rightarrow> err + 'o"
  bc_execFunction :: "'o \<Rightarrow> (string \<rightharpoonup> string) \<Rightarrow> ('s, unit) go"
  bc_saveFunction :: "'s saver"
  bc_saveBatchFunction :: "'s batch_saver option"
  bc_startSessionOptions :: "('s kstate, unit) go list"
  bc_stopSessionOptions :: "('s kstate, unit) go list"

datatype status = Success | DecodeFailed | ProcessingFailed

fun status_text :: "status \<Rightarrow> string" where
  "status_text Success = ''success''"
| "status_text DecodeFailed = ''decode_failed''"
| "status_text ProcessingFailed = ''processing_failed''"

record processing_result =
  mr_message :: consumer_message
  mr_status :: status
  mr_startedAt :: time
  mr_processingErr :: "err option"
  mr_dlqMessage :: "dlq_message option"
  mr_markReason :: string
  mr_logMessage :: string

definition NewMapValues :: "(string \<times> string) list \<Rightarrow> string \<rightharpoonup> string" where
  "NewMapValues headers = fold (\<lambda>(k, v) values. values(k \<mapsto> v)) headers (\<lambda>_. None)"

definition newMessageObject :: "object_type \<Rightarrow> err + unit" where
  "newMessageObject t =
     (case t of
        NilType \<Rightarrow> Inl (Sentinel (Dql ErrMessageObjectTypeNil))
      | NonPointer name \<Rightarrow>
          Inl (Wrapped (dql_err_text ErrMessageObjectTypePointer @ '': type='' @ name) [Sentinel (Dql ErrMessageObjectTypePointer)])
      | Pointer name fits \<Rightarrow>
          (if fits then Inr ()
           else Inl (Wrapped (dql_err_text ErrCreateMessageObject @ '': type='' @ name) [Sentinel (Dql ErrCreateMessageObject)])))"

definition metric_k :: "('s, 'o) base_consumer \<Rightarrow> string \<Rightarrow> string list \<Rightarrow> ('s kstate, unit) state" where
  "metric_k b name labels = emit_k (Metric (''dlq_consumer_'' @ name) (bc_groupID b # bc_topic b # labels))"

definition log_k :: "string \<Rightarrow> string \<Rightarrow> ('s kstate, unit) state" where
  "log_k level m = emit_k (LogLine level m)"

section \<open>One message\<close>

definition newDLQMessage :: "consumer_message \<Rightarrow> dql_err \<Rightarrow> err \<Rightarrow> ('s kstate, dlq_message) go" where
  "newDLQMessage message e description = do {
     now \<leftarrow> now_k;
     andThen uuid_k (\<lambda>i. ok
       \<lparr>dm_ID = i, dm_Topic = cm_Topic message, dm_Partition = cm_Partition message, dm_Offset = cm_Offset message,
        dm_ObjectIndex = 0, dm_Payload = cm_Value message, dm_Status = [], dm_AttemptNumber = 1, dm_LastAttemptError = dql_err_text e,
        dm_LastAttemptErrorDescription = err_text description, dm_LastAttemptTime = now, dm_Deleted = False,
        dm_CreatedAt = now, dm_UpdatedAt = now\<rparr>) }"

definition failed_result ::
  "consumer_message \<Rightarrow> time \<Rightarrow> status \<Rightarrow> dql_err \<Rightarrow> err \<Rightarrow> string \<Rightarrow> ('s kstate, processing_result) go" where
  "failed_result message startedAt st e cause line =
     andThen (newDLQMessage message e cause) (\<lambda>d. ok
       \<lparr>mr_message = message, mr_status = st, mr_startedAt = startedAt, mr_processingErr = Some cause,
        mr_dlqMessage = Some d, mr_markReason = dql_err_text e, mr_logMessage = line\<rparr>)"

text \<open>The part of \<open>processMessage\<close> after the received message has been counted.\<close>

definition decide :: "('s, 'o) base_consumer \<Rightarrow> consumer_message \<Rightarrow> time \<Rightarrow> ('s kstate, processing_result) go" where
  "decide b message startedAt =
     (case newMessageObject (bc_objectType b) of
        Inl e \<Rightarrow> after (log_k ''error'' ''Failed to initialize message object'') (fail e)
      | Inr _ \<Rightarrow>
          (case bc_unmarshal b (cm_Value message) of
             Inl e \<Rightarrow> failed_result message startedAt DecodeFailed ErrMessageUnmarshal e
                        ''Kafka message decode failed, message queued for DLQ batch save''
           | Inr object \<Rightarrow>
               call (on_user (bc_execFunction b object (NewMapValues (cm_Headers message)))) (\<lambda>r. case r of
                 Inl e \<Rightarrow> failed_result message startedAt ProcessingFailed ErrMessageProcessingFailed e
                            ''Kafka message processing failed, message queued for DLQ batch save''
               | Inr _ \<Rightarrow> ok
                   \<lparr>mr_message = message, mr_status = Success, mr_startedAt = startedAt, mr_processingErr = None,
                    mr_dlqMessage = None, mr_markReason = ''success message processing'', mr_logMessage = []\<rparr>)))"

definition processMessage :: "('s, 'o) base_consumer \<Rightarrow> consumer_message \<Rightarrow> ('s kstate, processing_result) go" where
  "processMessage b message = do {
     startedAt \<leftarrow> now_k;
     _ \<leftarrow> metric_k b ''messages_received_total'' [];
     _ \<leftarrow> modify (ks_received_update (\<lambda>n. n + 1));
     _ \<leftarrow> (if bc_perMessageDebugLog b then log_k ''debug'' ''Kafka message received'' else State_Monad.return ());
     decide b message startedAt }"

section \<open>The dead-letter queue\<close>

definition stamp :: "int \<Rightarrow> time \<Rightarrow> dlq_message \<Rightarrow> dlq_message" where
  "stamp attempt now d = d\<lparr>dm_AttemptNumber := word_of_int attempt, dm_LastAttemptTime := now, dm_UpdatedAt := now\<rparr>"

definition call_deadline :: "('s, 'o) base_consumer \<Rightarrow> time option" where
  "call_deadline b = (if bc_dlqTimeout b > 0 then Some (bc_dlqTimeout b) else None)"

text \<open>The attempts that are left, the number of the next one and the error of the last.\<close>

primrec save_attempts ::
  "nat \<Rightarrow> int \<Rightarrow> err option \<Rightarrow> dlq_message list \<Rightarrow> (dlq_message list \<Rightarrow> ('s, unit) go) \<Rightarrow> ('s kstate, unit) go" where
  "save_attempts 0 attempt lastErr objects saveFn = (case lastErr of None \<Rightarrow> ok () | Some e \<Rightarrow> fail e)"
| "save_attempts (Suc n) attempt lastErr objects saveFn = do {
     now \<leftarrow> now_k;
     call (on_user (saveFn (map (stamp attempt now) objects))) (\<lambda>r. case r of
       Inr _ \<Rightarrow> ok ()
     | Inl e \<Rightarrow> do {
         c \<leftarrow> ctx_err;
         (case c of Some ce \<Rightarrow> fail ce | None \<Rightarrow> save_attempts n (attempt + 1) (Some e) objects saveFn) }) }"

definition runDLQSaveWithRetry ::
  "('s, 'o) base_consumer \<Rightarrow> dlq_message list \<Rightarrow> (dlq_message list \<Rightarrow> ('s, unit) go) \<Rightarrow> ('s kstate, unit) go" where
  "runDLQSaveWithRetry b objects saveFn =
     save_attempts (nat (if bc_dlqRetries b < 1 then 1 else bc_dlqRetries b)) 1 None objects saveFn"

definition last_error :: "processing_result \<Rightarrow> string" where
  "last_error r = (case mr_dlqMessage r of None \<Rightarrow> [] | Some d \<Rightarrow> dm_LastAttemptError d)"

primrec dlq_written :: "('s, 'o) base_consumer \<Rightarrow> processing_result list \<Rightarrow> ('s kstate, unit) state" where
  "dlq_written b [] = State_Monad.return ()"
| "dlq_written b (r # rs) = do {
     _ \<leftarrow> metric_k b ''dlq_writes_total'' [''success'', last_error r];
     _ \<leftarrow> modify (ks_dlq_writes_update (\<lambda>n. n + 1));
     dlq_written b rs }"

definition logDLQBatchSuccess :: "('s, 'o) base_consumer \<Rightarrow> processing_result list \<Rightarrow> string \<Rightarrow> ('s kstate, unit) state" where
  "logDLQBatchSuccess b failedResults reason = do {
     _ \<leftarrow> dlq_written b failedResults;
     log_k ''info'' ''DLQ batch persisted successfully'' }"

primrec dlq_lost :: "('s, 'o) base_consumer \<Rightarrow> processing_result list \<Rightarrow> ('s kstate, unit) state" where
  "dlq_lost b [] = State_Monad.return ()"
| "dlq_lost b (r # rs) = do {
     _ \<leftarrow> metric_k b ''dlq_writes_total'' [''failed'', last_error r];
     dlq_lost b rs }"

definition logDLQBatchFailure ::
  "('s, 'o) base_consumer \<Rightarrow> processing_result list \<Rightarrow> err \<Rightarrow> string \<Rightarrow> ('s kstate, unit) state" where
  "logDLQBatchFailure b failedResults e reason = do {
     _ \<leftarrow> dlq_lost b failedResults;
     log_k ''error'' ''Failed to persist DLQ batch'' }"

text \<open>The messages one by one; the first that cannot be saved ends it.\<close>

primrec save_each ::
  "('s, 'o) base_consumer \<Rightarrow> processing_result list \<Rightarrow> string \<Rightarrow> processing_result list \<Rightarrow> ('s kstate, unit) go" where
  "save_each b failedResults reason [] = ok ()"
| "save_each b failedResults reason (r # rs) =
     call (runDLQSaveWithRetry b [the (mr_dlqMessage r)] (\<lambda>ds. bc_saveFunction b (call_deadline b) (hd ds))) (\<lambda>x. case x of
       Inl e \<Rightarrow> after (logDLQBatchFailure b failedResults e reason) (fail (wrap2 (Dql ErrSaveMessageToDLQDatabase) e))
     | Inr _ \<Rightarrow>
         after (metric_k b ''dlq_writes_total'' [''success'', last_error r])
           (after (modify (ks_dlq_writes_update (\<lambda>n. n + 1))) (save_each b failedResults reason rs)))"

definition persistFailedBatch :: "('s, 'o) base_consumer \<Rightarrow> processing_result list \<Rightarrow> string \<Rightarrow> ('s kstate, unit) go" where
  "persistFailedBatch b failedResults reason =
     (if failedResults = [] then ok ()
      else if \<not> bc_dlqSave b then
        after (log_k ''warn'' ''DLQ save is disabled, failed messages will not be persisted'') (ok ())
      else case bc_saveBatchFunction b of
        Some saveBatch \<Rightarrow>
          call (runDLQSaveWithRetry b (map (the \<circ> mr_dlqMessage) failedResults) (saveBatch (call_deadline b))) (\<lambda>x. case x of
            Inl e \<Rightarrow> after (logDLQBatchFailure b failedResults e reason) (fail (wrap2 (Dql ErrSaveMessageToDLQDatabase) e))
          | Inr _ \<Rightarrow> after (logDLQBatchSuccess b failedResults reason) (ok ()))
      | None \<Rightarrow>
          andThen (save_each b failedResults reason failedResults) (\<lambda>_.
            after (log_k ''info'' ''Messages persisted to DLQ storage sequentially'') (ok ())))"

section \<open>Marking\<close>

definition logProgressIfNeeded :: "('s, 'o) base_consumer \<Rightarrow> status \<Rightarrow> ('s kstate, unit) state" where
  "logProgressIfNeeded b lastStatus = do {
     total \<leftarrow> reads (\<lambda>k. ks_success k + ks_decode_failed k + ks_processing_failed k);
     (if total = 0 \<or> bc_logEveryNMessages b = 0 \<or> total mod bc_logEveryNMessages b \<noteq> 0 then State_Monad.return ()
      else do { _ \<leftarrow> now_k; log_k ''info'' ''Kafka consumer progress'' }) }"

definition count_k :: "status \<Rightarrow> ('s kstate, unit) state" where
  "count_k st =
     modify (case st of
       Success \<Rightarrow> ks_success_update (\<lambda>n. n + 1)
     | DecodeFailed \<Rightarrow> ks_decode_failed_update (\<lambda>n. n + 1)
     | ProcessingFailed \<Rightarrow> ks_processing_failed_update (\<lambda>n. n + 1))"

text \<open>The partitions that are blocked are handed on.\<close>

definition finalize_failed :: "('s, 'o) base_consumer \<Rightarrow> processing_result \<Rightarrow> 32 word list \<Rightarrow> ('s kstate, 32 word list) state" where
  "finalize_failed b result blocked =
     (let partition = cm_Partition (mr_message result) in do {
        _ \<leftarrow> log_k (if mr_status result = DecodeFailed then ''warn'' else ''error'') (mr_logMessage result);
        blocked' \<leftarrow>
          (if bc_dlqSave b \<and> partition \<notin> set blocked
           then do { _ \<leftarrow> MarkMessage (mr_message result) (mr_markReason result); State_Monad.return blocked }
           else do {
             _ \<leftarrow> log_k ''warn'' (if \<not> bc_dlqSave b then ''Kafka message commit skipped because DLQ save is disabled''
                    else ''Kafka message commit skipped because partition commit is blocked by previous failure'');
             State_Monad.return (if partition \<in> set blocked then blocked else partition # blocked) });
        _ \<leftarrow> logProgressIfNeeded b (mr_status result);
        State_Monad.return blocked' })"

definition finalize_success :: "('s, 'o) base_consumer \<Rightarrow> processing_result \<Rightarrow> 32 word list \<Rightarrow> ('s kstate, 32 word list) state" where
  "finalize_success b result blocked = do {
     _ \<leftarrow> (if cm_Partition (mr_message result) \<in> set blocked
          then log_k ''warn'' ''Kafka message commit skipped because partition commit is blocked by previous failure''
          else MarkMessage (mr_message result) (mr_markReason result));
     _ \<leftarrow> (if bc_perMessageDebugLog b then log_k ''debug'' ''Kafka message processed successfully'' else State_Monad.return ());
     _ \<leftarrow> logProgressIfNeeded b Success;
     State_Monad.return blocked }"

definition finalizeMessage :: "('s, 'o) base_consumer \<Rightarrow> processing_result \<Rightarrow> 32 word list \<Rightarrow> ('s kstate, 32 word list) state" where
  "finalizeMessage b result blocked = do {
     _ \<leftarrow> metric_k b ''messages_processed_total'' [status_text (mr_status result)];
     now \<leftarrow> now_k;
     _ \<leftarrow> emit_k (Sample ''dlq_consumer_processing_duration_seconds'' [bc_groupID b, bc_topic b, status_text (mr_status result)]
            (now - mr_startedAt result));
     _ \<leftarrow> count_k (mr_status result);
     (if mr_status result = Success then finalize_success b result blocked else finalize_failed b result blocked) }"

primrec finalize_all :: "('s, 'o) base_consumer \<Rightarrow> processing_result list \<Rightarrow> 32 word list \<Rightarrow> ('s kstate, unit) state" where
  "finalize_all b [] blocked = State_Monad.return ()"
| "finalize_all b (r # rs) blocked = do { blocked' \<leftarrow> finalizeMessage b r blocked; finalize_all b rs blocked' }"

section \<open>A batch\<close>

primrec process_all :: "('s, 'o) base_consumer \<Rightarrow> consumer_message list \<Rightarrow> ('s kstate, processing_result list) go" where
  "process_all b [] = ok []"
| "process_all b (m # ms) =
     andThen (processMessage b m) (\<lambda>r. andThen (process_all b ms) (\<lambda>rs. ok (r # rs)))"

definition processBatch :: "('s, 'o) base_consumer \<Rightarrow> consumer_message list \<Rightarrow> string \<Rightarrow> ('s kstate, unit) go" where
  "processBatch b messages reason =
     andThen (process_all b messages) (\<lambda>results.
       andThen (persistFailedBatch b (filter (\<lambda>r. mr_dlqMessage r \<noteq> None) results) reason) (\<lambda>_.
         after (finalize_all b results []) (ok ())))"

section \<open>claim_mode.go\<close>

text \<open>
  A mode is a single message at a time, or the batch that is being collected with its timer:
  \<open>None\<close> before there is one, else whether it is running.
\<close>

record batch_state =
  bm_messages :: "consumer_message list"
  bm_timer :: "bool option"

datatype claim_mode = SingleMode | BatchMode batch_state

definition newClaimMode :: "('s, 'o) base_consumer \<Rightarrow> ('s kstate, claim_mode) state" where
  "newClaimMode b =
     (if bc_batchEnabled b \<and> bc_batchSize b > 1
      then do {
        _ \<leftarrow> log_k ''info'' ''Kafka consumer batch mode enabled'';
        State_Monad.return (BatchMode \<lparr>bm_messages = [], bm_timer = None\<rparr>) }
      else State_Monad.return SingleMode)"

definition resetTimer :: "('s, 'o) base_consumer \<Rightarrow> batch_state \<Rightarrow> batch_state" where
  "resetTimer b m = (if bc_batchTimeout b \<le> 0 then m else m\<lparr>bm_timer := Some True\<rparr>)"

definition stopTimer :: "batch_state \<Rightarrow> batch_state" where
  "stopTimer m = m\<lparr>bm_timer := map_option (\<lambda>_. False) (bm_timer m)\<rparr>"

text \<open>The channel of the timer can only be received from when there are messages and it has been started.\<close>

definition timer_ready :: "claim_mode \<Rightarrow> bool" where
  "timer_ready mode =
     (case mode of SingleMode \<Rightarrow> False | BatchMode m \<Rightarrow> bm_timer m = Some True \<and> bm_messages m \<noteq> [])"

definition HandleFlush :: "('s, 'o) base_consumer \<Rightarrow> claim_mode \<Rightarrow> string \<Rightarrow> ('s kstate, claim_mode) go" where
  "HandleFlush b mode reason =
     (case mode of
        SingleMode \<Rightarrow> ok SingleMode
      | BatchMode m \<Rightarrow>
          (if bm_messages m = [] then ok (BatchMode m)
           else do {
             startedAt \<leftarrow> now_k;
             _ \<leftarrow> metric_k b ''batches_processed_total'' [reason];
             _ \<leftarrow> emit_k (Sample ''dlq_consumer_batch_size'' [bc_groupID b, bc_topic b] (int (length (bm_messages m))));
             _ \<leftarrow> log_k ''debug'' ''Kafka consumer processing batch'';
             andThen (processBatch b (bm_messages m) reason) (\<lambda>_. do {
               now \<leftarrow> now_k;
               _ \<leftarrow> emit_k (Sample ''dlq_consumer_batch_duration_seconds'' [bc_groupID b, bc_topic b, reason] (now - startedAt));
               ok (BatchMode (stopTimer (m\<lparr>bm_messages := []\<rparr>))) }) }))"

definition HandleMessage :: "('s, 'o) base_consumer \<Rightarrow> claim_mode \<Rightarrow> consumer_message \<Rightarrow> ('s kstate, claim_mode) go" where
  "HandleMessage b mode message =
     (case mode of
        SingleMode \<Rightarrow> andThen (processBatch b [message] ''single'') (\<lambda>_. ok SingleMode)
      | BatchMode m \<Rightarrow>
          (let m' = m\<lparr>bm_messages := bm_messages m @ [message]\<rparr>;
               m'' = (if length (bm_messages m') = 1 then resetTimer b m' else m') in
           if int (length (bm_messages m'')) < bc_batchSize b then ok (BatchMode m'')
           else HandleFlush b (BatchMode m'') ''batch_size''))"

section \<open>The claim\<close>

definition stopOnClaimClosed :: "('s, 'o) base_consumer \<Rightarrow> ('s kstate, unit) go" where
  "stopOnClaimClosed b =
     after (metric_k b ''session_stops_total'' [''rebalance''])
       (after (log_k ''info'' ''Kafka consumer claim channel closed, rebalancing'') (ok ()))"

definition stopOnContextDone :: "('s, 'o) base_consumer \<Rightarrow> ('s kstate, unit) go" where
  "stopOnContextDone b =
     after (metric_k b ''session_stops_total'' [''context_done''])
       (after (log_k ''info'' ''Kafka consumer session context done, committing offsets'')
         (after Commit (ok ())))"

text \<open>
  What the \<open>select\<close> of \<open>ConsumeClaim\<close> receives, in turn. The claim is left at the first error,
  when its channel is closed and when the session ends; \<open>False\<close> means it still waits.
\<close>

datatype claim_input = Received consumer_message | ClaimClosed | TimerFired | SessionDone

fun claim_loop :: "('s, 'o) base_consumer \<Rightarrow> claim_mode \<Rightarrow> claim_input list \<Rightarrow> ('s kstate, bool) go" where
  "claim_loop b mode [] = ok False"
| "claim_loop b mode (Received message # rest) = andThen (HandleMessage b mode message) (\<lambda>mode'. claim_loop b mode' rest)"
| "claim_loop b mode (ClaimClosed # rest) =
     andThen (HandleFlush b mode ''claim_closed'') (\<lambda>_. andThen (stopOnClaimClosed b) (\<lambda>_. ok True))"
| "claim_loop b mode (TimerFired # rest) =
     (if timer_ready mode
      then andThen (HandleFlush b mode ''batch_timeout'') (\<lambda>mode'. claim_loop b mode' rest)
      else claim_loop b mode rest)"
| "claim_loop b mode (SessionDone # rest) =
     andThen (HandleFlush b mode ''context_done'') (\<lambda>_. andThen (stopOnContextDone b) (\<lambda>_. ok True))"

definition ConsumeClaim :: "('s, 'o) base_consumer \<Rightarrow> claim_input list \<Rightarrow> ('s kstate, bool) go" where
  "ConsumeClaim b inputs = do { mode \<leftarrow> newClaimMode b; claim_loop b mode inputs }"

section \<open>The session\<close>

primrec run_options :: "string \<Rightarrow> ('s kstate, unit) go list \<Rightarrow> ('s kstate, unit) go" where
  "run_options line [] = ok ()"
| "run_options line (f # fs) =
     call f (\<lambda>r. case r of Inl e \<Rightarrow> after (log_k ''error'' line) (fail e) | Inr _ \<Rightarrow> run_options line fs)"

definition Setup :: "('s, 'o) base_consumer \<Rightarrow> ('s kstate, unit) go" where
  "Setup b =
     after (emit_k (Sample ''dlq_consumer_active_sessions'' [bc_groupID b, bc_topic b] 1))
       (after (metric_k b ''session_starts_total'' [])
         (after (log_k ''info'' ''Kafka consumer session started'')
           (run_options ''Kafka consumer session setup option failed'' (bc_startSessionOptions b))))"

definition Cleanup :: "('s, 'o) base_consumer \<Rightarrow> ('s kstate, unit) go" where
  "Cleanup b =
     after (emit_k (Sample ''dlq_consumer_active_sessions'' [bc_groupID b, bc_topic b] (- 1)))
       (after (metric_k b ''session_stops_total'' [''cleanup''])
         (after (log_k ''info'' ''Kafka consumer session cleanup started'')
           (run_options ''Kafka consumer session cleanup option failed'' (bc_stopSessionOptions b))))"

end
