(* ===== verification/Metrics.thy ===== *)
theory Metrics
  imports TxManager
begin

text \<open>
  The Prometheus collectors of the packages and how they are registered: pkg/transaction-manager,
  pkg/adapters/kafka/producer, pkg/adapters/kafka/consumer/dql, internal/application/auth,
  internal/application/outbox, internal/adapters/primary/grpc/auth. The registry is the one of
  client_golang: descriptors are told apart by name and constant label values, and those of one
  name must agree in their labels and help text.
\<close>

section \<open>A registry\<close>

record desc =
  ds_name :: string
  ds_help :: string
  ds_labels :: "string list"
  ds_const :: "(string \<times> string) list"

record collector =
  co_ref :: nat
  co_kind :: collector_kind
  co_descs :: "desc list"

definition desc_id :: "desc \<Rightarrow> string \<times> string list" where
  "desc_id d = (ds_name d, map snd (ds_const d))"

definition desc_dim :: "desc \<Rightarrow> string \<times> string list \<times> string set" where
  "desc_dim d = (ds_help d, map fst (ds_const d), set (ds_labels d))"

text \<open>The identity of a collector, as the set of the identities of its descriptors.\<close>

definition collector_id :: "collector \<Rightarrow> (string \<times> string list) set" where
  "collector_id c = desc_id ` set (co_descs c)"

definition inconsistent :: "desc list \<Rightarrow> desc \<Rightarrow> bool" where
  "inconsistent known d \<longleftrightarrow> list_ex (\<lambda>e. ds_name e = ds_name d \<and> desc_dim e \<noteq> desc_dim d) known"

definition register_in :: "collector list \<Rightarrow> collector \<Rightarrow> collector register_result" where
  "register_in reg c =
     (if list_ex (inconsistent (concat (map co_descs reg) @ co_descs c)) (co_descs c)
      then RegisterFailed ''a previously registered descriptor has different label names or a different help string''
      else case find (\<lambda>e. collector_id e = collector_id c) reg of
        Some e \<Rightarrow> AlreadyRegistered (co_kind e) e
      | None \<Rightarrow>
          (if list_ex (\<lambda>d. desc_id d \<in> desc_id ` set (concat (map co_descs reg))) (co_descs c)
           then RegisterFailed ''descriptor already exists with the same fully-qualified name and const label values''
           else Registered))"

text \<open>
  The registries by name, the number of collectors made so far, and the metrics each package keeps
  for the default registry.
\<close>

record tx_metrics =
  tx_activeTransactions :: collector
  tx_transactionsTotal :: collector
  tx_transactionLatency :: collector

record kafka_metrics =
  km_operationsTotal :: collector
  km_operationDuration :: collector
  km_payloadBytes :: collector
  km_asyncEvents :: collector
  km_messagesTotal :: collector

record consumer_metrics =
  cs_activeSessions :: collector
  cs_sessionStarts :: collector
  cs_sessionStops :: collector
  cs_consumeRestarts :: collector
  cs_batchesProcessed :: collector
  cs_batchSize :: collector
  cs_batchDuration :: collector
  cs_messagesReceived :: collector
  cs_messagesProcessed :: collector
  cs_dlqWrites :: collector
  cs_processingDuration :: collector

record prom =
  pr_registries :: "string \<Rightarrow> collector list"
  pr_made :: nat
  pr_default_tx :: "tx_metrics option"
  pr_default_producer :: "kafka_metrics option"
  pr_default_consumer :: "consumer_metrics option"

definition DefaultRegisterer :: string where
  "DefaultRegisterer = ''prometheus.DefaultRegisterer''"

definition Register_with :: "string \<Rightarrow> collector \<Rightarrow> (prom, collector register_result) state" where
  "Register_with r c = do {
     p \<leftarrow> State_Monad.get;
     _ \<leftarrow> (case register_in (pr_registries p r) c of
            Registered \<Rightarrow> modify (pr_registries_update (\<lambda>rs. rs(r := rs r @ [c])))
          | _ \<Rightarrow> State_Monad.return ());
     State_Monad.return (register_in (pr_registries p r) c) }"

section \<open>Vectors\<close>

record vec_opts =
  vo_kind :: collector_kind
  vo_namespace :: string
  vo_name :: string
  vo_help :: string
  vo_labels :: "string list"

definition BuildFQName :: "string \<Rightarrow> string \<Rightarrow> string \<Rightarrow> string" where
  "BuildFQName namespace subsystem name =
     (if name = [] then []
      else (if namespace = [] then [] else namespace @ ''_'') @ (if subsystem = [] then [] else subsystem @ ''_'') @ name)"

definition vec_desc :: "vec_opts \<Rightarrow> desc" where
  "vec_desc o' =
     \<lparr>ds_name = BuildFQName (vo_namespace o') [] (vo_name o'), ds_help = vo_help o', ds_labels = vo_labels o', ds_const = []\<rparr>"

definition new_vec :: "vec_opts \<Rightarrow> (prom, collector) state" where
  "new_vec o' = do {
     n \<leftarrow> reads pr_made;
     _ \<leftarrow> modify (pr_made_update Suc);
     State_Monad.return \<lparr>co_ref = n, co_kind = vo_kind o', co_descs = [vec_desc o']\<rparr> }"

text \<open>A vector that must be registered, or be registered already, or the program panics.\<close>

definition must_vec :: "string \<Rightarrow> vec_opts \<Rightarrow> (prom, collector) go" where
  "must_vec r o' = do {
     c \<leftarrow> new_vec o';
     answer \<leftarrow> Register_with r c;
     State_Monad.return (mustRegister (vo_kind o') (\<lambda>_. answer) c) }"

text \<open>A vector whose registration may fail: it is then used without being registered.\<close>

definition try_vec :: "string \<Rightarrow> collector \<Rightarrow> (prom, collector) state" where
  "try_vec r c = do {
     answer \<leftarrow> Register_with r c;
     State_Monad.return (case answer of
       AlreadyRegistered k existing \<Rightarrow> (if k = co_kind c then existing else c)
     | _ \<Rightarrow> c) }"

primrec must_vecs :: "string \<Rightarrow> vec_opts list \<Rightarrow> (prom, collector list) go" where
  "must_vecs r [] = ok []"
| "must_vecs r (v # vs) = andThen (must_vec r v) (\<lambda>c. andThen (must_vecs r vs) (\<lambda>cs. ok (c # cs)))"

section \<open>The packages that must register\<close>

definition vec :: "collector_kind \<Rightarrow> string \<Rightarrow> string \<Rightarrow> string \<Rightarrow> string list \<Rightarrow> vec_opts" where
  "vec k ns name help labels = \<lparr>vo_kind = k, vo_namespace = ns, vo_name = name, vo_help = help, vo_labels = labels\<rparr>"

definition tx_vecs :: "vec_opts list" where
  "tx_vecs =
     [vec GaugeVec ''transaction_manager'' ''active_transactions''
        ''Current number of active transactions handled by the transaction manager.'' [''method'', ''access_mode'', ''isolation''],
      vec CounterVec ''transaction_manager'' ''transactions_total''
        ''Total number of transactions handled by the transaction manager grouped by outcome.''
        [''method'', ''outcome'', ''access_mode'', ''isolation''],
      vec HistogramVec ''transaction_manager'' ''transaction_duration_seconds''
        ''Duration of transaction manager operations grouped by outcome.'' [''method'', ''outcome'', ''access_mode'', ''isolation'']]"

definition tx_newMetrics :: "string \<Rightarrow> (prom, tx_metrics) go" where
  "tx_newMetrics r = andThen (must_vecs r tx_vecs) (\<lambda>cs. ok
     \<lparr>tx_activeTransactions = cs ! 0, tx_transactionsTotal = cs ! 1, tx_transactionLatency = cs ! 2\<rparr>)"

text \<open>The metrics of the default registry are made once: \<open>sync.Once\<close>.\<close>

definition tx_resolveMetrics :: "string option \<Rightarrow> (prom, tx_metrics) go" where
  "tx_resolveMetrics registerer =
     (case registerer of
        Some r \<Rightarrow> tx_newMetrics r
      | None \<Rightarrow> do {
          known \<leftarrow> reads pr_default_tx;
          (case known of
             Some m \<Rightarrow> ok m
           | None \<Rightarrow> andThen (tx_newMetrics DefaultRegisterer) (\<lambda>m. after (modify (pr_default_tx_update (\<lambda>_. Some m))) (ok m))) })"

definition producer_vecs :: "vec_opts list" where
  "producer_vecs =
     [vec CounterVec ''kafka_producer'' ''operations_total''
        ''Total number of producer operations by type, topic, operation and status.''
        [''producer_type'', ''topic'', ''operation'', ''status''],
      vec HistogramVec ''kafka_producer'' ''operation_duration_seconds''
        ''Duration of producer operations in seconds.'' [''producer_type'', ''topic'', ''operation'', ''status''],
      vec HistogramVec ''kafka_producer'' ''payload_bytes''
        ''Payload size in bytes for messages sent by producers.'' [''producer_type'', ''topic''],
      vec CounterVec ''kafka_producer'' ''async_events_total''
        ''Total number of async producer queue, ack and error events.'' [''topic'', ''event''],
      vec CounterVec ''kafka_producer'' ''messages_total''
        ''Total number of producer messages by producer type, topic and delivery status.'' [''producer_type'', ''topic'', ''status'']]"

definition NewProducerMetrics :: "string \<Rightarrow> (prom, kafka_metrics) go" where
  "NewProducerMetrics r = andThen (must_vecs r producer_vecs) (\<lambda>cs. ok
     \<lparr>km_operationsTotal = cs ! 0, km_operationDuration = cs ! 1, km_payloadBytes = cs ! 2, km_asyncEvents = cs ! 3,
      km_messagesTotal = cs ! 4\<rparr>)"

definition ResolveProducerMetrics :: "(prom, kafka_metrics) go" where
  "ResolveProducerMetrics = do {
     known \<leftarrow> reads pr_default_producer;
     (case known of
        Some m \<Rightarrow> ok m
      | None \<Rightarrow> andThen (NewProducerMetrics DefaultRegisterer)
          (\<lambda>m. after (modify (pr_default_producer_update (\<lambda>_. Some m))) (ok m))) }"

definition consumer_vecs :: "vec_opts list" where
  "consumer_vecs =
     [vec GaugeVec ''dlq_consumer'' ''active_sessions'' ''Number of active Kafka consumer sessions.'' [''group_id'', ''topic''],
      vec CounterVec ''dlq_consumer'' ''session_starts_total'' ''Total number of Kafka consumer group sessions started.''
        [''group_id'', ''topic''],
      vec CounterVec ''dlq_consumer'' ''session_stops_total'' ''Total number of Kafka consumer group sessions stopped.''
        [''group_id'', ''topic'', ''status''],
      vec CounterVec ''dlq_consumer'' ''restarts_total'' ''Total number of consumer loop restarts.''
        [''group_id'', ''topic'', ''reason''],
      vec CounterVec ''dlq_consumer'' ''batches_processed_total'' ''Total number of processed batches.''
        [''group_id'', ''topic'', ''reason''],
      vec HistogramVec ''dlq_consumer'' ''batch_size'' ''Histogram of processed batch sizes.'' [''group_id'', ''topic''],
      vec HistogramVec ''dlq_consumer'' ''batch_duration_seconds'' ''Batch processing duration in seconds.''
        [''group_id'', ''topic'', ''reason''],
      vec CounterVec ''dlq_consumer'' ''messages_received_total'' ''Total number of Kafka messages received by the consumer.''
        [''group_id'', ''topic''],
      vec CounterVec ''dlq_consumer'' ''messages_processed_total'' ''Total number of Kafka messages processed by outcome.''
        [''group_id'', ''topic'', ''status''],
      vec CounterVec ''dlq_consumer'' ''dlq_writes_total'' ''Total number of attempts to write a message to DLQ.''
        [''group_id'', ''topic'', ''status'', ''reason''],
      vec HistogramVec ''dlq_consumer'' ''processing_duration_seconds''
        ''Kafka consumer message processing duration by outcome.'' [''group_id'', ''topic'', ''status'']]"

definition newConsumerMetrics :: "string \<Rightarrow> (prom, consumer_metrics) go" where
  "newConsumerMetrics r = andThen (must_vecs r consumer_vecs) (\<lambda>cs. ok
     \<lparr>cs_activeSessions = cs ! 0, cs_sessionStarts = cs ! 1, cs_sessionStops = cs ! 2, cs_consumeRestarts = cs ! 3,
      cs_batchesProcessed = cs ! 4, cs_batchSize = cs ! 5, cs_batchDuration = cs ! 6, cs_messagesReceived = cs ! 7,
      cs_messagesProcessed = cs ! 8, cs_dlqWrites = cs ! 9, cs_processingDuration = cs ! 10\<rparr>)"

text \<open>The options of a dead-letter consumer, as far as its metrics go.\<close>

record 's consumer_options =
  co_registerer :: "string option"
  co_metrics :: "consumer_metrics option"
  co_saveBatch :: "'s option"

definition WithConsumerRegisterer :: "string option \<Rightarrow> 's consumer_options \<Rightarrow> 's consumer_options" where
  "WithConsumerRegisterer r opts = opts\<lparr>co_registerer := r\<rparr>"

definition WithConsumerMetrics :: "consumer_metrics option \<Rightarrow> 's consumer_options \<Rightarrow> 's consumer_options" where
  "WithConsumerMetrics m opts = opts\<lparr>co_metrics := m\<rparr>"

definition WithDLQBatchSaver :: "'s option \<Rightarrow> 's consumer_options \<Rightarrow> 's consumer_options" where
  "WithDLQBatchSaver s opts = opts\<lparr>co_saveBatch := s\<rparr>"

definition resolveConsumerMetrics :: "'s consumer_options \<Rightarrow> (prom, consumer_metrics) go" where
  "resolveConsumerMetrics opts =
     (case co_metrics opts of
        Some m \<Rightarrow> ok m
      | None \<Rightarrow>
          (case co_registerer opts of
             Some r \<Rightarrow> newConsumerMetrics r
           | None \<Rightarrow> do {
               known \<leftarrow> reads pr_default_consumer;
               (case known of
                  Some m \<Rightarrow> ok m
                | None \<Rightarrow> andThen (newConsumerMetrics DefaultRegisterer)
                    (\<lambda>m. after (modify (pr_default_consumer_update (\<lambda>_. Some m))) (ok m))) }))"

section \<open>The services\<close>

text \<open>The three services make a counter and a histogram, and register them after both are made.\<close>

record service_metrics =
  sm_counter :: collector
  sm_duration :: collector

definition registry_name :: "string option \<Rightarrow> string" where
  "registry_name registerer = (case registerer of None \<Rightarrow> DefaultRegisterer | Some r \<Rightarrow> r)"

definition new_service_metrics :: "vec_opts \<Rightarrow> vec_opts \<Rightarrow> string option \<Rightarrow> (prom, service_metrics) state" where
  "new_service_metrics counter duration registerer = do {
     c \<leftarrow> new_vec counter;
     d \<leftarrow> new_vec duration;
     c' \<leftarrow> try_vec (registry_name registerer) c;
     d' \<leftarrow> try_vec (registry_name registerer) d;
     State_Monad.return \<lparr>sm_counter = c', sm_duration = d'\<rparr> }"

definition auth_vecs :: "vec_opts list" where
  "auth_vecs =
     [vec CounterVec ''auth_service'' ''operations_total''
        ''Total number of auth application operations by method and status.'' [''method'', ''status''],
      vec HistogramVec ''auth_service'' ''operation_duration_seconds''
        ''Duration of auth application operations in seconds.'' [''method'', ''status'']]"

definition auth_newMetrics :: "string option \<Rightarrow> (prom, service_metrics) state" where
  "auth_newMetrics = new_service_metrics (auth_vecs ! 0) (auth_vecs ! 1)"

definition outbox_vecs :: "vec_opts list" where
  "outbox_vecs =
     [vec CounterVec ''auth_outbox'' ''iterations_total'' ''Total number of outbox worker iterations by status.'' [''status''],
      vec HistogramVec ''auth_outbox'' ''iteration_duration_seconds'' ''Outbox worker iteration duration in seconds.'' [''status'']]"

definition outbox_newMetrics :: "string option \<Rightarrow> (prom, service_metrics) state" where
  "outbox_newMetrics = new_service_metrics (outbox_vecs ! 0) (outbox_vecs ! 1)"

definition grpc_vecs :: "vec_opts list" where
  "grpc_vecs =
     [vec CounterVec ''auth_grpc'' ''requests_total'' ''Total number of gRPC auth requests by method and code.'' [''method'', ''code''],
      vec HistogramVec ''auth_grpc'' ''request_duration_seconds'' ''Duration of gRPC auth requests in seconds.'' [''method'', ''code'']]"

definition newServerMetrics :: "string option \<Rightarrow> (prom, service_metrics) state" where
  "newServerMetrics = new_service_metrics (grpc_vecs ! 0) (grpc_vecs ! 1)"

section \<open>What registering does\<close>

text \<open>The name of a vector is taken by nobody, or by one collector that is the same vector.\<close>

definition fq_name :: "vec_opts \<Rightarrow> string" where
  "fq_name v = ds_name (vec_desc v)"

definition named :: "string \<Rightarrow> collector \<Rightarrow> bool" where
  "named n c \<longleftrightarrow> n \<in> ds_name ` set (co_descs c)"

definition claimed :: "collector list \<Rightarrow> vec_opts \<Rightarrow> collector \<Rightarrow> bool" where
  "claimed reg v c \<longleftrightarrow> co_kind c = vo_kind v \<and> co_descs c = [vec_desc v] \<and> filter (named (fq_name v)) reg = [c]"

definition available :: "collector list \<Rightarrow> vec_opts \<Rightarrow> bool" where
  "available reg v \<longleftrightarrow> filter (named (fq_name v)) reg = [] \<or> (\<exists>c. claimed reg v c)"

lemma named_single [simp]: "co_descs c = [vec_desc v] \<Longrightarrow> named n c \<longleftrightarrow> n = fq_name v"
  by (auto simp: named_def fq_name_def)

lemma register_free:
  assumes "filter (named (fq_name v)) reg = []" "co_descs c = [vec_desc v]"
  shows "register_in reg c = Registered"
proof -
  have free: "ds_name d \<noteq> fq_name v" if "e \<in> set reg" "d \<in> set (co_descs e)" for e d
    using assms(1) that unfolding filter_empty_conv named_def by (metis image_eqI)
  have other: "desc_id (vec_desc v) \<notin> desc_id ` set (co_descs e)" if "e \<in> set reg" for e
  proof
    assume "desc_id (vec_desc v) \<in> desc_id ` set (co_descs e)"
    then obtain d where d: "d \<in> set (co_descs e)" "ds_name d = fq_name v" by (auto simp: desc_id_def fq_name_def)
    from free [OF that d(1)] d(2) show False by simp
  qed
  have "\<not> list_ex (inconsistent (concat (map co_descs reg) @ co_descs c)) (co_descs c)"
    using free by (auto simp: list_ex_iff inconsistent_def assms(2) fq_name_def)
  moreover have "find (\<lambda>e. collector_id e = collector_id c) reg = None"
  proof -
    have "collector_id e \<noteq> collector_id c" if "e \<in> set reg" for e
      using other [OF that] by (metis assms(2) collector_id_def image_insert insertI1 list.set(2))
    then show ?thesis by (auto simp: find_None_iff)
  qed
  moreover have "\<not> list_ex (\<lambda>d. desc_id d \<in> desc_id ` set (concat (map co_descs reg))) (co_descs c)"
    using other by (auto simp: assms(2))
  ultimately show ?thesis by (simp add: register_in_def)
qed

lemma register_claimed:
  assumes "claimed reg v e" "co_descs c = [vec_desc v]"
  shows "register_in reg c = AlreadyRegistered (vo_kind v) e"
proof -
  have e: "co_descs e = [vec_desc v]" "e \<in> set reg" "co_kind e = vo_kind v" and
    only: "x \<in> set reg \<Longrightarrow> d \<in> set (co_descs x) \<Longrightarrow> ds_name d = fq_name v \<Longrightarrow> x = e" for x d
  proof -
    have f: "filter (named (fq_name v)) reg = [e]" using assms(1) by (simp add: claimed_def)
    show "co_descs e = [vec_desc v]" "co_kind e = vo_kind v" using assms(1) by (simp_all add: claimed_def)
    have "e \<in> set (filter (named (fq_name v)) reg)" unfolding f by simp
    then show "e \<in> set reg" by simp
    assume "x \<in> set reg" "d \<in> set (co_descs x)" "ds_name d = fq_name v"
    then have "x \<in> set (filter (named (fq_name v)) reg)" by (simp add: named_def) (metis image_eqI)
    with f show "x = e" by simp
  qed
  have consistent: "\<not> list_ex (inconsistent (concat (map co_descs reg) @ co_descs c)) (co_descs c)"
  proof -
    have same: "d = vec_desc v" if d: "d \<in> set (concat (map co_descs reg) @ co_descs c)" "ds_name d = fq_name v" for d
    proof -
      from d(1) consider x where "x \<in> set reg" "d \<in> set (co_descs x)" | "d = vec_desc v" using assms(2) by auto
      then show ?thesis
      proof cases
        case 1
        from only [OF 1 d(2)] 1(2) e(1) show ?thesis by simp
      qed
    qed
    have "\<not> inconsistent (concat (map co_descs reg) @ co_descs c) (vec_desc v)"
      unfolding inconsistent_def list_ex_iff fq_name_def [symmetric] using same by blast
    then show ?thesis by (simp add: assms(2))
  qed
  have "find (\<lambda>x. collector_id x = collector_id c) reg = Some e"
  proof (cases "find (\<lambda>x. collector_id x = collector_id c) reg")
    case None
    with e assms(2) show ?thesis by (auto simp: find_None_iff collector_id_def)
  next
    case (Some x)
    then have x: "x \<in> set reg" "desc_id ` set (co_descs x) = {desc_id (vec_desc v)}"
      using assms(2) by (auto simp: find_Some_iff collector_id_def)
    then obtain d where "d \<in> set (co_descs x)" "desc_id d = desc_id (vec_desc v)" by (metis image_iff insertI1)
    then have "x = e" using only [OF x(1)] by (simp add: desc_id_def fq_name_def)
    with Some show ?thesis by simp
  qed
  with consistent e show ?thesis by (simp add: register_in_def)
qed

text \<open>
  Vectors are registered in one registry: they are claimed by the collectors returned, other names
  and other registries are left alone, and vectors that were claimed before stay as they are.
\<close>

definition registered :: "string \<Rightarrow> prom \<Rightarrow> vec_opts list \<Rightarrow> collector list \<Rightarrow> prom \<Rightarrow> bool" where
  "registered r p vs cs p' \<longleftrightarrow> list_all2 (claimed (pr_registries p' r)) vs cs
    \<and> (\<forall>n. n \<notin> set (map fq_name vs) \<longrightarrow> filter (named n) (pr_registries p' r) = filter (named n) (pr_registries p r))
    \<and> (\<forall>ds. list_all2 (claimed (pr_registries p r)) vs ds \<longrightarrow> ds = cs \<and> pr_registries p' = pr_registries p)
    \<and> (\<forall>q. q \<noteq> r \<longrightarrow> pr_registries p' q = pr_registries p q)"

definition new_collector :: "prom \<Rightarrow> vec_opts \<Rightarrow> collector" where
  "new_collector p v = \<lparr>co_ref = pr_made p, co_kind = vo_kind v, co_descs = [vec_desc v]\<rparr>"

lemma new_collector_sel [simp]: "co_descs (new_collector p v) = [vec_desc v]" "co_kind (new_collector p v) = vo_kind v"
  by (simp_all add: new_collector_def)

lemma run_new_vec: "run_state (new_vec v) p = (new_collector p v, pr_made_update Suc p)"
  by (simp add: new_vec_def new_collector_def run_rules)

lemma run_Register_with:
  "run_state (Register_with r c) p =
     (register_in (pr_registries p r) c,
      case register_in (pr_registries p r) c of
        Registered \<Rightarrow> pr_registries_update (\<lambda>rs. rs(r := rs r @ [c])) p
      | _ \<Rightarrow> p)"
  by (simp add: Register_with_def run_rules split: register_result.split)

lemma registered_new:
  assumes "filter (named (fq_name v)) (pr_registries p r) = []" "co_descs c = [vec_desc v]" "co_kind c = vo_kind v"
    and "pr_registries p' = (pr_registries p)(r := pr_registries p r @ [c])"
  shows "registered r p [v] [c] p'"
  using assms by (auto simp: registered_def claimed_def list_all2_Cons1)

lemma claimed_unique: "claimed reg v c \<Longrightarrow> claimed reg v d \<Longrightarrow> c = d"
  by (simp add: claimed_def)

lemma registered_known:
  assumes "claimed (pr_registries p r) v c" "pr_registries p' = pr_registries p"
  shows "registered r p [v] [c] p'"
  using assms by (auto simp: registered_def list_all2_Cons1 intro: claimed_unique)

lemma must_vec_available:
  assumes "available (pr_registries p r) v"
  shows "\<exists>c p'. run_state (must_vec r v) p = (Ok c, p') \<and> registered r p [v] [c] p'"
proof -
  have run: "run_state (must_vec r v) p =
      (mustRegister (vo_kind v) (\<lambda>_. register_in (pr_registries p r) (new_collector p v)) (new_collector p v),
       case register_in (pr_registries p r) (new_collector p v) of
         Registered \<Rightarrow> pr_registries_update (\<lambda>rs. rs(r := rs r @ [new_collector p v])) (pr_made_update Suc p)
       | _ \<Rightarrow> pr_made_update Suc p)"
    by (simp add: must_vec_def run_rules run_new_vec run_Register_with)
  from assms consider "filter (named (fq_name v)) (pr_registries p r) = []" | d where "claimed (pr_registries p r) v d"
    unfolding available_def by blast
  then show ?thesis
  proof cases
    case 1
    from register_free [OF 1, of "new_collector p v"]
    have "run_state (must_vec r v) p =
        (Ok (new_collector p v), pr_registries_update (\<lambda>rs. rs(r := rs r @ [new_collector p v])) (pr_made_update Suc p))"
      unfolding run by (simp add: mustRegister_def)
    moreover have "registered r p [v] [new_collector p v]
        (pr_registries_update (\<lambda>rs. rs(r := rs r @ [new_collector p v])) (pr_made_update Suc p))"
      by (rule registered_new [OF 1]) simp_all
    ultimately show ?thesis by blast
  next
    case 2
    from register_claimed [OF 2, of "new_collector p v"]
    have "run_state (must_vec r v) p = (Ok d, pr_made_update Suc p)"
      unfolding run by (simp add: mustRegister_def)
    moreover have "registered r p [v] [d] (pr_made_update Suc p)"
      by (rule registered_known [OF 2]) simp
    ultimately show ?thesis by blast
  qed
qed

lemma claimed_other:
  "filter (named (fq_name w)) reg' = filter (named (fq_name w)) reg \<Longrightarrow> claimed reg' w = claimed reg w"
  by (simp add: claimed_def fun_eq_iff)

lemma available_other:
  "filter (named (fq_name w)) reg' = filter (named (fq_name w)) reg \<Longrightarrow> available reg' w = available reg w"
  by (simp only: available_def claimed_other [of w reg' reg])

lemma registered_other:
  assumes "registered r p vs cs p'" "fq_name w \<notin> set (map fq_name vs)"
  shows "claimed (pr_registries p' r) w = claimed (pr_registries p r) w"
    "available (pr_registries p' r) w = available (pr_registries p r) w"
proof -
  have "filter (named (fq_name w)) (pr_registries p' r) = filter (named (fq_name w)) (pr_registries p r)"
    using assms by (simp add: registered_def)
  from claimed_other [OF this] available_other [OF this]
  show "claimed (pr_registries p' r) w = claimed (pr_registries p r) w"
    "available (pr_registries p' r) w = available (pr_registries p r) w" .
qed

lemma registered_append:
  assumes 1: "registered r p vs cs v" and 2: "registered r v ws ds p'"
    and apart: "set (map fq_name vs) \<inter> set (map fq_name ws) = {}"
  shows "registered r p (vs @ ws) (cs @ ds) p'"
proof -
  have first: "list_all2 (claimed (pr_registries v r)) vs cs" using 1 by (simp add: registered_def)
  have kept: "claimed (pr_registries p' r) w = claimed (pr_registries v r) w" if "w \<in> set vs" for w
    using registered_other(1) [OF 2] apart that by auto
  have before: "claimed (pr_registries v r) w = claimed (pr_registries p r) w" if "w \<in> set ws" for w
    using registered_other(1) [OF 1] apart that by auto
  have "list_all2 (claimed (pr_registries p' r)) vs cs"
    using first kept by (simp add: list_all2_conv_all_nth)
  then have new: "list_all2 (claimed (pr_registries p' r)) (vs @ ws) (cs @ ds)"
    using 2 by (auto simp: registered_def intro: list_all2_appendI)
  have old: "es = cs @ ds \<and> pr_registries p' = pr_registries p"
    if es: "list_all2 (claimed (pr_registries p r)) (vs @ ws) es" for es
  proof -
    from es obtain xs ys where xy: "es = xs @ ys" "list_all2 (claimed (pr_registries p r)) vs xs"
        "list_all2 (claimed (pr_registries p r)) ws ys"
      by (auto simp: list_all2_append1)
    then have "list_all2 (claimed (pr_registries v r)) ws ys"
      using before by (simp add: list_all2_conv_all_nth)
    with xy 1 2 show ?thesis unfolding registered_def by metis
  qed
  show ?thesis
    using 1 2 new old unfolding registered_def by simp
qed

lemma must_vecs_available:
  assumes "distinct (map fq_name vs)" "list_all (available (pr_registries p r)) vs"
  shows "\<exists>cs p'. run_state (must_vecs r vs) p = (Ok cs, p') \<and> registered r p vs cs p'"
  using assms
proof (induction vs arbitrary: p)
  case Nil
  then show ?case by (simp add: run_rules registered_def)
next
  case (Cons v vs)
  from must_vec_available [of p r v] Cons.prems obtain c p1
    where c: "run_state (must_vec r v) p = (Ok c, p1)" "registered r p [v] [c] p1" by auto
  have "available (pr_registries p1 r) w = available (pr_registries p r) w" if "w \<in> set vs" for w
    using registered_other(2) [OF c(2), of w] Cons.prems(1) that by (auto simp: image_iff)
  then have "list_all (available (pr_registries p1 r)) vs" using Cons.prems(2) by (simp add: list_all_iff)
  with Cons.IH [of p1] Cons.prems(1) obtain cs p2
    where cs: "run_state (must_vecs r vs) p1 = (Ok cs, p2)" "registered r p1 vs cs p2" by auto
  have "registered r p ([v] @ vs) ([c] @ cs) p2"
    using c(2) cs(2) Cons.prems(1) by (intro registered_append) auto
  moreover have "run_state (must_vecs r (v # vs)) p = (Ok (c # cs), p2)"
    using c(1) cs(1) by (simp add: run_rules)
  ultimately show ?case by auto
qed

lemma registered_cong:
  "pr_registries q = pr_registries p \<Longrightarrow> registered r q vs cs p' = registered r p vs cs p'"
  by (simp add: registered_def)

lemma try_vec_available:
  assumes "available (pr_registries p r) v" and c: "co_descs c = [vec_desc v]" "co_kind c = vo_kind v"
  shows "\<exists>d p'. run_state (try_vec r c) p = (d, p') \<and> registered r p [v] [d] p'"
proof -
  have run: "run_state (try_vec r c) p =
      (case register_in (pr_registries p r) c of
         AlreadyRegistered k existing \<Rightarrow> (if k = co_kind c then existing else c) | _ \<Rightarrow> c,
       case register_in (pr_registries p r) c of
         Registered \<Rightarrow> pr_registries_update (\<lambda>rs. rs(r := rs r @ [c])) p | _ \<Rightarrow> p)"
    by (simp add: try_vec_def run_Register_with)
  from assms consider "filter (named (fq_name v)) (pr_registries p r) = []" | d where "claimed (pr_registries p r) v d"
    unfolding available_def by blast
  then show ?thesis
  proof cases
    case 1
    have "registered r p [v] [c] (pr_registries_update (\<lambda>rs. rs(r := rs r @ [c])) p)"
      by (rule registered_new [OF 1 c]) simp
    with register_free [OF 1 c(1)] show ?thesis unfolding run by auto
  next
    case 2
    have "registered r p [v] [d] p" by (rule registered_known [OF 2]) simp
    with register_claimed [OF 2 c(1)] c(2) show ?thesis unfolding run by auto
  qed
qed

lemma new_service_metrics_available:
  assumes a: "available (pr_registries p (registry_name r)) v" "available (pr_registries p (registry_name r)) w"
    and "fq_name v \<noteq> fq_name w"
  shows "\<exists>c d p'. run_state (new_service_metrics v w r) p = (\<lparr>sm_counter = c, sm_duration = d\<rparr>, p')
    \<and> registered (registry_name r) p [v, w] [c, d] p'"
proof -
  let ?r = "registry_name r" and ?p = "pr_made_update Suc (pr_made_update Suc p)"
  have p: "pr_registries ?p = pr_registries p" by simp
  obtain c p1 where c: "run_state (try_vec ?r (new_collector p v)) ?p = (c, p1)" "registered ?r p [v] [c] p1"
    using try_vec_available [of ?p ?r v "new_collector p v"] a(1) registered_cong [OF p] by auto
  have "available (pr_registries p1 ?r) w"
    using registered_other(2) [OF c(2), of w] a(2) assms(3) by simp
  then obtain d p2 where d: "run_state (try_vec ?r (new_collector (pr_made_update Suc p) w)) p1 = (d, p2)" "registered ?r p1 [w] [d] p2"
    using try_vec_available [of p1 ?r w "new_collector (pr_made_update Suc p) w"] by auto
  have "registered ?r p ([v] @ [w]) ([c] @ [d]) p2"
    by (rule registered_append [OF c(2) d(2)]) (use assms(3) in simp)
  moreover have "run_state (new_service_metrics v w r) p = (\<lparr>sm_counter = c, sm_duration = d\<rparr>, p2)"
    using c(1) d(1) by (simp add: new_service_metrics_def run_new_vec)
  ultimately show ?thesis by auto
qed

text \<open>The metrics of all packages in one registry, in turn.\<close>

definition all_vecs :: "vec_opts list" where
  "all_vecs = tx_vecs @ producer_vecs @ consumer_vecs @ auth_vecs @ outbox_vecs @ grpc_vecs"

lemma all_vecs_distinct: "distinct (map fq_name all_vecs)"
  by code_simp

definition all_metrics ::
  "string \<Rightarrow> (prom, tx_metrics \<times> kafka_metrics \<times> consumer_metrics \<times> service_metrics \<times> service_metrics \<times> service_metrics) go" where
  "all_metrics r =
     andThen (tx_newMetrics r) (\<lambda>t. andThen (NewProducerMetrics r) (\<lambda>k. andThen (newConsumerMetrics r) (\<lambda>c. do {
       a \<leftarrow> auth_newMetrics (Some r);
       o' \<leftarrow> outbox_newMetrics (Some r);
       g \<leftarrow> newServerMetrics (Some r);
       ok (t, k, c, a, o', g) })))"

text \<open>What the metrics are, given the collectors of all vectors.\<close>

definition tx_record :: "collector list \<Rightarrow> tx_metrics" where
  "tx_record cs = \<lparr>tx_activeTransactions = cs ! 0, tx_transactionsTotal = cs ! 1, tx_transactionLatency = cs ! 2\<rparr>"

definition kafka_record :: "collector list \<Rightarrow> kafka_metrics" where
  "kafka_record cs = \<lparr>km_operationsTotal = cs ! 0, km_operationDuration = cs ! 1, km_payloadBytes = cs ! 2,
     km_asyncEvents = cs ! 3, km_messagesTotal = cs ! 4\<rparr>"

definition consumer_record :: "collector list \<Rightarrow> consumer_metrics" where
  "consumer_record cs = \<lparr>cs_activeSessions = cs ! 0, cs_sessionStarts = cs ! 1, cs_sessionStops = cs ! 2, cs_consumeRestarts = cs ! 3,
     cs_batchesProcessed = cs ! 4, cs_batchSize = cs ! 5, cs_batchDuration = cs ! 6, cs_messagesReceived = cs ! 7,
     cs_messagesProcessed = cs ! 8, cs_dlqWrites = cs ! 9, cs_processingDuration = cs ! 10\<rparr>"

definition service_record :: "collector list \<Rightarrow> service_metrics" where
  "service_record cs = \<lparr>sm_counter = cs ! 0, sm_duration = cs ! 1\<rparr>"

lemma newMetrics_available:
  assumes "list_all (available (pr_registries p r)) vs" "distinct (map fq_name vs)"
  shows "vs = tx_vecs \<Longrightarrow> \<exists>cs p'. run_state (tx_newMetrics r) p = (Ok (tx_record cs), p') \<and> registered r p vs cs p'"
    "vs = producer_vecs \<Longrightarrow> \<exists>cs p'. run_state (NewProducerMetrics r) p = (Ok (kafka_record cs), p') \<and> registered r p vs cs p'"
    "vs = consumer_vecs \<Longrightarrow> \<exists>cs p'. run_state (newConsumerMetrics r) p = (Ok (consumer_record cs), p') \<and> registered r p vs cs p'"
  using must_vecs_available [OF assms(2,1)]
  by (auto simp: tx_newMetrics_def NewProducerMetrics_def newConsumerMetrics_def tx_record_def kafka_record_def
      consumer_record_def run_rules)

lemma service_available:
  assumes "list_all (available (pr_registries p r)) [v, w]" "distinct (map fq_name [v, w])"
  shows "\<exists>cs p'. run_state (new_service_metrics v w (Some r)) p = (service_record cs, p') \<and> registered r p [v, w] cs p'"
proof -
  have "available (pr_registries p (registry_name (Some r))) v" "available (pr_registries p (registry_name (Some r))) w"
    "fq_name v \<noteq> fq_name w"
    using assms by (simp_all add: registry_name_def)
  from new_service_metrics_available [OF this] obtain c d p'
    where "run_state (new_service_metrics v w (Some r)) p = (\<lparr>sm_counter = c, sm_duration = d\<rparr>, p')" "registered r p [v, w] [c, d] p'"
    by (auto simp: registry_name_def)
  then show ?thesis by (intro exI [of _ "[c, d]"] exI [of _ p']) (simp add: service_record_def)
qed

lemma all_metrics_available:
  assumes "list_all (available (pr_registries p r)) all_vecs"
  shows "\<exists>t k c a o' g p'. run_state (all_metrics r) p =
      (Ok (tx_record t, kafka_record k, consumer_record c, service_record a, service_record o', service_record g), p')
    \<and> registered r p all_vecs (t @ k @ c @ a @ o' @ g) p' \<and> length t = 3 \<and> length k = 5 \<and> length c = 11 \<and> length a = 2 \<and> length o' = 2"
proof -
  have len: "length cs = length vs" if "registered r q vs cs q'" for q q' vs cs
    using that by (auto simp: registered_def dest: list_all2_lengthD)
  have next_ok: "list_all (available (pr_registries q' r)) ws"
    if "registered r q vs cs q'" "list_all (available (pr_registries q r)) ws" "set (map fq_name vs) \<inter> set (map fq_name ws) = {}"
    for q q' vs cs ws
    unfolding list_all_iff
  proof
    fix w assume w: "w \<in> set ws"
    then have "fq_name w \<in> set (map fq_name ws)" by simp
    with that(3) have "fq_name w \<notin> set (map fq_name vs)" by blast
    from registered_other(2) [OF that(1) this] w that(2) show "available (pr_registries q' r) w"
      by (simp add: list_all_iff)
  qed
  have d: "distinct (map fq_name (tx_vecs @ producer_vecs @ consumer_vecs @ auth_vecs @ outbox_vecs @ grpc_vecs))"
    using all_vecs_distinct by (simp only: all_vecs_def)
  then have dis: "distinct (map fq_name tx_vecs)" "distinct (map fq_name producer_vecs)" "distinct (map fq_name consumer_vecs)"
      "distinct (map fq_name auth_vecs)" "distinct (map fq_name outbox_vecs)" "distinct (map fq_name grpc_vecs)"
      "set (map fq_name tx_vecs) \<inter> set (map fq_name (producer_vecs @ consumer_vecs @ auth_vecs @ outbox_vecs @ grpc_vecs)) = {}"
      "set (map fq_name producer_vecs) \<inter> set (map fq_name (consumer_vecs @ auth_vecs @ outbox_vecs @ grpc_vecs)) = {}"
      "set (map fq_name consumer_vecs) \<inter> set (map fq_name (auth_vecs @ outbox_vecs @ grpc_vecs)) = {}"
      "set (map fq_name auth_vecs) \<inter> set (map fq_name (outbox_vecs @ grpc_vecs)) = {}"
      "set (map fq_name outbox_vecs) \<inter> set (map fq_name grpc_vecs) = {}"
    by (simp_all only: map_append distinct_append)
  have a0: "list_all (available (pr_registries p r)) (tx_vecs @ producer_vecs @ consumer_vecs @ auth_vecs @ outbox_vecs @ grpc_vecs)"
    using assms by (simp only: all_vecs_def)
  then obtain t p1 where t: "run_state (tx_newMetrics r) p = (Ok (tx_record t), p1)" "registered r p tx_vecs t p1"
    using newMetrics_available(1) [of p r tx_vecs] dis(1) by (auto simp only: list_all_append)
  have a1: "list_all (available (pr_registries p1 r)) (producer_vecs @ consumer_vecs @ auth_vecs @ outbox_vecs @ grpc_vecs)"
    by (rule next_ok [OF t(2)]) (use a0 dis(7) in \<open>simp_all only: list_all_append\<close>)
  then obtain k p2 where k: "run_state (NewProducerMetrics r) p1 = (Ok (kafka_record k), p2)" "registered r p1 producer_vecs k p2"
    using newMetrics_available(2) [of p1 r producer_vecs] dis(2) by (auto simp only: list_all_append)
  have a2: "list_all (available (pr_registries p2 r)) (consumer_vecs @ auth_vecs @ outbox_vecs @ grpc_vecs)"
    by (rule next_ok [OF k(2)]) (use a1 dis(8) in \<open>simp_all only: list_all_append\<close>)
  then obtain c p3 where c: "run_state (newConsumerMetrics r) p2 = (Ok (consumer_record c), p3)" "registered r p2 consumer_vecs c p3"
    using newMetrics_available(3) [of p2 r consumer_vecs] dis(3) by (auto simp only: list_all_append)
  have a3: "list_all (available (pr_registries p3 r)) (auth_vecs @ outbox_vecs @ grpc_vecs)"
    by (rule next_ok [OF c(2)]) (use a2 dis(9) in \<open>simp_all only: list_all_append\<close>)
  have pair: "auth_vecs = [auth_vecs ! 0, auth_vecs ! 1]" "outbox_vecs = [outbox_vecs ! 0, outbox_vecs ! 1]"
      "grpc_vecs = [grpc_vecs ! 0, grpc_vecs ! 1]"
    by (simp_all add: auth_vecs_def outbox_vecs_def grpc_vecs_def)
  obtain a p4 where a: "run_state (auth_newMetrics (Some r)) p3 = (service_record a, p4)" "registered r p3 auth_vecs a p4"
    using service_available [of p3 r "auth_vecs ! 0" "auth_vecs ! 1"] a3 dis(4)
    unfolding auth_newMetrics_def pair(1) [symmetric] by (auto simp only: list_all_append)
  have a4: "list_all (available (pr_registries p4 r)) (outbox_vecs @ grpc_vecs)"
    by (rule next_ok [OF a(2)]) (use a3 dis(10) in \<open>simp_all only: list_all_append\<close>)
  obtain o' p5 where o: "run_state (outbox_newMetrics (Some r)) p4 = (service_record o', p5)" "registered r p4 outbox_vecs o' p5"
    using service_available [of p4 r "outbox_vecs ! 0" "outbox_vecs ! 1"] a4 dis(5)
    unfolding outbox_newMetrics_def pair(2) [symmetric] by (auto simp only: list_all_append)
  have a5: "list_all (available (pr_registries p5 r)) grpc_vecs"
    by (rule next_ok [OF o(2)]) (use a4 dis(11) in \<open>simp_all only: list_all_append\<close>)
  obtain g p6 where g: "run_state (newServerMetrics (Some r)) p5 = (service_record g, p6)" "registered r p5 grpc_vecs g p6"
    using service_available [of p5 r "grpc_vecs ! 0" "grpc_vecs ! 1"] a5 dis(6)
    unfolding newServerMetrics_def pair(3) [symmetric] by auto
  have "registered r p (tx_vecs @ producer_vecs @ consumer_vecs @ auth_vecs @ outbox_vecs @ grpc_vecs) (t @ k @ c @ a @ o' @ g) p6"
    by (rule registered_append [OF t(2) registered_append [OF k(2) registered_append [OF c(2)
          registered_append [OF a(2) registered_append [OF o(2) g(2) dis(11)] dis(10)] dis(9)] dis(8)] dis(7)])
  moreover have "run_state (all_metrics r) p =
      (Ok (tx_record t, kafka_record k, consumer_record c, service_record a, service_record o', service_record g), p6)"
    using t(1) k(1) c(1) a(1) o(1) g(1) by (simp add: all_metrics_def run_rules)
  moreover have "length t = 3" "length k = 5" "length c = 11" "length a = 2" "length o' = 2"
    using len [OF t(2)] len [OF k(2)] len [OF c(2)] len [OF a(2)] len [OF o(2)]
    by (simp_all add: tx_vecs_def producer_vecs_def consumer_vecs_def auth_vecs_def outbox_vecs_def)
  ultimately show ?thesis unfolding all_vecs_def by (intro exI conjI)
qed

text \<open>
  C28: the metrics of all packages can share one registry. If the registry knows no other collector
  under one of their names, then making all of them neither panics nor leaves a collector
  unregistered; and making all of them again - a second producer, a second transaction manager -
  gives the very same collectors and leaves the registry as it is.
\<close>
theorem all_metrics_share_a_registry:
  assumes "list_all (available (pr_registries p r)) all_vecs"
  shows "\<exists>m p' p''. run_state (all_metrics r) p = (Ok m, p') \<and> run_state (all_metrics r) p' = (Ok m, p'')
    \<and> pr_registries p'' = pr_registries p'
    \<and> list_all (\<lambda>v. \<exists>c\<in>set (pr_registries p' r). co_kind c = vo_kind v \<and> co_descs c = [vec_desc v]) all_vecs"
proof -
  from all_metrics_available [OF assms] obtain t k c a o' g p' where m: "run_state (all_metrics r) p =
      (Ok (tx_record t, kafka_record k, consumer_record c, service_record a, service_record o', service_record g), p')"
    and reg: "registered r p all_vecs (t @ k @ c @ a @ o' @ g) p'"
    and len: "length t = 3" "length k = 5" "length c = 11" "length a = 2" "length o' = 2" by auto
  then have cl: "list_all2 (claimed (pr_registries p' r)) all_vecs (t @ k @ c @ a @ o' @ g)" by (simp add: registered_def)
  then have "list_all (available (pr_registries p' r)) all_vecs"
    unfolding list_all_length list_all2_conv_all_nth available_def by blast
  from all_metrics_available [OF this] obtain t2 k2 c2 a2 o2 g2 p'' where m2: "run_state (all_metrics r) p' =
      (Ok (tx_record t2, kafka_record k2, consumer_record c2, service_record a2, service_record o2, service_record g2), p'')"
    and reg2: "registered r p' all_vecs (t2 @ k2 @ c2 @ a2 @ o2 @ g2) p''"
    and len2: "length t2 = 3" "length k2 = 5" "length c2 = 11" "length a2 = 2" "length o2 = 2" by auto
  from reg2 cl have "t @ k @ c @ a @ o' @ g = t2 @ k2 @ c2 @ a2 @ o2 @ g2" "pr_registries p'' = pr_registries p'"
    unfolding registered_def by blast+
  moreover from this(1) len len2 have "t2 = t" "k2 = k" "c2 = c" "a2 = a" "o2 = o'" "g2 = g" by simp_all
  note m2 = m2 [unfolded this]
  moreover have "list_all (\<lambda>v. \<exists>c\<in>set (pr_registries p' r). co_kind c = vo_kind v \<and> co_descs c = [vec_desc v]) all_vecs"
    unfolding list_all_length
  proof (intro allI impI)
    fix n assume "n < length all_vecs"
    with cl obtain e where "claimed (pr_registries p' r) (all_vecs ! n) e" by (auto simp: list_all2_conv_all_nth)
    then have e: "co_kind e = vo_kind (all_vecs ! n)" "co_descs e = [vec_desc (all_vecs ! n)]"
      and f: "filter (named (fq_name (all_vecs ! n))) (pr_registries p' r) = [e]" by (simp_all add: claimed_def)
    have "e \<in> set (filter (named (fq_name (all_vecs ! n))) (pr_registries p' r))" unfolding f by simp
    with e show "\<exists>c\<in>set (pr_registries p' r). co_kind c = vo_kind (all_vecs ! n) \<and> co_descs c = [vec_desc (all_vecs ! n)]" by auto
  qed
  ultimately show ?thesis by (intro exI conjI) (rule m, rule m2)
qed

definition fresh_prom :: prom where
  "fresh_prom = \<lparr>pr_registries = (\<lambda>_. []), pr_made = 0, pr_default_tx = None, pr_default_producer = None, pr_default_consumer = None\<rparr>"

lemma all_metrics_share_a_registry_witness:
  "\<exists>m p' p''. run_state (all_metrics ''r'') fresh_prom = (Ok m, p') \<and> run_state (all_metrics ''r'') p' = (Ok m, p'')
    \<and> pr_registries p'' = pr_registries p'"
proof -
  have "list_all (available (pr_registries fresh_prom ''r'')) all_vecs"
    by (simp add: fresh_prom_def available_def list_all_iff)
  from all_metrics_share_a_registry [OF this] show ?thesis by blast
qed

end
