(* ===== verification/DlqGroup.thy ===== *)
theory DlqGroup
  imports DlqConsumer Metrics Producer
begin

text \<open>
  pkg/adapters/kafka/consumer/dql: the configuration (config.go), the constructor of the consumer
  group and its run loop (dql-consumer.go). sarama's consumer group is an argument: \<open>gh_Consume\<close>
  runs the sessions of the handler it is given until it returns.
\<close>

section \<open>config.go\<close>

record consume_config =
  cc_DlqSave :: bool
  cc_DlqTimeout :: time
  cc_DlqRetries :: "8 word"
  cc_BatchEnabled :: bool
  cc_BatchSize :: int
  cc_BatchTimeout :: time
  cc_PerMessageDebugLog :: bool
  cc_LogEveryNMessages :: int

record group_settings =
  gs_RebalancedGroupStrategy :: string
  gs_ReturnErrors :: bool
  gs_OffsetInitial :: string
  gs_IsolationLevel :: string
  gs_GroupID :: string
  gs_GroupInstanceId :: string

text \<open>The network settings have the fields of the producer's.\<close>

record dql_config =
  dc_Topic :: string
  dc_Brokers :: "string list"
  dc_Network :: network_config
  dc_CompressionType :: "8 word"
  dc_GroupSettings :: group_settings
  dc_ConsumeSettings :: consume_config

definition OffsetNewest :: int where "OffsetNewest = - 1"
definition OffsetOldest :: int where "OffsetOldest = - 2"

datatype isolation_level = IsolationUncommitted | IsolationCommitted

definition offsetMap :: "string \<rightharpoonup> int" where
  "offsetMap = [''new'' \<mapsto> OffsetNewest, ''old'' \<mapsto> OffsetOldest]"

definition rebalanceStrategyMap :: "string \<rightharpoonup> string" where
  "rebalanceStrategyMap = [''round-robin'' \<mapsto> ''roundrobin'', ''range'' \<mapsto> ''range'', ''sticky'' \<mapsto> ''sticky'']"

definition isolationLevelMap :: "string \<rightharpoonup> isolation_level" where
  "isolationLevelMap =
     [''committed'' \<mapsto> IsolationCommitted, ''uncommitted'' \<mapsto> IsolationUncommitted,
      ''commited'' \<mapsto> IsolationCommitted, ''uncommited'' \<mapsto> IsolationUncommitted]"

section \<open>The consumer group\<close>

record ('s, 'o) group_handle =
  gh_Consume :: "string list \<Rightarrow> ('s, 'o) base_consumer \<Rightarrow> ('s kstate, unit) go"
  gh_Close :: "('s kstate, unit) go"

record ('s, 'o) consumer_dql =
  cd_groupID :: string
  cd_topic :: string
  cd_group :: "('s, 'o) group_handle"
  cd_base :: "('s, 'o) base_consumer"

definition restarted :: "('s, 'o) consumer_dql \<Rightarrow> string \<Rightarrow> ('s kstate, unit) state" where
  "restarted t reason = emit_k (Metric ''dlq_consumer_restarts_total'' [cd_groupID t, cd_topic t, reason])"

text \<open>
  One entry per round: how the pause after an error of the group ends, by the backoff or by the
  context. \<open>False\<close> is returned when the rounds are used up and the loop still runs.
\<close>

datatype pause = Elapsed | PauseCancelled

fun consume_loop :: "('s, 'o) consumer_dql \<Rightarrow> pause list \<Rightarrow> ('s kstate, bool) go" where
  "consume_loop t [] = ok False"
| "consume_loop t (p # ps) =
     call (gh_Consume (cd_group t) [cd_topic t] (cd_base t)) (\<lambda>r. do {
       stop \<leftarrow>
         (if (case r of Inl e \<Rightarrow> errors_is e (Lib ErrClosedConsumerGroup) | Inr _ \<Rightarrow> False) then State_Monad.return True
          else do { c \<leftarrow> ctx_err; State_Monad.return (c \<noteq> None) });
       (if stop then do {
          c \<leftarrow> ctx_err;
          (if c = None then ok True
           else do {
             _ \<leftarrow> restarted t ''context_cancelled'';
             _ \<leftarrow> ctx_err;
             after (log_k ''info'' ''Kafka consumer stopped by context'') (ok True) }) }
        else case r of
          Inr _ \<Rightarrow>
            after (restarted t ''session_finished'')
              (after (log_k ''info'' ''Kafka consumer group session finished, restarting'') (consume_loop t ps))
        | Inl e \<Rightarrow>
            after (restarted t ''consume_error'')
              (after (log_k ''error'' ''Kafka consumer group returned error'')
                (after (log_k ''warn'' ''Restarting Kafka consumer group'')
                  (if p = PauseCancelled then ok True else consume_loop t ps)))) })"

text \<open>What the deferred function does once.\<close>

definition shut_down :: "('s, 'o) consumer_dql \<Rightarrow> ('s kstate, unit) go" where
  "shut_down t =
     call (gh_Close (cd_group t)) (\<lambda>r.
       after (case r of
           Inl e \<Rightarrow>
             (if errors_is e (Lib ErrClosedConsumerGroup) then log_k ''info'' ''Kafka consumer group closed''
              else log_k ''error'' ''Failed to close Kafka consumer group'')
         | Inr _ \<Rightarrow> log_k ''info'' ''Kafka consumer group closed'')
         (after (log_k ''info'' ''Kafka consumer loop stopped'') (ok ())))"

definition Run_group :: "('s, 'o) consumer_dql \<Rightarrow> pause list \<Rightarrow> ('s kstate, bool) go" where
  "Run_group t ps =
     after (log_k ''info'' ''Starting Kafka DLQ consumer loop'') (do {
       r \<leftarrow> consume_loop t ps;
       (if r = Ok False then ok False
        else andThen (shut_down t) (\<lambda>_. State_Monad.return r)) })"

definition Close_group :: "('s, 'o) consumer_dql \<Rightarrow> ('s kstate, unit) go" where
  "Close_group t = gh_Close (cd_group t)"

section \<open>The constructor\<close>

text \<open>What the code sets of \<open>sarama.Config\<close>.\<close>

record consumer_sarama =
  kc_Version :: string
  kc_OffsetsInitial :: int
  kc_GroupStrategies :: "string list"
  kc_ReturnErrors :: bool
  kc_IsolationLevel :: isolation_level
  kc_InstanceId :: string
  kc_SASL :: "(string \<times> string \<times> string) option"
  kc_TLS :: "(string \<times> string) option"

text \<open>
  What the constructor takes from outside: the logger, \<open>uuid.New\<close>, the metrics
  (resolveConsumerMetrics of Metrics, on a part of the world), sarama's constructor and the TLS library.
\<close>

record ('w, 's, 'o) group_env =
  ge_Emit :: "event \<Rightarrow> ('w, unit) state"
  ge_Now :: "('w, time) state"
  ge_NewUUID :: "('w, string) go"
  ge_Metrics :: "'s batch_saver consumer_options \<Rightarrow> ('w, consumer_metrics) go"
  ge_NewConsumerGroup :: "string list \<Rightarrow> string \<Rightarrow> consumer_sarama \<Rightarrow> ('w, ('s, 'o) group_handle) go"
  ge_TLS :: tls_library

text \<open>A value of a map, or a fallback with a warning.\<close>

definition lookup_or :: "('w, 's, 'o) group_env \<Rightarrow> (string \<rightharpoonup> 'v) \<Rightarrow> string \<Rightarrow> 'v \<Rightarrow> string \<Rightarrow> ('w, 'v) state" where
  "lookup_or g m key fallback warning =
     (case m key of
        Some v \<Rightarrow> State_Monad.return v
      | None \<Rightarrow> do { _ \<leftarrow> ge_Emit g (LogLine ''warn'' warning); State_Monad.return fallback })"

definition group_sasl :: "('w, 's, 'o) group_env \<Rightarrow> sasl_config \<Rightarrow> ('w, (string \<times> string \<times> string) option) state" where
  "group_sasl g s =
     (if \<not> sl_Enable s then State_Monad.return None
      else do {
        mechanism \<leftarrow>
          (if sl_Mechanism s \<in> {''SCRAM-SHA-512'', ''SCRAM-SHA-256'', ''PLAIN''} then State_Monad.return (sl_Mechanism s)
           else do {
             _ \<leftarrow> ge_Emit g (LogLine ''warn'' ''Unknown SASL mechanism, fallback to SCRAM-SHA-256'');
             State_Monad.return ''SCRAM-SHA-256'' });
        State_Monad.return (Some (sl_Username s, sl_Password s, mechanism)) })"

definition group_tls :: "tls_library \<Rightarrow> tls_config \<Rightarrow> err + (string \<times> string) option" where
  "group_tls lib t =
     (if \<not> tl_Enabled t then Inr None
      else case X509KeyPair lib (tl_ClientCert t) (tl_ClientKey t) of
        Inl e \<Rightarrow> Inl (wrap2 (Dql ErrLoadTLSClientKeyPair) e)
      | Inr cert \<Rightarrow>
          (if AppendCertsFromPEM lib (tl_RootCert t) then Inr (Some (cert, tl_RootCert t))
           else Inl (Sentinel (Dql ErrAppendTLSRootCert))))"

text \<open>A function that was not given is nil: calling it panics.\<close>

definition newBaseDqlConsumer ::
  "time \<Rightarrow> object_type \<Rightarrow> (string \<Rightarrow> err + 'o) \<Rightarrow> dql_config \<Rightarrow> ('o \<Rightarrow> (string \<rightharpoonup> string) \<Rightarrow> ('s, unit) go)
   \<Rightarrow> 's saver option \<Rightarrow> 's batch_saver option \<Rightarrow> ('s, 'o) base_consumer" where
  "newBaseDqlConsumer now objectType unmarshal config execFunc saveFunc saveBatch =
     (let s = dc_ConsumeSettings config;
          logEveryN = (word_of_int (cc_LogEveryNMessages s) :: 64 word) in
      \<lparr>bc_groupID = gs_GroupID (dc_GroupSettings config), bc_topic = dc_Topic config,
       bc_dlqSave = cc_DlqSave s, bc_dlqRetries = sint (cc_DlqRetries s), bc_dlqTimeout = cc_DlqTimeout s,
       bc_batchEnabled = cc_BatchEnabled s, bc_batchSize = cc_BatchSize s, bc_batchTimeout = cc_BatchTimeout s,
       bc_perMessageDebugLog = cc_PerMessageDebugLog s,
       bc_logEveryNMessages = (if logEveryN = 0 then 1000 else logEveryN), bc_startedAt = now,
       bc_objectType = objectType, bc_unmarshal = unmarshal, bc_execFunction = execFunc,
       bc_saveFunction =
         (case saveFunc of None \<Rightarrow> (\<lambda>_ _. panic ''invalid memory address or nil pointer dereference'') | Some f \<Rightarrow> f),
       bc_saveBatchFunction = saveBatch, bc_startSessionOptions = [], bc_stopSessionOptions = []\<rparr>)"

text \<open>The configuration of sarama, after the checks.\<close>

definition group_sarama :: "('w, 's, 'o) group_env \<Rightarrow> dql_config \<Rightarrow> ('w, consumer_sarama) go" where
  "group_sarama g cfg =
     (let gs = dc_GroupSettings cfg in do {
        offset \<leftarrow> lookup_or g offsetMap (gs_OffsetInitial gs) OffsetNewest ''Unknown offset_initial value, fallback to newest'';
        strategy \<leftarrow> lookup_or g rebalanceStrategyMap (gs_RebalancedGroupStrategy gs) ''roundrobin''
          ''Unknown rebalance strategy, fallback to round-robin'';
        isolation \<leftarrow> lookup_or g isolationLevelMap (gs_IsolationLevel gs) IsolationCommitted
          ''Unknown isolation level, fallback to read_committed'';
        andThen (if gs_GroupInstanceId gs = [] then ge_NewUUID g else ok (gs_GroupInstanceId gs)) (\<lambda>instanceId. do {
          sasl \<leftarrow> group_sasl g (nw_Sasl (dc_Network cfg));
          (case group_tls (ge_TLS g) (nw_TLS (dc_Network cfg)) of
             Inl e \<Rightarrow> fail e
           | Inr tls \<Rightarrow>
               ok \<lparr>kc_Version = ''2.3.0.0'', kc_OffsetsInitial = offset, kc_GroupStrategies = [strategy],
                   kc_ReturnErrors = gs_ReturnErrors gs, kc_IsolationLevel = isolation, kc_InstanceId = instanceId,
                   kc_SASL = sasl, kc_TLS = tls\<rparr>) }) })"

definition NewTopicConsumerGroupDlq ::
  "('w, 's, 'o) group_env \<Rightarrow> 'l option \<Rightarrow> object_type \<Rightarrow> (string \<Rightarrow> err + 'o) \<Rightarrow> dql_config option \<Rightarrow> 'l option
   \<Rightarrow> 's saver option \<Rightarrow> ('o \<Rightarrow> (string \<rightharpoonup> string) \<Rightarrow> ('s, unit) go) option
   \<Rightarrow> ('s batch_saver consumer_options \<Rightarrow> 's batch_saver consumer_options) list \<Rightarrow> ('w, ('s, 'o) consumer_dql) go" where
  "NewTopicConsumerGroupDlq g nobody objectType unmarshal config log saveFunc domainFunc options =
     (case (config, domainFunc) of
        (None, _) \<Rightarrow> fail (Sentinel (Dql ErrConfigIsNil))
      | (Some cfg, None) \<Rightarrow> fail (Sentinel (Dql ErrExecDomainFuncIsNil))
      | (Some cfg, Some exec) \<Rightarrow>
          (if dc_Topic cfg = [] then fail (Sentinel (Dql ErrTopicRequired))
           else if gs_GroupID (dc_GroupSettings cfg) = [] then fail (Sentinel (Dql ErrGroupIDRequired))
           else if dc_Brokers cfg = [] then fail (Sentinel (Dql ErrBrokersRequired))
           else if log = None \<and> nobody = None then fail (Sentinel (Dql ErrLoggerIsNil))
           else
             (let opts = fold (\<lambda>option state. option state) options
                    \<lparr>co_registerer = None, co_metrics = None, co_saveBatch = None\<rparr> in
              if cc_DlqSave (dc_ConsumeSettings cfg) \<and> saveFunc = None \<and> co_saveBatch opts = None
              then fail (Sentinel (Dql ErrDLQSaverRequired))
              else
                andThen (ge_Metrics g opts) (\<lambda>metrics.
                  andThen (group_sarama g cfg) (\<lambda>saramaConfig.
                    call (ge_NewConsumerGroup g (dc_Brokers cfg) (gs_GroupID (dc_GroupSettings cfg)) saramaConfig) (\<lambda>r. case r of
                      Inl e \<Rightarrow> after (ge_Emit g (LogLine ''error'' ''Failed to create Kafka DLQ consumer group'')) (fail e)
                    | Inr handle \<Rightarrow>
                        after (ge_Emit g (LogLine ''info'' ''Configured Kafka DLQ consumer''))
                          (do {
                            now \<leftarrow> ge_Now g;
                            ok \<lparr>cd_groupID = gs_GroupID (dc_GroupSettings cfg), cd_topic = dc_Topic cfg, cd_group = handle,
                                cd_base = newBaseDqlConsumer now objectType unmarshal cfg exec saveFunc (co_saveBatch opts)\<rparr> })))))))"

section \<open>The properties\<close>

lemma wp_any: "wp m (\<lambda>_ _. True) w"
  by (simp add: wp_def split: prod.split)

lemma wp_k_clock:
  "wp ctx_err Q k = Q (ks_ctx k (ks_asked k)) (ks_asked_update Suc k)"
  "wp (log_k l t) Q' k = Q' () (ks_events_update (\<lambda>es. es @ [LogLine l t]) k)"
  "wp (restarted c reason) Q' k =
     Q' () (ks_events_update (\<lambda>es. es @ [Metric ''dlq_consumer_restarts_total'' [cd_groupID c, cd_topic c, reason]]) k)"
  by (simp_all add: ctx_err_def log_k_def emit_k_def restarted_def wp_rules)

text \<open>A session of the group ends without a panic, does not report a closed group and leaves the context alone.\<close>

definition session_ends :: "('s, 'o) consumer_dql \<Rightarrow> bool" where
  "session_ends t \<longleftrightarrow> (\<forall>k. wp (gh_Consume (cd_group t) [cd_topic t] (cd_base t)) (\<lambda>r k'. ks_ctx k' = ks_ctx k
     \<and> (case r of Ok _ \<Rightarrow> True | Err e \<Rightarrow> \<not> errors_is e (Lib ErrClosedConsumerGroup) | Panic _ \<Rightarrow> False)) k)"

lemma loop_goes_on:
  assumes "session_ends t"
  shows "\<forall>n. ks_ctx k n = None \<Longrightarrow> wp (consume_loop t (replicate n Elapsed)) (\<lambda>r k'. r = Ok False) k"
proof (induction n arbitrary: k)
  case 0
  then show ?case by (simp add: wp_rules)
next
  case (Suc n)
  show ?case
    unfolding replicate_Suc consume_loop.simps
  proof (rule wp_callI [OF assms [unfolded session_ends_def, rule_format]], goal_cases)
    case (1 x v)
    with Suc.prems have v: "\<forall>n. ks_ctx v n = None" by simp
    show ?case
      by (simp add: wp_rules wp_k_clock v) (rule Suc.IH, simp add: v)
  next
    case (2 e v)
    with Suc.prems have v: "\<forall>n. ks_ctx v n = None" "\<not> errors_is e (Lib ErrClosedConsumerGroup)" by simp_all
    show ?case
      by (simp add: wp_rules wp_k_clock v) (rule Suc.IH, simp add: v)
  qed simp
qed

lemma loop_stops:
  assumes "session_ends t" "\<forall>n. ks_ctx k n \<noteq> None"
  shows "wp (consume_loop t (p # ps)) (\<lambda>r k'. r = Ok True) k"
  unfolding consume_loop.simps
proof (rule wp_callI [OF assms(1) [unfolded session_ends_def, rule_format]], goal_cases)
  case (1 x v)
  then show ?case using assms(2) by (simp add: wp_rules wp_k_clock)
next
  case (2 e v)
  then show ?case using assms(2) by (simp add: wp_rules wp_k_clock)
qed simp


text \<open>
  C27: a consumer that is made can work. When the constructor returns one, its topic, group and
  brokers were given, the domain function is the caller's, the consumer reports its progress at
  some interval, and if failed messages are to be saved there is a function to save them with.
\<close>
theorem NewTopicConsumerGroupDlq_works:
  assumes "run_state (NewTopicConsumerGroupDlq g nobody objectType unmarshal config log saveFunc domainFunc options) w = (Ok t, w')"
  shows "\<exists>cfg exec. config = Some cfg \<and> domainFunc = Some exec
    \<and> cd_topic t = dc_Topic cfg \<and> dc_Topic cfg \<noteq> [] \<and> gs_GroupID (dc_GroupSettings cfg) \<noteq> [] \<and> dc_Brokers cfg \<noteq> []
    \<and> bc_execFunction (cd_base t) = exec \<and> bc_logEveryNMessages (cd_base t) \<noteq> 0
    \<and> (bc_dlqSave (cd_base t) \<longrightarrow> saveFunc = Some (bc_saveFunction (cd_base t)) \<or> bc_saveBatchFunction (cd_base t) \<noteq> None)"
proof -
  obtain cfg exec where c: "config = Some cfg" "domainFunc = Some exec"
    using assms by (cases config; cases domainFunc) (auto simp: NewTopicConsumerGroupDlq_def run_rules)
  define opts where "opts = fold (\<lambda>option state. option state) options \<lparr>co_registerer = None, co_metrics = None, co_saveBatch = None\<rparr>"
  have checks: "dc_Topic cfg \<noteq> []" "gs_GroupID (dc_GroupSettings cfg) \<noteq> []" "dc_Brokers cfg \<noteq> []"
    "\<not> (cc_DlqSave (dc_ConsumeSettings cfg) \<and> saveFunc = None \<and> co_saveBatch opts = None)" "\<not> (log = None \<and> nobody = None)"
    using assms unfolding c by (auto simp: NewTopicConsumerGroupDlq_def run_rules Let_def opts_def [symmetric] split: if_splits)
  have "wp (NewTopicConsumerGroupDlq g nobody objectType unmarshal config log saveFunc domainFunc options)
      (\<lambda>r _. \<forall>t. r = Ok t \<longrightarrow> cd_topic t = dc_Topic cfg \<and>
        (\<exists>now. cd_base t = newBaseDqlConsumer now objectType unmarshal cfg exec saveFunc (co_saveBatch opts))) w"
    unfolding NewTopicConsumerGroupDlq_def c prod.case option.case Let_def opts_def [symmetric]
      if_not_P [OF checks(1)] if_not_P [OF checks(2)] if_not_P [OF checks(3)] if_not_P [OF checks(4)] if_not_P [OF checks(5)]
  proof (rule wp_andThenI [OF wp_any], goal_cases)
    case (1 m v)
    show ?case
    proof (rule wp_andThenI [OF wp_any], goal_cases)
      case (1 sc u)
      show ?case
      proof (rule wp_callI [OF wp_any], goal_cases)
        case (1 h x)
        show ?case
          unfolding sum.case wp_after wp_bind wp_ok
          by (rule wp_conseq [OF wp_any], rule wp_conseq [OF wp_any]) auto
      next
        case (2 e x)
        show ?case unfolding sum.case wp_after wp_fail by (rule wp_conseq [OF wp_any]) simp
      qed simp
    qed simp_all
  qed simp_all
  from wpD [OF this assms] obtain now where "cd_topic t = dc_Topic cfg"
    "cd_base t = newBaseDqlConsumer now objectType unmarshal cfg exec saveFunc (co_saveBatch opts)" by blast
  with c checks show ?thesis
    by (auto simp: newBaseDqlConsumer_def Let_def)
qed

text \<open>Examples.\<close>

definition example_config :: dql_config where
  "example_config =
     \<lparr>dc_Topic = ''t'', dc_Brokers = [''b:9092''],
      dc_Network = \<lparr>nw_Sasl = \<lparr>sl_Enable = False, sl_Username = [], sl_Password = [], sl_Mechanism = []\<rparr>,
        nw_TLS = \<lparr>tl_Enabled = False, tl_ClientCert = [], tl_ClientKey = [], tl_RootCert = []\<rparr>\<rparr>,
      dc_CompressionType = 0,
      dc_GroupSettings = \<lparr>gs_RebalancedGroupStrategy = ''sticky'', gs_ReturnErrors = True, gs_OffsetInitial = ''old'',
        gs_IsolationLevel = ''commited'', gs_GroupID = ''g'', gs_GroupInstanceId = ''i''\<rparr>,
      dc_ConsumeSettings = \<lparr>cc_DlqSave = True, cc_DlqTimeout = 0, cc_DlqRetries = 3, cc_BatchEnabled = False, cc_BatchSize = 0,
        cc_BatchTimeout = 0, cc_PerMessageDebugLog = False, cc_LogEveryNMessages = 0\<rparr>\<rparr>"

definition example_handle :: "(nat, string) group_handle" where
  "example_handle =
     \<lparr>gh_Consume = (\<lambda>_ _. fail (NewErr ''broker down'')), gh_Close = after (modify (ks_user_update (\<lambda>_. 1))) (ok ())\<rparr>"

definition example_env :: "(unit, nat, string) group_env" where
  "example_env =
     \<lparr>ge_Emit = (\<lambda>_. State_Monad.return ()), ge_Now = State_Monad.return 0, ge_NewUUID = ok ''u'',
      ge_Metrics = (\<lambda>_. State_Monad.return (fst (run_state (newConsumerMetrics ''r'') fresh_prom))),
      ge_NewConsumerGroup = (\<lambda>_ _ _. ok example_handle),
      ge_TLS = \<lparr>X509KeyPair = (\<lambda>_ _. Inr []), AppendCertsFromPEM = (\<lambda>_. True), sarama_Validate = (\<lambda>_. None)\<rparr>\<rparr>"

definition example_group :: "(nat, string) consumer_dql" where
  "example_group =
     \<lparr>cd_groupID = ''g'', cd_topic = ''t'', cd_group = example_handle,
      cd_base = newBaseDqlConsumer 0 (Pointer ''T'' True) Inr example_config (\<lambda>_ _. ok ()) (Some (\<lambda>_ _. ok ())) None\<rparr>"

definition example_ctx :: "err option \<Rightarrow> nat kstate" where
  "example_ctx e =
     \<lparr>ks_user = 0, ks_clock = (\<lambda>n. int n), ks_ticks = 0, ks_uuids = (\<lambda>_. Some ''u''), ks_drawn = 0, ks_ctx = (\<lambda>_. e), ks_asked = 0,
      ks_marks = [], ks_commits = 0, ks_received = 0, ks_success = 0, ks_decode_failed = 0, ks_processing_failed = 0,
      ks_dlq_writes = 0, ks_events = []\<rparr>"


lemma example_metrics: "\<exists>m. fst (run_state (newConsumerMetrics ''r'') fresh_prom) = Ok m"
proof -
  have "list_all (available (pr_registries fresh_prom ''r'')) consumer_vecs"
    by (simp add: fresh_prom_def available_def list_all_iff)
  moreover have "distinct (map fq_name consumer_vecs)" by code_simp
  ultimately show ?thesis using newMetrics_available(3) [of fresh_prom "''r''" consumer_vecs] by force
qed

lemma NewTopicConsumerGroupDlq_works_witness:
  "\<exists>t. fst (run_state (NewTopicConsumerGroupDlq example_env (Some ()) (Pointer ''T'' True) Inr (Some example_config) None
        (Some (\<lambda>_ _. ok ())) (Some (\<lambda>_ _. ok ())) []) ()) = Ok t
     \<and> bc_logEveryNMessages (cd_base t) \<noteq> 0"
proof -
  obtain m where m: "fst (run_state (newConsumerMetrics ''r'') fresh_prom) = Ok m" using example_metrics by blast
  have "\<exists>t. run_state (NewTopicConsumerGroupDlq example_env (Some ()) (Pointer ''T'' True) Inr (Some example_config) None
        (Some (\<lambda>_ _. ok ())) (Some (\<lambda>_ _. ok ())) []) () = (Ok t, ())"
    by (simp add: NewTopicConsumerGroupDlq_def example_config_def example_env_def m run_rules group_sarama_def lookup_or_def
        group_sasl_def group_tls_def offsetMap_def rebalanceStrategyMap_def isolationLevelMap_def Let_def)
  then obtain t where t: "run_state (NewTopicConsumerGroupDlq example_env (Some ()) (Pointer ''T'' True) Inr (Some example_config) None
        (Some (\<lambda>_ _. ok ())) (Some (\<lambda>_ _. ok ())) []) () = (Ok t, ())" by blast
  from NewTopicConsumerGroupDlq_works [OF t] t show ?thesis by auto
qed

end
