(* ===== verification/DlqGuarantees.thy ===== *)
theory DlqGuarantees
  imports DlqConsumer
begin

text \<open>
  What the consumer of DlqConsumer guarantees: which messages a batch marks, what is saved to the
  dead-letter queue before, how often a save is tried, and that batching does not change what the
  functions of the user see.
\<close>

section \<open>What the steps leave alone\<close>

lemma wp_on_user: "wp (on_user m) Q k = (case run_state m (ks_user k) of (r, s) \<Rightarrow> Q r (k\<lparr>ks_user := s\<rparr>))"
  by (simp add: on_user_def wp_rules split: prod.splits)

lemma wp_k [wp_rules]:
  "wp now_k Qt k = Qt (ks_clock k (ks_ticks k)) (ks_ticks_update Suc k)"
  "wp ctx_err Qe k = Qe (ks_ctx k (ks_asked k)) (ks_asked_update Suc k)"
  "wp (emit_k e) Q k = Q () (ks_events_update (\<lambda>es. es @ [e]) k)"
  "wp (MarkMessage m reason) Q k = Q () (ks_marks_update (\<lambda>ms. ms @ [(m, reason)]) k)"
  "wp Commit Q k = Q () (ks_commits_update Suc k)"
  "wp (metric_k b n ls) Q k = Q () (ks_events_update (\<lambda>es. es @ [Metric (''dlq_consumer_'' @ n) (bc_groupID b # bc_topic b # ls)]) k)"
  "wp (log_k l t) Q k = Q () (ks_events_update (\<lambda>es. es @ [LogLine l t]) k)"
  by (simp_all add: now_k_def ctx_err_def emit_k_def MarkMessage_def Commit_def metric_k_def log_k_def wp_rules)

text \<open>A step that neither marks nor commits, and keeps the counters of what was processed.\<close>

definition no_marks :: "'s kstate \<Rightarrow> 's kstate \<Rightarrow> bool" where
  "no_marks k k' \<longleftrightarrow> ks_marks k' = ks_marks k \<and> ks_commits k' = ks_commits k \<and> ks_success k' = ks_success k
     \<and> ks_decode_failed k' = ks_decode_failed k \<and> ks_processing_failed k' = ks_processing_failed k"

lemma no_marks_simps [simp]:
  "no_marks k k" "no_marks k (ks_ticks_update f k') = no_marks k k'" "no_marks k (ks_asked_update f k') = no_marks k k'"
  "no_marks k (ks_drawn_update f k') = no_marks k k'" "no_marks k (ks_events_update g k') = no_marks k k'"
  "no_marks k (ks_received_update h k') = no_marks k k'" "no_marks k (ks_dlq_writes_update h k') = no_marks k k'"
  "no_marks k (ks_user_update u k') = no_marks k k'"
  "no_marks (ks_ticks_update f k) k' = no_marks k k'" "no_marks (ks_asked_update f k) k' = no_marks k k'"
  "no_marks (ks_user_update u k) k' = no_marks k k'"
  by (simp_all add: no_marks_def)

lemma no_marks_trans: "no_marks k k' \<Longrightarrow> no_marks k' k'' \<Longrightarrow> no_marks k k''"
  by (simp add: no_marks_def)

text \<open>
  What becomes of one message by the functions of the user alone: handled, not handled, or a panic;
  and of a list of them, one after the other.
\<close>

definition handle_one :: "('s, 'o) base_consumer \<Rightarrow> consumer_message \<Rightarrow> 's \<Rightarrow> bool option \<times> 's" where
  "handle_one b m s =
     (case bc_unmarshal b (cm_Value m) of
        Inl e \<Rightarrow> (Some False, s)
      | Inr object \<Rightarrow>
          (case run_state (bc_execFunction b object (NewMapValues (cm_Headers m))) s of
             (Ok _, s') \<Rightarrow> (Some True, s') | (Err e, s') \<Rightarrow> (Some False, s') | (Panic p, s') \<Rightarrow> (None, s')))"

primrec handle :: "('s, 'o) base_consumer \<Rightarrow> consumer_message list \<Rightarrow> 's \<Rightarrow> bool option list \<times> 's" where
  "handle b [] s = ([], s)"
| "handle b (m # ms) s =
     (case handle_one b m s of (x, s1) \<Rightarrow> (case handle b ms s1 of (xs, s2) \<Rightarrow> (x # xs, s2)))"

lemma handle_append:
  "handle b (xs @ ys) s = (case handle b xs s of (us, s1) \<Rightarrow> (case handle b ys s1 of (vs, s2) \<Rightarrow> (us @ vs, s2)))"
  by (induction xs arbitrary: s) (auto split: prod.splits)

definition dead_letter :: "consumer_message \<Rightarrow> dlq_message \<Rightarrow> bool" where
  "dead_letter m d \<longleftrightarrow> dm_Topic d = cm_Topic m \<and> dm_Partition d = cm_Partition m \<and> dm_Offset d = cm_Offset m
     \<and> dm_Payload d = cm_Value m"

definition result_of :: "('s, 'o) base_consumer \<Rightarrow> consumer_message \<Rightarrow> processing_result \<Rightarrow> bool" where
  "result_of b m r \<longleftrightarrow> mr_message r = m \<and>
     (if mr_status r = Success then mr_dlqMessage r = None else \<exists>d. mr_dlqMessage r = Some d \<and> dead_letter m d)"

lemma failed_result_post:
  "st \<noteq> Success \<Longrightarrow> wp (failed_result m t st e cause line) (\<lambda>r k'. no_marks k k' \<and> ks_user k' = ks_user k \<and>
     ks_received k' = ks_received k \<and>
     (case r of Ok res \<Rightarrow> result_of b m res \<and> mr_status res = st | Err e \<Rightarrow> False | Panic p \<Rightarrow> True)) k"
  by (auto simp: failed_result_def newDLQMessage_def uuid_k_def wp_rules result_of_def dead_letter_def split: option.split)

lemma on_user_post:
  "wp (on_user m) (\<lambda>r k'. no_marks k k' \<and> ks_received k' = ks_received k \<and> run_state m (ks_user k) = (r, ks_user k')) k"
  by (simp add: wp_on_user split: prod.split)

definition decided :: "('s, 'o) base_consumer \<Rightarrow> consumer_message \<Rightarrow> 's kstate \<Rightarrow> processing_result outcome \<Rightarrow> 's kstate \<Rightarrow> bool" where
  "decided b m k r k' \<longleftrightarrow> no_marks k k' \<and>
     (case r of
        Ok res \<Rightarrow> result_of b m res \<and> handle_one b m (ks_user k) = (Some (mr_status res = Success), ks_user k')
      | _ \<Rightarrow> True)"

lemma decide_post: "wp (decide b m t) (\<lambda>r k'. decided b m k r k' \<and> ks_received k' = ks_received k) k"
proof (cases "newMessageObject (bc_objectType b)")
  case (Inl e)
  then show ?thesis by (simp add: decide_def wp_rules decided_def)
next
  case new: (Inr u)
  show ?thesis
  proof (cases "bc_unmarshal b (cm_Value m)")
    case (Inl e)
    show ?thesis
      unfolding decide_def new Inl sum.case
      by (rule wp_conseq [OF failed_result_post [where b = b]])
        (use Inl in \<open>auto simp: handle_one_def decided_def split: outcome.splits\<close>)
  next
    case (Inr object)
    show ?thesis
      unfolding decide_def new Inr sum.case
    proof (rule wp_callI [OF on_user_post], goal_cases)
      case (1 x v)
      then show ?case
        using Inr by (simp add: wp_rules result_of_def decided_def handle_one_def)
    next
      case (2 e v)
      show ?case
        unfolding sum.case
        by (rule wp_conseq [OF failed_result_post [where b = b]])
          (use 2 Inr in \<open>auto simp: decided_def handle_one_def split: outcome.splits intro: no_marks_trans\<close>)
    next
      case (3 p v)
      then show ?case by (simp add: decided_def)
    qed
  qed
qed

lemma processMessage_post:
  "wp (processMessage b m) (\<lambda>r k'. decided b m k r k' \<and> ks_received k' = ks_received k + 1) k"
proof -
  have *: "decided b m k1 r k' \<Longrightarrow> no_marks k k1 \<Longrightarrow> ks_user k1 = ks_user k \<Longrightarrow> decided b m k r k'" for k1 r k'
    by (auto simp: decided_def split: outcome.splits intro: no_marks_trans)
  show ?thesis
    unfolding processMessage_def wp_bind wp_k wp_modify
    by (cases "bc_perMessageDebugLog b"; simp add: wp_rules; rule wp_conseq [OF decide_post]) (auto elim!: *)
qed

text \<open>The messages of a batch, in turn.\<close>

lemma process_all_post:
  "wp (process_all b ms) (\<lambda>r k'. no_marks k k' \<and>
     (case r of
        Ok rs \<Rightarrow> map mr_message rs = ms \<and> (\<forall>res\<in>set rs. result_of b (mr_message res) res)
          \<and> handle b ms (ks_user k) = (map (\<lambda>res. Some (mr_status res = Success)) rs, ks_user k')
          \<and> ks_received k' = ks_received k + of_nat (length ms)
      | _ \<Rightarrow> True)) k"
proof (induction ms arbitrary: k)
  case Nil
  then show ?case by (simp add: wp_rules)
next
  case (Cons m ms)
  show ?case
    unfolding process_all.simps
  proof (rule wp_andThenI [OF processMessage_post], goal_cases)
    case (1 res v)
    show ?case
    proof (rule wp_andThenI [OF Cons.IH], goal_cases)
      case (1 rs u)
      then show ?case
        using \<open>decided b m k (Ok res) v \<and> _\<close>
        by (auto simp: wp_rules decided_def result_of_def algebra_simps intro: no_marks_trans)
    qed (use 1 in \<open>auto simp: decided_def intro: no_marks_trans\<close>)
  qed (auto simp: decided_def)
qed

section \<open>Saving to the dead-letter queue\<close>

text \<open>
  A number of tries of a save, one after the other, each with the messages stamped anew: their
  outcomes and the state they leave.
\<close>

primrec tries ::
  "(dlq_message list \<Rightarrow> ('s, unit) go) \<Rightarrow> (nat \<Rightarrow> time) \<Rightarrow> dlq_message list \<Rightarrow> nat \<Rightarrow> int \<Rightarrow> nat \<Rightarrow> 's \<Rightarrow> unit outcome list \<times> 's" where
  "tries saveFn clk objects 0 i t s = ([], s)"
| "tries saveFn clk objects (Suc n) i t s =
     (case run_state (saveFn (map (stamp i (clk t)) objects)) s of (r, s1) \<Rightarrow>
       (case tries saveFn clk objects n (i + 1) (Suc t) s1 of (rs, s2) \<Rightarrow> (r # rs, s2)))"

definition failed_outcome :: "'a outcome \<Rightarrow> bool" where
  "failed_outcome r \<longleftrightarrow> (\<exists>e. r = Err e)"

text \<open>
  How a save ends after the tries \<open>rs\<close> of at most \<open>n\<close>: all but the last failed, the last decides;
  an error means that no try is left, or that the context is done.
\<close>

definition save_ends :: "'s kstate \<Rightarrow> nat \<Rightarrow> unit outcome list \<Rightarrow> unit outcome \<Rightarrow> bool" where
  "save_ends k n rs r \<longleftrightarrow> rs \<noteq> [] \<and> length rs \<le> n \<and> list_all failed_outcome (butlast rs) \<and>
     (case r of
        Err e \<Rightarrow> failed_outcome (last rs) \<and> ((\<exists>a. ks_ctx k a = Some e) \<or> length rs = n \<and> last rs = Err e)
      | _ \<Rightarrow> last rs = r)"

lemma save_attempts_post:
  assumes "n > 0"
  shows "wp (save_attempts n i le objects saveFn) (\<lambda>r k'. no_marks k k' \<and> ks_received k' = ks_received k
     \<and> ks_ctx k' = ks_ctx k \<and> ks_clock k' = ks_clock k \<and>
     (\<exists>rs. ks_ticks k' = ks_ticks k + length rs \<and> save_ends k n rs r
       \<and> tries saveFn (ks_clock k) objects (length rs) i (ks_ticks k) (ks_user k) = (rs, ks_user k'))) k"
    (is "wp _ (?P n i k) k")
  using assms
proof (induction n arbitrary: i le k)
  case (Suc n)
  let ?call = "saveFn (map (stamp i (ks_clock k (ks_ticks k))) objects)"
  obtain r s where ex: "run_state ?call (ks_user k) = (r, s)" by fastforce
  let ?k1 = "ks_user_update (\<lambda>_. s) (ks_ticks_update Suc k)"
  have run: "wp (on_user ?call) Q (ks_ticks_update Suc k) = Q r ?k1" for Q
    using ex by (simp add: wp_on_user)
  have stop: "?P (Suc n) i k q k'" if "save_ends k (Suc n) [r] q" "no_marks k k'" "ks_user k' = s"
      "ks_received k' = ks_received k" "ks_ctx k' = ks_ctx k" "ks_clock k' = ks_clock k" "ks_ticks k' = Suc (ks_ticks k)" for q k'
    using that ex by (auto intro!: exI [of _ "[r]"])
  show ?case
  proof (cases r)
    case (Err e)
    let ?k2 = "ks_asked_update Suc ?k1"
    have "wp (case ks_ctx k (ks_asked k) of Some ce \<Rightarrow> fail ce | None \<Rightarrow> save_attempts n (i + 1) (Some e) objects saveFn)
        (?P (Suc n) i k) ?k2"
    proof (cases "ks_ctx k (ks_asked k)")
      case (Some ce)
      have "?P (Suc n) i k (Err ce) ?k2"
        by (rule stop) (use Err Some in \<open>auto simp: save_ends_def failed_outcome_def\<close>)
      then show ?thesis unfolding Some option.case wp_fail .
    next
      case None
      show ?thesis
      proof (cases "n = 0")
        case True
        have "?P (Suc n) i k (Err e) ?k2"
          by (rule stop) (use Err True in \<open>auto simp: save_ends_def failed_outcome_def\<close>)
        with True show ?thesis unfolding None option.case by (simp only: save_attempts.simps option.case wp_fail)
      next
        case False
        then have "0 < n" by simp
        then have "wp (save_attempts n (i + 1) (Some e) objects saveFn) (?P n (i + 1) ?k2) ?k2" by (rule Suc.IH)
        then show ?thesis
          unfolding None option.case
        proof (rule wp_conseq, goal_cases)
          case (1 q k')
          then obtain rs where rs: "ks_ticks k' = Suc (ks_ticks k) + length rs" "save_ends ?k2 n rs q"
              "tries saveFn (ks_clock k) objects (length rs) (i + 1) (Suc (ks_ticks k)) s = (rs, ks_user k')"
            by auto
          then have "save_ends k (Suc n) (r # rs) q"
            using Err by (auto simp: save_ends_def failed_outcome_def split: outcome.splits)
          then show ?case
            using 1 rs ex by (auto intro!: exI [of _ "r # rs"])
        qed
      qed
    qed
    with Err show ?thesis
      by (simp add: wp_rules run del: tries.simps)
  next
    case (Ok x)
    have "?P (Suc n) i k (Ok ()) ?k1"
      by (rule stop) (use Ok in \<open>auto simp: save_ends_def\<close>)
    with Ok show ?thesis unfolding save_attempts.simps wp_bind wp_k wp_call run by (simp only: outcome.case sum.case wp_ok)
  next
    case (Panic p)
    have "?P (Suc n) i k (Panic p) ?k1"
      by (rule stop) (use Panic in \<open>auto simp: save_ends_def\<close>)
    with Panic show ?thesis unfolding save_attempts.simps wp_bind wp_k wp_call run by (simp only: outcome.case)
  qed
qed simp

definition max_tries :: "('s, 'o) base_consumer \<Rightarrow> nat" where
  "max_tries b = nat (max 1 (bc_dlqRetries b))"

lemma runDLQSaveWithRetry_post:
  "wp (runDLQSaveWithRetry b objects saveFn) (\<lambda>r k'. no_marks k k' \<and> ks_received k' = ks_received k
     \<and> ks_ctx k' = ks_ctx k \<and> ks_clock k' = ks_clock k \<and>
     (\<exists>rs. ks_ticks k' = ks_ticks k + length rs \<and> save_ends k (max_tries b) rs r
       \<and> tries saveFn (ks_clock k) objects (length rs) 1 (ks_ticks k) (ks_user k) = (rs, ks_user k'))) k"
proof -
  have "nat (if bc_dlqRetries b < 1 then 1 else bc_dlqRetries b) = max_tries b" "max_tries b > 0"
    by (auto simp: max_tries_def)
  then show ?thesis
    unfolding runDLQSaveWithRetry_def by (simp only: save_attempts_post)
qed

text \<open>
  A property \<open>kept\<close> of the user's state that says that a message is stored: the savers establish
  it when they return nil, and no try of a save destroys it.
\<close>

definition saver_keeps :: "('s \<Rightarrow> dlq_message \<Rightarrow> bool) \<Rightarrow> nat \<Rightarrow> (dlq_message list \<Rightarrow> ('s, unit) go) \<Rightarrow> bool" where
  "saver_keeps kept n f \<longleftrightarrow> (\<forall>ds s. length ds = n \<longrightarrow> wp (f ds) (\<lambda>r s'. (r = Ok () \<longrightarrow> (\<forall>d\<in>set ds. kept s' d)) \<and> (\<forall>d. kept s d \<longrightarrow> kept s' d)) s)"

definition savers_keep :: "('s, 'o) base_consumer \<Rightarrow> ('s \<Rightarrow> dlq_message \<Rightarrow> bool) \<Rightarrow> bool" where
  "savers_keep b kept \<longleftrightarrow>
     (\<forall>t d s. wp (bc_saveFunction b t d) (\<lambda>r s'. (r = Ok () \<longrightarrow> kept s' d) \<and> (\<forall>d'. kept s d' \<longrightarrow> kept s' d')) s)
     \<and> (\<forall>save t. bc_saveBatchFunction b = Some save \<longrightarrow> (\<forall>n. saver_keeps kept n (save t)))"

definition was_kept :: "('s \<Rightarrow> dlq_message \<Rightarrow> bool) \<Rightarrow> 's \<Rightarrow> dlq_message \<Rightarrow> bool" where
  "was_kept kept s d \<longleftrightarrow> (\<exists>j u. kept s (stamp j u d))"

lemma was_kept_mono: "was_kept kept s d \<Longrightarrow> \<forall>d. kept s d \<longrightarrow> kept s' d \<Longrightarrow> was_kept kept s' d"
  unfolding was_kept_def by blast

lemma tries_keep:
  assumes "saver_keeps kept (length objects) f"
  shows "tries f clk objects n i t s = (rs, s1) \<Longrightarrow> (\<forall>d. kept s d \<longrightarrow> kept s1 d)
    \<and> (n > 0 \<and> last rs = Ok () \<longrightarrow> (\<forall>d\<in>set objects. was_kept kept s1 d))"
proof (induction n arbitrary: i t s rs s1)
  case (Suc n i t s rs s3)
  obtain r s1 where r: "run_state (f (map (stamp i (clk t)) objects)) s = (r, s1)" by fastforce
  obtain rs' s2 where rs: "tries f clk objects n (i + 1) (Suc t) s1 = (rs', s2)" by fastforce
  have "(r = Ok () \<longrightarrow> (\<forall>d\<in>set objects. kept s1 (stamp i (clk t) d))) \<and> (\<forall>d. kept s d \<longrightarrow> kept s1 d)"
    using assms [unfolded saver_keeps_def, rule_format, of "map (stamp i (clk t)) objects" s, THEN wpD, OF _ r] by simp
  moreover have "rs' = [] \<longleftrightarrow> n = 0"
    using rs by (cases n) (auto split: prod.splits)
  ultimately show ?case
    using Suc.IH [OF rs] Suc.prems r rs by (cases "n = 0") (auto simp: was_kept_def)
qed simp

lemma save_kept:
  assumes "saver_keeps kept (length objects) f"
  shows "wp (runDLQSaveWithRetry b objects f) (\<lambda>r k'. no_marks k k' \<and> ks_received k' = ks_received k
    \<and> (\<forall>d. kept (ks_user k) d \<longrightarrow> kept (ks_user k') d)
    \<and> (r = Ok () \<longrightarrow> (\<forall>d\<in>set objects. was_kept kept (ks_user k') d))) k"
proof (rule wp_conseq [OF runDLQSaveWithRetry_post], goal_cases)
  case (1 r k')
  then obtain rs where rs: "save_ends k (max_tries b) rs r"
    "tries f (ks_clock k) objects (length rs) 1 (ks_ticks k) (ks_user k) = (rs, ks_user k')" by blast
  show ?case
    using 1 tries_keep [OF assms rs(2)] rs(1) by (auto simp: save_ends_def)
qed

text \<open>The records of a save, in the metrics, the log and the counter of writes.\<close>

definition noted :: "'s kstate \<Rightarrow> 's kstate \<Rightarrow> bool" where
  "noted k k' \<longleftrightarrow> no_marks k k' \<and> ks_received k' = ks_received k \<and> ks_user k' = ks_user k"

lemma noted_records:
  "wp (dlq_written b rs) (\<lambda>_. noted k) k" "wp (dlq_lost b rs) (\<lambda>_. noted k) k"
  "wp (logDLQBatchSuccess b rs reason) (\<lambda>_. noted k) k" "wp (logDLQBatchFailure b rs e reason) (\<lambda>_. noted k) k"
proof -
  have w: "wp (dlq_written b rs) (\<lambda>_. noted k) k'" and l: "wp (dlq_lost b rs) (\<lambda>_. noted k) k'" if "noted k k'" for k'
    using that by (induction rs arbitrary: k') (auto simp: wp_rules noted_def)
  have "noted k k" by (simp add: noted_def)
  then show "wp (dlq_written b rs) (\<lambda>_. noted k) k" "wp (dlq_lost b rs) (\<lambda>_. noted k) k"
    by (rule w, rule l)
  then show "wp (logDLQBatchSuccess b rs reason) (\<lambda>_. noted k) k" "wp (logDLQBatchFailure b rs e reason) (\<lambda>_. noted k) k"
    unfolding logDLQBatchSuccess_def logDLQBatchFailure_def wp_bind wp_k
    by - (erule wp_conseq, simp add: noted_def)+
qed

text \<open>What a save of failed messages leaves: the user's state only gains stored messages.\<close>

definition saving :: "('s \<Rightarrow> dlq_message \<Rightarrow> bool) \<Rightarrow> 's kstate \<Rightarrow> 's kstate \<Rightarrow> bool" where
  "saving kept k k' \<longleftrightarrow> no_marks k k' \<and> ks_received k' = ks_received k \<and> (\<forall>d. kept (ks_user k) d \<longrightarrow> kept (ks_user k') d)"

lemma saving_trans: "saving kept k k' \<Longrightarrow> saving kept k' k'' \<Longrightarrow> saving kept k k''"
  by (auto simp: saving_def intro: no_marks_trans)

lemma saving_noted: "noted k k' \<Longrightarrow> saving kept k k'"
  by (simp add: saving_def noted_def)

definition stored_failed :: "('s \<Rightarrow> dlq_message \<Rightarrow> bool) \<Rightarrow> 's \<Rightarrow> processing_result \<Rightarrow> bool" where
  "stored_failed kept s r \<longleftrightarrow> (\<forall>d. mr_dlqMessage r = Some d \<longrightarrow> was_kept kept s d)"

lemma stored_failed_saving: "stored_failed kept (ks_user k) r \<Longrightarrow> saving kept k k' \<Longrightarrow> stored_failed kept (ks_user k') r"
  unfolding stored_failed_def saving_def by (blast intro: was_kept_mono)

lemma save_each_post:
  assumes "savers_keep b kept"
  shows "wp (save_each b failed reason rs) (\<lambda>r k'. saving kept k k'
    \<and> (r = Ok () \<longrightarrow> (\<forall>x\<in>set rs. stored_failed kept (ks_user k') x))) k"
proof (induction rs arbitrary: k)
  case Nil
  then show ?case by (simp add: wp_rules saving_def)
next
  case (Cons x rs)
  have keep: "saver_keeps kept (length [d]) (\<lambda>ds. bc_saveFunction b (call_deadline b) (hd ds))" for d
    using assms by (auto simp: saver_keeps_def savers_keep_def length_Suc_conv)
  have one: "wp (runDLQSaveWithRetry b [d] (\<lambda>ds. bc_saveFunction b (call_deadline b) (hd ds)))
      (\<lambda>r k'. saving kept k k' \<and> (r = Ok () \<longrightarrow> (was_kept kept (ks_user k') d))) k" for d
    by (rule wp_conseq [OF save_kept [OF keep]]) (auto simp: saving_def)
  show ?case
    unfolding save_each.simps
  proof (rule wp_callI [OF one], goal_cases)
    case (1 y v)
    then have x: "stored_failed kept (ks_user v) x" by (auto simp: stored_failed_def)
    show ?case
      unfolding sum.case wp_after wp_k wp_modify
    proof (rule wp_conseq [OF Cons.IH], goal_cases)
      case (1 r k')
      let ?v = "ks_dlq_writes_update (\<lambda>n. n + 1) (ks_events_update (\<lambda>es. es @ [Metric (''dlq_consumer_'' @ ''dlq_writes_total'')
            [bc_groupID b, bc_topic b, ''success'', last_error x]]) v)"
      have "saving kept v ?v" by (simp add: saving_def)
      then have "saving kept v k'" using 1 by (blast intro: saving_trans)
      with x \<open>saving kept k v \<and> _\<close> 1 show ?case by (auto intro: saving_trans stored_failed_saving)
    qed
  next
    case (2 e v)
    show ?case
      unfolding sum.case
      by (rule wp_afterI [OF noted_records(4)]) (use 2 in \<open>auto simp: wp_rules intro: saving_trans saving_noted\<close>)
  qed auto
qed

lemma persistFailedBatch_post:
  assumes "savers_keep b kept" and msgs: "\<forall>x\<in>set failed. mr_dlqMessage x \<noteq> None"
  shows "wp (persistFailedBatch b failed reason) (\<lambda>r k'. saving kept k k'
    \<and> (r = Ok () \<and> bc_dlqSave b \<longrightarrow> (\<forall>x\<in>set failed. stored_failed kept (ks_user k') x))
    \<and> (\<not> bc_dlqSave b \<longrightarrow> ks_user k' = ks_user k \<and> r = Ok ())) k"
proof (cases "failed = [] \<or> \<not> bc_dlqSave b")
  case True
  then show ?thesis by (auto simp: persistFailedBatch_def wp_rules saving_def)
next
  case False
  note on = False
  show ?thesis
  proof (cases "bc_saveBatchFunction b")
    case None
    have "wp (andThen (save_each b failed reason failed) (\<lambda>_.
            after (log_k ''info'' ''Messages persisted to DLQ storage sequentially'') (ok ())))
          (\<lambda>r k'. saving kept k k' \<and> (r = Ok () \<longrightarrow> (\<forall>x\<in>set failed. stored_failed kept (ks_user k') x))) k"
      by (rule wp_andThenI [OF save_each_post [OF assms(1)]]) (auto simp: wp_rules saving_def)
    then show ?thesis
      unfolding persistFailedBatch_def using on None by (simp add: wp_conseq)
  next
    case (Some save)
    then have keep: "saver_keeps kept (length ds) (save t)" for ds t
      using assms(1) by (simp add: savers_keep_def)
    have "wp (call (runDLQSaveWithRetry b (map (the \<circ> mr_dlqMessage) failed) (save (call_deadline b))) (\<lambda>x. case x of
            Inl e \<Rightarrow> after (logDLQBatchFailure b failed e reason) (fail (wrap2 (Dql ErrSaveMessageToDLQDatabase) e))
          | Inr _ \<Rightarrow> after (logDLQBatchSuccess b failed reason) (ok ())))
          (\<lambda>r k'. saving kept k k' \<and> (r = Ok () \<longrightarrow> (\<forall>x\<in>set failed. stored_failed kept (ks_user k') x))) k"
    proof (rule wp_callI [OF save_kept [OF keep]], goal_cases)
      case (1 x v)
      then have v: "saving kept k v" "\<forall>x\<in>set failed. stored_failed kept (ks_user v) x"
        using msgs by (auto simp: saving_def stored_failed_def)
      show ?case
        unfolding sum.case wp_after
        by (rule wp_conseq [OF noted_records(3)]) (use v in \<open>auto simp: wp_rules intro: saving_trans saving_noted stored_failed_saving\<close>)
    next
      case (2 e v)
      then have v: "saving kept k v" by (auto simp: saving_def)
      show ?case
        unfolding sum.case wp_after
        by (rule wp_conseq [OF noted_records(4)]) (use v in \<open>auto simp: wp_rules intro: saving_trans saving_noted\<close>)
    next
      case (3 p v)
      then show ?case by (auto simp: saving_def)
    qed
    then show ?thesis
      unfolding persistFailedBatch_def using on Some by (simp add: wp_conseq)
  qed
qed

section \<open>Marking\<close>

text \<open>
  The messages a batch marks, given which of them were handled and which partitions are blocked:
  on a partition, those before the first that has to be kept back.
\<close>

fun settle :: "bool \<Rightarrow> 32 word set \<Rightarrow> (consumer_message \<times> bool) list \<Rightarrow> consumer_message list" where
  "settle save blocked [] = []"
| "settle save blocked ((m, handled) # xs) =
     (if (handled \<or> save) \<and> cm_Partition m \<notin> blocked then m # settle save blocked xs
      else settle save (if handled then blocked else insert (cm_Partition m) blocked) xs)"

definition on_partition :: "32 word \<Rightarrow> consumer_message \<Rightarrow> bool" where
  "on_partition p m \<longleftrightarrow> cm_Partition m = p"

lemma settle_on_partition:
  "filter (on_partition p) (settle save blocked xs) =
     (if p \<in> blocked then []
      else if save then filter (on_partition p) (map fst xs)
      else map fst (takeWhile snd (filter (on_partition p \<circ> fst) xs)))"
  by (induction save blocked xs rule: settle.induct) (auto simp: on_partition_def [abs_def] comp_def)

definition settled_counts :: "'s kstate \<Rightarrow> 64 word" where
  "settled_counts k = ks_success k + ks_decode_failed k + ks_processing_failed k"

definition marked_since :: "'s kstate \<Rightarrow> consumer_message list \<Rightarrow> 's kstate \<Rightarrow> bool" where
  "marked_since k ms k' \<longleftrightarrow> map fst (ks_marks k') = map fst (ks_marks k) @ ms \<and> ks_commits k' = ks_commits k
     \<and> ks_received k' = ks_received k \<and> ks_user k' = ks_user k"

lemma marked_since_events [simp]:
  "marked_since k ms (ks_events_update f k') = marked_since k ms k'"
  "marked_since k ms (ks_ticks_update g k') = marked_since k ms k'"
  "settled_counts (ks_events_update f k') = settled_counts k'"
  "settled_counts (ks_ticks_update g k') = settled_counts k'"
  "settled_counts (ks_marks_update h k') = settled_counts k'"
  by (simp_all add: marked_since_def settled_counts_def)

lemma logProgress_post:
  "marked_since k ms k' \<Longrightarrow> wp (logProgressIfNeeded b st) (\<lambda>_ v. marked_since k ms v \<and> settled_counts v = settled_counts k') k'"
  by (auto simp: logProgressIfNeeded_def wp_rules)

lemma finalizeMessage_post:
  "wp (finalizeMessage b r blocked) (\<lambda>blocked' k'.
     marked_since k (if (mr_status r = Success \<or> bc_dlqSave b) \<and> cm_Partition (mr_message r) \<notin> set blocked then [mr_message r] else []) k'
     \<and> set blocked' = (if mr_status r = Success \<or> bc_dlqSave b \<and> cm_Partition (mr_message r) \<notin> set blocked then set blocked
         else insert (cm_Partition (mr_message r)) (set blocked))
     \<and> settled_counts k' = settled_counts k + 1) k"
proof -
  have count: "settled_counts (ks_success_update (\<lambda>n. n + 1) k) = settled_counts k + 1"
    "settled_counts (ks_decode_failed_update (\<lambda>n. n + 1) k) = settled_counts k + 1"
    "settled_counts (ks_processing_failed_update (\<lambda>n. n + 1) k) = settled_counts k + 1" for k :: "'a kstate"
    by (simp_all add: settled_counts_def)
  show ?thesis
    unfolding finalizeMessage_def finalize_success_def finalize_failed_def count_k_def Let_def
    by (cases "mr_status r") (auto simp: wp_rules count logProgressIfNeeded_def marked_since_def)
qed

definition handled_pairs :: "processing_result list \<Rightarrow> (consumer_message \<times> bool) list" where
  "handled_pairs rs = map (\<lambda>r. (mr_message r, mr_status r = Success)) rs"

lemma finalize_all_post:
  "wp (finalize_all b rs blocked) (\<lambda>_ k'. marked_since k (settle (bc_dlqSave b) (set blocked) (handled_pairs rs)) k'
     \<and> settled_counts k' = settled_counts k + of_nat (length rs)) k"
proof (induction rs arbitrary: blocked k)
  case Nil
  then show ?case by (simp add: wp_rules marked_since_def handled_pairs_def)
next
  case (Cons r rs)
  show ?case
    unfolding finalize_all.simps
  proof (rule wp_bindI [OF finalizeMessage_post], goal_cases)
    case (1 blocked' v)
    show ?case
      by (rule wp_conseq [OF Cons.IH])
        (use 1 in \<open>auto simp: marked_since_def handled_pairs_def algebra_simps split: if_splits\<close>)
  qed
qed

section \<open>A batch\<close>

text \<open>What a batch has done when it returns nil, given which messages were handled.\<close>

definition batch_done ::
  "('s, 'o) base_consumer \<Rightarrow> ('s \<Rightarrow> dlq_message \<Rightarrow> bool) \<Rightarrow> consumer_message list \<Rightarrow> 's kstate \<Rightarrow> bool list \<Rightarrow> 's kstate \<Rightarrow> bool" where
  "batch_done b kept ms k hs k' \<longleftrightarrow> length hs = length ms
     \<and> fst (handle b ms (ks_user k)) = map Some hs
     \<and> map fst (ks_marks k') = map fst (ks_marks k) @ settle (bc_dlqSave b) {} (zip ms hs)
     \<and> ks_commits k' = ks_commits k
     \<and> ks_received k' = ks_received k + of_nat (length ms)
     \<and> settled_counts k' = settled_counts k + of_nat (length ms)
     \<and> (if bc_dlqSave b
        then list_all (\<lambda>(m, h). h \<or> (\<exists>d. kept (ks_user k') d \<and> dead_letter m d)) (zip ms hs)
        else ks_user k' = snd (handle b ms (ks_user k)))"

lemma dead_letter_stamp: "dead_letter m (stamp j u d) = dead_letter m d"
  by (simp add: dead_letter_def stamp_def)

lemma processBatch_post:
  assumes "savers_keep b kept"
  shows "wp (processBatch b ms reason) (\<lambda>r k'. case r of Ok _ \<Rightarrow> \<exists>hs. batch_done b kept ms k hs k' | _ \<Rightarrow> no_marks k k') k"
  unfolding processBatch_def
proof (rule wp_andThenI [OF process_all_post], goal_cases)
  case (1 rs v)
  let ?failed = "filter (\<lambda>r. mr_dlqMessage r \<noteq> None) rs"
  have "\<forall>x\<in>set ?failed. mr_dlqMessage x \<noteq> None" by simp
  note persist = persistFailedBatch_post [OF assms this]
  show ?case
  proof (rule wp_andThenI [OF persist], goal_cases)
    case (1 x u)
    note fin = 1
    let ?hs = "map (\<lambda>r. mr_status r = Success) rs"
    have zip: "zip ms ?hs = handled_pairs rs"
      using \<open>no_marks k v \<and> _\<close> by (auto simp: handled_pairs_def zip_map_map zip_same_conv_map)
    have kept: "\<exists>d. kept (ks_user u) d \<and> dead_letter (mr_message r) d"
      if "bc_dlqSave b" "r \<in> set rs" "mr_status r \<noteq> Success" for r
      using \<open>no_marks k v \<and> _\<close> fin that
      by (auto simp: result_of_def stored_failed_def was_kept_def) (metis dead_letter_stamp option.distinct(1))
    then have "bc_dlqSave b \<Longrightarrow> list_all (\<lambda>(m, h). h \<or> (\<exists>d. kept (ks_user u) d \<and> dead_letter m d)) (zip ms ?hs)"
      unfolding zip handled_pairs_def list_all_iff by auto
    then show ?case
      unfolding wp_after
      by (intro wp_conseq [OF finalize_all_post [where blocked = "[]"]])
        (use \<open>no_marks k v \<and> _\<close> fin in
          \<open>auto simp: wp_rules batch_done_def marked_since_def no_marks_def saving_def settled_counts_def zip [symmetric]
            intro!: exI [of _ ?hs]\<close>)
  qed (use 1 in \<open>auto simp: saving_def intro: no_marks_trans\<close>)
qed simp_all

text \<open>The functions of the user do not lose stored messages either.\<close>

definition user_keeps :: "('s, 'o) base_consumer \<Rightarrow> ('s \<Rightarrow> dlq_message \<Rightarrow> bool) \<Rightarrow> bool" where
  "user_keeps b kept \<longleftrightarrow> savers_keep b kept
     \<and> (\<forall>object values s. wp (bc_execFunction b object values) (\<lambda>_ s'. \<forall>d. kept s d \<longrightarrow> kept s' d) s)"

definition still_kept :: "('s \<Rightarrow> dlq_message \<Rightarrow> bool) \<Rightarrow> 's kstate \<Rightarrow> 's kstate \<Rightarrow> bool" where
  "still_kept kept k k' \<longleftrightarrow> (\<forall>d. kept (ks_user k) d \<longrightarrow> kept (ks_user k') d)"

lemma still_kept_trans: "still_kept kept k k' \<Longrightarrow> still_kept kept k' k'' \<Longrightarrow> still_kept kept k k''"
  by (simp add: still_kept_def)

lemma still_kept_same: "ks_user k' = ks_user k \<Longrightarrow> still_kept kept k k'"
  by (simp add: still_kept_def)

lemma failed_result_user: "wp (failed_result m t st e cause line) (\<lambda>_ k'. ks_user k' = ks_user k) k"
  by (auto simp: failed_result_def newDLQMessage_def uuid_k_def wp_rules split: option.split)

lemma processMessage_kept:
  assumes "user_keeps b kept"
  shows "wp (processMessage b m) (\<lambda>_. still_kept kept k) k"
proof -
  have exec: "wp (on_user (bc_execFunction b object vs)) (\<lambda>_ v. still_kept kept k v) u"
    if "ks_user u = ks_user k" for object vs u
    using assms that unfolding user_keeps_def still_kept_def wp_on_user
    by (auto simp: wp_def split: prod.splits)
  have failed: "wp (failed_result m t st e cause line) (\<lambda>_. still_kept kept k) u" if "still_kept kept k u" for t st e cause line u
    by (rule wp_conseq [OF failed_result_user]) (use that in \<open>simp add: still_kept_def\<close>)
  have "wp (decide b m t) (\<lambda>_. still_kept kept k) u" if "ks_user u = ks_user k" for t u
  proof (cases "newMessageObject (bc_objectType b)")
    case (Inl e)
    then show ?thesis using that by (simp add: decide_def wp_rules still_kept_def)
  next
    case new: (Inr x)
    show ?thesis
    proof (cases "bc_unmarshal b (cm_Value m)")
      case (Inl e)
      show ?thesis
        unfolding decide_def new Inl sum.case by (rule failed) (use that in \<open>simp add: still_kept_same\<close>)
    next
      case (Inr object)
      show ?thesis
        unfolding decide_def new Inr sum.case
        by (rule wp_callI, rule exec, rule that) (simp_all add: wp_ok failed)
    qed
  qed
  then show ?thesis
    unfolding processMessage_def by (cases "bc_perMessageDebugLog b") (simp_all add: wp_rules)
qed

lemma process_all_kept:
  assumes "user_keeps b kept"
  shows "wp (process_all b ms) (\<lambda>_. still_kept kept k) k"
proof (induction ms arbitrary: k)
  case Nil
  then show ?case by (simp add: wp_rules still_kept_def)
next
  case (Cons m ms)
  show ?case
    unfolding process_all.simps
  proof (rule wp_andThenI [OF processMessage_kept [OF assms]], goal_cases)
    case (1 res v)
    show ?case
      by (rule wp_andThenI [OF Cons.IH]) (use 1 in \<open>auto simp: wp_ok intro: still_kept_trans\<close>)
  qed auto
qed

lemma processBatch_kept:
  assumes "user_keeps b kept"
  shows "wp (processBatch b ms reason) (\<lambda>_. still_kept kept k) k"
  unfolding processBatch_def
proof (rule wp_andThenI [OF process_all_kept [OF assms]], goal_cases)
  case (1 rs v)
  have s: "savers_keep b kept" using assms by (simp add: user_keeps_def)
  have "wp (persistFailedBatch b (filter (\<lambda>r. mr_dlqMessage r \<noteq> None) rs) reason) (\<lambda>_. still_kept kept k) v"
    by (rule wp_conseq [OF persistFailedBatch_post [OF s]]) (use 1 in \<open>auto simp: still_kept_def saving_def\<close>)
  then show ?case
  proof (rule wp_andThenI, goal_cases)
    case (1 x u)
    show ?case
      unfolding wp_after
      by (rule wp_conseq [OF finalize_all_post]) (use 1 in \<open>auto simp: wp_ok marked_since_def still_kept_def\<close>)
  qed
qed

section \<open>A claim\<close>

text \<open>A message that may be committed: the domain function took it, or it is stored as a dead letter.\<close>

definition accounted :: "('s, 'o) base_consumer \<Rightarrow> ('s \<Rightarrow> dlq_message \<Rightarrow> bool) \<Rightarrow> 's \<Rightarrow> consumer_message \<Rightarrow> bool" where
  "accounted b kept s m \<longleftrightarrow> (\<exists>u v. handle_one b m u = (Some True, v)) \<or> (\<exists>d. kept s d \<and> dead_letter m d)"

text \<open>
  What has happened when the messages \<open>ms\<close> were worked through, in any number of batches; and
  what an interrupted batch leaves.
\<close>

definition worked :: "('s, 'o) base_consumer \<Rightarrow> ('s \<Rightarrow> dlq_message \<Rightarrow> bool) \<Rightarrow> 's kstate \<Rightarrow> consumer_message list \<Rightarrow> 's kstate \<Rightarrow> bool" where
  "worked b kept k ms k' \<longleftrightarrow> still_kept kept k k'
     \<and> ks_received k' - settled_counts k' = ks_received k - settled_counts k
     \<and> (\<exists>new. map fst (ks_marks k') = map fst (ks_marks k) @ new
         \<and> (\<forall>m\<in>set new. accounted b kept (ks_user k') m) \<and> (bc_dlqSave b \<longrightarrow> new = ms))
     \<and> (\<not> bc_dlqSave b \<longrightarrow> ks_user k' = snd (handle b ms (ks_user k)))"

definition interrupted :: "('s, 'o) base_consumer \<Rightarrow> ('s \<Rightarrow> dlq_message \<Rightarrow> bool) \<Rightarrow> 's kstate \<Rightarrow> 's kstate \<Rightarrow> bool" where
  "interrupted b kept k k' \<longleftrightarrow> still_kept kept k k' \<and>
     (\<exists>new. map fst (ks_marks k') = map fst (ks_marks k) @ new \<and> (\<forall>m\<in>set new. accounted b kept (ks_user k') m))"

lemma accounted_kept: "accounted b kept (ks_user k) m \<Longrightarrow> still_kept kept k k' \<Longrightarrow> accounted b kept (ks_user k') m"
  unfolding accounted_def still_kept_def by blast

lemma worked_refl: "worked b kept k [] k"
  by (simp add: worked_def still_kept_def)

lemma worked_interrupted: "worked b kept k ms k' \<Longrightarrow> interrupted b kept k k'"
  unfolding worked_def interrupted_def by blast

lemma worked_then_interrupted:
  assumes "worked b kept k ms v" "interrupted b kept v u"
  shows "interrupted b kept k u"
proof -
  from assms obtain x y where "map fst (ks_marks v) = map fst (ks_marks k) @ x" "\<forall>m\<in>set x. accounted b kept (ks_user v) m"
      "map fst (ks_marks u) = map fst (ks_marks v) @ y" "\<forall>m\<in>set y. accounted b kept (ks_user u) m"
    and kept: "still_kept kept k v" "still_kept kept v u"
    unfolding worked_def interrupted_def by blast
  then show ?thesis
    unfolding interrupted_def
    by (auto intro: still_kept_trans accounted_kept [OF _ kept(2)])
qed

lemma worked_trans:
  assumes "worked b kept k ms v" "worked b kept v ms' u"
  shows "worked b kept k (ms @ ms') u"
proof -
  from assms obtain x y where "map fst (ks_marks v) = map fst (ks_marks k) @ x" "\<forall>m\<in>set x. accounted b kept (ks_user v) m"
      "map fst (ks_marks u) = map fst (ks_marks v) @ y" "\<forall>m\<in>set y. accounted b kept (ks_user u) m"
      "bc_dlqSave b \<longrightarrow> x = ms \<and> y = ms'"
    and kept: "still_kept kept k v" "still_kept kept v u"
    unfolding worked_def by blast
  moreover have "ks_received u - settled_counts u = ks_received k - settled_counts k"
    using assms by (simp add: worked_def)
  moreover have "\<not> bc_dlqSave b \<longrightarrow> ks_user u = snd (handle b (ms @ ms') (ks_user k))"
    using assms by (auto simp: worked_def handle_append split: prod.splits)
  ultimately show ?thesis
    unfolding worked_def by (auto intro: still_kept_trans accounted_kept [OF _ kept(2)])
qed

lemma worked_frame:
  "worked b kept k ms k' \<Longrightarrow> ks_marks v = ks_marks k' \<Longrightarrow> ks_user v = ks_user k' \<Longrightarrow> ks_received v = ks_received k'
   \<Longrightarrow> settled_counts v = settled_counts k' \<Longrightarrow> worked b kept k ms v"
  by (simp add: worked_def still_kept_def)

lemma worked_start:
  "worked b kept v ms k' \<Longrightarrow> ks_marks v = ks_marks k \<Longrightarrow> ks_user v = ks_user k \<Longrightarrow> ks_received v = ks_received k
   \<Longrightarrow> settled_counts v = settled_counts k \<Longrightarrow> worked b kept k ms k'"
  by (simp add: worked_def still_kept_def)

lemma settle_save: "settle True {} xs = map fst xs"
  by (induction xs) auto

lemma settle_handled: "m \<in> set (settle False B xs) \<Longrightarrow> (m, True) \<in> set xs"
  by (induction False B xs rule: settle.induct) (auto split: if_splits)

lemma handle_handled:
  "fst (handle b ms s) = map Some hs \<Longrightarrow> (m, True) \<in> set (zip ms hs) \<Longrightarrow> \<exists>u v. handle_one b m u = (Some True, v)"
proof (induction ms arbitrary: s hs)
  case (Cons x ms)
  obtain r s1 where r: "handle_one b x s = (r, s1)" by fastforce
  obtain rs s2 where rs: "handle b ms s1 = (rs, s2)" by fastforce
  from Cons.prems r rs obtain h hs' where hs: "hs = h # hs'" "r = Some h" "rs = map Some hs'"
    by (auto simp: Cons_eq_map_conv)
  then have "h \<and> m = x \<or> (m, True) \<in> set (zip ms hs')" using Cons.prems(2) by auto
  then show ?case
  proof
    assume "h \<and> m = x"
    with r hs show ?thesis by auto
  next
    assume "(m, True) \<in> set (zip ms hs')"
    with rs hs show ?thesis using Cons.IH [of s1 hs'] by simp
  qed
qed simp

lemma batch_worked:
  assumes "batch_done b kept ms k hs k'" "still_kept kept k k'"
  shows "worked b kept k ms k'"
proof -
  have len: "length hs = length ms" using assms by (simp add: batch_done_def)
  have h: "\<exists>u v. handle_one b m u = (Some True, v)" if "(m, True) \<in> set (zip ms hs)" for m
    using assms that handle_handled [of b ms "ks_user k" hs] by (simp add: batch_done_def)
  have "accounted b kept (ks_user k') m" if "m \<in> set (settle (bc_dlqSave b) {} (zip ms hs))" for m
  proof (cases "bc_dlqSave b")
    case True
    with that obtain x where x: "(m, x) \<in> set (zip ms hs)" by (auto simp: settle_save)
    with assms True h show ?thesis
      by (cases x) (auto simp: batch_done_def accounted_def list_all_iff)
  next
    case False
    with that h show ?thesis by (auto simp: accounted_def dest: settle_handled)
  qed
  then show ?thesis
    using assms len by (auto simp: batch_done_def worked_def settle_save)
qed

lemma processBatch_works:
  assumes "user_keeps b kept"
  shows "wp (processBatch b ms reason) (\<lambda>r k'. case r of Ok _ \<Rightarrow> worked b kept k ms k' | _ \<Rightarrow> interrupted b kept k k') k"
proof -
  have s: "savers_keep b kept" using assms by (simp add: user_keeps_def)
  show ?thesis
  proof (rule wp_conseq [OF wp_conj [OF processBatch_post [OF s] processBatch_kept [OF assms]]], goal_cases)
  case (1 r k')
  then show ?case
    by (auto simp: interrupted_def no_marks_def split: outcome.splits intro: batch_worked)
  qed
qed

text \<open>The messages a mode still holds; a batch is always shorter than its size.\<close>

primrec pending :: "claim_mode \<Rightarrow> consumer_message list" where
  "pending SingleMode = []"
| "pending (BatchMode m) = bm_messages m"

definition mode_ok :: "('s, 'o) base_consumer \<Rightarrow> claim_mode \<Rightarrow> bool" where
  "mode_ok b mode \<longleftrightarrow> (mode = SingleMode \<or> bc_batchSize b > 1 \<and> int (length (pending mode)) < bc_batchSize b)"

lemma HandleFlush_post:
  assumes "user_keeps b kept" and small: "mode = SingleMode \<or> bc_batchSize b > 1"
  shows "wp (HandleFlush b mode reason) (\<lambda>r k'. case r of
      Ok mode' \<Rightarrow> worked b kept k (pending mode) k' \<and> pending mode' = [] \<and> mode_ok b mode'
    | _ \<Rightarrow> interrupted b kept k k') k"
proof (cases mode)
  case SingleMode
  then show ?thesis by (simp add: HandleFlush_def wp_rules worked_refl mode_ok_def)
next
  case (BatchMode m)
  show ?thesis
  proof (cases "bm_messages m = []")
    case True
    with BatchMode small show ?thesis by (simp add: HandleFlush_def wp_rules worked_refl mode_ok_def)
  next
    case False
    let ?Q = "\<lambda>r k'. case r of Ok mode' \<Rightarrow> worked b kept k (pending mode) k' \<and> pending mode' = [] \<and> mode_ok b mode'
      | _ \<Rightarrow> interrupted b kept k k'"
    have main: "wp (andThen (processBatch b (bm_messages m) reason) (\<lambda>_. do {
               now \<leftarrow> now_k;
               _ \<leftarrow> emit_k (Sample ''dlq_consumer_batch_duration_seconds'' [bc_groupID b, bc_topic b, reason] (now - t));
               ok (BatchMode (stopTimer (m\<lparr>bm_messages := []\<rparr>))) })) ?Q v"
      if "ks_marks v = ks_marks k" "ks_user v = ks_user k" "ks_received v = ks_received k" "settled_counts v = settled_counts k" for v t
    proof (rule wp_andThenI [OF processBatch_works [OF assms(1)]], goal_cases)
      case (1 x u)
      then have "worked b kept k (bm_messages m) u"
        using that by (auto intro: worked_start)
      with BatchMode small show ?case
        by (auto simp: wp_rules mode_ok_def stopTimer_def settled_counts_def intro: worked_frame)
    qed (use that in \<open>auto simp: interrupted_def still_kept_def\<close>)
    show ?thesis
      unfolding HandleFlush_def BatchMode claim_mode.case
      by (simp only: False if_False wp_bind wp_k, rule main [unfolded BatchMode wp_bind wp_k]) (simp_all add: settled_counts_def)
  qed
qed

lemma pending_reset [simp]: "bm_messages (resetTimer b m) = bm_messages m"
  by (simp add: resetTimer_def)

lemma HandleMessage_post:
  assumes "user_keeps b kept" and ok: "mode_ok b mode"
  shows "wp (HandleMessage b mode m) (\<lambda>r k'. case r of
      Ok mode' \<Rightarrow> (\<exists>ms. pending mode @ [m] = ms @ pending mode' \<and> worked b kept k ms k') \<and> mode_ok b mode'
    | _ \<Rightarrow> interrupted b kept k k') k"
proof (cases mode)
  case SingleMode
  have "wp (andThen (processBatch b [m] ''single'') (\<lambda>_. ok SingleMode)) (\<lambda>r k'. case r of
      Ok mode' \<Rightarrow> (\<exists>ms. pending mode @ [m] = ms @ pending mode' \<and> worked b kept k ms k') \<and> mode_ok b mode'
    | _ \<Rightarrow> interrupted b kept k k') k"
    by (rule wp_andThenI [OF processBatch_works [OF assms(1)]]) (auto simp: SingleMode wp_rules mode_ok_def)
  then show ?thesis by (simp add: HandleMessage_def SingleMode)
next
  case (BatchMode bm)
  define m2 where "m2 = (let m' = bm\<lparr>bm_messages := bm_messages bm @ [m]\<rparr> in
    if length (bm_messages m') = 1 then resetTimer b m' else m')"
  have msgs: "bm_messages m2 = bm_messages bm @ [m]" by (simp add: m2_def Let_def)
  have big: "bc_batchSize b > 1" using ok BatchMode by (simp add: mode_ok_def)
  have unfolded: "HandleMessage b mode m =
      (if int (length (bm_messages m2)) < bc_batchSize b then ok (BatchMode m2) else HandleFlush b (BatchMode m2) ''batch_size'')"
    by (simp add: HandleMessage_def BatchMode m2_def Let_def)
  show ?thesis
  proof (cases "int (length (bm_messages m2)) < bc_batchSize b")
    case True
    with big msgs BatchMode show ?thesis
      unfolding unfolded by (auto simp: wp_rules mode_ok_def intro!: exI [of _ "[]"] worked_refl)
  next
    case False
    have "wp (HandleFlush b (BatchMode m2) ''batch_size'') (\<lambda>r k'. case r of
        Ok mode' \<Rightarrow> (\<exists>ms. pending mode @ [m] = ms @ pending mode' \<and> worked b kept k ms k') \<and> mode_ok b mode'
      | _ \<Rightarrow> interrupted b kept k k') k"
      by (rule wp_conseq [OF HandleFlush_post [OF assms(1)]]) (use big msgs BatchMode in \<open>auto split: outcome.splits\<close>)
    with False show ?thesis unfolding unfolded by simp
  qed
qed

text \<open>The messages a claim takes, up to its end.\<close>

fun consumed :: "claim_input list \<Rightarrow> consumer_message list" where
  "consumed [] = []"
| "consumed (Received m # rest) = m # consumed rest"
| "consumed (TimerFired # rest) = consumed rest"
| "consumed (_ # rest) = []"

lemma claim_end_post:
  assumes "user_keeps b kept" "mode_ok b mode"
    and fin: "\<And>v. wp f (\<lambda>r u. r = Ok () \<and> ks_marks u = ks_marks v \<and> ks_user u = ks_user v \<and> ks_received u = ks_received v
      \<and> settled_counts u = settled_counts v) v"
  shows "wp (andThen (HandleFlush b mode reason) (\<lambda>_. andThen f (\<lambda>_. ok True)))
    (\<lambda>r k'. case r of Ok x \<Rightarrow> x \<and> worked b kept k (pending mode) k' | _ \<Rightarrow> interrupted b kept k k') k"
proof (rule wp_andThenI [OF HandleFlush_post [OF assms(1)]], goal_cases)
  case 1
  then show ?case using assms(2) by (auto simp: mode_ok_def)
next
  case (2 x v)
  show ?case
    by (rule wp_andThenI [OF fin]) (use 2 in \<open>auto simp: wp_ok intro: worked_frame\<close>)
qed auto

lemma claim_loop_post:
  assumes keeps: "user_keeps b kept" and ok: "mode_ok b mode"
  shows "wp (claim_loop b mode inputs) (\<lambda>r k'. case r of
      Ok True \<Rightarrow> worked b kept k (pending mode @ consumed inputs) k'
    | Ok False \<Rightarrow> (\<exists>ms rest. pending mode @ consumed inputs = ms @ rest \<and> worked b kept k ms k')
    | _ \<Rightarrow> interrupted b kept k k') k" (is "wp _ (?P mode inputs k) k")
  using ok
proof (induction inputs arbitrary: mode k)
  case Nil
  show ?case unfolding claim_loop.simps wp_ok outcome.case bool.case
    by (rule exI [of _ "[]"]) (simp add: worked_refl)
next
  case (Cons i rest)
  have step: "?P mode (i # rest) k r u"
    if "?P mode' rest v r u" "worked b kept k ms v" "pending mode @ consumed (i # rest) = ms @ pending mode' @ consumed rest" for r u v ms mode'
  proof (cases r)
    case (Ok x)
    show ?thesis
    proof (cases x)
      case True
      with Ok that show ?thesis by (auto intro: worked_trans)
    next
      case False
      with Ok that obtain ms' rs where "pending mode' @ consumed rest = ms' @ rs" "worked b kept v ms' u" by auto
      then have "pending mode @ consumed (i # rest) = (ms @ ms') @ rs" "worked b kept k (ms @ ms') u"
        using that by (auto intro: worked_trans)
      with Ok False show ?thesis by (simp only: outcome.case bool.case) blast
    qed
  qed (use that in \<open>auto intro: worked_then_interrupted\<close>)
  show ?case
  proof (cases i)
    case (Received m)
    show ?thesis
      unfolding Received claim_loop.simps
    proof (rule wp_andThenI [OF HandleMessage_post [OF keeps Cons.prems]], goal_cases)
      case (1 mode' v)
      then obtain ms where ms: "pending mode @ [m] = ms @ pending mode'" "worked b kept k ms v" "mode_ok b mode'" by auto
      show ?case
        using Cons.IH [OF ms(3)]
        by (rule wp_conseq) (rule step [unfolded Received], assumption, rule ms(2), use ms(1) in simp)
    qed auto
  next
    case TimerFired
    show ?thesis
    proof (cases "timer_ready mode")
      case True
      then have small: "mode = SingleMode \<or> bc_batchSize b > 1" using Cons.prems by (auto simp: mode_ok_def)
      have "wp (andThen (HandleFlush b mode ''batch_timeout'') (\<lambda>mode'. claim_loop b mode' rest)) (?P mode (i # rest) k) k"
      proof (rule wp_andThenI [OF HandleFlush_post [OF keeps small]], goal_cases)
        case (1 mode' v)
        then have ms: "worked b kept k (pending mode) v" "mode_ok b mode'" "pending mode' = []" by auto
        show ?case
          using Cons.IH [OF ms(2)]
          by (rule wp_conseq) (rule step, assumption, rule ms(1), use ms(3) TimerFired in simp)
      qed auto
      with True TimerFired show ?thesis by simp
    next
      case False
      then have "claim_loop b mode (TimerFired # rest) = claim_loop b mode rest" by simp
      then show ?thesis unfolding TimerFired consumed.simps by (simp only: Cons.IH [OF Cons.prems])
    qed
  next
    case ClaimClosed
    have "wp (stopOnClaimClosed b) (\<lambda>r u. r = Ok () \<and> ks_marks u = ks_marks v \<and> ks_user u = ks_user v \<and> ks_received u = ks_received v
      \<and> settled_counts u = settled_counts v) v" for v
      by (simp add: stopOnClaimClosed_def wp_rules settled_counts_def)
    then show ?thesis
      unfolding ClaimClosed claim_loop.simps
      by (rule wp_conseq [OF claim_end_post [OF keeps Cons.prems]]) (auto split: outcome.splits)
  next
    case SessionDone
    have "wp (stopOnContextDone b) (\<lambda>r u. r = Ok () \<and> ks_marks u = ks_marks v \<and> ks_user u = ks_user v \<and> ks_received u = ks_received v
      \<and> settled_counts u = settled_counts v) v" for v
      by (simp add: stopOnContextDone_def wp_rules settled_counts_def)
    then show ?thesis
      unfolding SessionDone claim_loop.simps
      by (rule wp_conseq [OF claim_end_post [OF keeps Cons.prems]]) (auto split: outcome.splits)
  qed
qed

lemma ConsumeClaim_post:
  assumes "user_keeps b kept"
  shows "wp (ConsumeClaim b inputs) (\<lambda>r k'. case r of
      Ok True \<Rightarrow> worked b kept k (consumed inputs) k'
    | Ok False \<Rightarrow> (\<exists>ms rest. consumed inputs = ms @ rest \<and> worked b kept k ms k')
    | _ \<Rightarrow> interrupted b kept k k') k"
proof (cases "bc_batchEnabled b \<and> bc_batchSize b > 1")
  case True
  let ?v = "ks_events_update (\<lambda>es. es @ [LogLine ''info'' ''Kafka consumer batch mode enabled'']) k"
  let ?mode = "BatchMode \<lparr>bm_messages = [], bm_timer = None\<rparr>"
  have start: "worked b kept ?v ms k' = worked b kept k ms k'" "interrupted b kept ?v k' = interrupted b kept k k'" for ms k'
    by (simp_all add: worked_def interrupted_def still_kept_def settled_counts_def)
  have "mode_ok b ?mode" using True by (simp add: mode_ok_def)
  from claim_loop_post [OF assms this, of inputs ?v]
  have "wp (claim_loop b ?mode inputs) (\<lambda>r k'. case r of
      Ok True \<Rightarrow> worked b kept k (consumed inputs) k'
    | Ok False \<Rightarrow> (\<exists>ms rest. consumed inputs = ms @ rest \<and> worked b kept k ms k')
    | _ \<Rightarrow> interrupted b kept k k') ?v"
    by (rule wp_conseq) (simp add: start split: outcome.splits bool.splits)
  with True show ?thesis
    by (simp add: ConsumeClaim_def newClaimMode_def wp_bind wp_k wp_return)
next
  case False
  have "mode_ok b SingleMode" by (simp add: mode_ok_def)
  from claim_loop_post [OF assms this, of inputs k]
  have "wp (claim_loop b SingleMode inputs) (\<lambda>r k'. case r of
      Ok True \<Rightarrow> worked b kept k (consumed inputs) k'
    | Ok False \<Rightarrow> (\<exists>ms rest. consumed inputs = ms @ rest \<and> worked b kept k ms k')
    | _ \<Rightarrow> interrupted b kept k k') k"
    unfolding pending.simps append_Nil .
  moreover have "newClaimMode b = State_Monad.return SingleMode" using False by (auto simp: newClaimMode_def)
  ultimately show ?thesis
    unfolding ConsumeClaim_def wp_bind by (simp add: wp_return)
qed

lemma user_keeps_trivial: "user_keeps b (\<lambda>_ _. True)"
  by (simp add: user_keeps_def savers_keep_def saver_keeps_def wp_def split: prod.split)

lemma handle_config:
  "handle (b\<lparr>bc_batchEnabled := e, bc_batchSize := n, bc_batchTimeout := t\<rparr>) ms s = handle b ms s"
proof (induction ms arbitrary: s)
  case (Cons m ms)
  have "handle_one (b\<lparr>bc_batchEnabled := e, bc_batchSize := n, bc_batchTimeout := t\<rparr>) m s = handle_one b m s"
    by (simp add: handle_one_def split: sum.split)
  then show ?case by (simp add: Cons.IH)
qed simp

lemma single_claim:
  assumes b: "\<not> bc_dlqSave b"
  shows "wp (claim_loop b SingleMode (map Received ms @ [SessionDone])) (\<lambda>r k'. r = Ok True \<longrightarrow>
    (\<exists>hs. length hs = length ms \<and> fst (handle b ms (ks_user k)) = map Some hs
      \<and> map fst (ks_marks k') = map fst (ks_marks k) @ map fst (filter snd (zip ms hs)))) k"
proof (induction ms arbitrary: k)
  case Nil
  then show ?case by (simp add: HandleFlush_def stopOnContextDone_def wp_rules)
next
  case (Cons m ms)
  have s: "savers_keep b (\<lambda>_ _. True)" using user_keeps_trivial [of b] by (simp add: user_keeps_def)
  have "wp (processBatch b [m] ''single'') (\<lambda>r v. case r of Ok _ \<Rightarrow>
      wp (claim_loop b SingleMode (map Received ms @ [SessionDone])) (\<lambda>r k'. r = Ok True \<longrightarrow>
        (\<exists>hs. length hs = length (m # ms) \<and> fst (handle b (m # ms) (ks_user k)) = map Some hs
          \<and> map fst (ks_marks k') = map fst (ks_marks k) @ map fst (filter snd (zip (m # ms) hs)))) v
      | _ \<Rightarrow> True) k"
  proof (rule wp_conseq [OF processBatch_post [OF s]], goal_cases)
    case (1 r v)
    show ?case
    proof (cases r)
      case (Ok x)
      with 1 obtain h where h: "batch_done b (\<lambda>_ _. True) [m] k [h] v"
        by (auto simp: batch_done_def length_Suc_conv)
      then have v: "handle_one b m (ks_user k) = (Some h, ks_user v)"
        "map fst (ks_marks v) = map fst (ks_marks k) @ (if h then [m] else [])"
        using b by (auto simp: batch_done_def split: prod.splits)
      have "wp (claim_loop b SingleMode (map Received ms @ [SessionDone])) (\<lambda>r k'. r = Ok True \<longrightarrow>
        (\<exists>hs. length hs = length (m # ms) \<and> fst (handle b (m # ms) (ks_user k)) = map Some hs
          \<and> map fst (ks_marks k') = map fst (ks_marks k) @ map fst (filter snd (zip (m # ms) hs)))) v"
      proof (rule wp_conseq [OF Cons.IH], intro impI, goal_cases)
        case (1 r k')
        then obtain hs where "length hs = length ms" "fst (handle b ms (ks_user v)) = map Some hs"
          "map fst (ks_marks k') = map fst (ks_marks v) @ map fst (filter snd (zip ms hs))" by blast
        with v show ?case by (intro exI [of _ "h # hs"]) (auto split: prod.splits)
      qed
      with Ok show ?thesis by simp
    qed simp_all
  qed
  then show ?case
    unfolding list.map append_Cons claim_loop.simps HandleMessage_def claim_mode.case wp_andThen
    by (rule wp_conseq) (auto simp: wp_ok split: outcome.splits)
qed

section \<open>The properties\<close>

text \<open>
  C19: no message is lost. Whatever a claim receives and however it ends - errors of the savers, of
  the domain function and panics included - every message it marks for commit was either taken by
  the domain function or is stored in the dead-letter queue under its topic, partition, offset and
  payload; nothing stored before is lost; and with dead-letter saving on, the messages a claim has
  marked when it returns nil are all it has consumed, in order, so that none is delivered again. What is
  assumed is that a saver that returns nil has stored what it was given, and that the functions of
  the user do not delete it.
\<close>
theorem ConsumeClaim_loses_nothing:
  assumes "user_keeps b kept" and "run_state (ConsumeClaim b inputs) k = (r, k')"
  shows "\<exists>new. map fst (ks_marks k') = map fst (ks_marks k) @ new
    \<and> list_all (accounted b kept (ks_user k')) new
    \<and> (\<forall>d. kept (ks_user k) d \<longrightarrow> kept (ks_user k') d)
    \<and> (bc_dlqSave b \<and> r = Ok True \<longrightarrow> new = consumed inputs)"
  using wpD [OF ConsumeClaim_post [OF assms(1)] assms(2)]
  by (fastforce simp: worked_def interrupted_def still_kept_def list_all_iff split: outcome.splits bool.splits)

text \<open>
  C20: batching is invisible to the functions of the user. Without dead-letter saving, two consumers
  that differ only in their batch mode, batch size and batch timeout, and whose claims received the
  same messages - however they were spread over batches and timeouts - leave the user's state the
  same: the one that handling the messages one after the other gives.
\<close>
theorem ConsumeClaim_batching_invisible:
  assumes "\<not> bc_dlqSave b"
    and "run_state (ConsumeClaim b inputs) k = (Ok True, v)"
    and "run_state (ConsumeClaim (b\<lparr>bc_batchEnabled := e, bc_batchSize := n, bc_batchTimeout := t\<rparr>) inputs') k = (Ok True, v')"
    and "consumed inputs' = consumed inputs"
  shows "ks_user v' = ks_user v \<and> ks_user v = snd (handle b (consumed inputs) (ks_user k))"
  using wpD [OF ConsumeClaim_post [OF user_keeps_trivial] assms(2)] wpD [OF ConsumeClaim_post [OF user_keeps_trivial] assms(3)]
    assms(1,4)
  by (simp add: worked_def handle_config)

text \<open>
  C21: every message a claim has received is counted exactly once, as success, as a decoding failure
  or as a processing failure: the counters are in balance after every claim that returns nil, modulo
  the width of their 64 bits.
\<close>
theorem ConsumeClaim_counts:
  assumes "run_state (ConsumeClaim b inputs) k = (Ok x, k')" and "ks_received k = settled_counts k"
  shows "ks_received k' = settled_counts k'"
  using wpD [OF ConsumeClaim_post [OF user_keeps_trivial] assms(1)] assms(2)
  by (cases x) (auto simp: worked_def)

text \<open>
  C22: what a batch marks. If processBatch returns nil, then on every partition it marks, in order,
  all messages of the batch when failed messages are saved, and else exactly those before the first
  failed one of that partition; if it does not return nil it marks nothing. Nothing is committed.
\<close>
theorem processBatch_marks:
  assumes "run_state (processBatch b ms reason) k = (r, k')"
  shows "ks_commits k' = ks_commits k \<and>
    (r \<noteq> Ok () \<and> ks_marks k' = ks_marks k
     \<or> r = Ok () \<and> (\<exists>hs new. fst (handle b ms (ks_user k)) = map Some hs \<and> map fst (ks_marks k') = map fst (ks_marks k) @ new
         \<and> (\<forall>p. filter (on_partition p) new =
              (if bc_dlqSave b then filter (on_partition p) ms
               else map fst (takeWhile snd (filter (on_partition p \<circ> fst) (zip ms hs)))))))"
proof -
  have "savers_keep b (\<lambda>_ _. True)" using user_keeps_trivial [of b] by (simp add: user_keeps_def)
  note post = wpD [OF processBatch_post [OF this] assms]
  show ?thesis
  proof (cases r)
    case (Ok u)
    with post obtain hs where "batch_done b (\<lambda>_ _. True) ms k hs k'" by auto
    then have "ks_commits k' = ks_commits k" "fst (handle b ms (ks_user k)) = map Some hs"
      "map fst (ks_marks k') = map fst (ks_marks k) @ settle (bc_dlqSave b) {} (zip ms hs)" "map fst (zip ms hs) = ms"
      by (auto simp: batch_done_def)
    with Ok show ?thesis by (auto simp: settle_on_partition)
  qed (use post in \<open>auto simp: no_marks_def\<close>)
qed

text \<open>
  C23: without dead-letter saving and without batches, the messages marked are exactly the ones the
  domain function took: a message after a failed one of the same partition is marked as well, and
  committing its offset commits the failed message too, which is neither stored nor delivered again.
\<close>
theorem single_mode_marks_past_failures:
  assumes "\<not> bc_dlqSave b" "\<not> bc_batchEnabled b"
    and "run_state (ConsumeClaim b (map Received ms @ [SessionDone])) k = (Ok True, k')"
  shows "\<exists>hs. fst (handle b ms (ks_user k)) = map Some hs
    \<and> map fst (ks_marks k') = map fst (ks_marks k) @ map fst (filter snd (zip ms hs))"
proof -
  have "run_state (claim_loop b SingleMode (map Received ms @ [SessionDone])) k = (Ok True, k')"
    using assms(2,3) by (simp add: ConsumeClaim_def newClaimMode_def)
  from wpD [OF single_claim [OF assms(1)] this] show ?thesis by blast
qed

text \<open>
  C24: a save is tried at least once and at most DlqRetries times (once if that is less than one),
  each time with the attempt number and the times of the messages set anew, and never again after a
  success; an error is returned only if the last try failed and no try is left, or the context is done.
\<close>
theorem runDLQSaveWithRetry_bounded:
  assumes "run_state (runDLQSaveWithRetry b objects saveFn) k = (r, k')"
  shows "\<exists>rs. 1 \<le> length rs \<and> length rs \<le> max_tries b
    \<and> tries saveFn (ks_clock k) objects (length rs) 1 (ks_ticks k) (ks_user k) = (rs, ks_user k')
    \<and> list_all failed_outcome (butlast rs)
    \<and> (r = Ok () \<longleftrightarrow> last rs = Ok ())
    \<and> (\<forall>e. r = Err e \<longrightarrow> (\<exists>a. ks_ctx k a = Some e) \<or> length rs = max_tries b \<and> last rs = Err e)"
proof -
  from wpD [OF runDLQSaveWithRetry_post assms] obtain rs where rs: "save_ends k (max_tries b) rs r"
    "tries saveFn (ks_clock k) objects (length rs) 1 (ks_ticks k) (ks_user k) = (rs, ks_user k')" by blast
  then show ?thesis
    by (intro exI [of _ rs]) (auto simp: save_ends_def failed_outcome_def Suc_le_eq split: outcome.splits)
qed

text \<open>
  Examples: a domain function that refuses one value, a decoder that refuses another, and a
  dead-letter store that fails once before it stores.
\<close>

record example_state =
  es_stored :: "dlq_message list"
  es_seen :: "string list"
  es_failures :: nat

definition example_save :: "dlq_message list \<Rightarrow> (example_state, unit) go" where
  "example_save ds = do {
     n \<leftarrow> reads es_failures;
     (case n of
        0 \<Rightarrow> after (modify (es_stored_update (\<lambda>xs. xs @ ds))) (ok ())
      | Suc m \<Rightarrow> after (modify (es_failures_update (\<lambda>_. m))) (fail (NewErr ''connection reset''))) }"

definition example_exec :: "string \<Rightarrow> (string \<rightharpoonup> string) \<Rightarrow> (example_state, unit) go" where
  "example_exec object vs =
     after (modify (es_seen_update (\<lambda>xs. xs @ [object])))
       (if object = ''refused'' then fail (NewErr ''refused'') else ok ())"

definition example_consumer :: "bool \<Rightarrow> bool \<Rightarrow> (example_state, string) base_consumer" where
  "example_consumer dlqSave batch =
     \<lparr>bc_groupID = ''g'', bc_topic = ''t'', bc_dlqSave = dlqSave, bc_dlqRetries = 3, bc_dlqTimeout = 0,
      bc_batchEnabled = batch, bc_batchSize = 2, bc_batchTimeout = 1000, bc_perMessageDebugLog = False,
      bc_logEveryNMessages = 1000, bc_startedAt = 0, bc_objectType = Pointer ''T'' True,
      bc_unmarshal = (\<lambda>v. if v = ''garbage'' then Inl (NewErr ''unexpected end'') else Inr v),
      bc_execFunction = example_exec, bc_saveFunction = (\<lambda>_ d. example_save [d]),
      bc_saveBatchFunction = Some (\<lambda>_. example_save), bc_startSessionOptions = [], bc_stopSessionOptions = []\<rparr>"

definition example_message :: "nat \<Rightarrow> string \<Rightarrow> consumer_message" where
  "example_message n v =
     \<lparr>cm_Topic = ''t'', cm_Partition = 0, cm_Offset = of_nat n, cm_Key = [], cm_Value = v, cm_Headers = []\<rparr>"

definition example_k :: "example_state kstate" where
  "example_k =
     \<lparr>ks_user = \<lparr>es_stored = [], es_seen = [], es_failures = 1\<rparr>, ks_clock = (\<lambda>n. int n), ks_ticks = 0,
      ks_uuids = (\<lambda>_. Some ''u''), ks_drawn = 0, ks_ctx = (\<lambda>_. None), ks_asked = 0, ks_marks = [], ks_commits = 0,
      ks_received = 0, ks_success = 0, ks_decode_failed = 0, ks_processing_failed = 0, ks_dlq_writes = 0, ks_events = []\<rparr>"

definition example_inputs :: "claim_input list" where
  "example_inputs =
     [Received (example_message 0 ''refused''), TimerFired, Received (example_message 1 ''fine''), SessionDone]"

lemma example_keeps: "user_keeps (example_consumer dlqSave batch) (\<lambda>s d. d \<in> set (es_stored s))"
  by (auto simp: user_keeps_def savers_keep_def saver_keeps_def example_consumer_def example_save_def example_exec_def wp_rules
      split: nat.split)

lemma example_run:
  "fst (run_state (ConsumeClaim (example_consumer True True) example_inputs) example_k) = Ok True"
  "fst (run_state (ConsumeClaim (example_consumer False True) example_inputs) example_k) = Ok True"
  "fst (run_state (ConsumeClaim (example_consumer False False) example_inputs) example_k) = Ok True"
  by code_simp+

definition example_claim :: "bool \<Rightarrow> bool \<Rightarrow> example_state kstate" where
  "example_claim dlqSave batch = snd (run_state (ConsumeClaim (example_consumer dlqSave batch) example_inputs) example_k)"

lemma example_claim_run:
  "run_state (ConsumeClaim (example_consumer True True) example_inputs) example_k = (Ok True, example_claim True True)"
  "run_state (ConsumeClaim (example_consumer False batch) example_inputs) example_k = (Ok True, example_claim False batch)"
  unfolding example_claim_def by (intro prod_eqI; cases batch; simp add: example_run)+

lemma example_flags:
  "bc_dlqSave (example_consumer dlqSave batch) = dlqSave" "bc_batchEnabled (example_consumer dlqSave batch) = batch"
  "ks_marks example_k = []" "ks_received example_k = settled_counts example_k"
  "consumed example_inputs = [example_message 0 ''refused'', example_message 1 ''fine'']"
  by (simp_all add: example_consumer_def example_k_def settled_counts_def example_inputs_def)

lemma ConsumeClaim_loses_nothing_witness:
  "\<exists>new. map fst (ks_marks (example_claim True True)) = new
    \<and> list_all (accounted (example_consumer True True) (\<lambda>s d. d \<in> set (es_stored s)) (ks_user (example_claim True True))) new
    \<and> new = [example_message 0 ''refused'', example_message 1 ''fine'']"
  using ConsumeClaim_loses_nothing [OF example_keeps example_claim_run(1)] unfolding example_flags by auto

lemma ConsumeClaim_batching_invisible_witness:
  "ks_user (example_claim False False) = ks_user (example_claim False True) \<and> ks_user (example_claim False True) =
    snd (handle (example_consumer False True) [example_message 0 ''refused'', example_message 1 ''fine''] (ks_user example_k))"
proof -
  have b: "(example_consumer False True)\<lparr>bc_batchEnabled := False, bc_batchSize := 2, bc_batchTimeout := 1000\<rparr> = example_consumer False False"
    by (simp add: example_consumer_def)
  show ?thesis
    using ConsumeClaim_batching_invisible [where b = "example_consumer False True" and e = False and n = 2 and t = 1000,
        OF _ example_claim_run(2), unfolded b, OF _ example_claim_run(2)]
    by (simp add: example_flags)
qed

lemma ConsumeClaim_counts_witness: "ks_received (example_claim True True) = settled_counts (example_claim True True)"
  by (rule ConsumeClaim_counts [OF example_claim_run(1) example_flags(4)])

lemma processBatch_marks_witness:
  "\<exists>k'. run_state (processBatch (example_consumer False True) [example_message 0 ''refused'', example_message 1 ''fine''] ''r'') example_k
      = (Ok (), k') \<and> filter (on_partition 0) (map fst (ks_marks k')) = []"
proof -
  let ?ms = "[example_message 0 ''refused'', example_message 1 ''fine'']"
  let ?run = "run_state (processBatch (example_consumer False True) ?ms ''r'') example_k"
  have f: "fst ?run = Ok ()" by code_simp
  then have r: "?run = (Ok (), snd ?run)" by (simp add: prod_eq_iff)
  have h: "fst (handle (example_consumer False True) ?ms (ks_user example_k)) = [Some False, Some True]" by code_simp
  from processBatch_marks [OF r] have "filter (on_partition 0) (map fst (ks_marks (snd ?run))) = []"
    unfolding h example_flags by (auto simp: Cons_eq_map_conv on_partition_def example_message_def)
  with r show ?thesis by blast
qed

lemma single_mode_marks_past_failures_witness:
  "\<exists>k'. run_state (ConsumeClaim (example_consumer False False)
        (map Received [example_message 0 ''refused'', example_message 1 ''fine''] @ [SessionDone])) example_k = (Ok True, k')
     \<and> map fst (ks_marks k') = [example_message 1 ''fine'']"
proof -
  let ?ms = "[example_message 0 ''refused'', example_message 1 ''fine'']"
  let ?run = "run_state (ConsumeClaim (example_consumer False False) (map Received ?ms @ [SessionDone])) example_k"
  have f: "fst ?run = Ok True" by code_simp
  then have r: "?run = (Ok True, snd ?run)" by (simp add: prod_eq_iff)
  have h: "fst (handle (example_consumer False False) ?ms (ks_user example_k)) = [Some False, Some True]" by code_simp
  have "\<not> bc_dlqSave (example_consumer False False)" "\<not> bc_batchEnabled (example_consumer False False)"
    by (simp_all add: example_flags)
  from single_mode_marks_past_failures [OF this r] obtain hs where hs: "[Some False, Some True] = map Some hs"
    "map fst (ks_marks (snd ?run)) = map fst (filter snd (zip ?ms hs))"
    unfolding h example_flags by (elim exE conjE) simp
  then have "hs = [False, True]" by (auto simp: Cons_eq_map_conv)
  with hs(2) have "map fst (ks_marks (snd ?run)) = [example_message 1 ''fine'']" by simp
  then show ?thesis by (intro exI conjI) (rule r)
qed

lemma runDLQSaveWithRetry_bounded_witness:
  "\<exists>k' rs. run_state (runDLQSaveWithRetry (example_consumer True True) [] example_save) example_k = (Ok (), k')
    \<and> length rs \<le> 3 \<and> last rs = Ok ()"
proof -
  let ?run = "run_state (runDLQSaveWithRetry (example_consumer True True) [] example_save) example_k"
  have f: "fst ?run = Ok ()" by code_simp
  then have r: "?run = (Ok (), snd ?run)" by (simp add: prod_eq_iff)
  have "max_tries (example_consumer True True) = 3" by (simp add: max_tries_def example_consumer_def)
  note three = this
  from runDLQSaveWithRetry_bounded [OF r] obtain rs where "length rs \<le> max_tries (example_consumer True True)" "last rs = Ok ()"
    by (elim exE conjE) simp
  then have "length rs \<le> 3 \<and> last rs = Ok ()" unfolding three by simp
  then show ?thesis by (intro exI [of _ "snd ?run"] exI [of _ rs] conjI) (rule r, simp_all)
qed

end
