(* ===== verification/VkUsers.thy ===== *)
theory VkUsers
  imports Repositories
begin

text \<open>
  internal/application/vkusers: accepting a user announced by VK. The service is written over
  its dependencies; its law is proved over the contracts of internal/ports and holds on the
  PostgreSQL world by interpretation.
\<close>

section \<open>The service\<close>

record 'w vk_deps =
  vd_TxDo :: "ctx \<Rightarrow> (ctx \<Rightarrow> ('w, unit) go) \<Rightarrow> ('w, unit) go"
  vd_GetByID :: "ctx \<Rightarrow> string \<Rightarrow> ('w, user_account) go"
  vd_GetByLogin :: "ctx \<Rightarrow> string \<Rightarrow> ('w, user_account) go"
  vd_GetByEmail :: "ctx \<Rightarrow> string \<Rightarrow> ('w, user_account) go"
  vd_CreateUser :: "ctx \<Rightarrow> user_account \<Rightarrow> ('w, unit) go"
  vd_GetByProviderSubject :: "ctx \<Rightarrow> string \<Rightarrow> string \<Rightarrow> ('w, external_identity) go"
  vd_CreateIdentity :: "ctx \<Rightarrow> external_identity \<Rightarrow> ('w, unit) go"
  vd_CreateOutbox :: "ctx \<Rightarrow> outbox_message option \<Rightarrow> ('w, unit) go"
  vd_Runtime :: "'w runtime"

definition vk_normalizeEmail :: "string \<Rightarrow> string" where
  "vk_normalizeEmail email = ToLower (TrimSpace email)"

definition vk_normalizeLogin :: "string \<Rightarrow> string" where
  "vk_normalizeLogin login = ToLower (TrimSpace login)"

definition emailOrPlaceholder :: "string \<Rightarrow> string \<Rightarrow> string" where
  "emailOrPlaceholder email vkUserID =
     (if email \<noteq> [] then email else ''vk-'' @ vk_normalizeLogin vkUserID @ ''@vk.local'')"

definition defaultIfBlank :: "string \<Rightarrow> string \<Rightarrow> string" where
  "defaultIfBlank value fallback = (let value = TrimSpace value in if value = [] then fallback else value)"

text \<open>\<open>%q\<close> of a string without characters that Go escapes; only the text of an error depends on it.\<close>

definition quoted :: "string \<Rightarrow> string" where "quoted s = [CHR 0x22] @ s @ [CHR 0x22]"

definition resolveLogin :: "'w vk_deps \<Rightarrow> ctx \<Rightarrow> string \<Rightarrow> string \<Rightarrow> ('w, string) go" where
  "resolveLogin s c vkUserID login =
     (let baseLogin = (if vk_normalizeLogin login = [] then ''vk_'' @ vk_normalizeLogin vkUserID
                       else vk_normalizeLogin login);
          fallback = ''vk_'' @ vk_normalizeLogin vkUserID in
      call (vd_GetByLogin s c baseLogin) (\<lambda>r. case r of
        Inl e \<Rightarrow> (if errors_is e (Ports ErrNotFound) then ok baseLogin else fail e)
      | Inr _ \<Rightarrow>
          (if fallback = baseLogin then fail (NewErr (''vk login '' @ quoted baseLogin @ '' already exists''))
           else call (vd_GetByLogin s c fallback) (\<lambda>r. case r of
             Inl e \<Rightarrow> (if errors_is e (Ports ErrNotFound) then ok fallback else fail e)
           | Inr _ \<Rightarrow> fail (NewErr (''vk fallback login '' @ quoted fallback @ '' already exists''))))))"

definition vk_account :: "uuid \<Rightarrow> string \<Rightarrow> string \<Rightarrow> vk_user_event \<Rightarrow> time \<Rightarrow> user_account" where
  "vk_account i login vkUserID event now =
     \<lparr>ua_ID = i, ua_Login = login,
      ua_Email = emailOrPlaceholder (vk_normalizeEmail (vk_Email event)) vkUserID,
      ua_FirstName = defaultIfBlank (vk_FirstName event) ''VK'', ua_LastName = defaultIfBlank (vk_LastName event) ''User'',
      ua_Provider = AuthProviderVK, ua_CreatedAt = now, ua_UpdatedAt = now\<rparr>"

definition new_vk_account :: "'w vk_deps \<Rightarrow> ctx \<Rightarrow> string \<Rightarrow> vk_user_event \<Rightarrow> ('w, user_account \<times> bool) go" where
  "new_vk_account s c vkUserID event =
     andThen (resolveLogin s c vkUserID (vk_Login event)) (\<lambda>login. do {
       now \<leftarrow> Now (vd_Runtime s);
       andThen (NewUUIDv7 (vd_Runtime s)) (\<lambda>i.
         let account = vk_account i login vkUserID event now in
         call (vd_CreateUser s c account) (\<lambda>r. case r of
           Inl e \<Rightarrow> fail (wrap ''create vk user account'' e)
         | Inr _ \<Rightarrow> ok (account, True))) })"

definition resolveAccount :: "'w vk_deps \<Rightarrow> ctx \<Rightarrow> string \<Rightarrow> vk_user_event \<Rightarrow> ('w, user_account \<times> bool) go" where
  "resolveAccount s c vkUserID event =
     (let email = vk_normalizeEmail (vk_Email event) in
      if email \<noteq> [] then
        call (vd_GetByEmail s c email) (\<lambda>r. case r of
          Inr account \<Rightarrow> ok (account, False)
        | Inl e \<Rightarrow> (if \<not> errors_is e (Ports ErrNotFound) then fail e else new_vk_account s c vkUserID event))
      else new_vk_account s c vkUserID event)"

definition new_vk_identity :: "'w vk_deps \<Rightarrow> ctx \<Rightarrow> string \<Rightarrow> user_account \<Rightarrow> ('w, unit) go" where
  "new_vk_identity s c vkUserID account =
     andThen (NewUUIDv7 (vd_Runtime s)) (\<lambda>i. do {
       createdAt \<leftarrow> Now (vd_Runtime s);
       updatedAt \<leftarrow> Now (vd_Runtime s);
       vd_CreateIdentity s c
         \<lparr>ei_ID = i, ei_UserID = ua_ID account, ei_Provider = AuthProviderVK, ei_Subject = vkUserID,
          ei_CreatedAt = createdAt, ei_UpdatedAt = updatedAt\<rparr> })"

definition accept_tx :: "'w vk_deps \<Rightarrow> string \<Rightarrow> vk_user_event \<Rightarrow> ctx \<Rightarrow> ('w, unit) go" where
  "accept_tx s vkUserID event txCtx =
     call (vd_GetByProviderSubject s txCtx AuthProviderVK vkUserID) (\<lambda>r. case r of
       Inr identity \<Rightarrow> ok ()
     | Inl e \<Rightarrow>
         (if \<not> errors_is e (Ports ErrNotFound) then fail e
          else andThen (resolveAccount s txCtx vkUserID event) (\<lambda>(account, isnew).
            andThen (new_vk_identity s txCtx vkUserID account) (\<lambda>_.
              if isnew then
                andThen (NewUserCreatedOutboxMessage (vd_Runtime s) account)
                  (\<lambda>m. vd_CreateOutbox s txCtx (Some m))
              else ok ()))))"

definition vk_refuse :: "'w vk_deps \<Rightarrow> err \<Rightarrow> ('w, unit) go" where
  "vk_refuse s e = after (Emit (vd_Runtime s) (SpanError (err_text e))) (fail e)"

definition Accept :: "'w vk_deps \<Rightarrow> ctx \<Rightarrow> vk_user_event option \<Rightarrow> ('w, unit) go" where
  "Accept s c event =
     (case event of
        None \<Rightarrow> vk_refuse s (NewErr ''vk user event is nil'')
      | Some event \<Rightarrow>
          (let vkUserID = TrimSpace (vk_VKUserID event) in
           if vkUserID = [] then vk_refuse s (NewErr ''vk_user_id is required'')
           else call (vd_TxDo s c (accept_tx s vkUserID event)) (\<lambda>r. case r of
             Inl e \<Rightarrow> vk_refuse s e
           | Inr _ \<Rightarrow>
               after (Emit (vd_Runtime s) (SpanOk ''accepted''))
                 (after (Emit (vd_Runtime s) (LogLine ''info'' ''VK user accepted'')) (ok ())))))"

section \<open>What accepting an event means for the stored entities\<close>

definition vk_linked :: "string \<Rightarrow> store \<Rightarrow> bool" where
  "vk_linked vkUserID st \<longleftrightarrow> (\<exists>x\<in>set (st_idents st). ei_Provider x = AuthProviderVK \<and> ei_Subject x = vkUserID)"

definition vk_fallback :: "string \<Rightarrow> string" where
  "vk_fallback vkUserID = ''vk_'' @ vk_normalizeLogin vkUserID"

definition vk_base :: "string \<Rightarrow> string \<Rightarrow> string" where
  "vk_base vkUserID login = (if vk_normalizeLogin login = [] then vk_fallback vkUserID else vk_normalizeLogin login)"

text \<open>The user of the event's e-mail, if it has one.\<close>

definition vk_known :: "vk_user_event \<Rightarrow> store \<Rightarrow> user_account \<Rightarrow> bool" where
  "vk_known event st u \<longleftrightarrow>
     vk_normalizeEmail (vk_Email event) \<noteq> [] \<and> u \<in> set (st_users st) \<and> ua_Email u = vk_normalizeEmail (vk_Email event)"

text \<open>A user is made for the event, with a free login.\<close>

definition vk_new_user :: "string \<Rightarrow> vk_user_event \<Rightarrow> store \<Rightarrow> user_account \<Rightarrow> bool" where
  "vk_new_user vkUserID event st u \<longleftrightarrow>
     (\<forall>x. \<not> vk_known event st x) \<and> \<not> dup_user u st \<and>
     (\<exists>i now login. u = vk_account i login vkUserID event now \<and> login \<in> {vk_base vkUserID (vk_Login event), vk_fallback vkUserID})"

definition vk_identity :: "string \<Rightarrow> user_account \<Rightarrow> external_identity \<Rightarrow> bool" where
  "vk_identity vkUserID u x \<longleftrightarrow> ei_Provider x = AuthProviderVK \<and> ei_Subject x = vkUserID \<and> ei_UserID x = ua_ID u"

definition vk_accepted :: "'w runtime \<Rightarrow> string \<Rightarrow> vk_user_event \<Rightarrow> store \<Rightarrow> store \<Rightarrow> bool" where
  "vk_accepted rt vkUserID event st st' \<longleftrightarrow>
     (if vk_linked vkUserID st then st' = st
      else \<exists>u x. vk_identity vkUserID u x \<and> \<not> dup_ident x st \<and>
        (vk_known event st u \<and> st' = add_ident x st
         \<or> vk_new_user vkUserID event st u \<and> (\<exists>m. outbox_for rt u m \<and> st' = add_outbox m (add_ident x (add_user u st)))))"

text \<open>Why an event may be refused although the database answers.\<close>

definition login_used :: "string \<Rightarrow> store \<Rightarrow> bool" where
  "login_used l st \<longleftrightarrow> (\<exists>u\<in>set (st_users st). ua_Login u = l)"

definition vk_no_name :: "string \<Rightarrow> vk_user_event \<Rightarrow> store \<Rightarrow> bool" where
  "vk_no_name vkUserID event st \<longleftrightarrow>
     (\<forall>x. \<not> vk_known event st x) \<and>
     (login_used (vk_base vkUserID (vk_Login event)) st \<and> login_used (vk_fallback vkUserID) st
      \<or> (\<exists>u\<in>set (st_users st). ua_Email u = emailOrPlaceholder (vk_normalizeEmail (vk_Email event)) vkUserID))"

definition vk_blocked :: "('g, 'w) obs \<Rightarrow> 'w runtime \<Rightarrow> 'g \<Rightarrow> string \<Rightarrow> vk_user_event \<Rightarrow> store \<Rightarrow> bool" where
  "vk_blocked b rt g vkUserID event st \<longleftrightarrow>
     None \<in> Ids b g \<or> unmarshalled rt \<or> vk_no_name vkUserID event st
     \<or> (\<exists>i. Some i \<in> Ids b g \<and>
          (i \<in> ua_ID ` set (st_users st) \<or> i \<in> ei_ID ` set (st_idents st) \<or> i \<in> om_ID ` set (st_outbox st)))"

definition callback_rel_vk ::
  "'w runtime \<Rightarrow> string \<Rightarrow> vk_user_event \<Rightarrow> bool \<Rightarrow> store \<Rightarrow> bool \<Rightarrow> unit outcome \<Rightarrow> store \<Rightarrow> bool \<Rightarrow> bool" where
  "callback_rel_vk rt vkUserID event blocked st fine r st' k \<longleftrightarrow>
     (fine \<longrightarrow> blocked \<or> (\<exists>x. r = Ok x)) \<and>
     (case r of Ok _ \<Rightarrow> vk_accepted rt vkUserID event st st' \<and> (fine \<longrightarrow> k) | _ \<Rightarrow> True)"

text \<open>How a call of \<open>Accept\<close> ends.\<close>

definition vk_refusal :: "('g, 'w) obs \<Rightarrow> 'w runtime \<Rightarrow> 'g \<Rightarrow> vk_user_event option \<Rightarrow> store \<Rightarrow> bool" where
  "vk_refusal b rt g event st \<longleftrightarrow>
     (case event of
        None \<Rightarrow> True
      | Some ev \<Rightarrow> TrimSpace (vk_VKUserID ev) = []
          \<or> \<not> vk_linked (TrimSpace (vk_VKUserID ev)) st \<and> vk_blocked b rt g (TrimSpace (vk_VKUserID ev)) ev st)"

definition event_accepted :: "'w runtime \<Rightarrow> vk_user_event option \<Rightarrow> store \<Rightarrow> store \<Rightarrow> bool" where
  "event_accepted rt event st st' \<longleftrightarrow>
     (case event of
        None \<Rightarrow> False
      | Some ev \<Rightarrow> TrimSpace (vk_VKUserID ev) \<noteq> [] \<and> vk_accepted rt (TrimSpace (vk_VKUserID ev)) ev st st')"

definition accept_ends ::
  "('g, 'w) obs \<Rightarrow> 'w vk_deps \<Rightarrow> 'g \<Rightarrow> vk_user_event option \<Rightarrow> 'w \<Rightarrow> unit outcome \<Rightarrow> 'w \<Rightarrow> bool" where
  "accept_ends b s g event w r v \<longleftrightarrow>
     Inv b g v \<and> (Calm b w \<longrightarrow> Calm b v) \<and>
     (Calm b w \<longrightarrow> vk_refusal b (vd_Runtime s) g event (View b w) \<or> r = Ok ()) \<and>
     (case r of
        Ok _ \<Rightarrow> event_accepted (vd_Runtime s) event (View b w) (View b v)
          \<and> Journal b v = Journal b w @ [SpanOk ''accepted'']
      | Err e \<Rightarrow>
          (View b v = View b w
           \<or> lost_answer e \<and> \<not> Calm b w \<and> event_accepted (vd_Runtime s) event (View b w) (View b v))
          \<and> Journal b v = Journal b w @ [SpanError (err_text e)]
      | Panic p \<Rightarrow> View b v = View b w \<and> Journal b v = Journal b w)"

locale vk_service =
  user_repository b "vd_GetByID s" "vd_GetByLogin s" "vd_GetByEmail s" "vd_CreateUser s"
  + identity_repository b "vd_GetByProviderSubject s" "vd_CreateIdentity s"
  + outbox_writer b "vd_CreateOutbox s"
  + transactions b "vd_TxDo s"
  + clock_and_ids b "vd_Runtime s"
  for b :: "('g, 'w) obs" and s :: "'w vk_deps"
begin

lemma resolve_login_law:
  assumes i: "Inv b g w"
  shows "wp (resolveLogin s c vkUserID l) (\<lambda>r v. unchanged b g w v \<and>
     (case r of
        Ok x \<Rightarrow> x \<in> {vk_base vkUserID l, vk_fallback vkUserID} \<and> \<not> login_used x (View b w)
      | Err e \<Rightarrow> Calm b w \<longrightarrow> login_used (vk_base vkUserID l) (View b w) \<and> login_used (vk_fallback vkUserID) (View b w)
      | Panic p \<Rightarrow> False)) w"
  unfolding resolveLogin_def Let_def vk_fallback_def [symmetric] vk_base_def [symmetric]
proof (rule wp_callI [OF by_login [OF i]], goal_cases)
  case (1 u v)
  then have v: "unchanged b g w v" and used: "login_used (vk_base vkUserID l) (View b w)"
    by (auto simp: found_def login_used_def)
  have vw: "View b v = View b w" "Calm b w \<longrightarrow> Calm b v" using v by (auto simp: unchanged_def)
  show ?case
  proof (cases "vk_fallback vkUserID = vk_base vkUserID l")
    case True
    with v used show ?thesis by (simp add: wp_fail)
  next
    case False
    show ?thesis
      unfolding sum.case if_not_P [OF False]
      by (rule wp_callI [OF by_login [OF unchanged_Inv [OF v]]])
        (use used vw v in \<open>auto simp: wp_ok wp_fail found_def not_found_def login_used_def
           split: if_splits intro: unchanged_trans\<close>)
  qed
next
  case (2 e v)
  then show ?case by (auto simp: wp_ok wp_fail found_def not_found_def login_used_def split: if_splits)
next
  case (3 p v)
  then show ?case by (simp add: found_def)
qed

text \<open>A new account: stored with a free login, or an error for a reason.\<close>

lemma new_vk_account_law:
  assumes i: "Inv b g w" and new: "\<forall>x. \<not> vk_known event (View b w) x"
    and B: "vk_blocked b (vd_Runtime s) g vkUserID event (View b w) \<longrightarrow> B"
  shows "wp (new_vk_account s c vkUserID event) (\<lambda>r v. Inv b g v \<and> Journal b v = Journal b w \<and>
     (Calm b w \<longrightarrow> B \<or> (\<exists>x. r = Ok x)) \<and>
     (case r of
        Ok (u, isnew) \<Rightarrow> isnew \<and> vk_new_user vkUserID event (View b w) u \<and> View b v = add_user u (View b w)
          \<and> (Calm b w \<longrightarrow> Calm b v)
      | _ \<Rightarrow> True)) w"
  unfolding new_vk_account_def
proof (rule wp_andThenI [OF resolve_login_law [OF i]], goal_cases)
  case (1 l v0)
  then have v0: "unchanged b g w v0"
    and l: "l \<in> {vk_base vkUserID (vk_Login event), vk_fallback vkUserID} \<and> \<not> login_used l (View b w)"
    by auto
  show ?case
  proof (rule wp_bindI [OF now_law [OF unchanged_Inv [OF v0]]], rule wp_andThenI [OF new_id], erule unchanged_Inv, goal_cases)
    case (1 now v1 j v)
    then have v: "unchanged b g w v" using v0 by (auto intro: unchanged_trans)
    have vw: "Inv b g v" "View b v = View b w" "Calm b w \<longrightarrow> Calm b v" "Journal b v = Journal b w"
      using v by (auto simp: unchanged_def)
    let ?u = "vk_account j l vkUserID event now"
    have u: "l \<in> {vk_base vkUserID (vk_Login event), vk_fallback vkUserID}" "\<not> login_used l (View b w)"
      using l by auto
    have dup: "dup_user ?u (View b w) \<longrightarrow> B"
    proof
      assume "dup_user ?u (View b w)"
      then have "j \<in> ua_ID ` set (st_users (View b w)) \<or> vk_no_name vkUserID event (View b w)"
        using u(2) new by (auto simp: dup_user_def vk_account_def vk_no_name_def login_used_def image_iff)
      then show B using B 1 by (auto simp: vk_blocked_def)
    qed
    have new_user: "vk_new_user vkUserID event (View b w) ?u" if "\<not> dup_user ?u (View b w)"
      using that new u(1) by (auto simp: vk_new_user_def)
    show ?case
      unfolding Let_def
      by (rule wp_callI [OF create_user [OF vw(1)]])
        (use vw dup new_user in \<open>auto simp: created_def wp_ok wp_fail\<close>)
  qed (use v0 B in \<open>auto simp: unchanged_def vk_blocked_def\<close>)
next
  case (2 e v)
  then show ?case using B new by (auto simp: unchanged_def vk_blocked_def vk_no_name_def)
next
  case (3 p v)
  then show ?case by simp
qed

text \<open>What a step of the callback leaves: its account, or an error for a reason.\<close>

lemma resolve_account_law:
  assumes i: "Inv b g w" and B: "vk_blocked b (vd_Runtime s) g vkUserID event (View b w) \<longrightarrow> B"
  shows "wp (resolveAccount s c vkUserID event) (\<lambda>r v. Inv b g v \<and> Journal b v = Journal b w \<and>
     (Calm b w \<longrightarrow> B \<or> (\<exists>x. r = Ok x)) \<and>
     (case r of
        Ok (u, isnew) \<Rightarrow> (if isnew then vk_new_user vkUserID event (View b w) u \<and> View b v = add_user u (View b w)
                          else vk_known event (View b w) u \<and> View b v = View b w) \<and> (Calm b w \<longrightarrow> Calm b v)
      | _ \<Rightarrow> True)) w" (is "wp _ ?P w")
proof -
  have new: "wp (new_vk_account s c vkUserID event) ?P v"
    if "unchanged b g w v" "\<forall>x. \<not> vk_known event (View b w) x" for v
  proof -
    have vw: "Inv b g v" "View b v = View b w" "Journal b v = Journal b w" "Calm b w \<longrightarrow> Calm b v"
      using that(1) by (auto simp: unchanged_def)
    show ?thesis
      by (rule wp_conseq [OF new_vk_account_law [OF vw(1), where B = B]])
        (use that(2) vw B in \<open>auto split: outcome.splits\<close>)
  qed
  show ?thesis
  proof (cases "vk_normalizeEmail (vk_Email event) = []")
    case True
    with new [of w] i show ?thesis by (simp add: resolveAccount_def vk_known_def unchanged_def)
  next
    case False
    show ?thesis
      unfolding resolveAccount_def Let_def if_P [OF False]
    proof (rule wp_callI [OF by_email [OF i]], goal_cases)
      case (2 e v)
      show ?case
      proof (cases "errors_is e (Ports ErrNotFound)")
        case True
        with 2 have "\<forall>x. \<not> vk_known event (View b w) x" by (auto simp: found_def not_found_def vk_known_def)
        with 2 True new show ?thesis by simp
      next
        case False
        with 2 show ?thesis by (auto simp: found_def not_found_def wp_fail unchanged_def)
      qed
    qed (use False in \<open>auto simp: found_def wp_ok unchanged_def vk_known_def\<close>)
  qed
qed

lemma new_identity_law:
  assumes i: "Inv b g w"
  shows "wp (new_vk_identity s c vkUserID u) (\<lambda>r v. Inv b g v \<and> Journal b v = Journal b w \<and>
     (Calm b w \<longrightarrow> (None \<in> Ids b g \<or> vk_linked vkUserID (View b w) \<or> no_user (ua_ID u) (View b w)
          \<or> (\<exists>j. Some j \<in> Ids b g \<and> j \<in> ei_ID ` set (st_idents (View b w)))) \<or> (\<exists>x. r = Ok x)) \<and>
     (case r of
        Ok _ \<Rightarrow> (\<exists>x. vk_identity vkUserID u x \<and> \<not> dup_ident x (View b w) \<and> View b v = add_ident x (View b w))
          \<and> (Calm b w \<longrightarrow> Calm b v)
      | _ \<Rightarrow> True)) w"
  unfolding new_vk_identity_def
proof (rule wp_andThenI [OF new_id [OF i]], goal_cases)
  case (1 j v0)
  then have v0: "unchanged b g w v0" and j: "Some j \<in> Ids b g" by auto
  show ?case
  proof (rule wp_bindI [OF now_law [OF unchanged_Inv [OF v0]]], rule wp_bindI [OF now_law], erule unchanged_Inv, goal_cases)
    case (1 c1 v1 c2 v)
    then have v: "unchanged b g w v" using v0 by (auto intro: unchanged_trans)
    have vw: "Inv b g v" "View b v = View b w" "Journal b v = Journal b w" "Calm b w \<longrightarrow> Calm b v"
      using v by (auto simp: unchanged_def)
    let ?x = "\<lparr>ei_ID = j, ei_UserID = ua_ID u, ei_Provider = AuthProviderVK, ei_Subject = vkUserID,
      ei_CreatedAt = c1, ei_UpdatedAt = c2\<rparr>"
    have dup: "dup_ident ?x (View b w) \<Longrightarrow> vk_linked vkUserID (View b w) \<or> j \<in> ei_ID ` set (st_idents (View b w))"
      by (auto simp: dup_ident_def vk_linked_def) metis
    have "vk_identity vkUserID u ?x" by (simp add: vk_identity_def)
    then have intro: "\<exists>x. vk_identity vkUserID u x \<and> \<not> dup_ident x (View b w) \<and> add_ident ?x (View b w) = add_ident x (View b w)"
      if "\<not> dup_ident ?x (View b w)" using that by blast
    show ?case
      by (rule wp_conseq [OF create_identity [OF vw(1)]])
        (use vw j in \<open>auto simp: created_def split: outcome.splits dest: dup intro: intro\<close>)
  qed
qed (auto simp: unchanged_def)

lemma accept_tx_law:
  assumes i: "Inv b g w"
    and B': "\<not> vk_linked vkUserID (View b w) \<and> vk_blocked b (vd_Runtime s) g vkUserID event (View b w) \<longrightarrow> B"
  shows "wp (accept_tx s vkUserID event c) (\<lambda>r v. Inv b g v \<and> Journal b v = Journal b w
     \<and> callback_rel_vk (vd_Runtime s) vkUserID event B (View b w) (Calm b w) r (View b v) (Calm b v)) w"
  unfolding accept_tx_def
proof (rule wp_callI [OF by_subject [OF i]], goal_cases)
  case (1 x v)
  then show ?case by (auto simp: found_def wp_ok unchanged_def callback_rel_vk_def vk_accepted_def vk_linked_def)
next
  case (2 e v0)
  then have v0: "Inv b g v0" "View b v0 = View b w" "Journal b v0 = Journal b w" "Calm b w \<longrightarrow> Calm b v0"
    by (auto simp: unchanged_def)
  show ?case
  proof (cases "errors_is e (Ports ErrNotFound)")
    case False
    with 2 show ?thesis by (auto simp: found_def not_found_def wp_fail unchanged_def callback_rel_vk_def)
  next
    case True
    with 2 have new: "\<not> vk_linked vkUserID (View b w)" by (auto simp: found_def not_found_def vk_linked_def)
    have B: "vk_blocked b (vd_Runtime s) g vkUserID event (View b w) \<longrightarrow> B" using B' new by simp
    then have B0: "vk_blocked b (vd_Runtime s) g vkUserID event (View b v0) \<longrightarrow> B" using v0 by simp
    have "wp (andThen (resolveAccount s c vkUserID event) (\<lambda>(account, isnew).
            andThen (new_vk_identity s c vkUserID account) (\<lambda>_.
              if isnew then
                andThen (NewUserCreatedOutboxMessage (vd_Runtime s) account)
                  (\<lambda>m. vd_CreateOutbox s c (Some m))
              else ok ())))
      (\<lambda>r v. Inv b g v \<and> Journal b v = Journal b w
     \<and> callback_rel_vk (vd_Runtime s) vkUserID event B (View b w) (Calm b w) r (View b v) (Calm b v)) v0"
    proof (rule wp_andThenI [OF resolve_account_law [OF v0(1) B0]], goal_cases)
      case (1 a v1)
      obtain u isnew where a: "a = (u, isnew)" by fastforce
      from 1 a v0 have v1: "Inv b g v1" "Journal b v1 = Journal b w" "Calm b w \<longrightarrow> Calm b v1"
        and res: "if isnew then vk_new_user vkUserID event (View b w) u \<and> View b v1 = add_user u (View b w)
                  else vk_known event (View b w) u \<and> View b v1 = View b w"
        by auto
      have same: "st_idents (View b v1) = st_idents (View b w)" "st_outbox (View b v1) = st_outbox (View b w)"
        "\<not> no_user (ua_ID u) (View b v1)"
        using res by (auto simp: add_defs no_user_def vk_known_def split: if_splits)
      have dup_same: "dup_ident x (View b v1) = dup_ident x (View b w)" for x
        using same by (simp add: dup_ident_def)
      show ?case
        unfolding a case_prod_conv
      proof (rule wp_andThenI [OF new_identity_law [OF v1(1)]], goal_cases)
        case (1 y v2)
        then obtain x where x: "vk_identity vkUserID u x" "\<not> dup_ident x (View b w)" "View b v2 = add_ident x (View b v1)"
          "Inv b g v2" "Journal b v2 = Journal b w"
          using v1 dup_same by auto
        have calm2: "Calm b w \<longrightarrow> Calm b v2" using 1 v1(3) by auto
        show ?case
        proof (cases isnew)
          case False
          with x res new calm2 show ?thesis
            by (auto simp: wp_ok callback_rel_vk_def vk_accepted_def)
        next
          case True
          with x res same have v2: "vk_new_user vkUserID event (View b w) u"
            "View b v2 = add_ident x (add_user u (View b w))" "st_outbox (View b v2) = st_outbox (View b w)"
            by (auto simp: add_defs)
          show ?thesis
            unfolding if_P [OF True]
          proof (rule wp_andThenI [OF new_message [OF x(4)]], goal_cases)
            case (1 m v3)
            then have v3: "Inv b g v3" "View b v3 = View b v2" "Journal b v3 = Journal b w" "Calm b w \<longrightarrow> Calm b v3"
              and m: "outbox_for (vd_Runtime s) u m" "Some (om_ID m) \<in> Ids b g"
              using x(5) calm2 by (auto simp: unchanged_def)
            have dup: "dup_outbox m (View b v3) \<Longrightarrow> B"
              using m(2) v3(2) v2(3) B by (auto simp: dup_outbox_def vk_blocked_def)
            have done_: "vk_accepted (vd_Runtime s) vkUserID event (View b w) (add_outbox m (View b v3))"
              using x(1,2) v2(1,2) v3(2) m(1) new by (auto simp: vk_accepted_def)
            show ?case
              by (rule wp_conseq [OF create_outbox [OF v3(1)]])
                (use v3 dup done_ in \<open>auto simp: created_def callback_rel_vk_def split: outcome.splits\<close>)
          next
            case (2 e v)
            then show ?case using x B by (auto simp: unchanged_def callback_rel_vk_def vk_blocked_def)
          next
            case (3 p v)
            then show ?case using x B by (auto simp: unchanged_def callback_rel_vk_def vk_blocked_def)
          qed
        qed
      next
        case (2 e v2)
        then show ?case using v1 same new B by (auto simp: callback_rel_vk_def vk_blocked_def vk_linked_def)
      next
        case (3 p v2)
        then show ?case using v1 same new B by (auto simp: callback_rel_vk_def vk_blocked_def vk_linked_def)
      qed
    next
      case (2 e v)
      then show ?case using v0 by (auto simp: callback_rel_vk_def)
    next
      case (3 p v)
      then show ?case using v0 by (auto simp: callback_rel_vk_def)
    qed
    with True show ?thesis by simp
  qed
next
  case (3 p v)
  then show ?case by (simp add: found_def)
qed

lemma refuse_law:
  assumes "Inv b g w"
  shows "wp (vk_refuse s e) (\<lambda>r v. r = Err e \<and> Inv b g v \<and> View b v = View b w
     \<and> Journal b v = Journal b w @ [SpanError (err_text e)] \<and> (Calm b w \<longrightarrow> Calm b v)) w"
  unfolding vk_refuse_def
  by (rule wp_afterI [OF emit_law [OF assms]]) (simp_all add: wp_fail)

lemma Accept_law:
  assumes i: "Inv b g w" and out: "Outside b g"
  shows "wp (Accept s c event) (accept_ends b s g event w) w"
proof (cases event)
  case None
  then show ?thesis
    unfolding Accept_def None option.case
    by (intro wp_conseq [OF refuse_law [OF i]]) (auto simp: accept_ends_def vk_refusal_def)
next
  case (Some ev)
  let ?id = "TrimSpace (vk_VKUserID ev)"
  show ?thesis
  proof (cases "?id = []")
    case True
    show ?thesis
      unfolding Accept_def Some option.case Let_def if_P [OF True]
      by (rule wp_conseq [OF refuse_law [OF i]]) (use Some True in \<open>auto simp: accept_ends_def vk_refusal_def\<close>)
  next
    case False
    let ?B = "\<not> vk_linked ?id (View b w) \<and> vk_blocked b (vd_Runtime s) g ?id ev (View b w)"
    let ?Q = "callback_rel_vk (vd_Runtime s) ?id ev ?B (View b w) (Calm b w)"
    have cb: "wp (accept_tx s ?id ev tc) (\<lambda>r v'. Inv b g' v' \<and> Journal b v' = Journal b z \<and> ?Q r (View b v') (Calm b v')) z"
      if "Inv b g' z" "View b z = View b w" "Calm b w \<Longrightarrow> Calm b z" "Ids b g' = Ids b g" for g' tc z
      by (rule wp_conseq [OF accept_tx_law [OF that(1), where B = ?B]])
        (use that in \<open>auto simp: vk_blocked_def callback_rel_vk_def split: outcome.splits\<close>)
    have acc: "event_accepted (vd_Runtime s) event (View b w) st" "Calm b w \<longrightarrow> k"
      if "?Q (Ok ()) st k" for st k
      using that Some False by (auto simp: callback_rel_vk_def event_accepted_def)
    have ref: "vk_refusal b (vd_Runtime s) g event (View b w)" if ?B
      using that Some by (simp add: vk_refusal_def)
    show ?thesis
      unfolding Accept_def Some option.case Let_def if_not_P [OF False]
    proof (rule wp_callI [OF do_law [OF i out cb]], goal_cases)
      case (5 x z)
      then obtain k where z: "Inv b g z" "Journal b z = Journal b w" "Calm b w \<longrightarrow> Calm b z" "?Q (Ok ()) (View b z) k"
        by (auto simp: tx_done_def)
      show ?case
        unfolding sum.case
        apply (rule wp_afterI [OF emit_law [OF z(1)]], simp)
        apply (rule wp_afterI [OF emit_law], blast, simp)
        using z acc [OF z(4)] apply (auto simp: wp_ok accept_ends_def Some)
        done
    next
      case (6 e z)
      then have z: "Inv b g z" "Journal b z = Journal b w" "Calm b w \<longrightarrow> Calm b z"
        by (auto simp: tx_done_def)
      have *: "View b z = View b w \<and> (Calm b w \<longrightarrow> ?B)
          \<or> lost_answer e \<and> \<not> Calm b w \<and> event_accepted (vd_Runtime s) event (View b w) (View b z)"
        using acc [of "View b z" False] 6 by (auto simp: tx_done_def from_callback_def callback_rel_vk_def)
      show ?case
        unfolding sum.case
        by (rule wp_conseq [OF refuse_law [OF z(1)]]) (use z * ref in \<open>auto simp: accept_ends_def Some\<close>)
    next
      case (7 p z)
      then show ?case using ref Some by (auto simp: tx_done_def accept_ends_def callback_rel_vk_def)
    qed blast+
  qed
qed

end

section \<open>The service on the PostgreSQL world\<close>

text \<open>The dependencies internal/app/vkusersvc wires.\<close>

definition vk_world :: "(user_created_event \<Rightarrow> string outcome) \<Rightarrow> world vk_deps" where
  "vk_world marshal =
     \<lparr>vd_TxDo = Do \<lparr>tx_pool = True\<rparr>,
      vd_GetByID = users_GetByID, vd_GetByLogin = users_GetByLogin, vd_GetByEmail = users_GetByEmail,
      vd_CreateUser = users_Create,
      vd_GetByProviderSubject = identities_GetByProviderSubject, vd_CreateIdentity = identities_Create,
      vd_CreateOutbox = outbox_Create, vd_Runtime = world_runtime marshal\<rparr>"

lemma vk_world_sel:
  "vd_TxDo (vk_world marshal) = Do \<lparr>tx_pool = True\<rparr>"
  "vd_GetByID (vk_world marshal) = users_GetByID" "vd_GetByLogin (vk_world marshal) = users_GetByLogin"
  "vd_GetByEmail (vk_world marshal) = users_GetByEmail" "vd_CreateUser (vk_world marshal) = users_Create"
  "vd_GetByProviderSubject (vk_world marshal) = identities_GetByProviderSubject"
  "vd_CreateIdentity (vk_world marshal) = identities_Create"
  "vd_CreateOutbox (vk_world marshal) = outbox_Create" "vd_Runtime (vk_world marshal) = world_runtime marshal"
  by (simp_all add: vk_world_def)

interpretation vk: vk_service db_obs "vk_world marshal" for marshal
  unfolding vk_service_def vk_world_sel
  by (intro conjI users.user_repository_axioms identities.identity_repository_axioms outbox.outbox_writer_axioms
      tx.transactions_axioms runtime.clock_and_ids_axioms)

lemma Accept_ends_world:
  assumes "db_ready w" and "run_state (Accept (vk_world marshal) c event) w = (r, w')"
  shows "accept_ends db_obs (vk_world marshal) (session w, None) event w r w'"
  using assms(1) by (intro wpD [OF vk.Accept_law assms(2)]) (simp_all add: db_ready_Inv del: obs_sel)

text \<open>
  C13: accepting a VK event is all or nothing. If Accept returns nil, either the VK id was already
  linked and nothing changed, or exactly one identity for it was added, to the user who has the
  event's e-mail or else to one new user with a free login, the event's e-mail or a placeholder,
  and one pending users.created message. If it returns an error or panics the stored entities are
  the ones before - unless the answer to COMMIT was lost, and then all of the above are there. The
  session is as before, the keys stay unique, and the span has the one status of the outcome.
\<close>
theorem Accept_all_or_nothing:
  assumes "db_ready w" and "run_state (Accept (vk_world marshal) c event) w = (r, w')"
  shows "session w' = session w \<and> db_ready w' \<and>
    (case r of
       Ok _ \<Rightarrow> event_accepted (world_runtime marshal) event (stored w) (stored w')
         \<and> svc_events w' = svc_events w @ [SpanOk ''accepted'']
     | Err e \<Rightarrow>
         (stored w' = stored w
          \<or> lost_answer e \<and> \<not> calm w \<and> event_accepted (world_runtime marshal) event (stored w) (stored w'))
         \<and> svc_events w' = svc_events w @ [SpanError (err_text e)]
     | Panic p \<Rightarrow> stored w' = stored w \<and> svc_events w' = svc_events w)"
  using Accept_ends_world [OF assms] assms(1)
  by (cases r) (auto simp: accept_ends_def db_ready_def stored_def session_def vk_world_sel)

text \<open>What an event needs to be accepted, beyond a database that answers.\<close>

definition can_accept :: "(user_created_event \<Rightarrow> string outcome) \<Rightarrow> vk_user_event \<Rightarrow> world \<Rightarrow> bool" where
  "can_accept marshal ev w \<longleftrightarrow>
     TrimSpace (vk_VKUserID ev) \<noteq> [] \<and>
     (vk_linked (TrimSpace (vk_VKUserID ev)) (stored w)
      \<or> \<not> vk_no_name (TrimSpace (vk_VKUserID ev)) ev (stored w)
        \<and> (\<forall>x. \<exists>p. marshal x = Ok p)
        \<and> (\<forall>n. \<exists>i. uuid_source w n = Some i \<and> i \<notin> ua_ID ` set (st_users (stored w))
             \<and> i \<notin> ei_ID ` set (st_idents (stored w)) \<and> i \<notin> om_ID ` set (st_outbox (stored w))))"

lemma can_accept_not_refused:
  assumes "can_accept marshal ev w"
  shows "\<not> vk_refusal db_obs (world_runtime marshal) (session w, None) (Some ev) (stored w)"
proof (cases "vk_linked (TrimSpace (vk_VKUserID ev)) (stored w)")
  case True
  with assms show ?thesis by (simp add: vk_refusal_def can_accept_def)
next
  case False
  let ?P = "\<lambda>i. i \<notin> ua_ID ` set (st_users (stored w)) \<and> i \<notin> ei_ID ` set (st_idents (stored w))
    \<and> i \<notin> om_ID ` set (st_outbox (stored w))"
  from assms False have ids: "\<forall>n. \<exists>i. uuid_source w n = Some i \<and> ?P i"
    and rest: "TrimSpace (vk_VKUserID ev) \<noteq> []" "\<not> vk_no_name (TrimSpace (vk_VKUserID ev)) ev (stored w)"
      "\<forall>x. \<exists>p. marshal x = Ok p"
    by (auto simp: can_accept_def)
  from rest(3) have "\<not> unmarshalled (world_runtime marshal)"
    by (simp add: unmarshalled_def world_runtime_def)
  with rest(1,2) world_ids(1) [OF ids, of None] world_ids(2) [OF ids, of _ None] show ?thesis
    by (simp add: vk_refusal_def vk_blocked_def del: obs_sel)
qed

lemma Accept_answers:
  assumes "db_ready w" and "calm w" and "can_accept marshal ev w"
  obtains w' where "run_state (Accept (vk_world marshal) c (Some ev)) w = (Ok (), w')"
    "event_accepted (world_runtime marshal) (Some ev) (stored w) (stored w')"
proof -
  obtain r w' where run: "run_state (Accept (vk_world marshal) c (Some ev)) w = (r, w')" by fastforce
  from Accept_ends_world [OF assms(1) run] assms(2) can_accept_not_refused [OF assms(3)]
  have "r = Ok ()" by (simp add: accept_ends_def vk_world_sel stored_def)
  with Accept_ends_world [OF assms(1) run] that run show thesis
    by (simp add: accept_ends_def vk_world_sel stored_def)
qed

text \<open>
  C14: an event is accepted whenever it can be. If the database answers, the VK id is not blank,
  and the id is already linked or else a login and an e-mail are free for its user, the event
  marshals and the generated UUIDs are new, Accept returns nil.
\<close>
theorem Accept_succeeds:
  assumes "db_ready w" and "calm w" and "can_accept marshal ev w"
  shows "\<exists>w'. run_state (Accept (vk_world marshal) c (Some ev)) w = (Ok (), w')
    \<and> event_accepted (world_runtime marshal) (Some ev) (stored w) (stored w')"
  by (rule Accept_answers [OF assms]) blast

lemma accepted_linked:
  "event_accepted rt (Some ev) st st' \<Longrightarrow> vk_linked (TrimSpace (vk_VKUserID ev)) st'"
  by (auto simp: event_accepted_def vk_accepted_def vk_linked_def vk_identity_def add_defs split: if_splits)

text \<open>
  C15: Kafka may deliver an event again. Once Accept has returned nil for an event, accepting it,
  or any other event of that VK id, again - later, with whatever e-mail and login - returns nil
  and leaves the stored entities as they are, as long as the identities are still there and the
  database answers.
\<close>
theorem Accept_redelivered:
  assumes "db_ready w" and "run_state (Accept (vk_world marshal) c (Some ev)) w = (Ok (), w1)"
    and "db_ready v" and "calm v" and "set (st_idents (stored w1)) \<subseteq> set (st_idents (stored v))"
    and "TrimSpace (vk_VKUserID ev') = TrimSpace (vk_VKUserID ev)"
  shows "\<exists>v'. run_state (Accept (vk_world marshal) c' (Some ev')) v = (Ok (), v') \<and> stored v' = stored v"
proof -
  have acc: "event_accepted (world_runtime marshal) (Some ev) (stored w) (stored w1)"
    using Accept_ends_world [OF assms(1,2)] by (simp add: accept_ends_def vk_world_sel stored_def)
  from accepted_linked [OF acc] assms(5,6) have linked: "vk_linked (TrimSpace (vk_VKUserID ev')) (stored v)"
    by (auto simp: vk_linked_def)
  have "can_accept marshal ev' v"
    using acc linked assms(6) by (simp add: can_accept_def event_accepted_def)
  then obtain v' where run: "run_state (Accept (vk_world marshal) c' (Some ev')) v = (Ok (), v')"
    and "event_accepted (world_runtime marshal) (Some ev') (stored v) (stored v')"
    by (rule Accept_answers [OF assms(3,4)])
  with linked have "stored v' = stored v" by (simp add: event_accepted_def vk_accepted_def)
  with run show ?thesis by blast
qed

text \<open>Examples.\<close>

definition example_event :: vk_user_event where
  "example_event = \<lparr>vk_VKUserID = '' 42 '', vk_Login = ''Bob'', vk_Email = [], vk_FirstName = [],
     vk_LastName = [], vk_OccurredAt = 0\<rparr>"

lemma example_can_accept: "can_accept (\<lambda>e. Ok (uc_UserID e)) example_event empty_world"
  unfolding can_accept_def stored_empty
proof (intro conjI disjI2)
  show "TrimSpace (vk_VKUserID example_event) \<noteq> []" by code_simp
qed (simp_all add: vk_no_name_def login_used_def empty_world_sel(6))

lemma Accept_succeeds_witness:
  "\<exists>w'. run_state (Accept (vk_world (\<lambda>e. Ok (uc_UserID e))) background (Some example_event)) empty_world = (Ok (), w')"
  using Accept_succeeds [OF ready_empty example_can_accept, of background] by blast

lemma Accept_all_or_nothing_witness:
  "session (snd (run_state (Accept (vk_world (\<lambda>e. Ok (uc_UserID e))) background None) empty_world)) = session empty_world"
  using Accept_all_or_nothing [OF ready_empty(1), of "\<lambda>e. Ok (uc_UserID e)" background None]
  by (cases "run_state (Accept (vk_world (\<lambda>e. Ok (uc_UserID e))) background None) empty_world") simp

lemma Accept_redelivered_witness:
  "\<exists>w1 v'. run_state (Accept (vk_world (\<lambda>e. Ok (uc_UserID e))) background (Some example_event)) empty_world = (Ok (), w1)
     \<and> run_state (Accept (vk_world (\<lambda>e. Ok (uc_UserID e))) background (Some example_event)) w1 = (Ok (), v')
     \<and> stored v' = stored w1"
proof (rule Accept_answers [OF ready_empty example_can_accept, of background])
  fix w1
  assume run: "run_state (Accept (vk_world (\<lambda>e. Ok (uc_UserID e))) background (Some example_event)) empty_world = (Ok (), w1)"
  have "accept_ends db_obs (vk_world (\<lambda>e. Ok (uc_UserID e))) (session empty_world, None) (Some example_event) empty_world (Ok ()) w1"
    by (rule Accept_ends_world [OF ready_empty(1) run])
  then have "db_ready w1" "calm w1"
    using ready_empty by (auto simp: accept_ends_def db_ready_def stored_def session_def)
  with run Accept_redelivered [OF ready_empty(1) run] show ?thesis by blast
qed

end
