(* ===== verification/VkConsumer.thy ===== *)
theory VkConsumer
  imports DlqGroup DlqGuarantees VkUsers
begin

text \<open>
  internal/adapters/secondary/kafka/vk_user_consumer.go: the consumer of the users announced by VK,
  and what it guarantees with the service of VkUsers as its handler. The sessions of sarama are
  those of DlqConsumer; the state of the user is the world of the handler.
\<close>

section \<open>The consumer\<close>

record vk_consumer_config =
  vc_Enabled :: bool
  vc_Topic :: string
  vc_Brokers :: "string list"
  vc_GroupID :: string
  vc_OffsetInitial :: string

text \<open>The handler of a claim: \<open>VKUserHandler.Accept\<close> and \<open>VKUserEvent.Unmarshal\<close>.\<close>

record 's vk_handler =
  vh_Accept :: "vk_user_event option \<Rightarrow> ('s, unit) go"
  vh_Unmarshal :: "string \<Rightarrow> err + vk_user_event"

record 's vk_group =
  vg_Consume :: "string list \<Rightarrow> 's vk_handler \<Rightarrow> ('s kstate, unit) go"
  vg_Close :: "('s kstate, unit) go"

record 's vk_consumer =
  vk_topic :: string
  vk_group :: "'s vk_group"
  vk_handler :: "'s vk_handler"

definition vk_sarama :: "vk_consumer_config \<Rightarrow> consumer_sarama" where
  "vk_sarama cfg =
     \<lparr>kc_Version = ''2.3.0.0'', kc_OffsetsInitial = (if vc_OffsetInitial cfg = ''old'' then OffsetOldest else OffsetNewest),
      kc_GroupStrategies = [''roundrobin''], kc_ReturnErrors = True, kc_IsolationLevel = IsolationCommitted,
      kc_InstanceId = [], kc_SASL = None, kc_TLS = None\<rparr>"

definition NewVKUserConsumer ::
  "(string list \<Rightarrow> string \<Rightarrow> consumer_sarama \<Rightarrow> ('w, 's vk_group) go) \<Rightarrow> 'l option \<Rightarrow> vk_consumer_config \<Rightarrow> 'l option
   \<Rightarrow> 's vk_handler option \<Rightarrow> ('w, 's vk_consumer) go" where
  "NewVKUserConsumer NewConsumerGroup nobody cfg log handler =
     (if \<not> vc_Enabled cfg then fail (NewErr ''vk user consumer is disabled'')
      else if TrimSpace (vc_Topic cfg) = [] then fail (NewErr ''vk user consumer topic is required'')
      else if vc_Brokers cfg = [] then fail (NewErr ''vk user consumer brokers are required'')
      else if TrimSpace (vc_GroupID cfg) = [] then fail (NewErr ''vk user consumer group_id is required'')
      else case handler of
        None \<Rightarrow> fail (NewErr ''vk user consumer handler is required'')
      | Some h \<Rightarrow>
          call (NewConsumerGroup (vc_Brokers cfg) (vc_GroupID cfg) (vk_sarama cfg)) (\<lambda>r. case r of
            Inl e \<Rightarrow> fail (wrap ''create vk user consumer group'' e)
          | Inr made \<Rightarrow>
              (if log = None \<and> nobody = None then fail (NewErr ''logger is nil'')
               else ok \<lparr>vk_topic = vc_Topic cfg, vk_group = made, vk_handler = h\<rparr>)))"

text \<open>The rounds of the loop; \<open>False\<close> when they are used up and the loop still runs.\<close>

definition ctx_result :: "('s kstate, bool) go" where
  "ctx_result = do { c \<leftarrow> ctx_err; (case c of None \<Rightarrow> ok True | Some e \<Rightarrow> fail e) }"

primrec Run_vk :: "'s vk_consumer \<Rightarrow> nat \<Rightarrow> ('s kstate, bool) go" where
  "Run_vk t 0 = ok False"
| "Run_vk t (Suc n) = do {
     c \<leftarrow> ctx_err;
     (if c \<noteq> None then ctx_result
      else call (vg_Consume (vk_group t) [vk_topic t] (vk_handler t)) (\<lambda>r. case r of
        Inr _ \<Rightarrow> Run_vk t n
      | Inl e \<Rightarrow> do {
          c \<leftarrow> ctx_err;
          (if c \<noteq> None \<or> errors_is e (Lib ErrClosedConsumerGroup) then ctx_result
           else after (log_k ''error'' ''VK user consumer group failed'') (Run_vk t n)) })) }"

definition Close_vk :: "'s vk_consumer option \<Rightarrow> ('s kstate, unit) go" where
  "Close_vk t = (case t of None \<Rightarrow> ok () | Some c \<Rightarrow> vg_Close (vk_group c))"

definition vk_handleMessage :: "'s vk_handler \<Rightarrow> consumer_message \<Rightarrow> ('s kstate, unit) go" where
  "vk_handleMessage h message =
     (case vh_Unmarshal h (cm_Value message) of
        Inl e \<Rightarrow> fail (wrap ''decode vk user event'' e)
      | Inr event \<Rightarrow> on_user (vh_Accept h (Some event)))"

text \<open>The claim has no timer.\<close>

fun vk_ConsumeClaim :: "'s vk_handler \<Rightarrow> claim_input list \<Rightarrow> ('s kstate, bool) go" where
  "vk_ConsumeClaim h [] = ok False"
| "vk_ConsumeClaim h (Received message # rest) =
     call (vk_handleMessage h message) (\<lambda>r. case r of
       Inl e \<Rightarrow> after (log_k ''error'' ''VK user message processing failed'') (vk_ConsumeClaim h rest)
     | Inr _ \<Rightarrow> after (MarkMessage message ''accepted'') (vk_ConsumeClaim h rest))"
| "vk_ConsumeClaim h (TimerFired # rest) = vk_ConsumeClaim h rest"
| "vk_ConsumeClaim h (_ # rest) = ok True"

section \<open>What the claim does to its messages\<close>

definition vk_take :: "'s vk_handler \<Rightarrow> consumer_message \<Rightarrow> 's \<Rightarrow> bool option \<times> 's" where
  "vk_take h m s =
     (case vh_Unmarshal h (cm_Value m) of
        Inl e \<Rightarrow> (Some False, s)
      | Inr ev \<Rightarrow>
          (case run_state (vh_Accept h (Some ev)) s of
             (Ok _, s') \<Rightarrow> (Some True, s') | (Err e, s') \<Rightarrow> (Some False, s') | (Panic p, s') \<Rightarrow> (None, s')))"

primrec vk_takes :: "'s vk_handler \<Rightarrow> consumer_message list \<Rightarrow> 's \<Rightarrow> bool option list \<times> 's" where
  "vk_takes h [] s = ([], s)"
| "vk_takes h (m # ms) s =
     (case vk_take h m s of (x, s1) \<Rightarrow> (case vk_takes h ms s1 of (xs, s2) \<Rightarrow> (x # xs, s2)))"

lemma vk_handleMessage_post:
  "wp (vk_handleMessage h m) (\<lambda>r k'. ks_marks k' = ks_marks k \<and>
     vk_take h m (ks_user k) = (case r of Ok _ \<Rightarrow> Some True | Err e \<Rightarrow> Some False | Panic p \<Rightarrow> None, ks_user k')) k"
  by (cases "vh_Unmarshal h (cm_Value m)")
    (auto simp: vk_handleMessage_def vk_take_def wp_fail wp_on_user split: prod.split outcome.split)

definition vk_done :: "'s vk_handler \<Rightarrow> consumer_message list \<Rightarrow> 's kstate \<Rightarrow> bool outcome \<Rightarrow> 's kstate \<Rightarrow> bool" where
  "vk_done h ms k r k' \<longleftrightarrow>
     (\<exists>xs rest hs s. ms = xs @ rest \<and> length hs = length xs \<and> vk_takes h xs (ks_user k) = (map Some hs, s)
       \<and> ks_marks k' = ks_marks k @ map (\<lambda>m. (m, ''accepted'')) (map fst (filter snd (zip xs hs)))
       \<and> (case r of
            Ok _ \<Rightarrow> rest = [] \<and> ks_user k' = s
          | Err e \<Rightarrow> False
          | Panic p \<Rightarrow> rest \<noteq> [] \<and> vk_take h (hd rest) s = (None, ks_user k')))"

lemma vk_done_Nil: "vk_done h [] k (Ok b) k"
  by (simp add: vk_done_def)

lemma vk_done_step:
  assumes "vk_take h m (ks_user k) = (Some x, ks_user v)" "ks_marks v = ks_marks k @ (if x then [(m, ''accepted'')] else [])"
    and "vk_done h ms v r k'"
  shows "vk_done h (m # ms) k r k'"
proof -
  from assms(3) obtain xs rest hs s where a: "ms = xs @ rest" "length hs = length xs" "vk_takes h xs (ks_user v) = (map Some hs, s)"
      "ks_marks k' = ks_marks v @ map (\<lambda>m. (m, ''accepted'')) (map fst (filter snd (zip xs hs)))"
      "case r of Ok _ \<Rightarrow> rest = [] \<and> ks_user k' = s | Err e \<Rightarrow> False
       | Panic p \<Rightarrow> rest \<noteq> [] \<and> vk_take h (hd rest) s = (None, ks_user k')"
    unfolding vk_done_def by blast
  show ?thesis
    unfolding vk_done_def
    by (rule exI [of _ "m # xs"], rule exI [of _ rest], rule exI [of _ "x # hs"], rule exI [of _ s])
      (use a assms(1,2) in simp)
qed

lemma vk_ConsumeClaim_post: "wp (vk_ConsumeClaim h inputs) (vk_done h (consumed inputs) k) k"
proof (induction h inputs arbitrary: k rule: vk_ConsumeClaim.induct)
  case (2 h m rest)
  show ?case
    unfolding vk_ConsumeClaim.simps consumed.simps
  proof (rule wp_callI [OF vk_handleMessage_post], goal_cases)
    case (1 x v)
    let ?v = "ks_marks_update (\<lambda>ms. ms @ [(m, ''accepted'')]) v"
    have "wp (vk_ConsumeClaim h rest) (vk_done h (consumed rest) ?v) ?v"
      by (rule "2.IH")
    then show ?case
      unfolding sum.case wp_after wp_k
      by (rule wp_conseq) (rule vk_done_step [where x = True and v = ?v], use 1 in simp_all)
  next
    case (2 e v)
    let ?v = "ks_events_update (\<lambda>es. es @ [LogLine ''error'' ''VK user message processing failed'']) v"
    have "wp (vk_ConsumeClaim h rest) (vk_done h (consumed rest) ?v) ?v"
      by (rule "2.IH")
    then show ?case
      unfolding sum.case wp_after wp_k
      by (rule wp_conseq) (rule vk_done_step [where x = False and v = ?v], use 2 in simp_all)
  next
    case (3 p v)
    then show ?case
      unfolding vk_done_def
      by (intro exI [of _ "[]"] exI [of _ "m # consumed rest"] exI [of _ "ks_user k"]) simp
  qed
qed (simp_all add: wp_ok vk_done_Nil)

text \<open>With the service on the PostgreSQL world as the handler.\<close>

definition vk_service_handler ::
  "(user_created_event \<Rightarrow> string outcome) \<Rightarrow> (string \<Rightarrow> err + vk_user_event) \<Rightarrow> ctx \<Rightarrow> world vk_handler" where
  "vk_service_handler marshal unmarshal c = \<lparr>vh_Accept = Accept (vk_world marshal) c, vh_Unmarshal = unmarshal\<rparr>"

text \<open>The account of the message's event is linked to its VK id.\<close>

definition linked_for :: "(string \<Rightarrow> err + vk_user_event) \<Rightarrow> world \<Rightarrow> consumer_message \<Rightarrow> bool" where
  "linked_for unmarshal w m \<longleftrightarrow>
     (case unmarshal (cm_Value m) of Inl e \<Rightarrow> False | Inr ev \<Rightarrow> vk_linked (TrimSpace (vk_VKUserID ev)) (stored w))"

lemma accepted_keeps_links:
  "event_accepted rt ev st st' \<Longrightarrow> vk_linked i st \<Longrightarrow> vk_linked i st'"
  by (auto simp: event_accepted_def vk_accepted_def vk_linked_def add_defs split: option.splits if_splits)

lemma vk_take_world:
  assumes "db_ready w" "vk_take (vk_service_handler marshal unmarshal c) m w = (x, v)"
  shows "db_ready v" "vk_linked i (stored w) \<Longrightarrow> vk_linked i (stored v)" "x = Some True \<Longrightarrow> linked_for unmarshal v m"
proof -
  have "db_ready v \<and> (vk_linked i (stored w) \<longrightarrow> vk_linked i (stored v)) \<and> (x = Some True \<longrightarrow> linked_for unmarshal v m)" for i
  proof (cases "unmarshal (cm_Value m)")
    case (Inl e)
    with assms show ?thesis by (auto simp: vk_take_def vk_service_handler_def)
  next
    case (Inr ev)
    obtain r where run: "run_state (Accept (vk_world marshal) c (Some ev)) w = (r, v)"
      and x: "x = (case r of Ok _ \<Rightarrow> Some True | Err e \<Rightarrow> Some False | Panic p \<Rightarrow> None)"
      using assms(2) Inr by (auto simp: vk_take_def vk_service_handler_def split: prod.splits outcome.splits)
    show ?thesis
      using Accept_all_or_nothing [OF assms(1) run] x Inr accepted_keeps_links accepted_linked
      by (cases r) (auto simp: linked_for_def)
  qed
  then show "db_ready v" "vk_linked i (stored w) \<Longrightarrow> vk_linked i (stored v)" "x = Some True \<Longrightarrow> linked_for unmarshal v m"
    by blast+
qed

lemma linked_for_mono:
  "linked_for unmarshal w m \<Longrightarrow> (\<And>i. vk_linked i (stored w) \<Longrightarrow> vk_linked i (stored v)) \<Longrightarrow> linked_for unmarshal v m"
  by (auto simp: linked_for_def split: sum.splits)

lemma vk_takes_world:
  assumes "vk_takes (vk_service_handler marshal unmarshal c) ms w = (map Some hs, v)" "db_ready w" "length hs = length ms"
  shows "db_ready v \<and> (\<forall>i. vk_linked i (stored w) \<longrightarrow> vk_linked i (stored v))
    \<and> list_all (linked_for unmarshal v) (map fst (filter snd (zip ms hs)))"
  using assms
proof (induction ms arbitrary: w hs)
  case Nil
  then show ?case by simp
next
  case (Cons m ms)
  obtain x u where x: "vk_take (vk_service_handler marshal unmarshal c) m w = (x, u)" by fastforce
  obtain h hs' where hs: "hs = h # hs'" using Cons.prems(3) by (cases hs) auto
  with x Cons.prems(1) have rest: "vk_takes (vk_service_handler marshal unmarshal c) ms u = (map Some hs', v)" "x = Some h"
    by (auto split: prod.splits)
  note step = vk_take_world [OF Cons.prems(2) x]
  from Cons.IH [OF rest(1) step(1)] Cons.prems(3) hs
  have IH: "db_ready v" "\<forall>i. vk_linked i (stored u) \<longrightarrow> vk_linked i (stored v)"
    "list_all (linked_for unmarshal v) (map fst (filter snd (zip ms hs')))" by auto
  moreover have "linked_for unmarshal v m" if h
    using step(3) rest(2) that IH(2) by (auto intro: linked_for_mono)
  ultimately show ?case using step(2) by (simp add: hs)
qed

section \<open>The properties\<close>

text \<open>
  C25: a message of the topic of VK users is committed only when its user is stored. Whatever the
  claim receives, and whatever the database does meanwhile, every message it marks carries an event
  whose VK id is linked to a user in the database when the claim returns; the stored entities stay
  well-formed and no link made before is lost.
\<close>
theorem vk_marks_are_linked:
  assumes "db_ready (ks_user k)"
    and "run_state (vk_ConsumeClaim (vk_service_handler marshal unmarshal c) inputs) k = (r, k')"
  shows "\<exists>new. ks_marks k' = ks_marks k @ map (\<lambda>m. (m, ''accepted'')) new
    \<and> list_all (linked_for unmarshal (ks_user k')) new \<and> db_ready (ks_user k')
    \<and> (\<forall>i. vk_linked i (stored (ks_user k)) \<longrightarrow> vk_linked i (stored (ks_user k')))"
proof -
  let ?h = "vk_service_handler marshal unmarshal c"
  from wpD [OF vk_ConsumeClaim_post assms(2)] obtain xs rest hs s
    where t: "length hs = length xs" "vk_takes ?h xs (ks_user k) = (map Some hs, s)"
      and marks: "ks_marks k' = ks_marks k @ map (\<lambda>m. (m, ''accepted'')) (map fst (filter snd (zip xs hs)))"
      and r: "case r of Ok _ \<Rightarrow> rest = [] \<and> ks_user k' = s | Err e \<Rightarrow> False
        | Panic p \<Rightarrow> rest \<noteq> [] \<and> vk_take ?h (hd rest) s = (None, ks_user k')"
    unfolding vk_done_def by blast
  note w = vk_takes_world [OF t(2) assms(1) t(1)]
  have "db_ready (ks_user k') \<and> (\<forall>i. vk_linked i (stored s) \<longrightarrow> vk_linked i (stored (ks_user k')))"
  proof (cases r)
    case (Panic p)
    with r have "vk_take ?h (hd rest) s = (None, ks_user k')" by simp
    from vk_take_world(1,2) [OF _ this] w show ?thesis by blast
  qed (use r w in auto)
  moreover have "list_all (linked_for unmarshal (ks_user k')) (map fst (filter snd (zip xs hs)))"
    by (rule list.pred_mono_strong [OF conjunct2 [OF conjunct2 [OF w]]]) (use calculation linked_for_mono in blast)
  ultimately show ?thesis
    using w marks by blast
qed

text \<open>
  A message that could not be accepted is not tried again. A claim that returns nil has marked
  exactly the messages its handler accepted, in order: it goes on after a failed message, so that a
  later message of the same partition is marked, and committing that offset commits the failed one.
\<close>
theorem vk_claim_marks_past_failures:
  assumes "run_state (vk_ConsumeClaim h inputs) k = (Ok b, k')"
  shows "\<exists>hs. vk_takes h (consumed inputs) (ks_user k) = (map Some hs, ks_user k')
    \<and> ks_marks k' = ks_marks k @ map (\<lambda>m. (m, ''accepted'')) (map fst (filter snd (zip (consumed inputs) hs)))"
  using wpD [OF vk_ConsumeClaim_post assms] by (auto simp: vk_done_def)

text \<open>Examples.\<close>

definition example_claim_state :: "'s \<Rightarrow> 's kstate" where
  "example_claim_state s =
     \<lparr>ks_user = s, ks_clock = (\<lambda>n. int n), ks_ticks = 0, ks_uuids = (\<lambda>_. Some ''u''), ks_drawn = 0,
      ks_ctx = (\<lambda>_. None), ks_asked = 0, ks_marks = [], ks_commits = 0, ks_received = 0, ks_success = 0,
      ks_decode_failed = 0, ks_processing_failed = 0, ks_dlq_writes = 0, ks_events = []\<rparr>"

definition example_unmarshal :: "string \<Rightarrow> err + vk_user_event" where
  "example_unmarshal v = (if v = ''refused'' then Inl (NewErr ''invalid character'') else Inr example_event)"

definition example_service :: "world vk_handler" where
  "example_service = vk_service_handler (\<lambda>e. Ok (uc_UserID e)) example_unmarshal background"

definition example_acceptor :: "nat vk_handler" where
  "example_acceptor = \<lparr>vh_Accept = (\<lambda>_. ok ()), vh_Unmarshal = example_unmarshal\<rparr>"

lemma example_take:
  "\<exists>w'. vk_take example_service (example_message 0 ''fine'') empty_world = (Some True, w')"
proof (rule Accept_answers [OF ready_empty example_can_accept, of background])
  fix w'
  assume run: "run_state (Accept (vk_world (\<lambda>e. Ok (uc_UserID e))) background (Some example_event)) empty_world = (Ok (), w')"
  have "vh_Unmarshal example_service (cm_Value (example_message 0 ''fine'')) = Inr example_event"
    "vh_Accept example_service = Accept (vk_world (\<lambda>e. Ok (uc_UserID e))) background"
    by (simp_all add: example_service_def vk_service_handler_def example_unmarshal_def example_message_def)
  then have "vk_take example_service (example_message 0 ''fine'') empty_world = (Some True, w')"
    by (simp add: vk_take_def run)
  then show ?thesis by blast
qed

lemma vk_marks_are_linked_witness:
  "\<exists>(k' :: world kstate) new. ks_marks k' = map (\<lambda>m. (m, ''accepted'')) new \<and> new = [example_message 0 ''fine'']
     \<and> list_all (linked_for example_unmarshal (ks_user k')) new \<and> db_ready (ks_user k')"
proof -
  let ?m = "example_message 0 ''fine''" and ?k = "example_claim_state empty_world"
  obtain r k' where run: "run_state (vk_ConsumeClaim example_service [Received ?m, SessionDone]) ?k = (r, k')"
    by fastforce
  have k: "ks_user ?k = empty_world" "ks_marks ?k = []" by (simp_all add: example_claim_state_def)
  have "db_ready (ks_user ?k)" unfolding k(1) by (rule ready_empty(1))
  from vk_marks_are_linked [OF this run [unfolded example_service_def]] obtain new
    where new: "ks_marks k' = map (\<lambda>m. (m, ''accepted'')) new"
      "list_all (linked_for example_unmarshal (ks_user k')) new" "db_ready (ks_user k')"
    unfolding k(2) by auto
  obtain w' where take: "vk_take example_service ?m empty_world = (Some True, w')"
    using example_take by blast
  from wpD [OF vk_ConsumeClaim_post run] obtain xs rest hs s where parts: "[?m] = xs @ rest" "length hs = length xs"
      "vk_takes example_service xs empty_world = (map Some hs, s)"
      "ks_marks k' = map (\<lambda>m. (m, ''accepted'')) (map fst (filter snd (zip xs hs)))"
      "case r of Ok _ \<Rightarrow> rest = [] \<and> ks_user k' = s | Err e \<Rightarrow> False
       | Panic p \<Rightarrow> rest \<noteq> [] \<and> vk_take example_service (hd rest) s = (None, ks_user k')"
    unfolding vk_done_def k by (auto simp: Cons_eq_append_conv)
  have "rest = []"
  proof (rule ccontr)
    assume "rest \<noteq> []"
    with parts(1) have "xs = []" "rest = [?m]" by (auto simp: Cons_eq_append_conv)
    with parts(3,5) take \<open>rest \<noteq> []\<close> show False by (cases r) auto
  qed
  with parts(1) have "xs = [?m]" by simp
  with parts(2,3) take have "hs = [True]" by (cases hs) auto
  with parts(4) \<open>xs = [?m]\<close> have "ks_marks k' = [(?m, ''accepted'')]" by simp
  with new(1) have "new = [?m]" by (auto simp: map_eq_Cons_conv)
  with new show ?thesis by (intro exI [of _ k'] exI [of _ new] conjI)
qed

lemma vk_claim_marks_past_failures_witness:
  "\<exists>k'. run_state (vk_ConsumeClaim example_acceptor
       (map Received [example_message 0 ''refused'', example_message 1 ''fine''] @ [SessionDone])) (example_claim_state 0) = (Ok True, k')
     \<and> map fst (ks_marks k') = [example_message 1 ''fine'']"
proof -
  let ?ms = "[example_message 0 ''refused'', example_message 1 ''fine'']" and ?k = "example_claim_state (0 :: nat)"
  let ?run = "run_state (vk_ConsumeClaim example_acceptor (map Received ?ms @ [SessionDone])) ?k"
  have f: "fst ?run = Ok True" by code_simp
  then have r: "?run = (Ok True, snd ?run)" by (simp add: prod_eq_iff)
  have h: "fst (vk_takes example_acceptor ?ms (ks_user ?k)) = [Some False, Some True]" by code_simp
  have c: "consumed (map Received ?ms @ [SessionDone]) = ?ms" "ks_marks ?k = []"
    by (simp_all add: example_claim_state_def)
  from vk_claim_marks_past_failures [OF r] obtain hs where hs: "vk_takes example_acceptor ?ms (ks_user ?k) = (map Some hs, ks_user (snd ?run))"
    "map fst (ks_marks (snd ?run)) = map fst (filter snd (zip ?ms hs))"
    unfolding c by (elim exE conjE) simp
  from hs(1) h have "hs = [False, True]" by (auto simp: Cons_eq_map_conv)
  with hs(2) have "map fst (ks_marks (snd ?run)) = [example_message 1 ''fine'']" by simp
  then show ?thesis by (intro exI conjI) (rule r)
qed

end
