(* ===== verification/Quiet.thy ===== *)
theory Quiet
  imports Prelude
begin

text \<open>Steps that leave an observation of the world as it is, whatever they return.\<close>

definition quiet :: "('w \<Rightarrow> 'v) \<Rightarrow> ('w, 'b) state \<Rightarrow> bool" where
  "quiet view m \<longleftrightarrow> (\<forall>w. wp m (\<lambda>_ v. view v = view w) w)"

lemma quietD: "quiet view m \<Longrightarrow> wp m (\<lambda>_ v. view v = view w) w"
  by (simp add: quiet_def)

lemma quiet_return [simp]: "quiet view (State_Monad.return x)"
  by (simp add: quiet_def wp_rules)

lemma quiet_bind: "quiet view m \<Longrightarrow> (\<And>x. quiet view (f x)) \<Longrightarrow> quiet view (State_Monad.bind m f)"
  unfolding quiet_def
proof (intro allI)
  fix w
  assume m: "\<forall>w. wp m (\<lambda>_ v. view v = view w) w" and f: "\<And>x. \<forall>w. wp (f x) (\<lambda>_ v. view v = view w) w"
  show "wp (State_Monad.bind m f) (\<lambda>_ v. view v = view w) w"
    by (rule wp_bindI [OF spec [OF m]], rule wp_conseq [OF spec [OF f]]) simp
qed

lemma quiet_after: "quiet view m \<Longrightarrow> quiet view n \<Longrightarrow> quiet view (after m n)"
  unfolding after_def by (intro quiet_bind)

lemma quiet_call: "quiet view m \<Longrightarrow> (\<And>x. quiet view (f x)) \<Longrightarrow> quiet view (call m f)"
  unfolding call_def by (intro quiet_bind) (auto simp: panic_def split: outcome.split)

lemma quiet_ok [simp]: "quiet view (ok x)" "quiet view (fail e)"
  by (simp_all add: ok_def fail_def)

lemma wp_quiet_after:
  assumes "quiet view m" "\<And>v. view v = view w \<Longrightarrow> wp n Q v"
  shows "wp (after m n) Q w"
  by (rule wp_afterI [OF quietD [OF assms(1)]]) (rule assms(2))

lemma wp_quiet_then:
  assumes "quiet view m" "\<And>x v. view v = view w \<Longrightarrow> wp (n x) Q v"
  shows "wp (State_Monad.bind m n) Q w"
  by (rule wp_bindI [OF quietD [OF assms(1)]]) (rule assms(2))

lemma quiet_prims: "(\<And>w. view (f w) = view w) \<Longrightarrow> quiet view (modify f)" "quiet view State_Monad.get" "quiet view (reads h)"
    "quiet view (panic x)"
  by (simp_all add: quiet_def wp_rules)

lemma quiet_foreach: "(\<And>x. quiet view (body x)) \<Longrightarrow> quiet view (foreach xs body)"
  by (induction xs) (auto simp: andThen_def intro!: quiet_call split: sum.split)

lemma wp_True: "wp m (\<lambda>_ _. True) w"
  by (simp add: wp_def split: prod.split)

end
