(* ===== verification/TxProducer.thy ===== *)
theory TxProducer
  imports Producer DlqConsumer Quiet
begin

text \<open>
  pkg/adapters/kafka/producer/transactional-producer: the producer that sends its messages in Kafka
  transactions, and what it guarantees over a transactional client.
\<close>

section \<open>The producer\<close>

record ('w, 'a) tx_client = "('w, 'a) sync_client" +
  AddMessageToTxn :: "consumer_message \<Rightarrow> string \<Rightarrow> string option \<Rightarrow> ('w, unit) go"

type_synonym ('w, 'a) tx_producer = "('w, 'a, ('w, 'a) tx_client) topic_producer"

text \<open>The atomic counter of the producer beside the world its client and its options touch.\<close>

record 'w tx_state =
  ts_world :: 'w
  ts_pendingTx :: "64 word"

definition outside :: "('w, 'b) state \<Rightarrow> ('w tx_state, 'b) state" where
  "outside m = do {
     k \<leftarrow> State_Monad.get;
     (case run_state m (ts_world k) of (r, w) \<Rightarrow> do {
        _ \<leftarrow> State_Monad.set (k\<lparr>ts_world := w\<rparr>);
        State_Monad.return r }) }"

definition transactional_config :: "producer_config \<Rightarrow> producer_config" where
  "transactional_config config =
     (let s = pc_ProduceSettings config in
      config\<lparr>pc_ProduceSettings := s\<lparr>ps_Idempotency := True, ps_RequiredAcks := -1,
         ps_SaveReturningStatus := \<lparr>sv_Errors = True, sv_Succeeded = True\<rparr>\<rparr>\<rparr>)"

definition tx_NewTopicProducer ::
  "tls_library \<Rightarrow> 'w runtime \<Rightarrow> (string list \<Rightarrow> sarama_config \<Rightarrow> ('w, ('w, 'a) tx_client) go) \<Rightarrow> 'l option
   \<Rightarrow> ('a \<Rightarrow> ('w, string) go) \<Rightarrow> producer_config \<Rightarrow> 'l option \<Rightarrow> ('a \<Rightarrow> ('w, string) go) option
   \<Rightarrow> ('w, 'a) producer_option list \<Rightarrow> ('w, ('w, 'a) tx_producer) go" where
  "tx_NewTopicProducer lib rt NewSyncProducer nobody fallback config log serializer opts =
     (if ps_TransactionalID (pc_ProduceSettings config) = [] then fail (Sentinel (ProdCfg ErrTransactionalIDRequired))
      else
        (let cfg = transactional_config config in
         case BuildProduceConfig lib cfg of
           Inl e \<Rightarrow> fail (wrap2 (ProdCfg ErrBuildSaramaConfig) e)
         | Inr saramaConfig \<Rightarrow>
             new_producer rt (NewSyncProducer (pc_Brokers cfg) saramaConfig) ErrCreateTxProducer nobody fallback
               ''Configured Kafka transactional producer'' cfg log serializer opts))"

section \<open>Sending\<close>

definition tx_sendProducerMessage :: "('w, 'a) tx_producer \<Rightarrow> 'a producer_message \<Rightarrow> ('w tx_state, unit) go" where
  "tx_sendProducerMessage t message = do {
     startedAt \<leftarrow> outside (Now (tp_runtime t));
     after (outside (ObservePayload (tp_runtime t) (tp_metrics t) ''transactional'' (pm_Topic message)
              (MessagePayloadSize (Some message))))
       (call (outside (SendMessage (tp_producer t) message)) (\<lambda>r. case r of
          Inl e \<Rightarrow>
            after (outside (log_line t ''error'' (producer_send_err_text ErrSendMessage)))
              (after (outside (ObserveOp t ''transactional'' (pm_Topic message) ''send_single'' ''error'' startedAt))
                (after (outside (HandleError (tp_options t) ''send_single'' (pm_Topic message)
                           (ExtractTypedMessage (Some message)) (Some e)))
                  (fail (wrap2 (ProdSend ErrSendMessage) e))))
        | Inr _ \<Rightarrow>
            after (outside (log_line t ''debug'' ''Kafka message sent''))
              (after (outside (ObserveOp t ''transactional'' (pm_Topic message) ''send_single'' ''success'' startedAt))
                (after (modify (ts_pendingTx_update (\<lambda>n. n + 1))) (ok ()))))) }"

primrec observe_payloads :: "('w, 'a) tx_producer \<Rightarrow> 'a producer_message list \<Rightarrow> ('w, unit) state" where
  "observe_payloads t [] = State_Monad.return ()"
| "observe_payloads t (m # ms) = do {
     _ \<leftarrow> ObservePayload (tp_runtime t) (tp_metrics t) ''transactional'' (pm_Topic m) (MessagePayloadSize (Some m));
     observe_payloads t ms }"

definition tx_sendProducerMessages :: "('w, 'a) tx_producer \<Rightarrow> 'a producer_message list \<Rightarrow> ('w tx_state, unit) go" where
  "tx_sendProducerMessages t messages = do {
     startedAt \<leftarrow> outside (Now (tp_runtime t));
     call (outside (SendMessages (tp_producer t) messages)) (\<lambda>r. case r of
       Inl e \<Rightarrow>
         after (outside (log_line t ''error'' (producer_send_err_text ErrSendMessages)))
           (after (outside (ObserveOp t ''transactional'' (tp_topic t) ''send_batch'' ''error'' startedAt))
             (after (outside (handle_each t e (map (\<lambda>m. (m, ExtractTypedMessage (Some m))) messages)))
               (fail (wrap2 (ProdSend ErrSendMessages) e))))
     | Inr _ \<Rightarrow>
         after (outside (observe_payloads t messages))
           (after (outside (log_line t ''debug'' ''Kafka messages sent''))
             (after (outside (ObserveOp t ''transactional'' (tp_topic t) ''send_batch'' ''success'' startedAt))
               (after (modify (ts_pendingTx_update (\<lambda>n. n + of_nat (length messages)))) (ok ()))))) }"

definition tx_SendTypedMessage :: "('w, 'a) tx_producer \<Rightarrow> 'a typed_message \<Rightarrow> ('w tx_state, unit) go" where
  "tx_SendTypedMessage t message =
     call (outside (ToProducerMessage (tp_topic t) message (tp_serializer t))) (\<lambda>r. case r of
       Inl e \<Rightarrow>
         after (outside (HandleError (tp_options t) ''send_single'' (tp_topic t) (Some message) (Some e))) (fail e)
     | Inr producerMessage \<Rightarrow> tx_sendProducerMessage t producerMessage)"

text \<open>The messages of a batch, up to the first that cannot be serialized.\<close>

primrec tx_batch :: "('w, 'a) tx_producer \<Rightarrow> 'a typed_message list \<Rightarrow> ('w, 'a producer_message list) go" where
  "tx_batch t [] = ok []"
| "tx_batch t (m # ms) =
     call (ToProducerMessage (tp_topic t) m (tp_serializer t)) (\<lambda>r. case r of
       Inl e \<Rightarrow> after (HandleError (tp_options t) ''send_batch'' (tp_topic t) (Some m) (Some e)) (fail e)
     | Inr x \<Rightarrow> andThen (tx_batch t ms) (\<lambda>xs. ok (x # xs)))"

definition tx_SendTypedMessages :: "('w, 'a) tx_producer \<Rightarrow> 'a typed_message list \<Rightarrow> ('w tx_state, unit) go" where
  "tx_SendTypedMessages t messages = andThen (outside (tx_batch t messages)) (tx_sendProducerMessages t)"

section \<open>Transactions\<close>

text \<open>
  The shape of an operation on the transaction: the call of the client, a log line and the metrics,
  and what is left to do when it succeeded.
\<close>

definition tx_step ::
  "('w, 'a) tx_producer \<Rightarrow> ('w, unit) go \<Rightarrow> producer_send_err \<Rightarrow> string \<Rightarrow> string \<Rightarrow> string \<Rightarrow> ('w tx_state, unit) go
   \<Rightarrow> ('w tx_state, unit) go" where
  "tx_step t m refused operation level said rest = do {
     startedAt \<leftarrow> outside (Now (tp_runtime t));
     call (outside m) (\<lambda>r. case r of
       Inl e \<Rightarrow>
         after (outside (log_line t ''error'' (producer_send_err_text refused)))
           (after (outside (ObserveOp t ''transactional'' (tp_topic t) operation ''error'' startedAt))
             (fail (wrap2 (ProdSend refused) e)))
     | Inr _ \<Rightarrow>
         after (outside (log_line t level said))
           (after (outside (ObserveOp t ''transactional'' (tp_topic t) operation ''success'' startedAt)) rest)) }"

definition BeginTx :: "('w, 'a) tx_producer \<Rightarrow> ('w tx_state, unit) go" where
  "BeginTx t =
     tx_step t (BeginTxn (tp_producer t)) ErrBeginTransaction ''begin_tx'' ''debug''
       ''Kafka transactional producer began transaction'' (ok ())"

definition CommitTx :: "('w, 'a) tx_producer \<Rightarrow> ('w tx_state, unit) go" where
  "CommitTx t =
     tx_step t (CommitTxn (tp_producer t)) ErrCommitTransaction ''commit_tx'' ''debug''
       ''Kafka transactional producer committed transaction''
       (do {
          pending \<leftarrow> reads (\<lambda>k. sint (ts_pendingTx k));
          _ \<leftarrow> modify (ts_pendingTx_update (\<lambda>_. 0));
          after (outside (ObserveMessages (tp_runtime t) (tp_metrics t) ''transactional'' (tp_topic t) ''success'' pending))
            (ok ()) })"

definition AbortTx :: "('w, 'a) tx_producer \<Rightarrow> ('w tx_state, unit) go" where
  "AbortTx t =
     tx_step t (AbortTxn (tp_producer t)) ErrAbortTransaction ''abort_tx'' ''warn''
       ''Kafka transactional producer aborted transaction'' (after (modify (ts_pendingTx_update (\<lambda>_. 0))) (ok ()))"

definition AddOffsetsToTx ::
  "('w, 'a) tx_producer \<Rightarrow> (string \<times> (nat \<times> int) list) list \<Rightarrow> string \<Rightarrow> ('w tx_state, unit) go" where
  "AddOffsetsToTx t offsets groupID =
     tx_step t (AddOffsetsToTxn (tp_producer t) offsets groupID) ErrAddOffsetsToTransaction ''add_offsets'' ''debug''
       (producer_send_err_text ErrAddOffsetsToTransaction) (ok ())"

definition AddMessageToTx ::
  "('w, 'a) tx_producer \<Rightarrow> consumer_message \<Rightarrow> string \<Rightarrow> string option \<Rightarrow> ('w tx_state, unit) go" where
  "AddMessageToTx t msg groupID metadata =
     tx_step t (AddMessageToTxn (tp_producer t) msg groupID metadata) ErrAddMessageToTransaction ''add_message'' ''debug''
       (producer_send_err_text ErrAddMessageToTransaction) (ok ())"

text \<open>\<open>fmt.Errorf("%w: %w, %w: %w", ...)\<close>.\<close>

definition wrap4 :: "sentinel \<Rightarrow> err \<Rightarrow> sentinel \<Rightarrow> err \<Rightarrow> err" where
  "wrap4 a e b f =
     Wrapped (sentinel_text a @ '': '' @ err_text e @ '', '' @ sentinel_text b @ '': '' @ err_text f)
       [Sentinel a, e, Sentinel b, f]"

text \<open>The transaction is aborted after \<open>failed\<close>, with its error.\<close>

definition tx_undo :: "('w, 'a) tx_producer \<Rightarrow> producer_send_err \<Rightarrow> err \<Rightarrow> string \<Rightarrow> ('w tx_state, unit) go" where
  "tx_undo t failed e said =
     call (AbortTx t) (\<lambda>r. case r of
       Inl abortErr \<Rightarrow> fail (wrap4 (ProdSend failed) e (ProdSend ErrAbortTransaction) abortErr)
     | Inr _ \<Rightarrow> after (outside (log_line t ''warn'' said)) (fail (wrap2 (ProdSend failed) e)))"

definition tx_SendTypedMessagesTx :: "('w, 'a) tx_producer \<Rightarrow> 'a typed_message list \<Rightarrow> ('w tx_state, unit) go" where
  "tx_SendTypedMessagesTx t messages =
     andThen (BeginTx t) (\<lambda>_.
       call (tx_SendTypedMessages t messages) (\<lambda>r. case r of
         Inl e \<Rightarrow> tx_undo t ErrSendMessages e ''Kafka transactional send failed, transaction aborted''
       | Inr _ \<Rightarrow>
           call (CommitTx t) (\<lambda>r. case r of
             Inl e \<Rightarrow> do {
               abortable \<leftarrow> outside (TxnAbortable (tp_producer t));
               (if abortable
                then tx_undo t ErrCommitTransaction e ''Kafka transactional commit failed, transaction aborted''
                else fail (wrap2 (ProdSend ErrCommitTransaction) e)) }
           | Inr _ \<Rightarrow> ok ())))"

definition tx_Close :: "('w, 'a) tx_producer \<Rightarrow> ('w, unit) go" where
  "tx_Close t =
     andThen (CloseClient (tp_producer t)) (\<lambda>_. after (log_line t ''info'' ''Kafka producer closed'') (ok ()))"

section \<open>A transactional client\<close>

text \<open>
  What readers of committed messages see, and the messages of the open transaction. A send that
  fails may leave some of its messages in the transaction; a commit that fails may have committed.
\<close>

type_synonym ('w, 'a) ledger = "'w \<Rightarrow> 'a producer_message list \<times> 'a producer_message list option"

definition transactional :: "('w, 'a) ledger \<Rightarrow> ('w, 'a) tx_client \<Rightarrow> bool" where
  "transactional view c \<longleftrightarrow>
     (\<forall>w read. view w = (read, None) \<longrightarrow>
        wp (BeginTxn c) (\<lambda>r v. view v = (read, if r = Ok () then Some [] else None)) w)
   \<and> (\<forall>w read xs ms. view w = (read, Some xs) \<longrightarrow>
        wp (SendMessages c ms) (\<lambda>r v. \<exists>ys. view v = (read, Some (xs @ ys)) \<and> (r = Ok () \<longrightarrow> ys = ms)) w)
   \<and> (\<forall>w read xs. view w = (read, Some xs) \<longrightarrow>
        wp (CommitTxn c) (\<lambda>r v. view v = (read @ xs, None) \<or> r \<noteq> Ok () \<and> view v = (read, Some xs)) w)
   \<and> (\<forall>w read x. view w = (read, x) \<longrightarrow>
        wp (AbortTxn c) (\<lambda>r v. view v = (read, if r = Ok () then None else x)) w)
   \<and> (\<forall>w. wp (TxnAbortable c) (\<lambda>_ v. view v = view w) w)"

text \<open>The clock, the logger, the metrics, the serializer and the error handler do not touch the broker.\<close>

definition quiet_producer :: "('w \<Rightarrow> 'v) \<Rightarrow> ('w, 'a, 'c) topic_producer \<Rightarrow> bool" where
  "quiet_producer view t \<longleftrightarrow>
     quiet view (Now (tp_runtime t)) \<and> (\<forall>e. quiet view (Emit (tp_runtime t) e)) \<and> (\<forall>x. quiet view (tp_serializer t x))
     \<and> (\<forall>h x. ro_errorHandler (tp_options t) = Some h \<longrightarrow> quiet view (h x))"

text \<open>The message sarama gets for a typed message.\<close>

definition produced :: "string \<Rightarrow> 'a typed_message \<Rightarrow> 'a producer_message \<Rightarrow> bool" where
  "produced topic m x \<longleftrightarrow>
     pm_Topic x = resolveTopic topic (tm_Topic m) \<and> pm_Key x = (if tm_Key m \<noteq> [] then Some (tm_Key m) else None)
     \<and> pm_Headers x = tm_Headers m \<and> pm_Value x \<noteq> None \<and> pm_Metadata x = Some (m\<lparr>tm_Topic := pm_Topic x\<rparr>)"

section \<open>All or nothing\<close>

lemma wp_outside: "wp (outside m) Q k = wp m (\<lambda>r w. Q r (k\<lparr>ts_world := w\<rparr>)) (ts_world k)"
  by (simp add: outside_def wp_def split: prod.splits)

lemma quiet_options:
  assumes "quiet_producer view t"
  shows "quiet view (Now (tp_runtime t))" "quiet view (Emit (tp_runtime t) e)" "quiet view (tp_serializer t x)"
    "quiet view (HandleError (tp_options t) operation topic message e')"
  using assms by (auto simp: quiet_producer_def HandleError_def split: option.split)

lemma quiet_recording:
  assumes "quiet_producer view t"
  shows "quiet view (log_line t level said)" "quiet view (ObserveOp t kind topic operation status startedAt)"
    "quiet view (ObservePayload (tp_runtime t) (tp_metrics t) kind topic bytes)"
    "quiet view (ObserveMessages (tp_runtime t) (tp_metrics t) kind topic status count)"
  using quiet_options(1,2) [OF assms]
  by (auto simp: log_line_def ObserveOp_def ObserveOperation_def ObservePayload_def ObserveMessages_def intro!: quiet_bind)

lemma quiet_loops:
  assumes "quiet_producer view t"
  shows "quiet view (handle_each t e ps)" "quiet view (observe_payloads t ms)"
  by (induction ps; simp add: quiet_bind quiet_options(4) [OF assms])
    (induction ms; simp add: quiet_bind quiet_recording(3) [OF assms])

text \<open>A step that does not touch the broker, before the rest.\<close>

lemma wp_quiet:
  assumes "quiet view m" "\<And>w. view w = view (ts_world k) \<Longrightarrow> wp n Q (k\<lparr>ts_world := w\<rparr>)"
  shows "wp (after (outside m) n) Q k"
  unfolding wp_after wp_outside using quietD [OF assms(1)] by (rule wp_conseq) (simp add: assms(2))

lemma wp_quiet_bind:
  assumes "quiet view m" "\<And>x w. view w = view (ts_world k) \<Longrightarrow> wp (n x) Q (k\<lparr>ts_world := w\<rparr>)"
  shows "wp (State_Monad.bind (outside m) n) Q k"
  unfolding wp_bind wp_outside using quietD [OF assms(1)] by (rule wp_conseq) (simp add: assms(2))

lemma wp_call_outside:
  assumes "wp m P (ts_world k)"
    and "\<And>x w. P (Ok x) w \<Longrightarrow> wp (n (Inr x)) Q (k\<lparr>ts_world := w\<rparr>)"
    and "\<And>e w. P (Err e) w \<Longrightarrow> wp (n (Inl e)) Q (k\<lparr>ts_world := w\<rparr>)"
    and "\<And>p w. P (Panic p) w \<Longrightarrow> Q (Panic p) (k\<lparr>ts_world := w\<rparr>)"
  shows "wp (call (outside m) n) Q k"
  unfolding wp_call wp_outside using assms(1) by (rule wp_conseq) (auto split: outcome.splits intro: assms)

lemma tx_step_wp:
  assumes q: "quiet_producer view t" and m: "\<And>w. view w = view (ts_world k) \<Longrightarrow> wp m (\<lambda>r v. P r (view v)) w"
    and err: "\<And>e w. P (Err e) (view w) \<Longrightarrow> Q (Err (wrap2 (ProdSend refused) e)) (k\<lparr>ts_world := w\<rparr>)"
    and pan: "\<And>p w. P (Panic p) (view w) \<Longrightarrow> Q (Panic p) (k\<lparr>ts_world := w\<rparr>)"
    and rest: "\<And>w. P (Ok ()) (view w) \<Longrightarrow> wp rest Q (k\<lparr>ts_world := w\<rparr>)"
  shows "wp (tx_step t m refused operation level said rest) Q k"
  unfolding tx_step_def
proof (rule wp_quiet_bind [OF quiet_options(1) [OF q]])
  fix startedAt w
  assume w: "view w = view (ts_world k)"
  show "wp (call (outside m) (\<lambda>r. case r of
       Inl e \<Rightarrow>
         after (outside (log_line t ''error'' (producer_send_err_text refused)))
           (after (outside (ObserveOp t ''transactional'' (tp_topic t) operation ''error'' startedAt))
             (fail (wrap2 (ProdSend refused) e)))
     | Inr _ \<Rightarrow>
         after (outside (log_line t level said))
           (after (outside (ObserveOp t ''transactional'' (tp_topic t) operation ''success'' startedAt)) rest)))
      Q (k\<lparr>ts_world := w\<rparr>)"
  proof (rule wp_call_outside [where P = "\<lambda>r v. P r (view v)"], goal_cases)
    case 1
    show ?case by (simp add: m w)
  next
    case (2 x v)
    then show ?case
      unfolding sum.case
      by (intro wp_quiet [OF quiet_recording(1) [OF q]] wp_quiet [OF quiet_recording(2) [OF q]])
        (use rest in \<open>simp add: unit_eq [of x]\<close>)
  next
    case (3 e v)
    then show ?case
      unfolding sum.case
      by (intro wp_quiet [OF quiet_recording(1) [OF q]] wp_quiet [OF quiet_recording(2) [OF q]])
        (use err in \<open>simp add: wp_fail\<close>)
  next
    case (4 p v)
    then show ?case using pan by simp
  qed
qed

lemma tx_batch_wp:
  assumes q: "quiet_producer view t"
  shows "wp (tx_batch t messages) (\<lambda>r v. view v = view w
    \<and> (\<forall>xs. r = Ok xs \<longrightarrow> list_all2 (produced (tp_topic t)) messages xs)) w"
proof (induction messages arbitrary: w)
  case Nil
  show ?case by (simp add: wp_ok)
next
  case (Cons m ms)
  have "wp (ToProducerMessage (tp_topic t) m (tp_serializer t))
      (\<lambda>r v. view v = view w \<and> (\<forall>x. r = Ok x \<longrightarrow> produced (tp_topic t) m x)) w"
    unfolding ToProducerMessage_def
    by (rule wp_callI [OF quietD [OF quiet_options(3) [OF q]]])
      (auto simp: wp_rules produced_def Let_def)
  then show ?case
    unfolding tx_batch.simps
  proof (rule wp_callI, goal_cases)
    case (1 x v)
    then show ?case
      unfolding sum.case by (intro wp_andThenI [OF Cons.IH]) (auto simp: wp_ok)
  next
    case (2 e v)
    then show ?case
      unfolding sum.case
      by (intro wp_afterI [OF quietD [OF quiet_options(4) [OF q]]]) (auto simp: wp_fail)
  qed auto
qed

lemma BeginTx_wp:
  assumes "quiet_producer view t" "transactional view (tp_producer t)" "view (ts_world k) = (read, None)"
  shows "wp (BeginTx t) (\<lambda>r k'. view (ts_world k') = (read, if r = Ok () then Some [] else None)) k"
  unfolding BeginTx_def
  by (rule tx_step_wp [where P = "\<lambda>r v. v = (read, if r = Ok () then Some [] else None)", OF assms(1)])
    (use assms(2,3) in \<open>auto simp: transactional_def wp_ok\<close>)

lemma AbortTx_wp:
  assumes "quiet_producer view t" "transactional view (tp_producer t)" "view (ts_world k) = (read, x)"
  shows "wp (AbortTx t) (\<lambda>r k'. (case r of
      Ok _ \<Rightarrow> view (ts_world k') = (read, None)
    | Err e \<Rightarrow> view (ts_world k') = (read, x) \<and> errors_is e (ProdSend ErrAbortTransaction)
    | Panic p \<Rightarrow> view (ts_world k') = (read, x))) k"
  unfolding AbortTx_def
  by (rule tx_step_wp [where P = "\<lambda>r v. v = (read, if r = Ok () then None else x)", OF assms(1)])
    (use assms(2,3) in \<open>auto simp: transactional_def wp_rules\<close>)

lemma CommitTx_wp:
  assumes q: "quiet_producer view t" and c: "transactional view (tp_producer t)" "view (ts_world k) = (read, Some xs)"
  shows "wp (CommitTx t) (\<lambda>r k'. (view (ts_world k') = (read @ xs, None) \<or> r \<noteq> Ok () \<and> view (ts_world k') = (read, Some xs))
    \<and> (case r of
        Ok _ \<Rightarrow> ts_pendingTx k' = 0 | Err e \<Rightarrow> errors_is e (ProdSend ErrCommitTransaction) | Panic p \<Rightarrow> True)) k"
  unfolding CommitTx_def
proof (rule tx_step_wp [where P = "\<lambda>r v. v = (read @ xs, None) \<or> r \<noteq> Ok () \<and> v = (read, Some xs)", OF q], goal_cases)
  case (1 w)
  then show ?case using c by (simp add: transactional_def)
next
  case (4 w)
  then show ?case
    unfolding wp_bind wp_reads wp_modify
    by (intro wp_quiet [OF quiet_recording(4) [OF q]]) (simp add: wp_ok)
qed auto

lemma tx_sendProducerMessages_wp:
  assumes q: "quiet_producer view t" and c: "transactional view (tp_producer t)" "view (ts_world k) = (read, Some xs)"
  shows "wp (tx_sendProducerMessages t zs)
    (\<lambda>r k'. \<exists>ys. view (ts_world k') = (read, Some (xs @ ys)) \<and> (r = Ok () \<longrightarrow> ys = zs)) k"
  unfolding tx_sendProducerMessages_def
proof (rule wp_quiet_bind [OF quiet_options(1) [OF q]],
    rule wp_call_outside [where P = "\<lambda>r v. \<exists>ys. view v = (read, Some (xs @ ys)) \<and> (r = Ok () \<longrightarrow> ys = zs)"], goal_cases)
  case (1 startedAt v)
  with c show ?case by (simp add: transactional_def)
next
  case (2 startedAt v y u)
  then show ?case
    unfolding sum.case
    by (intro wp_quiet [OF quiet_loops(2) [OF q]] wp_quiet [OF quiet_recording(1) [OF q]]
        wp_quiet [OF quiet_recording(2) [OF q]]) (simp add: wp_rules unit_eq [of y])
next
  case (3 startedAt v e u)
  then show ?case
    unfolding sum.case
    by (intro wp_quiet [OF quiet_loops(1) [OF q]] wp_quiet [OF quiet_recording(1) [OF q]]
        wp_quiet [OF quiet_recording(2) [OF q]]) (simp add: wp_rules)
next
  case (4 startedAt v p u)
  then show ?case by simp
qed

lemma tx_SendTypedMessages_wp:
  assumes q: "quiet_producer view t" and c: "transactional view (tp_producer t)" "view (ts_world k) = (read, Some xs)"
  shows "wp (tx_SendTypedMessages t messages) (\<lambda>r k'. \<exists>ys. view (ts_world k') = (read, Some (xs @ ys))
    \<and> (r = Ok () \<longrightarrow> list_all2 (produced (tp_topic t)) messages ys)) k"
  unfolding tx_SendTypedMessages_def wp_andThen wp_outside
proof (rule wp_conseq [OF tx_batch_wp [OF q]], goal_cases)
  case (1 r w)
  with c(2) have w: "view (ts_world (k\<lparr>ts_world := w\<rparr>)) = (read, Some xs)" by simp
  show ?case
  proof (cases r)
    case (Ok zs)
    with 1 show ?thesis by (auto intro: wp_conseq [OF tx_sendProducerMessages_wp [OF q c(1) w]])
  qed (use w in \<open>auto intro: exI [of _ "[]"]\<close>)
qed

text \<open>What a batch in a transaction may end in.\<close>

definition sent_in_tx ::
  "('w, 'a) ledger \<Rightarrow> string \<Rightarrow> 'a typed_message list \<Rightarrow> 'a producer_message list \<Rightarrow> 'w \<Rightarrow> bool" where
  "sent_in_tx view topic messages read w \<longleftrightarrow>
     (\<exists>xs. list_all2 (produced topic) messages xs \<and> view w = (read @ xs, None))"

definition tx_ends ::
  "('w, 'a) ledger \<Rightarrow> string \<Rightarrow> 'a typed_message list \<Rightarrow> 'a producer_message list \<Rightarrow> unit outcome \<Rightarrow> 'w tx_state \<Rightarrow> bool" where
  "tx_ends view topic messages read r k' \<longleftrightarrow>
     (case r of
        Ok _ \<Rightarrow> sent_in_tx view topic messages read (ts_world k') \<and> ts_pendingTx k' = 0
      | Err e \<Rightarrow>
          view (ts_world k') = (read, None)
          \<or> fst (view (ts_world k')) = read
            \<and> (errors_is e (ProdSend ErrAbortTransaction) \<or> errors_is e (ProdSend ErrCommitTransaction))
          \<or> errors_is e (ProdSend ErrCommitTransaction) \<and> sent_in_tx view topic messages read (ts_world k')
      | Panic p \<Rightarrow> fst (view (ts_world k')) = read \<or> sent_in_tx view topic messages read (ts_world k'))"

lemma errors_is_wrap4 [simp]:
  "errors_is (wrap4 a e b f) s \<longleftrightarrow> a = s \<or> errors_is e s \<or> b = s \<or> errors_is f s"
  by (auto simp: wrap4_def)

lemma tx_undo_wp:
  assumes q: "quiet_producer view t" and c: "transactional view (tp_producer t)" "view (ts_world k) = (read, x)"
    and ends: "\<And>e' k' x'. view (ts_world k') = (read, x') \<Longrightarrow> errors_is e' (ProdSend failed)
      \<Longrightarrow> x' = None \<or> x' = x \<and> errors_is e' (ProdSend ErrAbortTransaction) \<Longrightarrow> Q (Err e') k'"
    and pan: "\<And>p k'. view (ts_world k') = (read, x) \<Longrightarrow> Q (Panic p) k'"
  shows "wp (tx_undo t failed e said) Q k"
  unfolding tx_undo_def
proof (rule wp_callI [OF AbortTx_wp [OF q c]], goal_cases)
  case (1 u k')
  then show ?case
    unfolding sum.case
    by (intro wp_quiet [OF quiet_recording(1) [OF q]]) (auto simp: wp_fail intro!: ends)
next
  case (2 f k')
  then show ?case by (auto simp: wp_fail intro!: ends)
next
  case (3 p k')
  then show ?case by (auto intro!: pan)
qed

text \<open>
  C29: a batch is sent in a transaction all or nothing. Over a client whose transactions work as those
  of Kafka, SendTypedMessagesTx returns nil only when the readers of committed messages see every
  message of the batch, once and in order, no transaction is left open and the counter of pending
  messages is back at zero. When it returns an error they see none of the batch - whether a message
  could not be serialized, the send stopped half way or the commit failed - unless the commit itself
  reported an error although it was done; and a transaction is left open only if committing or
  aborting it failed.
\<close>
theorem SendTypedMessagesTx_all_or_nothing:
  assumes "quiet_producer view t" "transactional view (tp_producer t)" "view (ts_world k) = (read, None)"
    and "run_state (tx_SendTypedMessagesTx t messages) k = (r, k')"
  shows "tx_ends view (tp_topic t) messages read r k'"
proof (rule wpD [OF _ assms(4)], unfold tx_SendTypedMessagesTx_def,
    rule wp_andThenI [OF BeginTx_wp [OF assms(1-3)]], goal_cases)
  case (1 u k1)
  then have k1: "view (ts_world k1) = (read, Some [])" by simp
  show ?case
  proof (rule wp_callI [OF tx_SendTypedMessages_wp [OF assms(1,2) k1]], goal_cases)
    case (1 u k2)
    then obtain xs where xs: "list_all2 (produced (tp_topic t)) messages xs" "view (ts_world k2) = (read, Some xs)" by auto
    have quiet: "quiet view (TxnAbortable (tp_producer t))"
      using assms(2) by (simp add: transactional_def quiet_def)
    show ?case
      unfolding sum.case
    proof (rule wp_callI [OF CommitTx_wp [OF assms(1,2) xs(2)]], goal_cases)
      case (2 e k3)
      show ?case
        unfolding sum.case
      proof (rule wp_quiet_bind [OF quiet])
        fix abortable w
        assume w: "view w = view (ts_world k3)"
        obtain y x where yx: "view (ts_world (k3\<lparr>ts_world := w\<rparr>)) = (y, x)" by fastforce
        with w 2 xs have y: "y = read \<or> (\<exists>zs. y = read @ zs \<and> list_all2 (produced (tp_topic t)) messages zs \<and> x = None)"
          by auto
        have "wp (tx_undo t ErrCommitTransaction e said) (tx_ends view (tp_topic t) messages read) (k3\<lparr>ts_world := w\<rparr>)" for said
          by (rule tx_undo_wp [OF assms(1,2) yx]) (use y in \<open>auto simp: tx_ends_def sent_in_tx_def\<close>)
        moreover have "wp (fail (wrap2 (ProdSend ErrCommitTransaction) e)) (tx_ends view (tp_topic t) messages read)
            (k3\<lparr>ts_world := w\<rparr>)"
          using yx y by (auto simp: wp_fail tx_ends_def sent_in_tx_def)
        ultimately show "wp (if abortable
            then tx_undo t ErrCommitTransaction e ''Kafka transactional commit failed, transaction aborted''
            else fail (wrap2 (ProdSend ErrCommitTransaction) e)) (tx_ends view (tp_topic t) messages read)
            (k3\<lparr>ts_world := w\<rparr>)"
          by simp
      qed
    qed (use xs in \<open>auto simp: wp_ok tx_ends_def sent_in_tx_def\<close>)
  next
    case (2 e k2)
    then obtain xs where xs: "view (ts_world k2) = (read, Some xs)" by auto
    show ?case
      unfolding sum.case by (rule tx_undo_wp [OF assms(1,2) xs]) (auto simp: tx_ends_def)
  qed (auto simp: tx_ends_def)
qed (auto simp: tx_ends_def)

text \<open>
  A broker that holds the committed messages and those of the open transaction, and refuses a batch
  from its first message with the value \<open>poison\<close> on.
\<close>

type_synonym example_broker = "string producer_message list \<times> string producer_message list option"

definition example_append :: "string producer_message list \<Rightarrow> (example_broker, unit) go" where
  "example_append ms = do {
     _ \<leftarrow> modify (map_prod id (map_option (\<lambda>xs. xs @ takeWhile (\<lambda>m. pm_Value m \<noteq> Some ''poison'') ms)));
     (if list_ex (\<lambda>m. pm_Value m = Some ''poison'') ms then fail (NewErr ''kafka: Failed to deliver messages'') else ok ()) }"

definition example_tx_client :: "(example_broker, string) tx_client" where
  "example_tx_client =
     \<lparr>SendMessage = (\<lambda>m. example_append [m]), SendMessages = example_append,
      BeginTxn = after (modify (map_prod id (\<lambda>_. Some []))) (ok ()),
      CommitTxn = after (modify (\<lambda>b. (case snd b of None \<Rightarrow> b | Some xs \<Rightarrow> (fst b @ xs, None)))) (ok ()),
      AbortTxn = after (modify (map_prod id (\<lambda>_. None))) (ok ()),
      TxnAbortable = State_Monad.return False, AddOffsetsToTxn = (\<lambda>_ _. ok ()), CloseClient = ok (),
      AddMessageToTxn = (\<lambda>_ _ _. ok ())\<rparr>"

definition example_tx_producer :: "(example_broker, string) tx_producer" where
  "example_tx_producer =
     \<lparr>tp_topic = ''t'', tp_producer = example_tx_client, tp_serializer = ok, tp_metrics = NoopMetrics,
      tp_options = NewRuntimeOptions [],
      tp_runtime = \<lparr>Now = State_Monad.return 0, NewV7 = fail (NewErr ''unused''), MarshalUserCreated = (\<lambda>_. Err (NewErr ''unused'')),
        Emit = (\<lambda>_. State_Monad.return ())\<rparr>\<rparr>"

lemma example_transactional: "transactional id example_tx_client"
  by (auto simp: transactional_def example_tx_client_def example_append_def wp_rules takeWhile_eq_all_conv list_ex_iff)

lemma example_quiet_producer: "quiet_producer view example_tx_producer"
  by (simp add: quiet_producer_def example_tx_producer_def NewRuntimeOptions_def)

definition example_typed :: "string \<Rightarrow> string typed_message" where
  "example_typed v = \<lparr>tm_Topic = [], tm_Key = ''k'', tm_Headers = [], tm_Value = v\<rparr>"

definition example_tx_run :: "string list \<Rightarrow> unit outcome \<times> example_broker tx_state" where
  "example_tx_run vs =
     run_state (tx_SendTypedMessagesTx example_tx_producer (map example_typed vs)) \<lparr>ts_world = ([], None), ts_pendingTx = 0\<rparr>"

text \<open>A batch that is sent, and one whose last message the broker refuses.\<close>

lemma SendTypedMessagesTx_all_or_nothing_witness:
  "fst (example_tx_run [''a'', ''b'']) = Ok ()
   \<and> length (fst (ts_world (snd (example_tx_run [''a'', ''b''])))) = 2
   \<and> fst (ts_world (snd (example_tx_run [''a'', ''poison'']))) = []"
proof -
  have ends: "tx_ends id ''t'' (map example_typed vs) [] (fst (example_tx_run vs)) (snd (example_tx_run vs))" for vs
    using SendTypedMessagesTx_all_or_nothing [OF example_quiet_producer [of id], of "\<lparr>ts_world = ([], None), ts_pendingTx = 0\<rparr>"]
      example_transactional
    by (simp add: example_tx_run_def example_tx_producer_def)
  have ok: "fst (example_tx_run [''a'', ''b'']) = Ok ()" by code_simp
  have "(case fst (example_tx_run [''a'', ''poison'']) of
      Err e \<Rightarrow> \<not> errors_is e (ProdSend ErrAbortTransaction) \<and> \<not> errors_is e (ProdSend ErrCommitTransaction) | _ \<Rightarrow> False)"
    by code_simp
  then obtain e where err: "fst (example_tx_run [''a'', ''poison'']) = Err e"
    "\<not> errors_is e (ProdSend ErrAbortTransaction)" "\<not> errors_is e (ProdSend ErrCommitTransaction)"
    by (auto split: outcome.splits)
  from ends [of "[''a'', ''b'']"] ok have "length (fst (ts_world (snd (example_tx_run [''a'', ''b''])))) = 2"
    by (auto simp: tx_ends_def sent_in_tx_def dest!: list_all2_lengthD)
  moreover from ends [of "[''a'', ''poison'']"] err have "fst (ts_world (snd (example_tx_run [''a'', ''poison'']))) = []"
    by (simp add: tx_ends_def)
  ultimately show ?thesis using ok by blast
qed

end
