(* ===== verification/AsyncProducer.thy ===== *)
theory AsyncProducer
  imports TxProducer
begin

text \<open>
  pkg/adapters/kafka/producer/async-producer: the producer that queues its messages to sarama and
  hears of their delivery on two channels.
\<close>

section \<open>The producer\<close>

text \<open>\<open>Queue\<close> is the send to the input channel of \<open>sarama.AsyncProducer\<close>.\<close>

record ('w, 'a) async_client =
  Queue :: "'a producer_message \<Rightarrow> ('w, unit) go"
  CloseAsync :: "('w, unit) go"

type_synonym ('w, 'a) async_producer = "('w, 'a, ('w, 'a) async_client) topic_producer"

definition async_NewTopicProducer ::
  "tls_library \<Rightarrow> 'w runtime \<Rightarrow> (string list \<Rightarrow> sarama_config \<Rightarrow> ('w, ('w, 'a) async_client) go) \<Rightarrow> 'l option
   \<Rightarrow> ('a \<Rightarrow> ('w, string) go) \<Rightarrow> producer_config \<Rightarrow> 'l option \<Rightarrow> ('a \<Rightarrow> ('w, string) go) option
   \<Rightarrow> ('w, 'a) producer_option list \<Rightarrow> ('w, ('w, 'a) async_producer) go" where
  "async_NewTopicProducer lib rt NewAsyncProducer nobody fallback config log serializer opts =
     (case BuildProduceConfig lib config of
        Inl e \<Rightarrow> fail (wrap2 (ProdCfg ErrBuildSaramaConfig) e)
      | Inr saramaConfig \<Rightarrow>
          new_producer rt (NewAsyncProducer (pc_Brokers config) saramaConfig) ErrCreateAsyncProducer nobody fallback
            ''Configured Kafka producer'' config log serializer opts)"

section \<open>Reports of deliveries\<close>

record 'a producer_error =
  pe_Msg :: "'a producer_message option"
  pe_Err :: "err option"

text \<open>
  What the loop selects, in this order: a value of one of the channels (\<open>None\<close> is a nil pointer), the
  closing of a channel, or the end of the context. A channel that was closed is set to nil, and a
  nil channel is never ready.
\<close>

datatype 'a report =
    Failed "'a producer_error option" | ErrorsClosed
  | Acked "'a producer_message option" | SuccessesClosed
  | ContextDone

definition async_failed :: "('w, 'a) async_producer \<Rightarrow> 'a producer_error \<Rightarrow> ('w, unit) go" where
  "async_failed t err =
     (let topic = (case pe_Msg err of Some m \<Rightarrow> (if pm_Topic m \<noteq> [] then pm_Topic m else tp_topic t) | None \<Rightarrow> tp_topic t) in
      after (ObserveAsyncEvent (tp_runtime t) (tp_metrics t) topic ''error'') (do {
        startedAt \<leftarrow> Now (tp_runtime t);
        after (ObserveOp t ''async'' topic ''queue'' ''error'' startedAt)
          (after (ObserveMessages (tp_runtime t) (tp_metrics t) ''async'' topic ''error'' 1)
            (after (HandleError (tp_options t) ''queue'' topic (ExtractTypedMessage (pe_Msg err)) (pe_Err err))
              (case pe_Err err of
                 None \<Rightarrow> panic ''invalid memory address or nil pointer dereference''
               | Some e \<Rightarrow> after (log_line t ''error'' ''Kafka async producer returned error'') (ok ())))) }))"

definition async_acked :: "('w, 'a) async_producer \<Rightarrow> 'a producer_message \<Rightarrow> ('w, unit) go" where
  "async_acked t msg =
     after (ObserveAsyncEvent (tp_runtime t) (tp_metrics t) (pm_Topic msg) ''acked'') (do {
       startedAt \<leftarrow> Now (tp_runtime t);
       after (ObserveOp t ''async'' (pm_Topic msg) ''queue'' ''acked'' startedAt)
         (after (ObserveMessages (tp_runtime t) (tp_metrics t) ''async'' (pm_Topic msg) ''acked'' 1)
           (after (log_line t ''debug'' ''Kafka async producer delivered message'') (ok ()))) })"

text \<open>
  The loop, with what is left of the two channels. \<open>False\<close> is returned when the reports are used up
  and the loop still waits.
\<close>

fun async_loop :: "('w, 'a) async_producer \<Rightarrow> bool \<Rightarrow> bool \<Rightarrow> 'a report list \<Rightarrow> ('w, bool) go" where
  "async_loop t errorsCh successesCh [] = ok False"
| "async_loop t errorsCh successesCh (Failed err # rest) =
     (case err of
        Some x \<Rightarrow> (if errorsCh then andThen (async_failed t x) (\<lambda>_. async_loop t errorsCh successesCh rest)
                   else async_loop t errorsCh successesCh rest)
      | None \<Rightarrow> async_loop t errorsCh successesCh rest)"
| "async_loop t errorsCh successesCh (ErrorsClosed # rest) =
     (if errorsCh then
        after (log_line t ''info'' ''Kafka async producer errors channel closed'')
          (if \<not> successesCh then after (log_line t ''info'' ''Kafka async producer loop stopped'') (ok True)
           else async_loop t False successesCh rest)
      else async_loop t errorsCh successesCh rest)"
| "async_loop t errorsCh successesCh (Acked msg # rest) =
     (case msg of
        Some x \<Rightarrow> (if successesCh then andThen (async_acked t x) (\<lambda>_. async_loop t errorsCh successesCh rest)
                   else async_loop t errorsCh successesCh rest)
      | None \<Rightarrow> async_loop t errorsCh successesCh rest)"
| "async_loop t errorsCh successesCh (SuccessesClosed # rest) =
     (if successesCh then
        after (log_line t ''info'' ''Kafka async producer successes channel closed'')
          (if \<not> errorsCh then after (log_line t ''info'' ''Kafka async producer loop stopped'') (ok True)
           else async_loop t errorsCh False rest)
      else async_loop t errorsCh successesCh rest)"
| "async_loop t errorsCh successesCh (ContextDone # rest) =
     after (log_line t ''info'' ''Kafka async producer loop stopped'') (ok True)"

text \<open>The wait group is given or nil; the loop runs in a goroutine of its own.\<close>

definition async_Run :: "('w, 'a) async_producer \<Rightarrow> 'g option \<Rightarrow> 'a report list \<Rightarrow> ('w, bool) go" where
  "async_Run t waitGroup reports =
     (if waitGroup = None then fail (Sentinel (ProdCfg ErrWaitGroupIsNil))
      else after (log_line t ''info'' ''Kafka async producer loop started'') (async_loop t True True reports))"

section \<open>Queueing\<close>

definition async_queued :: "('w, 'a) async_producer \<Rightarrow> 'a producer_message \<Rightarrow> ('w, unit) state" where
  "async_queued t m = do {
     _ \<leftarrow> ObserveAsyncEvent (tp_runtime t) (tp_metrics t) (pm_Topic m) ''queued'';
     ObserveMessages (tp_runtime t) (tp_metrics t) ''async'' (pm_Topic m) ''queued'' 1 }"

definition observe_payload :: "('w, 'a) async_producer \<Rightarrow> 'a producer_message \<Rightarrow> ('w, unit) state" where
  "observe_payload t m =
     ObservePayload (tp_runtime t) (tp_metrics t) ''async'' (pm_Topic m) (MessagePayloadSize (Some m))"

definition async_SendTypedMessage :: "('w, 'a) async_producer \<Rightarrow> 'a typed_message \<Rightarrow> ('w, unit) go" where
  "async_SendTypedMessage t message = do {
     startedAt \<leftarrow> Now (tp_runtime t);
     call (ToProducerMessage (tp_topic t) message (tp_serializer t)) (\<lambda>r. case r of
       Inl e \<Rightarrow>
         after (ObserveOp t ''async'' (tp_topic t) ''queue'' ''error'' startedAt)
           (after (HandleError (tp_options t) ''queue'' (tp_topic t) (Some message) (Some e)) (fail e))
     | Inr m \<Rightarrow>
         andThen (Queue (tp_producer t) m) (\<lambda>_.
           after (observe_payload t m)
             (after (ObserveOp t ''async'' (pm_Topic m) ''queue'' ''queued'' startedAt)
               (after (async_queued t m)
                 (after (log_line t ''debug'' ''Kafka message queued to async producer'') (ok ())))))) }"

text \<open>The loop of a batch keeps the topic of the last message that was queued.\<close>

primrec async_batch :: "('w, 'a) async_producer \<Rightarrow> time \<Rightarrow> string \<Rightarrow> 'a typed_message list \<Rightarrow> ('w, string) go" where
  "async_batch t startedAt topic [] = ok topic"
| "async_batch t startedAt topic (message # rest) =
     call (ToProducerMessage (tp_topic t) message (tp_serializer t)) (\<lambda>r. case r of
       Inl e \<Rightarrow>
         after (ObserveOp t ''async'' topic ''send_batch'' ''error'' startedAt)
           (after (HandleError (tp_options t) ''send_batch'' topic (Some message) (Some e)) (fail e))
     | Inr m \<Rightarrow>
         andThen (Queue (tp_producer t) m) (\<lambda>_.
           after (observe_payload t m)
             (after (async_queued t m) (async_batch t startedAt (pm_Topic m) rest))))"

definition async_SendTypedMessages :: "('w, 'a) async_producer \<Rightarrow> 'a typed_message list \<Rightarrow> ('w, unit) go" where
  "async_SendTypedMessages t messages = do {
     startedAt \<leftarrow> Now (tp_runtime t);
     andThen (async_batch t startedAt (tp_topic t) messages) (\<lambda>topic.
       after (ObserveOp t ''async'' topic ''send_batch'' ''queued'' startedAt)
         (after (log_line t ''debug'' ''Kafka messages sent'') (ok ()))) }"

definition async_SendTypedMessagesTx :: "('w, 'a) async_producer \<Rightarrow> 'a typed_message list \<Rightarrow> ('w, unit) go" where
  "async_SendTypedMessagesTx t messages = async_SendTypedMessages t messages"

definition async_Close :: "('w, 'a) async_producer \<Rightarrow> ('w, unit) go" where
  "async_Close t =
     andThen (CloseAsync (tp_producer t)) (\<lambda>_. after (log_line t ''info'' ''Kafka producer closed'') (ok ()))"

section \<open>The properties\<close>

text \<open>Both channels are closed, or the context is done.\<close>

definition over :: "bool \<Rightarrow> bool \<Rightarrow> 'a report list \<Rightarrow> bool" where
  "over errorsCh successesCh reports \<longleftrightarrow>
     list_ex (\<lambda>r. r = ContextDone) reports
     \<or> (errorsCh \<longrightarrow> list_ex (\<lambda>r. r = ErrorsClosed) reports) \<and> (successesCh \<longrightarrow> list_ex (\<lambda>r. r = SuccessesClosed) reports)"

definition reported :: "'a report \<Rightarrow> bool" where
  "reported r = (case r of Failed (Some x) \<Rightarrow> pe_Err x \<noteq> None | _ \<Rightarrow> True)"

lemma wp_quietly: "(\<And>w. wp n (\<lambda>r _. P r) w) \<Longrightarrow> wp (after m n) (\<lambda>r _. P r) k"
  unfolding wp_after by (simp add: wp_def split: prod.splits)

lemma wp_quietly_bind: "(\<And>x w. wp (n x) (\<lambda>r _. P r) w) \<Longrightarrow> wp (State_Monad.bind m n) (\<lambda>r _. P r) k"
  unfolding wp_bind by (simp add: wp_def split: prod.splits)

lemma async_failed_ok: "pe_Err x \<noteq> None \<Longrightarrow> wp (async_failed t x) (\<lambda>r _. r = Ok ()) w"
  unfolding async_failed_def Let_def
  by (cases "pe_Err x") (auto simp: wp_ok intro!: wp_quietly wp_quietly_bind)

lemma async_acked_ok: "wp (async_acked t x) (\<lambda>r _. r = Ok ()) w"
  unfolding async_acked_def by (auto simp: wp_ok intro!: wp_quietly wp_quietly_bind)

lemma async_loop_returns:
  "errorsCh \<or> successesCh \<Longrightarrow> list_all reported reports \<Longrightarrow>
   wp (async_loop t errorsCh successesCh reports) (\<lambda>r _. r = Ok (over errorsCh successesCh reports)) w"
proof (induction t errorsCh successesCh reports arbitrary: w rule: async_loop.induct)
  case (1 t errorsCh successesCh)
  then show ?case by (auto simp: wp_ok over_def)
next
  case (2 t errorsCh successesCh err rest)
  then show ?case
    by (cases err)
      (auto simp: over_def reported_def intro!: wp_andThenI [OF async_failed_ok])
next
  case (3 t errorsCh successesCh rest)
  then show ?case by (auto simp: over_def wp_ok intro!: wp_quietly)
next
  case (4 t errorsCh successesCh msg rest)
  then show ?case
    by (cases msg) (auto simp: over_def intro!: wp_andThenI [OF async_acked_ok])
next
  case (5 t errorsCh successesCh rest)
  then show ?case by (auto simp: over_def wp_ok intro!: wp_quietly)
next
  case (6 t errorsCh successesCh rest)
  then show ?case by (auto simp: over_def wp_ok intro!: wp_quietly)
qed

text \<open>
  C30: the loop of the asynchronous producer ends when it should. Whatever deliveries and failures
  are reported, in whatever order, the loop returns exactly when the context is done or both
  channels of sarama are closed, and waits for more before that; without a wait group it is not
  started.
\<close>
theorem async_Run_returns:
  assumes "list_all reported reports"
  shows "fst (run_state (async_Run t (Some g) reports) w) = Ok (over True True reports)
    \<and> fst (run_state (async_Run t (None :: 'g option) reports) w) = Err (Sentinel (ProdCfg ErrWaitGroupIsNil))"
proof -
  have "wp (async_Run t (Some g) reports) (\<lambda>r _. r = Ok (over True True reports)) w"
    unfolding async_Run_def by (auto intro!: wp_quietly async_loop_returns assms)
  then show ?thesis by (simp add: wp_def async_Run_def run_rules split: prod.splits)
qed

text \<open>Messages that were queued, over a client that queues.\<close>

definition queueing :: "('w \<Rightarrow> 'a producer_message list) \<Rightarrow> ('w, 'a) async_client \<Rightarrow> bool" where
  "queueing view c \<longleftrightarrow> (\<forall>w m. wp (Queue c m) (\<lambda>r v. view v = view w @ (if r = Ok () then [m] else [])) w)"

lemma quiet_ObserveAsyncEvent:
  "quiet_producer view t \<Longrightarrow> quiet view (ObserveAsyncEvent (tp_runtime t) (tp_metrics t) topic event)"
  by (simp add: ObserveAsyncEvent_def quiet_options)

lemma ToProducerMessage_wp:
  assumes q: "quiet_producer view t"
  shows "wp (ToProducerMessage (tp_topic t) m (tp_serializer t))
    (\<lambda>r v. view v = view w \<and> (\<forall>x. r = Ok x \<longrightarrow> produced (tp_topic t) m x)) w"
  unfolding ToProducerMessage_def
  by (rule wp_callI [OF quietD [OF quiet_options(3) [OF q]]]) (auto simp: wp_rules produced_def Let_def)

definition batch_queued ::
  "('w \<Rightarrow> 'a producer_message list) \<Rightarrow> string \<Rightarrow> 'a typed_message list \<Rightarrow> 'w \<Rightarrow> bool \<Rightarrow> 'w \<Rightarrow> bool" where
  "batch_queued view topic messages w complete v \<longleftrightarrow>
     (\<exists>n xs. n \<le> length messages \<and> list_all2 (produced topic) (take n messages) xs \<and> view v = view w @ xs
       \<and> complete = (n = length messages))"

lemma async_batch_wp:
  assumes q: "quiet_producer view t" and c: "queueing view (tp_producer t)"
  shows "wp (async_batch t startedAt topic messages) (\<lambda>r. batch_queued view (tp_topic t) messages w (\<exists>x. r = Ok x)) w"
proof (induction messages arbitrary: w topic)
  case Nil
  show ?case by (simp add: wp_ok batch_queued_def)
next
  case (Cons m ms)
  have none: "view v = view w \<Longrightarrow> batch_queued view (tp_topic t) (m # ms) w False v" for v
    by (auto simp: batch_queued_def)
  show ?case
    unfolding async_batch.simps
  proof (rule wp_callI [OF ToProducerMessage_wp [OF q]], goal_cases)
    case (1 x v)
    have "wp (Queue (tp_producer t) x) (\<lambda>r u. view u = view v @ (if r = Ok () then [x] else [])) v"
      using c by (simp add: queueing_def)
    then show ?case
      unfolding sum.case
    proof (rule wp_andThenI, goal_cases)
      case (1 y u)
      have step: "batch_queued view (tp_topic t) (m # ms) w b v'" if "batch_queued view (tp_topic t) ms u' b v'" "view u' = view u" for b u' v'
      proof -
        from that(1) obtain n xs where "n \<le> length ms" "list_all2 (produced (tp_topic t)) (take n ms) xs"
          "view v' = view u' @ xs" "b = (n = length ms)" by (auto simp: batch_queued_def)
        with 1 that(2) \<open>view v = view w \<and> _\<close> show ?thesis
          unfolding batch_queued_def by (intro exI [of _ "Suc n"] exI [of _ "x # xs"]) simp
      qed
      show ?case
        unfolding observe_payload_def
      proof (rule wp_quiet_after [OF quiet_recording(3) [OF q]], rule wp_quiet_after)
        show "quiet view (async_queued t x)"
          unfolding async_queued_def by (intro quiet_bind quiet_ObserveAsyncEvent quiet_recording q)
      next
        fix v1 v2
        assume "view v1 = view u" "view v2 = view v1"
        then show "wp (async_batch t startedAt (pm_Topic x) ms)
            (\<lambda>r. batch_queued view (tp_topic t) (m # ms) w (\<exists>x. r = Ok x)) v2"
          by (intro wp_conseq [OF Cons.IH]) (auto intro: step)
      qed
    qed (use 1 none in auto)
  next
    case (2 e v)
    then show ?case
      unfolding sum.case
      by (intro wp_quiet_after [OF quiet_recording(2) [OF q]] wp_quiet_after [OF quiet_options(4) [OF q]])
        (simp add: wp_fail none)
  next
    case (3 p v)
    then show ?case by (simp add: none)
  qed
qed

text \<open>
  A batch of the asynchronous producer is no transaction. SendTypedMessagesTx queues the messages
  of the batch one by one, in order: when it returns nil all of them are queued; when it returns an
  error those before the message that could not be serialized or queued have been handed to sarama
  all the same.
\<close>
theorem async_SendTypedMessagesTx_queues_a_prefix:
  assumes "quiet_producer view t" "queueing view (tp_producer t)"
    and "run_state (async_SendTypedMessagesTx t messages) w = (r, w')"
  shows "batch_queued view (tp_topic t) messages w (r = Ok ()) w'"
proof (rule wpD [OF _ assms(3)], unfold async_SendTypedMessagesTx_def async_SendTypedMessages_def,
    rule wp_bindI [OF quietD [OF quiet_options(1) [OF assms(1)]]])
  fix startedAt v
  assume v: "view v = view w"
  then have same: "batch_queued view (tp_topic t) messages v = batch_queued view (tp_topic t) messages w"
    by (simp add: batch_queued_def fun_eq_iff)
  show "wp (andThen (async_batch t startedAt (tp_topic t) messages) (\<lambda>topic.
       after (ObserveOp t ''async'' topic ''send_batch'' ''queued'' startedAt)
         (after (log_line t ''debug'' ''Kafka messages sent'') (ok ()))))
      (\<lambda>r. batch_queued view (tp_topic t) messages w (r = Ok ())) v"
  proof (rule wp_andThenI [OF async_batch_wp [OF assms(1,2)]], goal_cases)
    case (1 x u)
    then have "batch_queued view (tp_topic t) messages w True u" by (simp add: same)
    then show ?case
      by (intro wp_quiet_after [OF quiet_recording(2) [OF assms(1)]] wp_quiet_after [OF quiet_recording(1) [OF assms(1)]])
        (simp add: wp_ok batch_queued_def)
  qed (simp_all add: same)
qed

text \<open>Examples: a queue, and a serializer that refuses one value.\<close>

definition example_async :: "(string producer_message list, string) async_producer" where
  "example_async =
     \<lparr>tp_topic = ''t'', tp_producer = \<lparr>Queue = (\<lambda>m. after (modify (\<lambda>ms. ms @ [m])) (ok ())), CloseAsync = ok ()\<rparr>,
      tp_serializer = (\<lambda>v. if v = ''bad'' then fail (NewErr ''unsupported'') else ok v), tp_metrics = NoopMetrics,
      tp_options = NewRuntimeOptions [],
      tp_runtime = \<lparr>Now = State_Monad.return 0, NewV7 = fail (NewErr ''unused''), MarshalUserCreated = (\<lambda>_. Err (NewErr ''unused'')),
        Emit = (\<lambda>_. State_Monad.return ())\<rparr>\<rparr>"

lemma async_Run_returns_witness:
  "fst (run_state (async_Run example_async (Some ()) [Failed (Some \<lparr>pe_Msg = None, pe_Err = Some (NewErr ''e'')\<rparr>), SuccessesClosed,
      Acked None, ErrorsClosed]) []) = Ok True"
proof -
  let ?reports = "[Failed (Some \<lparr>pe_Msg = None, pe_Err = Some (NewErr ''e'')\<rparr>), SuccessesClosed, Acked None, ErrorsClosed]"
  have r: "list_all reported ?reports" and o': "over True True ?reports = True"
    by (simp_all add: reported_def over_def)
  show ?thesis
    using conjunct1 [OF async_Run_returns [OF r, of example_async "()" "[]"]] unfolding o' .
qed

lemma async_SendTypedMessagesTx_queues_a_prefix_witness:
  "\<exists>e w'. run_state (async_SendTypedMessagesTx example_async (map example_typed [''a'', ''bad'', ''b''])) [] = (Err e, w')
     \<and> batch_queued id ''t'' (map example_typed [''a'', ''bad'', ''b'']) [] False w' \<and> length w' = 1"
proof -
  let ?run = "run_state (async_SendTypedMessagesTx example_async (map example_typed [''a'', ''bad'', ''b''])) []"
  have q: "quiet_producer id example_async" "queueing id (tp_producer example_async)"
    by (simp_all add: quiet_producer_def example_async_def NewRuntimeOptions_def queueing_def wp_rules)
  have run: "fst ?run = Err (wrap2 (ProdSend ErrSerializeMessagePayload) (NewErr ''unsupported''))" "length (snd ?run) = 1"
    by code_simp+
  then have r: "?run = (Err (wrap2 (ProdSend ErrSerializeMessagePayload) (NewErr ''unsupported'')), snd ?run)"
    by (simp add: prod_eq_iff)
  from async_SendTypedMessagesTx_queues_a_prefix [OF q r]
  have "batch_queued id ''t'' (map example_typed [''a'', ''bad'', ''b'']) [] False (snd ?run)"
    by (simp add: example_async_def)
  with r run(2) show ?thesis by blast
qed

end
