(* ===== verification/PgConfig.thy ===== *)
theory PgConfig
  imports Prelude "HOL-Library.Word"
begin

text \<open>
  pkg/adapters/postgres/config.go, the settings of pool.go, and the reader of pgx for the connection
  strings they make (vendor/github.com/jackc/pgx/v5/pgconn/config.go).
\<close>

section \<open>The configuration\<close>

record pool_settings =
  po_MaxOpenConnections :: "64 word"
  po_ConnMaxLifetime :: "64 word"
  po_MaxIdleConnections :: "64 word"
  po_ConnMaxIdleTime :: "64 word"

record endpoint_config =
  en_Host :: string
  en_Port :: string
  en_User :: string
  en_Password :: string
  en_Database :: string
  en_SSLMode :: string
  en_Settings :: pool_settings

record pg_config =
  pg_Master :: endpoint_config
  pg_ReadOnly :: "endpoint_config option"
  pg_RO :: "endpoint_config option"

definition ConnectionString :: "endpoint_config \<Rightarrow> string" where
  "ConnectionString p =
     ''host='' @ en_Host p @ '' port='' @ en_Port p @ '' user='' @ en_User p @ '' password='' @ en_Password p
     @ '' dbname='' @ en_Database p @ '' sslmode='' @ en_SSLMode p"

definition Config_ConnectionString :: "pg_config \<Rightarrow> string" where
  "Config_ConnectionString p = ConnectionString (pg_Master p)"

definition readOnlyEndpoint :: "pg_config \<Rightarrow> endpoint_config \<times> bool" where
  "readOnlyEndpoint p =
     (case pg_ReadOnly p of
        Some e \<Rightarrow> (e, True)
      | None \<Rightarrow> (case pg_RO p of Some e \<Rightarrow> (e, True) | None \<Rightarrow> (pg_Master p, False)))"

text \<open>What the code sets of \<open>pgxpool.Config\<close>; a \<open>time.Duration\<close> is a 64-bit count of nanoseconds.\<close>

record pool_config =
  cp_MaxConns :: "32 word"
  cp_MinConns :: "32 word"
  cp_MaxConnLifetime :: "64 word"
  cp_MaxConnIdleTime :: "64 word"
  cp_Tracer :: "(string \<times> string) option"

definition seconds :: "64 word \<Rightarrow> 64 word" where
  "seconds n = n * 1000000000"

definition applyPoolSettings :: "pool_settings \<Rightarrow> pool_config \<Rightarrow> pool_config" where
  "applyPoolSettings settings cfg =
     (let cfg = (if 0 <s po_MaxOpenConnections settings
                 then cfg\<lparr>cp_MaxConns := ucast (po_MaxOpenConnections settings)\<rparr> else cfg);
          cfg = (if 0 <s po_MaxIdleConnections settings
                 then cfg\<lparr>cp_MinConns := ucast (po_MaxIdleConnections settings)\<rparr> else cfg);
          cfg = (if 0 <s po_ConnMaxLifetime settings
                 then cfg\<lparr>cp_MaxConnLifetime := seconds (po_ConnMaxLifetime settings)\<rparr> else cfg) in
      if 0 <s po_ConnMaxIdleTime settings
      then cfg\<lparr>cp_MaxConnIdleTime := seconds (po_ConnMaxIdleTime settings)\<rparr> else cfg)"

section \<open>How pgx reads a connection string\<close>

text \<open>A value up to the next space; a backslash keeps the character after it.\<close>

fun scan_plain :: "string \<Rightarrow> (string \<times> string) option" where
  "scan_plain [] = Some ([], [])"
| "scan_plain (c # s) =
     (if ascii_space c then Some ([], s)
      else if c = CHR 0x5C then
        (case s of [] \<Rightarrow> None | d # s' \<Rightarrow> map_option (\<lambda>(v, rest). (c # d # v, rest)) (scan_plain s'))
      else map_option (\<lambda>(v, rest). (c # v, rest)) (scan_plain s))"

text \<open>
  A value up to the closing quote. After a backslash at the very end the index runs past the string,
  and slicing it panics.
\<close>

fun scan_quoted :: "string \<Rightarrow> (string \<times> string) outcome" where
  "scan_quoted [] = Err (NewErr ''unterminated quoted string in connection info string'')"
| "scan_quoted (c # s) =
     (if c = CHR 0x27 then Ok ([], s)
      else if c = CHR 0x5C then
        (case s of
           [] \<Rightarrow> Panic ''slice bounds out of range''
         | d # s' \<Rightarrow>
             (case scan_quoted s' of Ok (v, rest) \<Rightarrow> Ok (c # d # v, rest) | Err e \<Rightarrow> Err e | Panic p \<Rightarrow> Panic p))
      else (case scan_quoted s of Ok (v, rest) \<Rightarrow> Ok (c # v, rest) | Err e \<Rightarrow> Err e | Panic p \<Rightarrow> Panic p))"

text \<open>\<open>strings.Replace\<close> of a pair of characters.\<close>

fun replace_pair :: "char \<Rightarrow> char \<Rightarrow> char \<Rightarrow> string \<Rightarrow> string" where
  "replace_pair a b r (x # y # s) = (if x = a \<and> y = b then r # replace_pair a b r s else x # replace_pair a b r (y # s))"
| "replace_pair a b r s = s"

definition unescaped :: "string \<Rightarrow> string" where
  "unescaped v = replace_pair (CHR 0x5C) (CHR 0x27) (CHR 0x27) (replace_pair (CHR 0x5C) (CHR 0x5C) (CHR 0x5C) v)"

definition trim_ascii_left :: "string \<Rightarrow> string" where
  "trim_ascii_left s = dropWhile ascii_space s"

definition trim_ascii :: "string \<Rightarrow> string" where
  "trim_ascii s = rev (dropWhile ascii_space (rev (trim_ascii_left s)))"

text \<open>One pair of a keyword and a value, and the rest of the string.\<close>

definition next_setting :: "string \<Rightarrow> ((string \<times> string) \<times> string) outcome" where
  "next_setting s =
     (if CHR ''='' \<notin> set s then Err (NewErr ''invalid keyword/value'')
      else
        (let key = trim_ascii (takeWhile (\<lambda>c. c \<noteq> CHR ''='') s);
             s' = trim_ascii_left (tl (dropWhile (\<lambda>c. c \<noteq> CHR ''='') s));
             name = (if key = ''dbname'' then ''database'' else key);
             scanned =
               (if s' = [] then Ok ([], [])
                else if hd s' \<noteq> CHR 0x27
                then (case scan_plain s' of None \<Rightarrow> Err (NewErr ''invalid backslash'') | Some x \<Rightarrow> Ok x)
                else scan_quoted (tl s')) in
         case scanned of
           Err e \<Rightarrow> Err e
         | Panic p \<Rightarrow> Panic p
         | Ok (v, rest) \<Rightarrow>
             (if name = [] then Err (NewErr ''invalid keyword/value'') else Ok ((name, unescaped v), rest))))"

lemma scan_plain_length: "scan_plain s = Some (v, rest) \<Longrightarrow> length rest \<le> length s"
  by (induction s arbitrary: v rest rule: scan_plain.induct) (fastforce split: if_splits list.splits)+

lemma scan_quoted_length: "scan_quoted s = Ok (v, rest) \<Longrightarrow> length rest \<le> length s"
  by (induction s arbitrary: v rest rule: scan_quoted.induct)
    (fastforce split: if_splits list.splits outcome.splits prod.splits)+

lemma after_sign_length:
  "CHR ''='' \<in> set s \<Longrightarrow> length (trim_ascii_left (tl (dropWhile (\<lambda>c. c \<noteq> CHR ''='') s))) < length s"
  using length_dropWhile_le [of "\<lambda>c. c \<noteq> CHR ''=''" s]
    length_dropWhile_le [of ascii_space "tl (dropWhile (\<lambda>c. c \<noteq> CHR ''='') s)"]
  by (cases s) (auto simp: trim_ascii_left_def dest: length_pos_if_in_set)

lemma next_setting_length: "next_setting s = Ok (kv, rest) \<Longrightarrow> length rest < length s"
  using after_sign_length [of s]
  by (auto simp: next_setting_def Let_def split: if_splits outcome.splits option.splits
      dest!: scan_plain_length scan_quoted_length)

function parse_settings :: "(string \<rightharpoonup> string) \<Rightarrow> string \<Rightarrow> (string \<rightharpoonup> string) outcome" where
  "parse_settings m s =
     (if s = [] then Ok m
      else case next_setting s of
        Ok ((k, v), rest) \<Rightarrow> parse_settings (m(k \<mapsto> v)) rest
      | Err e \<Rightarrow> Err e
      | Panic p \<Rightarrow> Panic p)"
  by auto
termination
  by (relation "measure (length \<circ> snd)") (auto dest: next_setting_length)

declare parse_settings.simps [simp del]

definition parseKeywordValueSettings :: "string \<Rightarrow> (string \<rightharpoonup> string) outcome" where
  "parseKeywordValueSettings s = parse_settings Map.empty s"

section \<open>The settings of a connection string\<close>

text \<open>A value the string holds as it is: not empty, without spaces and backslashes, not quoted.\<close>

definition plain :: "string \<Rightarrow> bool" where
  "plain v \<longleftrightarrow> v \<noteq> [] \<and> list_all (\<lambda>c. \<not> ascii_space c \<and> c \<noteq> CHR 0x5C) v \<and> hd v \<noteq> CHR 0x27"

definition keyword :: "string \<Rightarrow> bool" where
  "keyword k \<longleftrightarrow> k \<noteq> [] \<and> list_all (\<lambda>c. \<not> ascii_space c \<and> c \<noteq> CHR ''='') k"

definition setting_name :: "string \<Rightarrow> string" where
  "setting_name k = (if k = ''dbname'' then ''database'' else k)"

lemma replace_pair_other: "a \<notin> set s \<Longrightarrow> replace_pair a b r s = s"
  by (induction a b r s rule: replace_pair.induct) auto

lemma unescaped_plain: "list_all (\<lambda>c. \<not> ascii_space c \<and> c \<noteq> CHR 0x5C) v \<Longrightarrow> unescaped v = v"
proof -
  assume "list_all (\<lambda>c. \<not> ascii_space c \<and> c \<noteq> CHR 0x5C) v"
  then have "CHR 0x5C \<notin> set v" by (simp only: list_all_iff) blast
  then show ?thesis by (simp only: unescaped_def replace_pair_other not_False_eq_True)
qed

lemma scan_plain_all:
  "list_all (\<lambda>c. \<not> ascii_space c \<and> c \<noteq> CHR 0x5C) v \<Longrightarrow> scan_plain v = Some (v, [])"
  by (induction v) auto

lemma scan_plain_space:
  "list_all (\<lambda>c. \<not> ascii_space c \<and> c \<noteq> CHR 0x5C) v \<Longrightarrow> scan_plain (v @ CHR '' '' # rest) = Some (v, rest)"
  by (induction v) (auto simp: ascii_space_def)

lemma dropWhile_hd: "s \<noteq> [] \<Longrightarrow> \<not> P (hd s) \<Longrightarrow> dropWhile P s = s"
  by (cases s) auto

lemma trim_ascii_keyword:
  assumes "keyword k"
  shows "trim_ascii k = k"
proof -
  have "k \<noteq> []" "\<not> ascii_space (hd k)" "\<not> ascii_space (last k)"
    using assms by (auto simp: keyword_def list_all_iff)
  then have "dropWhile ascii_space k = k" "dropWhile ascii_space (rev k) = rev k"
    by (simp_all add: dropWhile_hd hd_rev)
  then show ?thesis by (simp add: trim_ascii_def trim_ascii_left_def)
qed

lemma split_at_sign:
  assumes "keyword k"
  shows "takeWhile (\<lambda>c. c \<noteq> CHR ''='') (k @ CHR ''='' # s) = k" "dropWhile (\<lambda>c. c \<noteq> CHR ''='') (k @ CHR ''='' # s) = CHR ''='' # s"
  using assms by (auto simp: keyword_def list_all_iff takeWhile_append dropWhile_append)

lemma trim_left_plain: "plain v \<Longrightarrow> trim_ascii_left (v @ s) = v @ s"
  by (cases v) (auto simp: plain_def trim_ascii_left_def)

lemma next_setting_space:
  assumes "keyword k" "plain v"
  shows "next_setting (k @ CHR ''='' # v @ CHR '' '' # rest) = Ok ((setting_name k, v), rest)"
  using assms(1) scan_plain_space [of v rest] unescaped_plain [of v] assms(2)
  by (cases v)
    (auto simp: next_setting_def split_at_sign trim_left_plain trim_ascii_keyword setting_name_def Let_def plain_def keyword_def
      trim_ascii_left_def)

lemma next_setting_end:
  assumes "keyword k" "plain v"
  shows "next_setting (k @ CHR ''='' # v) = Ok ((setting_name k, v), [])"
  using assms(1) scan_plain_all [of v] unescaped_plain [of v] assms(2)
  by (cases v)
    (auto simp: next_setting_def split_at_sign trim_ascii_keyword setting_name_def Let_def plain_def keyword_def
      trim_ascii_left_def)

text \<open>The string of some pairs, and what is read from it.\<close>

fun settings_text :: "(string \<times> string) list \<Rightarrow> string" where
  "settings_text [] = []"
| "settings_text [(k, v)] = k @ ''='' @ v"
| "settings_text ((k, v) # kvs) = k @ ''='' @ v @ '' '' @ settings_text kvs"

primrec set_all :: "(string \<rightharpoonup> string) \<Rightarrow> (string \<times> string) list \<Rightarrow> (string \<rightharpoonup> string)" where
  "set_all m [] = m"
| "set_all m (kv # kvs) = set_all (m(setting_name (fst kv) \<mapsto> snd kv)) kvs"

lemma parse_settings_text:
  "list_all (\<lambda>kv. keyword (fst kv) \<and> plain (snd kv)) kvs \<Longrightarrow>
   parse_settings m (settings_text kvs) = Ok (set_all m kvs)"
proof (induction kvs arbitrary: m rule: settings_text.induct)
  case 1
  show ?case by (simp add: parse_settings.simps)
next
  case (2 k v)
  then have "next_setting (k @ ''='' @ v) = Ok ((setting_name k, v), [])"
    by (simp add: next_setting_end)
  then show ?case by (simp add: parse_settings.simps [of _ "k @ _"] parse_settings.simps [of _ "[]"] del: fun_upd_apply)
next
  case (3 k v kv kvs)
  then have "next_setting (k @ ''='' @ v @ '' '' @ settings_text (kv # kvs)) = Ok ((setting_name k, v), settings_text (kv # kvs))"
    by (simp add: next_setting_space)
  with 3 show ?case by (simp add: parse_settings.simps [of _ "k @ _"])
qed

definition endpoint_settings :: "endpoint_config \<Rightarrow> (string \<times> string) list" where
  "endpoint_settings p =
     [(''host'', en_Host p), (''port'', en_Port p), (''user'', en_User p), (''password'', en_Password p),
      (''dbname'', en_Database p), (''sslmode'', en_SSLMode p)]"

lemma ConnectionString_text: "ConnectionString p = settings_text (endpoint_settings p)"
  by (simp add: ConnectionString_def endpoint_settings_def)

lemma endpoint_keywords: "list_all (\<lambda>kv. keyword (fst kv)) (endpoint_settings p)"
  by (simp add: endpoint_settings_def keyword_def ascii_space_def)

text \<open>
  C32: pgx reads an endpoint back as it was configured. If no field is empty, starts with a quote or
  holds a space or a backslash, the connection string is parsed into exactly the six settings, each
  with the value of its field.
\<close>
theorem ConnectionString_is_read:
  assumes "list_all plain [en_Host p, en_Port p, en_User p, en_Password p, en_Database p, en_SSLMode p]"
  shows "parseKeywordValueSettings (ConnectionString p) =
    Ok [''host'' \<mapsto> en_Host p, ''port'' \<mapsto> en_Port p, ''user'' \<mapsto> en_User p, ''password'' \<mapsto> en_Password p,
        ''database'' \<mapsto> en_Database p, ''sslmode'' \<mapsto> en_SSLMode p]"
proof -
  have "list_all (\<lambda>kv. keyword (fst kv) \<and> plain (snd kv)) (endpoint_settings p)"
    using endpoint_keywords [of p] assms by (auto simp: endpoint_settings_def)
  from parse_settings_text [OF this] show ?thesis
    by (simp add: parseKeywordValueSettings_def ConnectionString_text endpoint_settings_def setting_name_def)
qed

text \<open>
  The fields are not quoted. A password with a space in it is cut off at the space, and what
  follows is read as more settings: it can name another host, which wins over the configured one.
\<close>
theorem ConnectionString_not_quoted:
  assumes "list_all plain [en_Host p, en_Port p, en_User p, secret, other, en_Database p, en_SSLMode p]"
    and "en_Password p = secret @ '' host='' @ other"
  shows "\<exists>m. parseKeywordValueSettings (ConnectionString p) = Ok m \<and> m ''password'' = Some secret \<and> m ''host'' = Some other"
proof -
  let ?kvs = "[(''host'', en_Host p), (''port'', en_Port p), (''user'', en_User p), (''password'', secret),
    (''host'', other), (''dbname'', en_Database p), (''sslmode'', en_SSLMode p)]"
  have "ConnectionString p = settings_text ?kvs"
    by (simp add: ConnectionString_def assms(2))
  moreover have "list_all (\<lambda>kv. keyword (fst kv) \<and> plain (snd kv)) ?kvs"
    using assms(1) by (simp add: keyword_def ascii_space_def)
  ultimately have "parseKeywordValueSettings (ConnectionString p) = Ok (set_all Map.empty ?kvs)"
    unfolding parseKeywordValueSettings_def by (simp only: parse_settings_text)
  then show ?thesis by (simp add: setting_name_def)
qed

section \<open>Examples\<close>

definition example_endpoint :: "string \<Rightarrow> endpoint_config" where
  "example_endpoint secret =
     \<lparr>en_Host = ''db'', en_Port = ''5432'', en_User = ''app'', en_Password = secret, en_Database = ''auth'',
      en_SSLMode = ''require'',
      en_Settings = \<lparr>po_MaxOpenConnections = 10, po_ConnMaxLifetime = 60, po_MaxIdleConnections = 2, po_ConnMaxIdleTime = 30\<rparr>\<rparr>"

lemma ConnectionString_is_read_witness:
  "parseKeywordValueSettings (ConnectionString (example_endpoint ''p=q'')) =
    Ok [''host'' \<mapsto> ''db'', ''port'' \<mapsto> ''5432'', ''user'' \<mapsto> ''app'', ''password'' \<mapsto> ''p=q'',
        ''database'' \<mapsto> ''auth'', ''sslmode'' \<mapsto> ''require'']"
  using ConnectionString_is_read [of "example_endpoint ''p=q''"] by (simp add: example_endpoint_def plain_def ascii_space_def)

lemma ConnectionString_not_quoted_witness:
  "\<exists>m. parseKeywordValueSettings (ConnectionString (example_endpoint ''p host=x'')) = Ok m
     \<and> m ''password'' = Some ''p'' \<and> m ''host'' = Some ''x''"
  using ConnectionString_not_quoted [of "example_endpoint ''p host=x''" "''p''" "''x''"]
  by (simp add: example_endpoint_def plain_def ascii_space_def)

end
