(* ===== verification/PgPool.thy ===== *)
theory PgPool
  imports PgConfig Metrics Quiet
begin

text \<open>
  pkg/adapters/postgres: the options, the master and read-only pools, and the collector of their
  metrics. pgxpool is an argument; a pool is named by a number.
\<close>

section \<open>What the adapter uses of pgx, the logger and Prometheus\<close>

record pool_stat =
  st_AcquireCount :: int
  st_AcquireDuration :: int
  st_AcquiredConns :: int
  st_CanceledAcquireCount :: int
  st_ConstructingConns :: int
  st_EmptyAcquireCount :: int
  st_IdleConns :: int
  st_MaxConns :: int
  st_TotalConns :: int
  st_NewConnsCount :: int
  st_MaxLifetimeDestroyCount :: int
  st_MaxIdleDestroyCount :: int

text \<open>\<open>li_NextInstance\<close> is the counter of instance.go; \<open>li_Query\<close> gives the row of a query.\<close>

record 'w pg_library =
  li_ParseConfig :: "string \<Rightarrow> err + pool_config"
  li_NewWithConfig :: "pool_config \<Rightarrow> ('w, nat) go"
  li_Close :: "nat \<Rightarrow> ('w, unit) state"
  li_Ping :: "nat \<Rightarrow> ('w, unit) go"
  li_Acquire :: "nat \<Rightarrow> ('w, nat) go"
  li_Stat :: "nat \<Rightarrow> ('w, pool_stat) state"
  li_Query :: "nat \<Rightarrow> string \<Rightarrow> ('w, int list) go"
  li_NextInstance :: "('w, nat) state"
  li_NewRef :: "('w, nat) state"
  li_Register :: "string \<Rightarrow> collector \<Rightarrow> ('w, collector register_result) state"
  li_Now :: "('w, time) state"
  li_Emit :: "event \<Rightarrow> ('w, unit) state"

definition say :: "'w pg_library \<Rightarrow> string \<Rightarrow> string \<Rightarrow> ('w, unit) state" where
  "say lib level message = li_Emit lib (LogLine level message)"

section \<open>options.go\<close>

record 'l pg_options =
  op_log :: "'l option"
  op_registerer :: "string option"
  op_tracingEnabled :: bool
  op_tracerProvider :: string

type_synonym 'l pg_option = "'l pg_options \<Rightarrow> 'l pg_options"

definition WithLogger :: "'l option \<Rightarrow> 'l pg_option" where
  "WithLogger log opts = opts\<lparr>op_log := log\<rparr>"

definition WithRegisterer :: "string option \<Rightarrow> 'l pg_option" where
  "WithRegisterer registerer opts = opts\<lparr>op_registerer := registerer\<rparr>"

definition WithTracerProvider :: "string option \<Rightarrow> 'l pg_option" where
  "WithTracerProvider provider opts = (case provider of None \<Rightarrow> opts | Some p \<Rightarrow> opts\<lparr>op_tracerProvider := p\<rparr>)"

text \<open>An option is \<open>None\<close> when it is nil; \<open>global\<close> is \<open>otel.GetTracerProvider()\<close>.\<close>

definition WithTracing :: "string \<Rightarrow> 'l pg_option option list \<Rightarrow> 'l pg_option" where
  "WithTracing global traceOpts opts =
     fold (\<lambda>opt opts. case opt of None \<Rightarrow> opts | Some f \<Rightarrow> f opts) traceOpts
       (opts\<lparr>op_tracingEnabled := True, op_tracerProvider := global\<rparr>)"

text \<open>\<open>logger.DefaultLogger()\<close> and \<open>logger.NewLogger(logger.EnvStage, nil)\<close>.\<close>

definition resolveLogger :: "'l option \<Rightarrow> err + 'l \<Rightarrow> 'l option \<Rightarrow> 'l outcome" where
  "resolveLogger defaultLogger newLogger log =
     (case log of
        Some l \<Rightarrow> Ok l
      | None \<Rightarrow>
          (case defaultLogger of
             Some l \<Rightarrow> Ok l
           | None \<Rightarrow> (case newLogger of Inl e \<Rightarrow> Panic (err_text e) | Inr l \<Rightarrow> Ok l)))"

definition buildOptions :: "'l option \<Rightarrow> err + 'l \<Rightarrow> string \<Rightarrow> 'l pg_option option list \<Rightarrow> 'l pg_options outcome" where
  "buildOptions defaultLogger newLogger global opts =
     (case resolveLogger defaultLogger newLogger None of
        Ok l \<Rightarrow>
          (let resolved =
             fold (\<lambda>opt opts. case opt of None \<Rightarrow> opts | Some f \<Rightarrow> f opts) opts
               \<lparr>op_log = Some l, op_registerer = Some DefaultRegisterer, op_tracingEnabled = False,
                op_tracerProvider = global\<rparr> in
           (case resolveLogger defaultLogger newLogger (op_log resolved) of
              Ok l \<Rightarrow> Ok (resolved\<lparr>op_log := Some l\<rparr>) | Err e \<Rightarrow> Err e | Panic p \<Rightarrow> Panic p))
      | Err e \<Rightarrow> Err e
      | Panic p \<Rightarrow> Panic p)"

section \<open>The collector\<close>

definition pool_descs :: "(string \<times> string \<times> string) list" where
  "pool_descs =
     [(''pool_acquire_count'', ''acquire_total'', ''Total number of successful connection acquires from the pool.''),
      (''pool_acquire_duration'', ''acquire_duration_seconds_total'', ''Total time spent acquiring connections from the pool.''),
      (''pool_acquired_conns'', ''acquired_connections'', ''Current number of acquired connections in the pool.''),
      (''pool_canceled_acquire_count'', ''canceled_acquire_total'', ''Total number of canceled connection acquire attempts.''),
      (''pool_constructing_conns'', ''constructing_connections'', ''Current number of connections being constructed.''),
      (''pool_empty_acquire_count'', ''empty_acquire_total'', ''Total number of acquires that waited because the pool was empty.''),
      (''pool_idle_conns'', ''idle_connections'', ''Current number of idle connections in the pool.''),
      (''pool_max_conns'', ''max_connections'', ''Maximum number of connections configured for the pool.''),
      (''pool_total_conns'', ''total_connections'', ''Current total number of connections in the pool.''),
      (''pool_new_conns_count'', ''new_connections_total'', ''Total number of connections created by the pool.''),
      (''pool_max_lifetime_destroy_count'', ''max_lifetime_destroy_total'', ''Total number of connections destroyed because they exceeded max lifetime.''),
      (''pool_max_idle_destroy_count'', ''max_idle_destroy_total'', ''Total number of connections destroyed because they exceeded max idle time.'')]"

definition cluster_descs :: "(string \<times> string \<times> string) list" where
  "cluster_descs =
     [(''cluster_up'', ''up'', ''Whether cluster metrics scrape succeeded for the postgres endpoint.''),
      (''cluster_scrape_duration'', ''scrape_duration_seconds'', ''Duration of postgres cluster metrics scrape in seconds.''),
      (''cluster_in_recovery'', ''in_recovery'', ''Whether postgres endpoint is in recovery mode.''),
      (''cluster_max_connections'', ''max_connections'', ''Configured postgres max_connections value.''),
      (''cluster_database_size_bytes'', ''database_size_bytes'', ''Current size of the selected database in bytes.''),
      (''cluster_numbackends'', ''numbackends'', ''Number of backends currently connected to the selected database.''),
      (''cluster_xact_commit'', ''xact_commit_total'', ''Total number of committed transactions for the selected database.''),
      (''cluster_xact_rollback'', ''xact_rollback_total'', ''Total number of rolled back transactions for the selected database.''),
      (''cluster_blks_read'', ''blks_read_total'', ''Total number of disk blocks read for the selected database.''),
      (''cluster_blks_hit'', ''blks_hit_total'', ''Total number of buffer hits for the selected database.''),
      (''cluster_tup_returned'', ''tup_returned_total'', ''Total number of rows returned by queries for the selected database.''),
      (''cluster_tup_fetched'', ''tup_fetched_total'', ''Total number of rows fetched by queries for the selected database.''),
      (''cluster_tup_inserted'', ''tup_inserted_total'', ''Total number of rows inserted into the selected database.''),
      (''cluster_tup_updated'', ''tup_updated_total'', ''Total number of rows updated in the selected database.''),
      (''cluster_tup_deleted'', ''tup_deleted_total'', ''Total number of rows deleted from the selected database.''),
      (''cluster_temp_files'', ''temp_files_total'', ''Total number of temporary files created by queries in the selected database.''),
      (''cluster_temp_bytes'', ''temp_bytes_total'', ''Total amount of data written to temporary files in bytes for the selected database.''),
      (''cluster_deadlocks'', ''deadlocks_total'', ''Total number of deadlocks detected in the selected database.''),
      (''cluster_conflicts'', ''conflicts_total'', ''Total number of queries canceled due to recovery conflicts in the selected database.''),
      (''cluster_replication_clients'', ''replication_clients'', ''Current number of replication clients visible from the postgres endpoint.''),
      (''cluster_wal_receivers'', ''wal_receivers'', ''Current number of WAL receivers visible from the postgres endpoint.'')]"

definition pool_desc :: "string \<Rightarrow> string \<Rightarrow> string \<times> string \<times> string \<Rightarrow> desc" where
  "pool_desc instanceID namespace d =
     \<lparr>ds_name = BuildFQName namespace [] (fst (snd d)), ds_help = snd (snd d),
      ds_labels = [''role'', ''host'', ''port'', ''database''], ds_const = [(''instance_id'', instanceID)]\<rparr>"

text \<open>The map \<open>descs\<close>, and the collector that describes its values.\<close>

definition collector_descs :: "string \<Rightarrow> (string \<times> desc) list" where
  "collector_descs instanceID =
     map (\<lambda>d. (fst d, pool_desc instanceID ''postgres_pool'' d)) pool_descs
     @ map (\<lambda>d. (fst d, pool_desc instanceID ''postgres_cluster'' d)) cluster_descs"

definition newPoolCollector :: "nat \<Rightarrow> string \<Rightarrow> collector" where
  "newPoolCollector ref instanceID =
     \<lparr>co_ref = ref, co_kind = OtherCollector, co_descs = map snd (collector_descs instanceID)\<rparr>"

definition registerPoolCollector :: "'w pg_library \<Rightarrow> string option \<Rightarrow> collector \<Rightarrow> ('w, unit) go" where
  "registerPoolCollector lib registerer c =
     (case registerer of
        None \<Rightarrow> ok ()
      | Some r \<Rightarrow> do {
          answer \<leftarrow> li_Register lib r c;
          (case answer of RegisterFailed m \<Rightarrow> fail (NewErr m) | _ \<Rightarrow> ok ()) })"

section \<open>pool.go\<close>

record postgres =
  pp_instanceID :: string
  pp_master :: nat
  pp_readOnly :: nat
  pp_masterCfg :: endpoint_config
  pp_readOnlyCfg :: endpoint_config
  pp_readOnlyIsMaster :: bool
  pp_metrics :: collector

definition nextInstanceID :: "'w pg_library \<Rightarrow> ('w, string) state" where
  "nextInstanceID lib = do { n \<leftarrow> li_NextInstance lib; State_Monad.return (''postgres-'' @ nat_text n) }"

definition newPool :: "'w pg_library \<Rightarrow> string \<Rightarrow> endpoint_config \<Rightarrow> 'l pg_options \<Rightarrow> ('w, nat) go" where
  "newPool lib role cfg opts =
     after (say lib ''debug'' ''Creating postgres pool'')
       (case li_ParseConfig lib (ConnectionString cfg) of
          Inl e \<Rightarrow> fail e
        | Inr poolCfg \<Rightarrow>
            (let poolCfg = applyPoolSettings (en_Settings cfg) poolCfg;
                 poolCfg = (if op_tracingEnabled opts
                            then poolCfg\<lparr>cp_Tracer := Some (op_tracerProvider opts, role)\<rparr> else poolCfg) in
             andThen (li_NewWithConfig lib poolCfg) (\<lambda>pool.
               after (say lib ''info'' ''Created postgres pool'') (ok pool))))"

definition Close_postgres :: "'w pg_library \<Rightarrow> postgres \<Rightarrow> ('w, unit) go" where
  "Close_postgres lib p =
     after (say lib ''info'' ''Closing postgres adapter'')
       (after (if pp_readOnly p \<noteq> pp_master p then do {
                 _ \<leftarrow> say lib ''debug'' ''Closing postgres read-only pool'';
                 li_Close lib (pp_readOnly p) }
               else State_Monad.return ())
         (after (do {
              _ \<leftarrow> say lib ''debug'' ''Closing postgres master pool'';
              li_Close lib (pp_master p) })
           (after (say lib ''info'' ''Closed postgres adapter'') (ok ()))))"

text \<open>The pool of the read-only connections; the master pool is closed when it cannot be made.\<close>

definition read_only_pool :: "'w pg_library \<Rightarrow> pg_config \<Rightarrow> 'l pg_options \<Rightarrow> nat \<Rightarrow> ('w, nat) go" where
  "read_only_pool lib cfg resolvedOpts masterPool =
     (case readOnlyEndpoint cfg of (readOnlyCfg, readOnlyConfigured) \<Rightarrow>
        if readOnlyConfigured then
          call (newPool lib ''read_only'' readOnlyCfg resolvedOpts) (\<lambda>r. case r of
            Inl e \<Rightarrow>
              after (li_Close lib masterPool)
                (after (say lib ''error'' ''Failed to initialize postgres read-only pool'') (fail e))
          | Inr pool \<Rightarrow> after (say lib ''info'' ''Initialized dedicated postgres read-only pool'') (ok pool))
        else
          after (say lib ''info'' ''Read-only postgres pool is not configured, master pool will be reused'') (ok masterPool))"

text \<open>The adapter over its pools, closed again when its metrics cannot be registered.\<close>

definition registered_adapter :: "'w pg_library \<Rightarrow> 'l pg_options \<Rightarrow> postgres \<Rightarrow> ('w, postgres) go" where
  "registered_adapter lib resolvedOpts p =
     call (registerPoolCollector lib (op_registerer resolvedOpts) (pp_metrics p)) (\<lambda>r. case r of
       Inl e \<Rightarrow>
         after (say lib ''error'' ''Failed to register postgres metrics collector'')
           (call (Close_postgres lib p) (\<lambda>_. fail e))
     | Inr _ \<Rightarrow> after (say lib ''info'' ''Postgres adapter initialized'') (ok p))"

definition NewWithOptions ::
  "'w pg_library \<Rightarrow> 'l option \<Rightarrow> err + 'l \<Rightarrow> string \<Rightarrow> pg_config option \<Rightarrow> 'l pg_option option list \<Rightarrow> ('w, postgres) go" where
  "NewWithOptions lib defaultLogger newLogger global config opts =
     (case config of
        None \<Rightarrow> fail (Sentinel (Lib ErrNilConfig))
      | Some cfg \<Rightarrow>
          (case buildOptions defaultLogger newLogger global opts of
             Err e \<Rightarrow> fail e
           | Panic p \<Rightarrow> panic p
           | Ok resolvedOpts \<Rightarrow> do {
               instanceID \<leftarrow> nextInstanceID lib;
               after (say lib ''info'' ''Initializing postgres adapter'')
                 (call (newPool lib ''master'' (pg_Master cfg) resolvedOpts) (\<lambda>r. case r of
                    Inl e \<Rightarrow> after (say lib ''error'' ''Failed to initialize postgres master pool'') (fail e)
                  | Inr masterPool \<Rightarrow>
                      andThen (read_only_pool lib cfg resolvedOpts masterPool) (\<lambda>readOnlyPool. do {
                        ref \<leftarrow> li_NewRef lib;
                        registered_adapter lib resolvedOpts
                          \<lparr>pp_instanceID = instanceID, pp_master = masterPool, pp_readOnly = readOnlyPool,
                           pp_masterCfg = pg_Master cfg, pp_readOnlyCfg = fst (readOnlyEndpoint cfg),
                           pp_readOnlyIsMaster = (\<not> snd (readOnlyEndpoint cfg)),
                           pp_metrics = newPoolCollector ref instanceID\<rparr> }))) }))"

definition New_postgres :: "'w pg_library \<Rightarrow> 'l option \<Rightarrow> err + 'l \<Rightarrow> string \<Rightarrow> pg_config option \<Rightarrow> ('w, postgres) go" where
  "New_postgres lib defaultLogger newLogger global cfg = NewWithOptions lib defaultLogger newLogger global cfg []"

definition RegisterMetrics :: "'w pg_library \<Rightarrow> postgres \<Rightarrow> string option \<Rightarrow> ('w, unit) go" where
  "RegisterMetrics lib p registerer = registerPoolCollector lib registerer (pp_metrics p)"

definition Ping :: "'w pg_library \<Rightarrow> postgres \<Rightarrow> ('w, unit) go" where
  "Ping lib p =
     after (say lib ''debug'' ''Pinging postgres master pool'')
       (call (li_Ping lib (pp_master p)) (\<lambda>r. case r of
          Inl e \<Rightarrow> after (say lib ''error'' ''Failed to ping postgres master pool'') (fail e)
        | Inr _ \<Rightarrow>
            andThen (if pp_readOnly p \<noteq> pp_master p
                     then after (say lib ''debug'' ''Pinging postgres read-only pool'')
                       (call (li_Ping lib (pp_readOnly p)) (\<lambda>r. case r of
                          Inl e \<Rightarrow> after (say lib ''error'' ''Failed to ping postgres read-only pool'') (fail e)
                        | Inr _ \<Rightarrow> ok ()))
                     else ok ())
              (\<lambda>_. after (say lib ''debug'' ''Successfully pinged postgres pools'') (ok ()))))"

definition acquireConnection :: "'w pg_library \<Rightarrow> string \<Rightarrow> nat \<Rightarrow> endpoint_config \<Rightarrow> ('w, nat) go" where
  "acquireConnection lib role pool cfg =
     call (li_Acquire lib pool) (\<lambda>r. case r of
       Inl e \<Rightarrow> after (say lib ''error'' ''Failed to acquire postgres connection'') (fail e)
     | Inr conn \<Rightarrow> ok conn)"

definition MasterConnection :: "'w pg_library \<Rightarrow> postgres \<Rightarrow> ('w, nat) go" where
  "MasterConnection lib p = acquireConnection lib ''master'' (pp_master p) (pp_masterCfg p)"

definition Connection :: "'w pg_library \<Rightarrow> postgres \<Rightarrow> ('w, nat) go" where
  "Connection lib p = MasterConnection lib p"

definition ReadOnlyConnection :: "'w pg_library \<Rightarrow> postgres \<Rightarrow> ('w, nat) go" where
  "ReadOnlyConnection lib p =
     (if pp_readOnlyIsMaster p then acquireConnection lib ''master'' (pp_readOnly p) (pp_masterCfg p)
      else acquireConnection lib ''read_only'' (pp_readOnly p) (pp_readOnlyCfg p))"

section \<open>Collecting\<close>

text \<open>
  \<open>prometheus.MustNewConstMetric\<close> panics without a descriptor and with the wrong number of label values.
\<close>

definition const_metric :: "(string \<times> desc) list \<Rightarrow> string list \<Rightarrow> string \<times> int \<Rightarrow> event outcome" where
  "const_metric descs labels s =
     (case map_of descs (fst s) of
        None \<Rightarrow> Panic ''invalid memory address or nil pointer dereference''
      | Some d \<Rightarrow>
          (if length labels = length (ds_labels d) then Ok (Sample (ds_name d) labels (snd s))
           else Panic ''inconsistent label cardinality''))"

definition metricLabels :: "string \<Rightarrow> endpoint_config \<Rightarrow> string list" where
  "metricLabels role cfg = [role, en_Host cfg, en_Port cfg, en_Database cfg]"

definition collect_one :: "'w pg_library \<Rightarrow> postgres \<Rightarrow> string list \<Rightarrow> string \<times> int \<Rightarrow> ('w, unit) go" where
  "collect_one lib p labels s =
     (case const_metric (collector_descs (pp_instanceID p)) labels s of
        Ok m \<Rightarrow> after (li_Emit lib m) (ok ()) | Err e \<Rightarrow> fail e | Panic x \<Rightarrow> panic x)"

record cluster_snapshot =
  sn_InRecovery :: int
  sn_MaxConnections :: int
  sn_DatabaseSizeBytes :: int
  sn_NumBackends :: int
  sn_XactCommit :: int
  sn_XactRollback :: int
  sn_BlksRead :: int
  sn_BlksHit :: int
  sn_TupReturned :: int
  sn_TupFetched :: int
  sn_TupInserted :: int
  sn_TupUpdated :: int
  sn_TupDeleted :: int
  sn_TempFiles :: int
  sn_TempBytes :: int
  sn_Deadlocks :: int
  sn_Conflicts :: int
  sn_ReplicationClients :: int
  sn_WALReceivers :: int

definition pool_samples :: "pool_stat \<Rightarrow> (string \<times> int) list" where
  "pool_samples stat =
     [(''pool_acquire_count'', st_AcquireCount stat),
      (''pool_acquire_duration'', st_AcquireDuration stat),
      (''pool_acquired_conns'', st_AcquiredConns stat),
      (''pool_canceled_acquire_count'', st_CanceledAcquireCount stat),
      (''pool_constructing_conns'', st_ConstructingConns stat),
      (''pool_empty_acquire_count'', st_EmptyAcquireCount stat),
      (''pool_idle_conns'', st_IdleConns stat),
      (''pool_max_conns'', st_MaxConns stat),
      (''pool_total_conns'', st_TotalConns stat),
      (''pool_new_conns_count'', st_NewConnsCount stat),
      (''pool_max_lifetime_destroy_count'', st_MaxLifetimeDestroyCount stat),
      (''pool_max_idle_destroy_count'', st_MaxIdleDestroyCount stat)]"

definition cluster_samples :: "cluster_snapshot \<Rightarrow> (string \<times> int) list" where
  "cluster_samples snapshot =
     [(''cluster_in_recovery'', sn_InRecovery snapshot),
      (''cluster_max_connections'', sn_MaxConnections snapshot),
      (''cluster_database_size_bytes'', sn_DatabaseSizeBytes snapshot),
      (''cluster_numbackends'', sn_NumBackends snapshot),
      (''cluster_xact_commit'', sn_XactCommit snapshot),
      (''cluster_xact_rollback'', sn_XactRollback snapshot),
      (''cluster_blks_read'', sn_BlksRead snapshot),
      (''cluster_blks_hit'', sn_BlksHit snapshot),
      (''cluster_tup_returned'', sn_TupReturned snapshot),
      (''cluster_tup_fetched'', sn_TupFetched snapshot),
      (''cluster_tup_inserted'', sn_TupInserted snapshot),
      (''cluster_tup_updated'', sn_TupUpdated snapshot),
      (''cluster_tup_deleted'', sn_TupDeleted snapshot),
      (''cluster_temp_files'', sn_TempFiles snapshot),
      (''cluster_temp_bytes'', sn_TempBytes snapshot),
      (''cluster_deadlocks'', sn_Deadlocks snapshot),
      (''cluster_conflicts'', sn_Conflicts snapshot),
      (''cluster_replication_clients'', sn_ReplicationClients snapshot),
      (''cluster_wal_receivers'', sn_WALReceivers snapshot)]"

definition collectPool :: "'w pg_library \<Rightarrow> postgres \<Rightarrow> string \<Rightarrow> nat \<Rightarrow> endpoint_config \<Rightarrow> ('w, unit) go" where
  "collectPool lib p role pool cfg = do {
     stat \<leftarrow> li_Stat lib pool;
     foreach (pool_samples stat) (collect_one lib p (metricLabels role cfg)) }"

text \<open>A query whose row is scanned into \<open>n\<close> variables.\<close>

definition query_row :: "'w pg_library \<Rightarrow> nat \<Rightarrow> string \<Rightarrow> nat \<Rightarrow> ('w, int list) go" where
  "query_row lib pool sql n =
     andThen (li_Query lib pool sql) (\<lambda>row.
       if length row = n then ok row
       else fail (NewErr ''number of field descriptions must equal number of destinations''))"

definition scanned_snapshot :: "int list \<Rightarrow> cluster_snapshot" where
  "scanned_snapshot r =
     \<lparr>sn_InRecovery = r ! 0, sn_MaxConnections = r ! 1, sn_DatabaseSizeBytes = r ! 2, sn_NumBackends = r ! 3,
      sn_XactCommit = r ! 4, sn_XactRollback = r ! 5, sn_BlksRead = r ! 6, sn_BlksHit = r ! 7, sn_TupReturned = r ! 8,
      sn_TupFetched = r ! 9, sn_TupInserted = r ! 10, sn_TupUpdated = r ! 11, sn_TupDeleted = r ! 12,
      sn_TempFiles = r ! 13, sn_TempBytes = r ! 14, sn_Deadlocks = r ! 15, sn_Conflicts = r ! 16,
      sn_ReplicationClients = r ! 17, sn_WALReceivers = r ! 18\<rparr>"

definition collectClusterSnapshot :: "'w pg_library \<Rightarrow> nat \<Rightarrow> ('w, cluster_snapshot) go" where
  "collectClusterSnapshot lib pool =
     andThen (query_row lib pool (''SELECT CASE WHEN pg_is_in_recovery() THEN 1 ELSE 0 END, ''
         @ ''current_setting('' @ [CHR 0x27] @ ''max_connections'' @ [CHR 0x27] @ '')::bigint, pg_database_size(current_database())::bigint'') 3)
       (\<lambda>a. andThen (query_row lib pool (''SELECT numbackends, xact_commit, xact_rollback, blks_read, blks_hit, tup_returned, ''
           @ ''tup_fetched, tup_inserted, tup_updated, tup_deleted, temp_files, temp_bytes, deadlocks, conflicts ''
           @ ''FROM pg_stat_database WHERE datname = current_database()'') 14)
         (\<lambda>b. andThen (query_row lib pool ''SELECT COUNT(*) FROM pg_stat_replication'' 1)
           (\<lambda>c. andThen (query_row lib pool ''SELECT COUNT(*) FROM pg_stat_wal_receiver'' 1)
             (\<lambda>d. ok (scanned_snapshot (a @ b @ c @ d))))))"

definition collectCluster :: "'w pg_library \<Rightarrow> postgres \<Rightarrow> string \<Rightarrow> nat \<Rightarrow> endpoint_config \<Rightarrow> ('w, unit) go" where
  "collectCluster lib p role pool cfg = do {
     startedAt \<leftarrow> li_Now lib;
     call (collectClusterSnapshot lib pool) (\<lambda>r. do {
       now \<leftarrow> li_Now lib;
       andThen (collect_one lib p (metricLabels role cfg) (''cluster_scrape_duration'', now - startedAt)) (\<lambda>_. case r of
         Inl e \<Rightarrow>
           andThen (collect_one lib p (metricLabels role cfg) (''cluster_up'', 0)) (\<lambda>_.
             after (say lib ''warn'' ''Failed to scrape postgres cluster metrics'') (ok ()))
       | Inr snapshot \<Rightarrow>
           andThen (collect_one lib p (metricLabels role cfg) (''cluster_up'', 1)) (\<lambda>_.
             foreach (cluster_samples snapshot) (collect_one lib p (metricLabels role cfg)))) }) }"

definition Collect_pools :: "'w pg_library \<Rightarrow> postgres \<Rightarrow> ('w, unit) go" where
  "Collect_pools lib p =
     andThen (collectPool lib p ''master'' (pp_master p) (pp_masterCfg p)) (\<lambda>_.
       andThen (collectCluster lib p ''master'' (pp_master p) (pp_masterCfg p)) (\<lambda>_.
         if pp_readOnly p \<noteq> pp_master p
         then andThen (collectPool lib p ''read_only'' (pp_readOnly p) (pp_readOnlyCfg p)) (\<lambda>_.
           collectCluster lib p ''read_only'' (pp_readOnly p) (pp_readOnlyCfg p))
         else ok ()))"

section \<open>The properties\<close>

text \<open>The open pools, and pgxpool over them; nothing else opens or closes a pool.\<close>

definition made :: "nat set \<Rightarrow> nat outcome \<Rightarrow> nat set \<Rightarrow> bool" where
  "made pools r pools' \<longleftrightarrow>
     (case r of Ok p \<Rightarrow> p \<notin> pools \<and> pools' = insert p pools | Err _ \<Rightarrow> pools' = pools | Panic _ \<Rightarrow> False)"

definition pooling :: "('w \<Rightarrow> nat set) \<Rightarrow> 'w pg_library \<Rightarrow> bool" where
  "pooling view lib \<longleftrightarrow>
     (\<forall>cfg w. wp (li_NewWithConfig lib cfg) (\<lambda>r v. made (view w) r (view v)) w)
   \<and> (\<forall>p w. wp (li_Close lib p) (\<lambda>_ v. view v = view w - {p}) w)
   \<and> quiet view (li_NextInstance lib) \<and> quiet view (li_NewRef lib)
   \<and> (\<forall>r c. quiet view (li_Register lib r c)) \<and> (\<forall>e. quiet view (li_Emit lib e))"

lemma pooling_quiet:
  assumes "pooling view lib"
  shows "quiet view (say lib level message)" "quiet view (nextInstanceID lib)" "quiet view (li_NewRef lib)"
    "quiet view (registerPoolCollector lib registerer c)"
  using assms
  by (auto simp: pooling_def say_def nextInstanceID_def registerPoolCollector_def
      intro!: quiet_bind split: option.split register_result.split)

lemma pooling_pools:
  assumes "pooling view lib"
  shows "wp (li_NewWithConfig lib cfg) (\<lambda>r v. made (view w) r (view v)) w"
    "wp (li_Close lib p) (\<lambda>_ v. view v = view w - {p}) w"
  using assms by (simp_all add: pooling_def)

lemma newPool_wp:
  assumes "pooling view lib"
  shows "wp (newPool lib role cfg opts) (\<lambda>r v. made (view w) r (view v)) w"
  unfolding newPool_def
proof (rule wp_quiet_after [OF pooling_quiet(1) [OF assms]])
  fix v
  assume v: "view v = view w"
  have "wp (andThen (li_NewWithConfig lib c) (\<lambda>pool. after (say lib level message) (ok pool)))
      (\<lambda>r u. made (view w) r (view u)) v" for c level message
  proof (rule wp_andThenI [OF pooling_pools(1) [OF assms]], goal_cases)
    case (1 x u)
    then show ?case by (intro wp_quiet_after [OF pooling_quiet(1) [OF assms]]) (simp add: wp_ok v)
  qed (simp_all add: v made_def)
  then show "wp (case li_ParseConfig lib (ConnectionString cfg) of
          Inl e \<Rightarrow> fail e
        | Inr poolCfg \<Rightarrow>
            (let poolCfg = applyPoolSettings (en_Settings cfg) poolCfg;
                 poolCfg = (if op_tracingEnabled opts
                            then poolCfg\<lparr>cp_Tracer := Some (op_tracerProvider opts, role)\<rparr> else poolCfg) in
             andThen (li_NewWithConfig lib poolCfg) (\<lambda>pool.
               after (say lib ''info'' ''Created postgres pool'') (ok pool))))
      (\<lambda>r u. made (view w) r (view u)) v"
    by (cases "li_ParseConfig lib (ConnectionString cfg)") (simp_all add: wp_fail v made_def Let_def)
qed

lemma closing_wp:
  assumes "pooling view lib" "\<And>v. view v = view w - {n} \<Longrightarrow> wp m Q v"
  shows "wp (after (do { _ \<leftarrow> say lib level message; li_Close lib n }) m) Q w"
  unfolding wp_after
proof (rule wp_quiet_then [OF pooling_quiet(1) [OF assms(1)]])
  fix v
  assume v: "view v = view w"
  show "wp (li_Close lib n) (\<lambda>_. wp m Q) v"
    by (rule wp_conseq [OF pooling_pools(2) [OF assms(1)]]) (rule assms(2), simp add: v)
qed

lemma Close_postgres_wp:
  assumes "pooling view lib"
  shows "wp (Close_postgres lib p) (\<lambda>r v. r = Ok () \<and> view v = view w - {pp_master p, pp_readOnly p}) w"
  unfolding Close_postgres_def
proof (rule wp_quiet_after [OF pooling_quiet(1) [OF assms]])
  fix v
  let ?Q = "\<lambda>r v. r = Ok () \<and> view v = view w - {pp_master p, pp_readOnly p}"
  let ?rest = "after (do { _ \<leftarrow> say lib ''debug'' ''Closing postgres master pool''; li_Close lib (pp_master p) })
    (after (say lib ''info'' ''Closed postgres adapter'') (ok ()))"
  assume v: "view v = view w"
  have rest: "wp ?rest ?Q u" if "view u - {pp_master p} = view w - {pp_master p, pp_readOnly p}" for u
    by (rule closing_wp [OF assms], rule wp_quiet_after [OF pooling_quiet(1) [OF assms]]) (use that in \<open>simp add: wp_ok\<close>)
  show "wp (after (if pp_readOnly p \<noteq> pp_master p
        then do { _ \<leftarrow> say lib ''debug'' ''Closing postgres read-only pool''; li_Close lib (pp_readOnly p) }
        else State_Monad.return ()) ?rest) ?Q v"
  proof (cases "pp_readOnly p = pp_master p")
    case True
    then show ?thesis by (simp add: wp_after wp_return) (use rest [of v] v True in \<open>simp add: wp_after\<close>)
  next
    case False
    have "wp (after (do { _ \<leftarrow> say lib ''debug'' ''Closing postgres read-only pool''; li_Close lib (pp_readOnly p) }) ?rest) ?Q v"
      by (rule closing_wp [OF assms], rule rest) (auto simp: v)
    with False show ?thesis by simp
  qed
qed

lemma read_only_pool_wp:
  assumes "pooling view lib"
  shows "wp (read_only_pool lib cfg opts masterPool) (\<lambda>r v. case r of
      Ok q \<Rightarrow> (if snd (readOnlyEndpoint cfg) then q \<notin> view w \<and> view v = insert q (view w) else q = masterPool \<and> view v = view w)
    | Err _ \<Rightarrow> view v = view w - {masterPool}
    | Panic _ \<Rightarrow> False) w"
proof (cases "snd (readOnlyEndpoint cfg)")
  case True
  then show ?thesis
    unfolding read_only_pool_def case_prod_beta if_P [OF True]
  proof (intro wp_callI [OF newPool_wp [OF assms]], goal_cases)
    case (1 x v)
    then show ?case
      unfolding sum.case made_def
      by (intro wp_quiet_after [OF pooling_quiet(1) [OF assms]]) (simp add: wp_ok)
  next
    case (2 e v)
    then have v: "view v = view w" by (simp add: made_def)
    show ?case
      unfolding sum.case
    proof (rule wp_afterI [OF pooling_pools(2) [OF assms]])
      fix u
      assume "view u = view v - {masterPool}"
      then show "wp (after (say lib ''error'' ''Failed to initialize postgres read-only pool'') (fail e)) (\<lambda>r v. case r of
          Ok q \<Rightarrow> q \<notin> view w \<and> view v = insert q (view w) | Err _ \<Rightarrow> view v = view w - {masterPool} | Panic _ \<Rightarrow> False) u"
        by (intro wp_quiet_after [OF pooling_quiet(1) [OF assms]]) (simp add: wp_fail v)
    qed
  qed (simp add: made_def)
next
  case False
  then show ?thesis
    unfolding read_only_pool_def case_prod_beta if_not_P [OF False]
    by (intro wp_quiet_after [OF pooling_quiet(1) [OF assms]]) (simp add: wp_ok)
qed

text \<open>The pools of a new adapter.\<close>

definition opened :: "nat set \<Rightarrow> postgres outcome \<Rightarrow> nat set \<Rightarrow> bool" where
  "opened pools r pools' \<longleftrightarrow>
     (case r of
        Ok p \<Rightarrow> pools' = pools \<union> {pp_master p, pp_readOnly p} \<and> pools \<inter> {pp_master p, pp_readOnly p} = {}
          \<and> pp_readOnlyIsMaster p = (pp_readOnly p = pp_master p)
      | _ \<Rightarrow> pools' = pools)"

lemma registerPoolCollector_wp:
  assumes "pooling view lib"
  shows "wp (registerPoolCollector lib registerer c) (\<lambda>r v. view v = view w \<and> (\<forall>x. r \<noteq> Panic x)) w"
proof (cases registerer)
  case None
  then show ?thesis by (simp add: registerPoolCollector_def wp_ok)
next
  case (Some r)
  have "quiet view (li_Register lib r c)" using assms by (simp add: pooling_def)
  with Some show ?thesis
    unfolding registerPoolCollector_def
    by (auto simp: wp_ok wp_fail intro!: wp_quiet_then split: register_result.split)
qed

lemma registered_adapter_wp:
  assumes "pooling view lib" "opened pools (Ok p) (view w)"
  shows "wp (registered_adapter lib opts p) (\<lambda>r v. opened pools r (view v)) w"
  unfolding registered_adapter_def
proof (rule wp_callI [OF registerPoolCollector_wp [OF assms(1)]], goal_cases)
  case (1 x v)
  then show ?case
    unfolding sum.case
    by (intro wp_quiet_after [OF pooling_quiet(1) [OF assms(1)]]) (use assms(2) in \<open>simp add: wp_ok\<close>)
next
  case (2 e v)
  then show ?case
    unfolding sum.case
  proof (intro wp_quiet_after [OF pooling_quiet(1) [OF assms(1)]] wp_callI [OF Close_postgres_wp [OF assms(1)]], goal_cases)
    case (1 u x k)
    with assms(2) show ?case by (auto simp: wp_fail opened_def)
  qed simp_all
qed simp

text \<open>What is done once the master pool is open, and all of it from the start.\<close>

lemma unopened: "pools' = pools \<Longrightarrow> opened pools (Err e) pools'" "pools' = pools \<Longrightarrow> opened pools (Panic x) pools'"
  by (simp_all add: opened_def)

lemma opened_adapter_wp:
  assumes "pooling view lib" "made pools (Ok master) (view w)"
  shows "wp (andThen (read_only_pool lib cfg o' master) (\<lambda>readOnlyPool. do {
        ref \<leftarrow> li_NewRef lib;
        registered_adapter lib o'
          \<lparr>pp_instanceID = instanceID, pp_master = master, pp_readOnly = readOnlyPool,
           pp_masterCfg = pg_Master cfg, pp_readOnlyCfg = fst (readOnlyEndpoint cfg),
           pp_readOnlyIsMaster = (\<not> snd (readOnlyEndpoint cfg)),
           pp_metrics = newPoolCollector ref instanceID\<rparr> })) (\<lambda>r v. opened pools r (view v)) w"
proof (rule wp_andThenI [OF read_only_pool_wp [OF assms(1)]], goal_cases)
  case (1 q v4)
  show ?case
    by (rule wp_quiet_then [OF pooling_quiet(3) [OF assms(1)]], rule registered_adapter_wp [OF assms(1)])
      (use 1 assms(2) in \<open>auto simp: opened_def made_def split: if_splits\<close>)
qed (use assms(2) in \<open>simp_all add: opened_def made_def\<close>)

lemma NewWithOptions_wp:
  assumes "pooling view lib"
  shows "wp (NewWithOptions lib defaultLogger newLogger global config opts) (\<lambda>r v. opened (view w) r (view v)) w"
proof -
  have failed: "wp (after (say lib ''error'' m) (fail e)) (\<lambda>r u. opened (view w) r (view u)) v"
    if "made (view w) (Err e') (view v)" for m e e' v
    by (rule wp_quiet_after [OF pooling_quiet(1) [OF assms]]) (use that in \<open>simp add: wp_fail made_def unopened\<close>)
  show ?thesis
    unfolding NewWithOptions_def
    by (auto simp: wp_fail wp_panic unopened split: option.split outcome.split
        intro!: wp_quiet_then [OF pooling_quiet(2) [OF assms]] wp_quiet_after [OF pooling_quiet(1) [OF assms]]
          wp_callI [OF newPool_wp [OF assms]] opened_adapter_wp [OF assms] failed)
      (simp_all add: made_def)
qed

text \<open>
  C31: the adapter leaks no pool. Whatever fails - a connection string, a pool, the registration of
  the metrics - an adapter that is not returned leaves the open pools as they were; one that is
  returned has opened its own pools and nothing else, two if a read-only endpoint is configured and
  otherwise one; and closing it closes exactly these.
\<close>
theorem NewWithOptions_leaks_no_pool:
  assumes "pooling view lib"
    and "run_state (NewWithOptions lib defaultLogger newLogger global config opts) w = (r, v)"
  shows "opened (view w) r (view v)
    \<and> (case r of Ok p \<Rightarrow> view (snd (run_state (Close_postgres lib p) v)) = view w | _ \<Rightarrow> True)"
proof -
  have o: "opened (view w) r (view v)" by (rule wpD [OF NewWithOptions_wp [OF assms(1)] assms(2)])
  show ?thesis
  proof (cases r)
    case (Ok p)
    from Close_postgres_wp [OF assms(1), of p v] have "view (snd (run_state (Close_postgres lib p) v)) = view v - {pp_master p, pp_readOnly p}"
      by (simp add: wp_def split: prod.splits)
    with Ok o show ?thesis by (auto simp: opened_def)
  qed (use o in auto)
qed

text \<open>A sample that can be sent: its name is described.\<close>

definition described :: "(string \<times> int) list \<Rightarrow> bool" where
  "described samples \<longleftrightarrow> list_all (\<lambda>s. fst s \<in> set (map fst (pool_descs @ cluster_descs))) samples"

lemma samples_described:
  "described (pool_samples stat)" "described (cluster_samples snapshot)"
  "described [(''cluster_scrape_duration'', n)]" "described [(''cluster_up'', n)]"
  by (simp_all add: described_def pool_samples_def cluster_samples_def pool_descs_def cluster_descs_def)

lemma collector_descs_labels:
  "fst ` set (collector_descs i) = set (map fst (pool_descs @ cluster_descs))"
  "d \<in> snd ` set (collector_descs i) \<Longrightarrow> length (ds_labels d) = 4"
  by (auto simp: collector_descs_def pool_desc_def image_Un image_image)

lemma wp_sent: "wp (after m (ok ())) (\<lambda>r _. r = Ok ()) w"
  unfolding wp_after wp_ok by (simp add: wp_def split: prod.split)

lemma collect_one_ok:
  assumes "described [s]"
  shows "wp (collect_one lib p (metricLabels role cfg) s) (\<lambda>r _. r = Ok ()) w"
proof -
  have "fst s \<in> fst ` set (collector_descs (pp_instanceID p))"
    unfolding collector_descs_labels(1) using assms by (simp add: described_def)
  then obtain d where d: "map_of (collector_descs (pp_instanceID p)) (fst s) = Some d"
    by (metis domD dom_map_of_conv_image_fst)
  then have "length (ds_labels d) = 4"
    using collector_descs_labels(2) map_of_SomeD by (metis image_eqI snd_conv)
  with d have "const_metric (collector_descs (pp_instanceID p)) (metricLabels role cfg) s =
      Ok (Sample (ds_name d) (metricLabels role cfg) (snd s))"
    by (simp add: const_metric_def metricLabels_def)
  then show ?thesis by (simp add: collect_one_def wp_sent)
qed

lemma collect_all_ok:
  "described samples \<Longrightarrow> wp (foreach samples (collect_one lib p (metricLabels role cfg))) (\<lambda>r _. r = Ok ()) w"
proof (rule wp_foreach [where I = "\<lambda>xs _. described xs"])
  fix s rest v
  assume "described (s # rest)"
  then have one: "described [s]" and rest: "described rest" by (simp_all add: described_def)
  show "wp (collect_one lib p (metricLabels role cfg) s)
      (\<lambda>r v'. case r of Ok _ \<Rightarrow> described rest | Err e \<Rightarrow> Err e = Ok () | Panic x \<Rightarrow> Panic x = Ok ()) v"
    by (rule wp_conseq [OF collect_one_ok [OF one]]) (simp add: rest)
qed simp_all

lemma wp_any_bind: "(\<And>x v. wp (n x) Q v) \<Longrightarrow> wp (State_Monad.bind m n) Q w"
  unfolding wp_bind by (simp add: wp_def split: prod.splits)

lemma collectPool_ok: "wp (collectPool lib p role pool cfg) (\<lambda>r _. r = Ok ()) w"
  unfolding collectPool_def by (intro wp_any_bind collect_all_ok samples_described)

text \<open>A query that answers with a row or an error.\<close>

definition answering :: "'w pg_library \<Rightarrow> bool" where
  "answering lib \<longleftrightarrow> (\<forall>pool sql w. wp (li_Query lib pool sql) (\<lambda>r _. \<forall>x. r \<noteq> Panic x) w)"

lemma query_row_no_panic: "answering lib \<Longrightarrow> wp (query_row lib pool sql n) (\<lambda>r _. \<forall>x. r \<noteq> Panic x) w"
  unfolding query_row_def answering_def
  by (rule wp_andThenI [where P = "\<lambda>r _. \<forall>x. r \<noteq> Panic x"]) (auto simp: wp_ok wp_fail)

lemma snapshot_no_panic: "answering lib \<Longrightarrow> wp (collectClusterSnapshot lib pool) (\<lambda>r _. \<forall>x. r \<noteq> Panic x) w"
  unfolding collectClusterSnapshot_def
  by (intro wp_andThenI [OF query_row_no_panic]) (simp_all add: wp_ok)

lemma collectCluster_ok:
  assumes "answering lib"
  shows "wp (collectCluster lib p role pool cfg) (\<lambda>r _. r = Ok ()) w"
proof -
  have one: "wp (andThen (collect_one lib p (metricLabels role cfg) s) k) (\<lambda>r _. r = Ok ()) v"
    if "described [s]" "\<And>u. wp (k ()) (\<lambda>r _. r = Ok ()) u" for s k v
    by (rule wp_andThenI [OF collect_one_ok [OF that(1)]]) (use that(2) in auto)
  show ?thesis
    unfolding collectCluster_def
  proof (rule wp_any_bind, rule wp_callI [OF snapshot_no_panic [OF assms]], goal_cases)
    case (1 startedAt v snapshot u)
    then show ?case
      unfolding sum.case by (intro wp_any_bind one collect_all_ok samples_described)
  next
    case (2 startedAt v e u)
    then show ?case
      unfolding sum.case
      by (intro wp_any_bind one samples_described wp_sent)
  qed simp
qed


section \<open>Examples\<close>

text \<open>Pools numbered as they are made; the second one is refused.\<close>

definition example_pg :: "(nat \<times> nat set) pg_library" where
  "example_pg =
     \<lparr>li_ParseConfig = (\<lambda>_. Inr \<lparr>cp_MaxConns = 4, cp_MinConns = 0, cp_MaxConnLifetime = 0, cp_MaxConnIdleTime = 0, cp_Tracer = None\<rparr>),
      li_NewWithConfig = (\<lambda>cfg. do {
        w \<leftarrow> State_Monad.get;
        (if fst w = 1 \<or> fst w \<in> snd w then fail (NewErr ''connection refused'')
         else after (State_Monad.set (Suc (fst w), insert (fst w) (snd w))) (ok (fst w))) }),
      li_Close = (\<lambda>p. modify (\<lambda>w. (fst w, snd w - {p}))),
      li_Ping = (\<lambda>_. ok ()), li_Acquire = ok, li_Stat = (\<lambda>_. State_Monad.return \<lparr>st_AcquireCount = 0,
        st_AcquireDuration = 0, st_AcquiredConns = 0, st_CanceledAcquireCount = 0, st_ConstructingConns = 0,
        st_EmptyAcquireCount = 0, st_IdleConns = 0, st_MaxConns = 4, st_TotalConns = 0, st_NewConnsCount = 0,
        st_MaxLifetimeDestroyCount = 0, st_MaxIdleDestroyCount = 0\<rparr>),
      li_Query = (\<lambda>_ _. fail (NewErr ''timeout'')), li_NextInstance = State_Monad.return 1, li_NewRef = State_Monad.return 0,
      li_Register = (\<lambda>_ _. State_Monad.return Registered), li_Now = State_Monad.return 0, li_Emit = (\<lambda>_. State_Monad.return ())\<rparr>"

definition example_pg_config :: "bool \<Rightarrow> pg_config" where
  "example_pg_config two =
     \<lparr>pg_Master = example_endpoint ''p'', pg_ReadOnly = (if two then Some (example_endpoint ''q'') else None), pg_RO = None\<rparr>"

lemma NewWithOptions_leaks_no_pool_witness:
  "\<exists>p v. run_state (New_postgres example_pg (Some ()) (Inr ()) [] (Some (example_pg_config False))) (0, {}) = (Ok p, v)
     \<and> snd v = {0} \<and> snd (snd (run_state (Close_postgres example_pg p) v)) = {}
     \<and> (\<exists>e u. run_state (New_postgres example_pg (Some ()) (Inr ()) [] (Some (example_pg_config True))) (0, {}) = (Err e, u)
          \<and> snd u = {})"
proof -
  have pool: "pooling snd example_pg"
    by (auto simp: pooling_def example_pg_def made_def wp_rules quiet_def)
  let ?run = "\<lambda>two. run_state (New_postgres example_pg (Some ()) (Inr ()) [] (Some (example_pg_config two))) (0, {})"
  have "case fst (?run False) of Ok p \<Rightarrow> pp_master p = 0 \<and> pp_readOnly p = 0 | _ \<Rightarrow> False" by code_simp
  then obtain p where p: "fst (?run False) = Ok p" "pp_master p = 0" "pp_readOnly p = 0" by (auto split: outcome.splits)
  then have run: "?run False = (Ok p, snd (?run False))" by (simp add: prod_eq_iff)
  have "case fst (?run True) of Err e \<Rightarrow> True | _ \<Rightarrow> False" by code_simp
  then obtain e where e: "?run True = (Err e, snd (?run True))" by (auto simp: prod_eq_iff split: outcome.splits)
  from NewWithOptions_leaks_no_pool [OF pool run [unfolded New_postgres_def]] p(2,3)
  have "snd (snd (?run False)) = {0}" "snd (snd (run_state (Close_postgres example_pg p) (snd (?run False)))) = {}"
    by (simp_all add: opened_def New_postgres_def)
  moreover from NewWithOptions_leaks_no_pool [OF pool e [unfolded New_postgres_def]] have "snd (snd (?run True)) = {}"
    by (simp add: opened_def New_postgres_def)
  ultimately show ?thesis using run e by blast
qed


end
