(* ===== verification/ServerGrpc.thy ===== *)
theory ServerGrpc
  imports Domain
begin

text \<open>
  pkg/adapters/server_grpc: the gRPC server, the HTTP gateway before it and the application that runs
  both. grpc-go, net/http and the gateway's generated registration functions are the \<open>network\<close>; the
  goroutines are in the theory of their interleavings.
\<close>

section \<open>Channels of errors\<close>

record errs_chan =
  ch_buf :: "err list"
  ch_cap :: nat
  ch_closed :: bool

definition make_chan :: "nat \<Rightarrow> errs_chan" where
  "make_chan n = \<lparr>ch_buf = [], ch_cap = n, ch_closed = False\<rparr>"

definition close_chan :: "errs_chan \<Rightarrow> errs_chan outcome" where
  "close_chan c = (if ch_closed c then Panic ''close of closed channel'' else Ok (c\<lparr>ch_closed := True\<rparr>))"

text \<open>\<open>None\<close>: the goroutine blocks.\<close>

definition send_chan :: "err \<Rightarrow> errs_chan \<Rightarrow> errs_chan outcome option" where
  "send_chan e c =
     (if ch_closed c then Some (Panic ''send on closed channel'')
      else if length (ch_buf c) < ch_cap c then Some (Ok (c\<lparr>ch_buf := ch_buf c @ [e]\<rparr>))
      else None)"

text \<open>The value received, \<open>None\<close> being the nil of a closed channel.\<close>

definition recv_chan :: "errs_chan \<Rightarrow> (err option \<times> errs_chan) option" where
  "recv_chan c =
     (case ch_buf c of
        e # es \<Rightarrow> Some (Some e, c\<lparr>ch_buf := es\<rparr>)
      | [] \<Rightarrow> (if ch_closed c then Some (None, c) else None))"

section \<open>config.go\<close>

record server_config =
  sv_Host :: string
  sv_Port :: int

definition host_port :: "string \<Rightarrow> int \<Rightarrow> string" where
  "host_port host port = host @ '':'' @ int_text port"

definition ServerConfig_String :: "server_config \<Rightarrow> string" where
  "ServerConfig_String s = host_port (sv_Host s) (sv_Port s)"

text \<open>\<open>unspecified\<close> is \<open>net.ParseIP\<close> followed by \<open>IsUnspecified\<close>.\<close>

definition DialAddress :: "(string \<Rightarrow> bool) \<Rightarrow> server_config \<Rightarrow> string" where
  "DialAddress unspecified s =
     (if unspecified (sv_Host s) then host_port ''127.0.0.1'' (sv_Port s)
      else if sv_Host s = [] then host_port ''127.0.0.1'' (sv_Port s)
      else ServerConfig_String s)"

record proxy_config =
  px_Enabled :: bool
  px_Host :: string
  px_Port :: int

definition ProxyConfig_String :: "proxy_config \<Rightarrow> string" where
  "ProxyConfig_String p = host_port (px_Host p) (px_Port p)"

record app_config =
  ac_GRPC :: server_config
  ac_Proxy :: proxy_config

section \<open>The network\<close>

text \<open>
  What the calls of the servers answer: listening at an address, registering a service of the gateway
  over an endpoint or a connection, and dialling, which gives the number of the connection.
\<close>

record network =
  nt_Listen :: "string \<Rightarrow> err + nat"
  nt_RegisterService :: "string \<Rightarrow> string \<Rightarrow> err option"
  nt_Dial :: "string \<Rightarrow> err + nat"
  nt_RegisterConn :: "string \<Rightarrow> nat \<Rightarrow> err option"

section \<open>default_grpc.go\<close>

text \<open>Where the goroutine is that serves: \<open>Serving\<close> is the call of \<open>Serve\<close> or \<open>ListenAndServe\<close>.\<close>

datatype serve_pc = NotServing | Serving | Reporting err | ClosingChan | Served

record grpc_server =
  gs_cfg :: server_config
  gs_registrars :: "string list"
  gs_services :: "string list"
  gs_listener :: "nat option"
  gs_listenerClosed :: bool
  gs_stopped :: bool
  gs_errCh :: errs_chan
  gs_startOnce :: bool
  gs_stopOnce :: bool
  gs_serve :: serve_pc

definition NewGrpcServer :: "server_config \<Rightarrow> grpc_server" where
  "NewGrpcServer cfg =
     \<lparr>gs_cfg = cfg, gs_registrars = [], gs_services = [], gs_listener = None,
      gs_listenerClosed = False, gs_stopped = False,
      gs_errCh = make_chan 1, gs_startOnce = False, gs_stopOnce = False, gs_serve = NotServing\<rparr>"

definition SetListener :: "nat option \<Rightarrow> grpc_server \<Rightarrow> grpc_server" where
  "SetListener lis s = s\<lparr>gs_listener := lis\<rparr>"

text \<open>A registrar is named by the service it registers; \<open>None\<close> is a nil one.\<close>

definition Register_grpc :: "string option list \<Rightarrow> grpc_server \<Rightarrow> grpc_server" where
  "Register_grpc registrars s = s\<lparr>gs_registrars := gs_registrars s @ List.map_filter id registrars\<rparr>"

definition grpc_listen :: "network \<Rightarrow> (grpc_server, unit) go" where
  "grpc_listen net = do {
     s \<leftarrow> State_Monad.get;
     (case gs_listener s of
        Some lis \<Rightarrow> ok ()
      | None \<Rightarrow>
          (case nt_Listen net (ServerConfig_String (gs_cfg s)) of
             Inl e \<Rightarrow>
               (case close_chan (gs_errCh s) of
                  Ok c \<Rightarrow> after (State_Monad.set (s\<lparr>gs_errCh := c\<rparr>))
                            (fail (wrap (''listen tcp '' @ ServerConfig_String (gs_cfg s)) e))
                | Err e \<Rightarrow> fail e
                | Panic p \<Rightarrow> panic p)
           | Inr lis \<Rightarrow> after (State_Monad.set (s\<lparr>gs_listener := Some lis\<rparr>)) (ok ()))) }"

text \<open>\<open>grpc.Server.RegisterService\<close> ends the process for a service that is registered already.\<close>

definition Start_grpc :: "network \<Rightarrow> (grpc_server, unit) go" where
  "Start_grpc net = do {
     started \<leftarrow> reads gs_startOnce;
     (if started then ok ()
      else after (modify (\<lambda>s. s\<lparr>gs_startOnce := True, gs_services := gs_services s @ gs_registrars s\<rparr>))
             (andThen (grpc_listen net) (\<lambda>_.
                after (modify (\<lambda>s. s\<lparr>gs_serve := Serving\<rparr>)) (ok ())))) }"

text \<open>\<open>GracefulStop\<close> waits for the requests that are served and makes \<open>Serve\<close> return.\<close>

definition Close_grpc :: "(grpc_server, unit) go" where
  "Close_grpc =
     after (modify (\<lambda>s. if gs_stopOnce s then s
         else s\<lparr>gs_stopOnce := True, gs_stopped := True, gs_listenerClosed := (gs_listener s \<noteq> None)\<rparr>))
       (ok ())"

text \<open>What \<open>Run\<close> is woken by: the context, or a value of the error channel (nil when it is closed).\<close>

datatype wake = CtxDone err | Notified "err option"

definition Run_grpc :: "network \<Rightarrow> wake \<Rightarrow> (grpc_server, unit) go" where
  "Run_grpc net wake =
     andThen (Start_grpc net) (\<lambda>_.
       andThen Close_grpc (\<lambda>_. case wake of
         CtxDone e \<Rightarrow> fail e
       | Notified None \<Rightarrow> ok ()
       | Notified (Some e) \<Rightarrow> fail e))"

section \<open>grpc_proxy.go\<close>

record http_server =
  hs_Addr :: string
  hs_Handler :: "string list"
  hs_ReadHeaderTimeout :: time
  hs_Shutdown :: bool

text \<open>
  \<open>pr_mux\<close> has the services on the multiplexer with the connection they were given, if any, and
  \<open>pr_closedConns\<close> the connections that were closed.
\<close>

record grpc_proxy =
  pr_cfg :: proxy_config
  pr_endpoint :: string
  pr_mux :: "(string \<times> nat option) list"
  pr_http :: "http_server option"
  pr_dialOptions :: "string list"
  pr_services :: "string list"
  pr_connRegs :: "string list"
  pr_closedConns :: "nat list"
  pr_onceStart :: bool
  pr_stopOnce :: bool
  pr_closeOnce :: bool
  pr_errCh :: errs_chan
  pr_serve :: serve_pc
  pr_closers :: nat

definition defaultProxyDialOptions :: "string list" where
  "defaultProxyDialOptions = [''insecure credentials'', ''trace interceptor'']"

definition NewProxy :: "proxy_config \<Rightarrow> grpc_proxy" where
  "NewProxy cfg =
     \<lparr>pr_cfg = cfg, pr_endpoint = [], pr_mux = [], pr_http = None, pr_dialOptions = defaultProxyDialOptions,
      pr_services = [], pr_connRegs = [], pr_closedConns = [], pr_onceStart = False, pr_stopOnce = False,
      pr_closeOnce = False, pr_errCh = make_chan 1, pr_serve = NotServing, pr_closers = 0\<rparr>"

definition SetMux :: "(string \<times> nat option) list option \<Rightarrow> grpc_proxy \<Rightarrow> grpc_proxy" where
  "SetMux mux p = (case mux of None \<Rightarrow> p | Some m \<Rightarrow> p\<lparr>pr_mux := m\<rparr>)"

definition SetHTTPServer :: "http_server option \<Rightarrow> grpc_proxy \<Rightarrow> grpc_proxy" where
  "SetHTTPServer srv p = p\<lparr>pr_http := srv\<rparr>"

definition SetGRPCEndpoint :: "string \<Rightarrow> grpc_proxy \<Rightarrow> grpc_proxy" where
  "SetGRPCEndpoint endpoint p = p\<lparr>pr_endpoint := endpoint\<rparr>"

definition SetDialOptions :: "string list \<Rightarrow> grpc_proxy \<Rightarrow> grpc_proxy" where
  "SetDialOptions opts p = p\<lparr>pr_dialOptions := opts @ [''trace interceptor'']\<rparr>"

definition AddService :: "string option \<Rightarrow> grpc_proxy \<Rightarrow> grpc_proxy" where
  "AddService reg p = (case reg of None \<Rightarrow> p | Some r \<Rightarrow> p\<lparr>pr_services := pr_services p @ [r]\<rparr>)"

definition AddConnService :: "string option \<Rightarrow> grpc_proxy \<Rightarrow> grpc_proxy" where
  "AddConnService reg p = (case reg of None \<Rightarrow> p | Some r \<Rightarrow> p\<lparr>pr_connRegs := pr_connRegs p @ [r]\<rparr>)"

text \<open>\<open>p.closeOnce.Do(func() { close(p.errCh) })\<close>\<close>

definition proxy_close_once :: "(grpc_proxy, unit) go" where
  "proxy_close_once = do {
     p \<leftarrow> State_Monad.get;
     (if pr_closeOnce p then ok ()
      else case close_chan (pr_errCh p) of
        Ok c \<Rightarrow> after (State_Monad.set (p\<lparr>pr_closeOnce := True, pr_errCh := c\<rparr>)) (ok ())
      | Err e \<Rightarrow> fail e
      | Panic x \<Rightarrow> panic x) }"

definition proxy_register :: "network \<Rightarrow> string \<Rightarrow> (grpc_proxy, unit) go" where
  "proxy_register net reg = do {
     endpoint \<leftarrow> reads pr_endpoint;
     (case nt_RegisterService net reg endpoint of
        Some e \<Rightarrow> fail (wrap ''register service'' e)
      | None \<Rightarrow> after (modify (\<lambda>p. p\<lparr>pr_mux := pr_mux p @ [(reg, None)]\<rparr>)) (ok ())) }"

definition proxy_register_conn :: "network \<Rightarrow> nat \<Rightarrow> string \<Rightarrow> (grpc_proxy, unit) go" where
  "proxy_register_conn net conn reg =
     (case nt_RegisterConn net reg conn of
        Some e \<Rightarrow> fail (wrap ''register conn service'' e)
      | None \<Rightarrow> after (modify (\<lambda>p. p\<lparr>pr_mux := pr_mux p @ [(reg, Some conn)]\<rparr>)) (ok ()))"

text \<open>
  The server that is made when none was set, with the address and the handler. The connection for the
  services that take one is closed by a deferred call, when all of this is done.
\<close>

definition proxy_serve :: "(grpc_proxy, unit) go" where
  "proxy_serve =
     after (modify (\<lambda>p.
         let srv = (case pr_http p of
               None \<Rightarrow> \<lparr>hs_Addr = [], hs_Handler = [], hs_ReadHeaderTimeout = 5 * 1000000000, hs_Shutdown = False\<rparr>
             | Some srv \<Rightarrow> srv) in
         p\<lparr>pr_http := Some (srv\<lparr>hs_Addr := ProxyConfig_String (pr_cfg p), hs_Handler := map fst (pr_mux p)\<rparr>),
           pr_serve := Serving\<rparr>))
       (ok ())"

definition proxy_connect :: "network \<Rightarrow> (grpc_proxy, unit) go" where
  "proxy_connect net = do {
     p \<leftarrow> State_Monad.get;
     (if pr_connRegs p = [] then proxy_serve
      else case nt_Dial net (pr_endpoint p) of
        Inl e \<Rightarrow> fail (wrap (''dial grpc '' @ pr_endpoint p) e)
      | Inr conn \<Rightarrow>
          deferred (andThen (foreach (pr_connRegs p) (proxy_register_conn net conn)) (\<lambda>_. proxy_serve))
            (modify (\<lambda>p. p\<lparr>pr_closedConns := conn # pr_closedConns p\<rparr>))) }"

definition Start_proxy :: "network \<Rightarrow> (grpc_proxy, unit) go" where
  "Start_proxy net = do {
     p \<leftarrow> State_Monad.get;
     (if \<not> px_Enabled (pr_cfg p) then
        (if pr_onceStart p then ok ()
         else after (modify (\<lambda>p. p\<lparr>pr_onceStart := True\<rparr>)) proxy_close_once)
      else if pr_endpoint p = [] then fail (NewErr ''grpc endpoint is not set (use SetGRPCEndpoint)'')
      else if pr_services p = [] \<and> pr_connRegs p = [] then fail (NewErr ''no grpc-gateway services registered'')
      else if pr_onceStart p then ok ()
      else after (modify (\<lambda>p. p\<lparr>pr_onceStart := True\<rparr>))
             (andThen (foreach (pr_services p) (proxy_register net)) (\<lambda>_. proxy_connect net))) }"

text \<open>The goroutine that waits before it closes the channel is counted in \<open>pr_closers\<close>.\<close>

definition Close_proxy :: "(grpc_proxy, unit) go" where
  "Close_proxy = do {
     p \<leftarrow> State_Monad.get;
     (if pr_stopOnce p then ok ()
      else after (modify (\<lambda>p. p\<lparr>pr_stopOnce := True\<rparr>))
        (case pr_http p of
           None \<Rightarrow> proxy_close_once
         | Some srv \<Rightarrow>
             after (modify (\<lambda>p. p\<lparr>pr_http := Some (srv\<lparr>hs_Shutdown := True\<rparr>), pr_closers := pr_closers p + 1\<rparr>))
               (ok ()))) }"

section \<open>app.go\<close>

text \<open>
  A goroutine that forwards an error of a server. The caller is where its one goroutine is between
  the calls of \<open>Start\<close> and \<open>Close\<close>.
\<close>

datatype watch_pc = NotWatching | Watching | Forwarding err | Watched

datatype caller_pc = Fresh | GrpcStarted | Started | StartFailed err | ProxyClosed | GrpcClosed | Closed_app

record server_app =
  sa_grpc :: "grpc_server option"
  sa_proxy :: "grpc_proxy option"
  sa_errCh :: errs_chan
  sa_once :: bool
  sa_watchGrpc :: watch_pc
  sa_watchProxy :: watch_pc
  sa_closers :: nat
  sa_caller :: caller_pc

definition NewApp :: "(string \<Rightarrow> bool) \<Rightarrow> app_config \<Rightarrow> server_app" where
  "NewApp unspecified cfg =
     \<lparr>sa_grpc = Some (NewGrpcServer (ac_GRPC cfg)),
      sa_proxy = (if px_Enabled (ac_Proxy cfg)
                  then Some (SetGRPCEndpoint (DialAddress unspecified (ac_GRPC cfg)) (NewProxy (ac_Proxy cfg)))
                  else None),
      sa_errCh = make_chan 2, sa_once = False, sa_watchGrpc = NotWatching, sa_watchProxy = NotWatching,
      sa_closers = 0, sa_caller = Fresh\<rparr>"

text \<open>A method of one of the servers, called on the application's field.\<close>

definition on_grpc :: "grpc_server \<Rightarrow> (grpc_server, 'a) go \<Rightarrow> (server_app, 'a) go" where
  "on_grpc g m = (case run_state m g of (r, g') \<Rightarrow> do {
     _ \<leftarrow> modify (\<lambda>a. a\<lparr>sa_grpc := Some g'\<rparr>); State_Monad.return r })"

definition on_proxy :: "grpc_proxy \<Rightarrow> (grpc_proxy, 'a) go \<Rightarrow> (server_app, 'a) go" where
  "on_proxy p m = (case run_state m p of (r, p') \<Rightarrow> do {
     _ \<leftarrow> modify (\<lambda>a. a\<lparr>sa_proxy := Some p'\<rparr>); State_Monad.return r })"

definition App_start_grpc :: "network \<Rightarrow> (server_app, unit) go" where
  "App_start_grpc net = do {
     a \<leftarrow> State_Monad.get;
     (case sa_grpc a of
        None \<Rightarrow> fail (NewErr ''grpc server is nil'')
      | Some g \<Rightarrow>
          call (on_grpc g (Start_grpc net)) (\<lambda>r. case r of
            Inl e \<Rightarrow> fail (wrap ''start grpc'' e)
          | Inr _ \<Rightarrow> after (modify (\<lambda>a. a\<lparr>sa_watchGrpc := Watching\<rparr>)) (ok ()))) }"

definition App_close_grpc :: "(server_app, unit) go" where
  "App_close_grpc = do {
     a \<leftarrow> State_Monad.get;
     (case sa_grpc a of None \<Rightarrow> ok () | Some g \<Rightarrow> call (on_grpc g Close_grpc) (\<lambda>_. ok ())) }"

definition App_start_proxy :: "network \<Rightarrow> (server_app, unit) go" where
  "App_start_proxy net = do {
     a \<leftarrow> State_Monad.get;
     (case sa_proxy a of
        None \<Rightarrow> ok ()
      | Some p \<Rightarrow>
          call (on_proxy p (Start_proxy net)) (\<lambda>r. case r of
            Inl e \<Rightarrow> andThen App_close_grpc (\<lambda>_. fail (wrap ''start grpc-proxy'' e))
          | Inr _ \<Rightarrow> after (modify (\<lambda>a. a\<lparr>sa_watchProxy := Watching\<rparr>)) (ok ()))) }"

definition App_Start :: "network \<Rightarrow> (server_app, unit) go" where
  "App_Start net = andThen (App_start_grpc net) (\<lambda>_. App_start_proxy net)"

definition App_close_proxy :: "(server_app, unit) go" where
  "App_close_proxy = do {
     a \<leftarrow> State_Monad.get;
     (case sa_proxy a of None \<Rightarrow> ok () | Some p \<Rightarrow> call (on_proxy p Close_proxy) (\<lambda>_. ok ())) }"

text \<open>The goroutine that waits for the others and closes the error channel of the application.\<close>

definition App_close_later :: "(server_app, unit) go" where
  "App_close_later = after (modify (\<lambda>a. a\<lparr>sa_closers := sa_closers a + 1\<rparr>)) (ok ())"

definition App_Close :: "(server_app, unit) go" where
  "App_Close = andThen App_close_proxy (\<lambda>_. andThen App_close_grpc (\<lambda>_. App_close_later))"

section \<open>Two behaviours of the starts\<close>

text \<open>A start after the first one reports success, also when the first one failed.\<close>

lemma Start_grpc_again: "gs_startOnce g \<Longrightarrow> run_state (Start_grpc net) g = (Ok (), g)"
  by (simp add: Start_grpc_def run_rules)

text \<open>The connections that services of the gateway were given are closed when the start is over.\<close>

definition conns_closed :: "nat list \<Rightarrow> grpc_proxy \<Rightarrow> bool" where
  "conns_closed extra q \<longleftrightarrow>
     (\<forall>s n. (s, Some n) \<in> set (pr_mux q) \<longrightarrow> n \<in> set (extra @ pr_closedConns q))"

lemma conns_closed_register:
  "conns_closed extra p \<Longrightarrow> wp (proxy_register net reg) (\<lambda>_. conns_closed extra) p"
  "conns_closed [conn] p \<Longrightarrow> wp (proxy_register_conn net conn reg) (\<lambda>_. conns_closed [conn]) p"
  by (auto simp: proxy_register_def proxy_register_conn_def wp_rules conns_closed_def split: option.split)

lemma conns_closed_foreach:
  assumes "\<And>x q. conns_closed extra q \<Longrightarrow> wp (body x) (\<lambda>_. conns_closed extra) q" "conns_closed extra p"
  shows "wp (foreach xs body) (\<lambda>_. conns_closed extra) p"
  using assms(2) by (rule wp_foreach) (auto intro: wp_conseq [OF assms(1)] split: outcome.split)

lemma conns_closed_serve: "conns_closed extra p \<Longrightarrow> wp proxy_serve (\<lambda>_. conns_closed extra) p"
  by (simp add: proxy_serve_def wp_rules conns_closed_def Let_def)

lemma conns_closed_connect:
  assumes "conns_closed [] p"
  shows "wp (proxy_connect net) (\<lambda>_. conns_closed []) p"
proof -
  have "wp (deferred (andThen (foreach (pr_connRegs p) (proxy_register_conn net conn)) (\<lambda>_. proxy_serve))
      (modify (\<lambda>p. p\<lparr>pr_closedConns := conn # pr_closedConns p\<rparr>))) (\<lambda>_. conns_closed []) p" for conn
    unfolding wp_deferred
  proof (rule wp_conseq)
    show "wp (andThen (foreach (pr_connRegs p) (proxy_register_conn net conn)) (\<lambda>_. proxy_serve)) (\<lambda>_. conns_closed [conn]) p"
      using assms
      by (intro wp_andThenI [OF conns_closed_foreach [where extra = "[conn]"]])
        (auto intro: conns_closed_register conns_closed_serve simp: conns_closed_def)
  qed (simp add: wp_rules conns_closed_def)
  then show ?thesis
    using assms by (simp add: proxy_connect_def wp_rules conns_closed_serve split: sum.split)
qed

theorem Start_proxy_closes_connections:
  assumes "pr_mux p = []"
  shows "wp (Start_proxy net) (\<lambda>_ q. \<forall>s n. (s, Some n) \<in> set (pr_mux q) \<longrightarrow> n \<in> set (pr_closedConns q)) p"
proof -
  have p: "conns_closed [] (p\<lparr>pr_onceStart := True\<rparr>)" "conns_closed [] p" using assms by (simp_all add: conns_closed_def)
  have close: "wp proxy_close_once (\<lambda>_. conns_closed []) q" if "conns_closed [] q" for q
    using that by (simp add: proxy_close_once_def wp_rules conns_closed_def split: outcome.split)
  have "wp (Start_proxy net) (\<lambda>_. conns_closed []) p"
    unfolding Start_proxy_def wp_bind wp_get
    by (auto simp: wp_after wp_modify wp_ok wp_fail p
        intro!: close wp_andThenI [OF conns_closed_foreach] conns_closed_register conns_closed_connect)
  then show ?thesis by (rule wp_conseq) (simp add: conns_closed_def)
qed

end
