(* ===== verification/ServerLife.thy ===== *)
theory ServerLife
  imports ServerGrpc Quiet
begin

text \<open>
  The goroutines of pkg/adapters/server_grpc: the caller of \<open>Start\<close> and \<open>Close\<close>, the two that serve,
  the two that forward an error, and those that wait before they close a channel. A step is one
  operation of one of them; which one goes next is not determined.
\<close>

section \<open>Steps\<close>

datatype label =
    StartGrpc network | StartProxy network | CloseProxy | CloseGrpc | CloseApp
  | GrpcServe "err option" | GrpcReport | GrpcCloseChan
  | ProxyServe "err option" | ProxyReport | ProxyCloseChan | ProxyWaiter
  | WatchGrpc | ForwardGrpc | WatchProxy | ForwardProxy | AppWaiter
  | Notify

text \<open>A step that is not possible now, the next state, or a panic that ends the process.\<close>

datatype stepped = Blocked | Next server_app | Crash string

text \<open>A call of the caller, after which it is at \<open>finished\<close>; at \<open>failed\<close> when the call gave an error.\<close>

definition caller_step ::
  "(server_app, unit) go \<Rightarrow> caller_pc \<Rightarrow> (err \<Rightarrow> caller_pc) \<Rightarrow> server_app \<Rightarrow> stepped" where
  "caller_step m finished failed a =
     (case run_state m a of
        (Ok _, a') \<Rightarrow> Next (a'\<lparr>sa_caller := finished\<rparr>)
      | (Err e, a') \<Rightarrow> Next (a'\<lparr>sa_caller := failed e\<rparr>)
      | (Panic p, a') \<Rightarrow> Crash p)"

text \<open>The body of \<open>go func() { ... }\<close> in \<open>GrpcServer.Start\<close>.\<close>

definition grpc_returned :: "err option \<Rightarrow> grpc_server \<Rightarrow> grpc_server" where
  "grpc_returned answer g =
     (case answer of
        Some e \<Rightarrow> (if errors_is e (Lib ErrServerStopped) then g\<lparr>gs_serve := ClosingChan\<rparr> else g\<lparr>gs_serve := Reporting e\<rparr>)
      | None \<Rightarrow> g\<lparr>gs_serve := ClosingChan\<rparr>)"

definition grpc_report :: "err \<Rightarrow> grpc_server \<Rightarrow> grpc_server outcome option" where
  "grpc_report e g =
     map_option (\<lambda>r. case r of Ok c \<Rightarrow> Ok (g\<lparr>gs_errCh := c, gs_serve := ClosingChan\<rparr>) | Err x \<Rightarrow> Err x | Panic p \<Rightarrow> Panic p)
       (send_chan e (gs_errCh g))"

definition grpc_close_chan :: "grpc_server \<Rightarrow> grpc_server outcome" where
  "grpc_close_chan g =
     (case close_chan (gs_errCh g) of
        Ok c \<Rightarrow> Ok (g\<lparr>gs_errCh := c, gs_serve := Served\<rparr>) | Err x \<Rightarrow> Err x | Panic p \<Rightarrow> Panic p)"

text \<open>The body of the goroutine of \<open>GrpcProxy.Start\<close>, and the one of \<open>GrpcProxy.Close\<close>.\<close>

definition proxy_returned :: "err option \<Rightarrow> grpc_proxy \<Rightarrow> grpc_proxy" where
  "proxy_returned answer p =
     (case answer of
        Some e \<Rightarrow> (if errors_is e (Lib ErrServerClosed) then p\<lparr>pr_serve := ClosingChan\<rparr> else p\<lparr>pr_serve := Reporting e\<rparr>)
      | None \<Rightarrow> p\<lparr>pr_serve := ClosingChan\<rparr>)"

definition proxy_report :: "err \<Rightarrow> grpc_proxy \<Rightarrow> grpc_proxy outcome option" where
  "proxy_report e p =
     map_option (\<lambda>r. case r of Ok c \<Rightarrow> Ok (p\<lparr>pr_errCh := c, pr_serve := ClosingChan\<rparr>) | Err x \<Rightarrow> Err x | Panic m \<Rightarrow> Panic m)
       (send_chan e (pr_errCh p))"

definition proxy_close_chan :: "grpc_proxy \<Rightarrow> grpc_proxy outcome" where
  "proxy_close_chan p =
     (case run_state proxy_close_once p of
        (Ok _, p') \<Rightarrow> Ok (p'\<lparr>pr_serve := Served\<rparr>) | (Err x, _) \<Rightarrow> Err x | (Panic m, _) \<Rightarrow> Panic m)"

definition proxy_idle :: "grpc_proxy \<Rightarrow> bool" where
  "proxy_idle p \<longleftrightarrow> (case pr_serve p of NotServing \<Rightarrow> True | Served \<Rightarrow> True | _ \<Rightarrow> False)"

definition proxy_waited :: "grpc_proxy \<Rightarrow> grpc_proxy outcome option" where
  "proxy_waited p =
     (if pr_closers p = 0 \<or> \<not> proxy_idle p then None
      else Some (case run_state proxy_close_once p of
        (Ok _, p') \<Rightarrow> Ok (p'\<lparr>pr_closers := pr_closers p' - 1\<rparr>) | (Err x, _) \<Rightarrow> Err x | (Panic m, _) \<Rightarrow> Panic m))"

text \<open>The goroutines of \<open>App.Start\<close>, and the one of \<open>App.Close\<close>.\<close>

definition watched :: "string \<Rightarrow> err option \<Rightarrow> watch_pc" where
  "watched server received = (case received of None \<Rightarrow> Watched | Some e \<Rightarrow> Forwarding (wrap server e))"

definition watching :: "watch_pc \<Rightarrow> bool" where
  "watching w \<longleftrightarrow> (case w of NotWatching \<Rightarrow> False | Watched \<Rightarrow> False | _ \<Rightarrow> True)"

definition app_waited :: "server_app \<Rightarrow> server_app outcome option" where
  "app_waited a =
     (if sa_closers a = 0 \<or> watching (sa_watchGrpc a) \<or> watching (sa_watchProxy a) then None
      else if sa_once a then Some (Ok (a\<lparr>sa_closers := sa_closers a - 1\<rparr>))
      else Some (case close_chan (sa_errCh a) of
        Ok c \<Rightarrow> Ok (a\<lparr>sa_once := True, sa_errCh := c, sa_closers := sa_closers a - 1\<rparr>) | Err x \<Rightarrow> Err x | Panic m \<Rightarrow> Panic m))"

definition stepped_of :: "('a \<Rightarrow> server_app) \<Rightarrow> 'a outcome option \<Rightarrow> stepped" where
  "stepped_of put r =
     (case r of None \<Rightarrow> Blocked | Some (Ok x) \<Rightarrow> Next (put x) | Some (Err e) \<Rightarrow> Crash (err_text e) | Some (Panic p) \<Rightarrow> Crash p)"

definition grpc_step :: "(grpc_server \<Rightarrow> grpc_server outcome option) \<Rightarrow> server_app \<Rightarrow> stepped" where
  "grpc_step f a =
     (case sa_grpc a of None \<Rightarrow> Blocked | Some g \<Rightarrow> stepped_of (\<lambda>g. a\<lparr>sa_grpc := Some g\<rparr>) (f g))"

definition proxy_step :: "(grpc_proxy \<Rightarrow> grpc_proxy outcome option) \<Rightarrow> server_app \<Rightarrow> stepped" where
  "proxy_step f a =
     (case sa_proxy a of None \<Rightarrow> Blocked | Some p \<Rightarrow> stepped_of (\<lambda>p. a\<lparr>sa_proxy := Some p\<rparr>) (f p))"

text \<open>
  The caller starts the application at most once, before it closes it, and may close it as often as
  it likes, also after a failed start or without one.
\<close>

fun app_step :: "label \<Rightarrow> server_app \<Rightarrow> stepped" where
  "app_step (StartGrpc net) a =
     (if sa_caller a = Fresh then caller_step (App_start_grpc net) GrpcStarted StartFailed a else Blocked)"
| "app_step (StartProxy net) a =
     (if sa_caller a = GrpcStarted then caller_step (App_start_proxy net) Started StartFailed a else Blocked)"
| "app_step CloseProxy a =
     (if sa_caller a \<in> {GrpcStarted, ProxyClosed, GrpcClosed} then Blocked
      else caller_step App_close_proxy ProxyClosed (\<lambda>_. ProxyClosed) a)"
| "app_step CloseGrpc a =
     (if sa_caller a = ProxyClosed then caller_step App_close_grpc GrpcClosed (\<lambda>_. GrpcClosed) a else Blocked)"
| "app_step CloseApp a =
     (if sa_caller a = GrpcClosed then caller_step App_close_later Closed_app (\<lambda>_. Closed_app) a else Blocked)"
| "app_step (GrpcServe answer) a =
     grpc_step (\<lambda>g. if gs_serve g = Serving then Some (Ok (grpc_returned answer g)) else None) a"
| "app_step GrpcReport a =
     grpc_step (\<lambda>g. case gs_serve g of Reporting e \<Rightarrow> grpc_report e g | _ \<Rightarrow> None) a"
| "app_step GrpcCloseChan a =
     grpc_step (\<lambda>g. if gs_serve g = ClosingChan then Some (grpc_close_chan g) else None) a"
| "app_step (ProxyServe answer) a =
     proxy_step (\<lambda>p. if pr_serve p = Serving then Some (Ok (proxy_returned answer p)) else None) a"
| "app_step ProxyReport a =
     proxy_step (\<lambda>p. case pr_serve p of Reporting e \<Rightarrow> proxy_report e p | _ \<Rightarrow> None) a"
| "app_step ProxyCloseChan a =
     proxy_step (\<lambda>p. if pr_serve p = ClosingChan then Some (proxy_close_chan p) else None) a"
| "app_step ProxyWaiter a = proxy_step proxy_waited a"
| "app_step WatchGrpc a =
     (case sa_grpc a of
        None \<Rightarrow> Blocked
      | Some g \<Rightarrow>
          (if sa_watchGrpc a = Watching then
             (case recv_chan (gs_errCh g) of
                None \<Rightarrow> Blocked
              | Some (x, c) \<Rightarrow> Next (a\<lparr>sa_grpc := Some (g\<lparr>gs_errCh := c\<rparr>), sa_watchGrpc := watched ''grpc'' x\<rparr>))
           else Blocked))"
| "app_step ForwardGrpc a =
     (case sa_watchGrpc a of
        Forwarding e \<Rightarrow> stepped_of (\<lambda>c. a\<lparr>sa_errCh := c, sa_watchGrpc := Watched\<rparr>) (send_chan e (sa_errCh a))
      | _ \<Rightarrow> Blocked)"
| "app_step WatchProxy a =
     (case sa_proxy a of
        None \<Rightarrow> Blocked
      | Some p \<Rightarrow>
          (if sa_watchProxy a = Watching then
             (case recv_chan (pr_errCh p) of
                None \<Rightarrow> Blocked
              | Some (x, c) \<Rightarrow> Next (a\<lparr>sa_proxy := Some (p\<lparr>pr_errCh := c\<rparr>), sa_watchProxy := watched ''grpc-proxy'' x\<rparr>))
           else Blocked))"
| "app_step ForwardProxy a =
     (case sa_watchProxy a of
        Forwarding e \<Rightarrow> stepped_of (\<lambda>c. a\<lparr>sa_errCh := c, sa_watchProxy := Watched\<rparr>) (send_chan e (sa_errCh a))
      | _ \<Rightarrow> Blocked)"
| "app_step AppWaiter a = stepped_of (\<lambda>a. a) (app_waited a)"
| "app_step Notify a =
     (case recv_chan (sa_errCh a) of None \<Rightarrow> Blocked | Some (x, c) \<Rightarrow> Next (a\<lparr>sa_errCh := c\<rparr>))"

text \<open>The states an application reaches, and a run.\<close>

inductive app_reaches :: "server_app \<Rightarrow> server_app \<Rightarrow> bool" for a where
  app_start: "app_reaches a a"
| app_steps: "app_reaches a b \<Longrightarrow> app_step l b = Next c \<Longrightarrow> app_reaches a c"

fun app_run :: "label list \<Rightarrow> server_app \<Rightarrow> stepped" where
  "app_run [] a = Next a"
| "app_run (l # ls) a = (case app_step l a of Next b \<Rightarrow> app_run ls b | r \<Rightarrow> r)"

text \<open>The application as the services set it up: made, with its registrars and the services of its gateway.\<close>

definition set_up_app ::
  "(string \<Rightarrow> bool) \<Rightarrow> app_config \<Rightarrow> string option list \<Rightarrow> string option list \<Rightarrow> string option list \<Rightarrow> server_app" where
  "set_up_app unspecified cfg registrars services connServices =
     (let a = NewApp unspecified cfg in
      a\<lparr>sa_grpc := map_option (Register_grpc registrars) (sa_grpc a),
        sa_proxy := map_option (fold AddConnService connServices \<circ> fold AddService services \<circ> SetMux (Some [])) (sa_proxy a)\<rparr>)"

section \<open>What every step keeps\<close>

text \<open>The channel of a server is open while its goroutine may write to it.\<close>

definition grpc_inv :: "grpc_server \<Rightarrow> bool" where
  "grpc_inv g \<longleftrightarrow> ch_cap (gs_errCh g) = 1 \<and> (gs_serve g \<noteq> NotServing \<longrightarrow> gs_startOnce g)
     \<and> (case gs_serve g of
          NotServing \<Rightarrow> ch_buf (gs_errCh g) = [] \<and> (ch_closed (gs_errCh g) \<longrightarrow> gs_startOnce g)
        | Serving \<Rightarrow> ch_buf (gs_errCh g) = [] \<and> \<not> ch_closed (gs_errCh g)
        | Reporting e \<Rightarrow> ch_buf (gs_errCh g) = [] \<and> \<not> ch_closed (gs_errCh g)
        | ClosingChan \<Rightarrow> \<not> ch_closed (gs_errCh g)
        | Served \<Rightarrow> ch_closed (gs_errCh g))"

definition proxy_inv :: "grpc_proxy \<Rightarrow> bool" where
  "proxy_inv p \<longleftrightarrow> ch_cap (pr_errCh p) = 1 \<and> ch_closed (pr_errCh p) = pr_closeOnce p
     \<and> (pr_serve p \<noteq> NotServing \<longrightarrow> pr_http p \<noteq> None \<and> pr_onceStart p)
     \<and> (case pr_serve p of
          NotServing \<Rightarrow> ch_buf (pr_errCh p) = []
        | Serving \<Rightarrow> ch_buf (pr_errCh p) = [] \<and> \<not> pr_closeOnce p
        | Reporting e \<Rightarrow> ch_buf (pr_errCh p) = [] \<and> \<not> pr_closeOnce p
        | ClosingChan \<Rightarrow> \<not> pr_closeOnce p
        | Served \<Rightarrow> pr_closeOnce p)"

text \<open>A forwarding goroutine has a server that has ended or will end; before \<open>Start\<close> nothing has happened.\<close>

definition grpc_ends :: "grpc_server \<Rightarrow> bool" where
  "grpc_ends g \<longleftrightarrow> gs_serve g \<noteq> NotServing \<or> ch_closed (gs_errCh g)"

definition proxy_ends :: "grpc_proxy \<Rightarrow> bool" where
  "proxy_ends p \<longleftrightarrow> pr_serve p \<noteq> NotServing \<or> pr_closeOnce p"

definition proxy_unused :: "grpc_proxy \<Rightarrow> bool" where
  "proxy_unused p \<longleftrightarrow> \<not> pr_onceStart p \<and> \<not> pr_closeOnce p \<and> pr_closers p = 0"

definition forwarded :: "watch_pc \<Rightarrow> nat" where
  "forwarded w = (if w = Watched then 1 else 0)"

lemma watch_simps [simp]:
  "watching Watching" "watching (Forwarding e)" "\<not> watching NotWatching" "\<not> watching Watched"
  "forwarded Watching = 0" "forwarded (Forwarding e) = 0" "forwarded NotWatching = 0" "forwarded Watched = 1"
  by (simp_all add: watching_def forwarded_def)

lemma forwarded_watching: "watching w \<Longrightarrow> forwarded w = 0"
  by (auto simp: watching_def forwarded_def)

fun grpc_fits :: "watch_pc \<Rightarrow> caller_pc \<Rightarrow> grpc_server option \<Rightarrow> bool" where
  "grpc_fits w c None \<longleftrightarrow> w = NotWatching"
| "grpc_fits w c (Some g) \<longleftrightarrow> grpc_inv g \<and> (w \<noteq> NotWatching \<longrightarrow> grpc_ends g) \<and> (c = Fresh \<longrightarrow> \<not> gs_startOnce g)"

fun proxy_fits :: "watch_pc \<Rightarrow> caller_pc \<Rightarrow> grpc_proxy option \<Rightarrow> bool" where
  "proxy_fits w c None \<longleftrightarrow> w = NotWatching"
| "proxy_fits w c (Some p) \<longleftrightarrow>
     proxy_inv p \<and> (w \<noteq> NotWatching \<longrightarrow> proxy_ends p) \<and> (c \<in> {Fresh, GrpcStarted} \<longrightarrow> proxy_unused p)"

lemma fits_later:
  "grpc_fits w c g \<Longrightarrow> c' \<noteq> Fresh \<Longrightarrow> grpc_fits w c' g"
  "proxy_fits w c p \<Longrightarrow> c' \<noteq> Fresh \<Longrightarrow> c' \<noteq> GrpcStarted \<or> c = Fresh \<Longrightarrow> proxy_fits w c' p"
  by (cases g; simp) (cases p; auto)

definition grpc_ok :: "server_app \<Rightarrow> bool" where
  "grpc_ok a \<longleftrightarrow> grpc_fits (sa_watchGrpc a) (sa_caller a) (sa_grpc a)"

definition proxy_ok :: "server_app \<Rightarrow> bool" where
  "proxy_ok a \<longleftrightarrow> proxy_fits (sa_watchProxy a) (sa_caller a) (sa_proxy a)"

definition channel_ok :: "server_app \<Rightarrow> bool" where
  "channel_ok a \<longleftrightarrow> ch_cap (sa_errCh a) = 2 \<and> ch_closed (sa_errCh a) = sa_once a
     \<and> (sa_once a \<longrightarrow> \<not> watching (sa_watchGrpc a) \<and> \<not> watching (sa_watchProxy a))
     \<and> length (ch_buf (sa_errCh a)) \<le> forwarded (sa_watchGrpc a) + forwarded (sa_watchProxy a)
     \<and> (sa_caller a \<in> {Fresh, GrpcStarted} \<longrightarrow> sa_closers a = 0 \<and> \<not> sa_once a)
     \<and> (sa_caller a = Fresh \<longrightarrow> sa_watchGrpc a = NotWatching)
     \<and> (sa_caller a \<in> {Fresh, GrpcStarted} \<longrightarrow> sa_watchProxy a = NotWatching)
     \<and> (sa_caller a = Closed_app \<longrightarrow> sa_closers a > 0 \<or> sa_once a)"

definition app_inv :: "server_app \<Rightarrow> bool" where
  "app_inv a \<longleftrightarrow> grpc_ok a \<and> proxy_ok a \<and> channel_ok a"

lemmas app_inv_defs = app_inv_def grpc_ok_def proxy_ok_def channel_ok_def

definition steps_well :: "stepped \<Rightarrow> bool" where
  "steps_well s \<longleftrightarrow> (case s of Blocked \<Rightarrow> True | Next a \<Rightarrow> app_inv a | Crash p \<Rightarrow> False)"

lemma steps_well_simps [simp]:
  "steps_well Blocked" "steps_well (Next a) \<longleftrightarrow> app_inv a" "\<not> steps_well (Crash p)"
  by (simp_all add: steps_well_def)

subsection \<open>The calls of the servers\<close>

lemma close_chan_open: "\<not> ch_closed c \<Longrightarrow> close_chan c = Ok (c\<lparr>ch_closed := True\<rparr>)"
  by (simp add: close_chan_def)

lemma proxy_close_once_run:
  "proxy_inv p \<Longrightarrow> run_state proxy_close_once p =
     (Ok (), if pr_closeOnce p then p else p\<lparr>pr_closeOnce := True, pr_errCh := (pr_errCh p)\<lparr>ch_closed := True\<rparr>\<rparr>)"
  by (simp add: proxy_close_once_def run_rules proxy_inv_def close_chan_def split: outcome.split)

lemma Start_grpc_wp:
  assumes "grpc_inv g" "\<not> gs_startOnce g"
  shows "wp (Start_grpc net) (\<lambda>r g'. grpc_inv g' \<and> (\<forall>x. r \<noteq> Panic x) \<and> (r = Ok () \<longrightarrow> gs_serve g' = Serving)) g"
  using assms
  by (auto simp: Start_grpc_def grpc_listen_def wp_rules grpc_inv_def close_chan_def
      split: option.split sum.split serve_pc.splits)

text \<open>What the registration of the gateway's services changes.\<close>

definition registering :: "grpc_proxy \<Rightarrow> unit outcome \<Rightarrow> grpc_proxy \<Rightarrow> bool" where
  "registering p r q \<longleftrightarrow> (\<forall>x. r \<noteq> Panic x) \<and> (\<exists>m. q = p\<lparr>pr_mux := m\<rparr>)"

lemma proxy_register_wp: "wp (proxy_register net reg) (registering p) p"
  "wp (proxy_register_conn net conn reg) (registering p) p"
  by (auto simp: proxy_register_def proxy_register_conn_def wp_rules registering_def split: option.split)
    (metis grpc_proxy.surjective grpc_proxy.update_convs(3))+

lemma foreach_registering:
  assumes "\<And>x q. wp (body x) (registering q) q"
  shows "wp (foreach xs body) (registering p) p"
proof (induction xs arbitrary: p)
  case Nil
  show ?case by (simp add: wp_ok registering_def) (metis grpc_proxy.surjective grpc_proxy.update_convs(3))
next
  case (Cons x xs)
  show ?case
    unfolding foreach.simps
    by (rule wp_andThenI [OF assms])
      (auto simp: registering_def intro!: wp_conseq [OF Cons.IH])
qed

lemma proxy_inv_frame [simp]:
  "proxy_inv (p\<lparr>pr_closedConns := c\<rparr>) = proxy_inv p" "proxy_ends (p\<lparr>pr_closedConns := c\<rparr>) = proxy_ends p"
  "proxy_inv (p\<lparr>pr_stopOnce := b\<rparr>) = proxy_inv p" "proxy_inv (p\<lparr>pr_closers := n\<rparr>) = proxy_inv p"
  "proxy_ends (p\<lparr>pr_stopOnce := b\<rparr>) = proxy_ends p" "proxy_ends (p\<lparr>pr_closers := n\<rparr>) = proxy_ends p"
  by (simp_all add: proxy_inv_def proxy_ends_def split: serve_pc.split)

text \<open>A gateway that is started: it serves, or its channel is closed, or there was an error.\<close>

definition proxy_started :: "unit outcome \<Rightarrow> grpc_proxy \<Rightarrow> bool" where
  "proxy_started r q \<longleftrightarrow> proxy_inv q \<and> (\<forall>x. r \<noteq> Panic x) \<and> (r = Ok () \<longrightarrow> proxy_ends q)"

lemma proxy_serve_wp:
  "proxy_inv p \<Longrightarrow> \<not> pr_closeOnce p \<Longrightarrow> pr_onceStart p \<Longrightarrow> pr_serve p = NotServing \<Longrightarrow> wp proxy_serve proxy_started p"
  by (simp add: proxy_serve_def wp_rules proxy_started_def proxy_inv_def proxy_ends_def Let_def)

lemma registering_proxy:
  "registering p r q \<Longrightarrow> proxy_inv p \<Longrightarrow> \<not> pr_closeOnce p \<Longrightarrow> pr_onceStart p \<Longrightarrow> pr_serve p = NotServing \<Longrightarrow>
   (\<forall>x. r \<noteq> Panic x) \<and> proxy_inv q \<and> \<not> pr_closeOnce q \<and> pr_onceStart q \<and> pr_serve q = NotServing"
  by (auto simp: registering_def proxy_inv_def)

lemma proxy_connect_wp:
  assumes p: "proxy_inv p" "\<not> pr_closeOnce p" "pr_onceStart p" "pr_serve p = NotServing"
  shows "wp (proxy_connect net) proxy_started p"
proof (cases "pr_connRegs p = []")
  case True
  with proxy_serve_wp [OF p] show ?thesis by (simp add: proxy_connect_def wp_rules)
next
  case False
  have reg: "wp (andThen (foreach (pr_connRegs p) (proxy_register_conn net conn)) (\<lambda>_. proxy_serve)) proxy_started p" for conn
    by (rule wp_andThenI [OF foreach_registering [OF proxy_register_wp(2)]])
      (use registering_proxy [OF _ p] in \<open>auto intro!: proxy_serve_wp simp: proxy_started_def\<close>)
  have "wp (deferred (andThen (foreach (pr_connRegs p) (proxy_register_conn net conn)) (\<lambda>_. proxy_serve))
      (modify (\<lambda>p. p\<lparr>pr_closedConns := conn # pr_closedConns p\<rparr>))) proxy_started p" for conn
    unfolding wp_deferred by (rule wp_conseq [OF reg])
      (simp add: wp_rules proxy_started_def)
  with False p show ?thesis
    by (simp add: proxy_connect_def wp_rules proxy_started_def split: sum.split)
qed

lemma Start_proxy_wp:
  assumes "proxy_inv p" "proxy_unused p"
  shows "wp (Start_proxy net) proxy_started p"
proof -
  have fresh: "\<not> pr_onceStart p" "\<not> pr_closeOnce p" "pr_serve p = NotServing"
    using assms by (auto simp: proxy_unused_def proxy_inv_def)
  let ?p = "p\<lparr>pr_onceStart := True\<rparr>"
  have p: "proxy_inv ?p" "\<not> pr_closeOnce ?p" "pr_onceStart ?p" "pr_serve ?p = NotServing"
    using assms(1) fresh by (simp_all add: proxy_inv_def)
  have on: "wp (andThen (foreach (pr_services p) (proxy_register net)) (\<lambda>_. proxy_connect net)) proxy_started ?p"
    by (rule wp_andThenI [OF foreach_registering [OF proxy_register_wp(1)]])
      (use registering_proxy [OF _ p] in \<open>auto intro!: proxy_connect_wp simp: proxy_started_def\<close>)
  have off: "wp proxy_close_once proxy_started ?p"
    using proxy_close_once_run [OF p(1)] p
    by (simp add: wp_def proxy_started_def proxy_inv_def proxy_ends_def)
  from on off fresh assms(1) show ?thesis
    by (simp add: Start_proxy_def wp_rules proxy_started_def)
qed

lemma Close_grpc_wp:
  "grpc_inv g \<Longrightarrow> wp Close_grpc (\<lambda>r g'. r = Ok () \<and> grpc_inv g' \<and> (grpc_ends g \<longrightarrow> grpc_ends g') \<and> gs_stopped g' \<or>
     gs_stopOnce g \<and> r = Ok () \<and> g' = g) g"
  by (auto simp: Close_grpc_def wp_rules grpc_inv_def grpc_ends_def split: serve_pc.splits)

lemma Close_proxy_wp:
  assumes "proxy_inv p"
  shows "wp Close_proxy (\<lambda>r q. r = Ok () \<and> proxy_inv q \<and> (proxy_ends p \<longrightarrow> proxy_ends q)) p"
proof -
  have p: "proxy_inv (p\<lparr>pr_stopOnce := True\<rparr>)" using assms by simp
  from assms show ?thesis
    by (auto simp: Close_proxy_def wp_rules wp_def proxy_close_once_run [OF p] proxy_inv_def proxy_ends_def run_rules
        split: option.splits serve_pc.splits)
qed

subsection \<open>The steps of the caller\<close>

lemma wp_on [wp_rules]:
  "wp (on_grpc g m) Q a = wp m (\<lambda>r g'. Q r (a\<lparr>sa_grpc := Some g'\<rparr>)) g"
  "wp (on_proxy p n) R a = wp n (\<lambda>r p'. R r (a\<lparr>sa_proxy := Some p'\<rparr>)) p"
  by (simp_all add: on_grpc_def on_proxy_def wp_def modify_def split: prod.split)

lemma caller_step_well:
  assumes "wp m (\<lambda>r b. case r of Ok _ \<Rightarrow> app_inv (b\<lparr>sa_caller := finished\<rparr>) | Err e \<Rightarrow> app_inv (b\<lparr>sa_caller := failed e\<rparr>)
      | Panic p \<Rightarrow> False) a"
  shows "steps_well (caller_step m finished failed a)"
  using assms by (auto simp: caller_step_def wp_def split: prod.splits outcome.splits)

lemma StartGrpc_well:
  assumes "app_inv a" "sa_caller a = Fresh"
  shows "steps_well (caller_step (App_start_grpc net) GrpcStarted StartFailed a)"
proof (rule caller_step_well)
  show "wp (App_start_grpc net) (\<lambda>r b. case r of Ok _ \<Rightarrow> app_inv (b\<lparr>sa_caller := GrpcStarted\<rparr>)
      | Err e \<Rightarrow> app_inv (b\<lparr>sa_caller := StartFailed e\<rparr>) | Panic p \<Rightarrow> False) a"
  proof (cases "sa_grpc a")
    case None
    with assms show ?thesis
      by (auto simp: App_start_grpc_def wp_rules app_inv_defs intro: fits_later)
  next
    case (Some g)
    with assms have g: "grpc_inv g" "\<not> gs_startOnce g" by (simp_all add: app_inv_def grpc_ok_def)
    from Some assms show ?thesis
      unfolding App_start_grpc_def wp_bind wp_get
      by (auto simp: wp_rules app_inv_defs grpc_ends_def intro!: wp_conseq [OF Start_grpc_wp [OF g]] intro: fits_later
          split: outcome.splits)
  qed
qed

text \<open>Closing keeps the invariant; the caller is then at a later place, where less is asked.\<close>

definition later :: "caller_pc \<Rightarrow> bool" where
  "later c \<longleftrightarrow> (case c of Fresh \<Rightarrow> False | GrpcStarted \<Rightarrow> False | Closed_app \<Rightarrow> False | _ \<Rightarrow> True)"

lemma app_inv_later: "app_inv a \<Longrightarrow> later c \<Longrightarrow> app_inv (a\<lparr>sa_caller := c\<rparr>)"
proof -
  assume a: "app_inv a" and "later c"
  then have c: "c \<noteq> Fresh" "c \<noteq> GrpcStarted" "c \<noteq> Closed_app" by (auto simp: later_def)
  from a have f: "grpc_fits (sa_watchGrpc a) (sa_caller a) (sa_grpc a)"
      "proxy_fits (sa_watchProxy a) (sa_caller a) (sa_proxy a)"
    by (simp_all add: app_inv_defs)
  have "grpc_fits (sa_watchGrpc a) c (sa_grpc a)" "proxy_fits (sa_watchProxy a) c (sa_proxy a)"
    using c by (auto intro: fits_later(1) [OF f(1)] fits_later(2) [OF f(2)])
  with a c show ?thesis by (simp add: app_inv_defs)
qed

lemma proxy_ok_frame [simp]: "proxy_ok (a\<lparr>sa_grpc := g\<rparr>) = proxy_ok a" "grpc_ok (a\<lparr>sa_proxy := p\<rparr>) = grpc_ok a"
    "channel_ok (a\<lparr>sa_grpc := g\<rparr>) = channel_ok a" "channel_ok (a\<lparr>sa_proxy := p\<rparr>) = channel_ok a"
  by (simp_all add: grpc_ok_def proxy_ok_def channel_ok_def)

lemma caller_last:
  "a\<lparr>sa_caller := c, sa_grpc := g\<rparr> = a\<lparr>sa_grpc := g, sa_caller := c\<rparr>"
  "a\<lparr>sa_caller := c, sa_proxy := p\<rparr> = a\<lparr>sa_proxy := p, sa_caller := c\<rparr>"
  by simp_all

text \<open>A server is replaced by the same server after a call or a step of its goroutine.\<close>

definition grpc_after :: "grpc_server \<Rightarrow> grpc_server \<Rightarrow> bool" where
  "grpc_after g h \<longleftrightarrow> grpc_inv h \<and> (grpc_ends g \<longrightarrow> grpc_ends h) \<and> gs_startOnce h = gs_startOnce g"

definition proxy_after :: "grpc_proxy \<Rightarrow> grpc_proxy \<Rightarrow> bool" where
  "proxy_after p q \<longleftrightarrow> proxy_inv q \<and> (proxy_ends p \<longrightarrow> proxy_ends q)"

lemma app_inv_grpc:
  "app_inv a \<Longrightarrow> sa_grpc a = Some g \<Longrightarrow> grpc_after g h \<Longrightarrow> app_inv (a\<lparr>sa_grpc := Some h\<rparr>)"
  by (simp add: app_inv_def) (simp add: grpc_ok_def grpc_after_def)

lemma app_inv_proxy:
  "app_inv a \<Longrightarrow> sa_proxy a = Some p \<Longrightarrow> proxy_after p q \<Longrightarrow>
   (sa_caller a \<in> {Fresh, GrpcStarted} \<longrightarrow> proxy_unused q) \<Longrightarrow> app_inv (a\<lparr>sa_proxy := Some q\<rparr>)"
  by (simp add: app_inv_def) (simp add: proxy_ok_def proxy_after_def)

lemma app_inv_servers:
  "app_inv a \<Longrightarrow> sa_grpc a = Some g \<Longrightarrow> grpc_inv g" "app_inv a \<Longrightarrow> sa_proxy a = Some p \<Longrightarrow> proxy_inv p"
  by (simp_all add: app_inv_defs)

lemma App_close_grpc_wp:
  assumes "app_inv (a\<lparr>sa_caller := c\<rparr>)"
  shows "wp App_close_grpc (\<lambda>r b. r = Ok () \<and> app_inv (b\<lparr>sa_caller := c\<rparr>)) a"
proof (cases "sa_grpc a")
  case None
  then show ?thesis using assms by (simp add: App_close_grpc_def wp_rules)
next
  case (Some g)
  have "grpc_inv g" using app_inv_servers(1) [OF assms] Some by simp
  then have "wp Close_grpc (\<lambda>r h. r = Ok () \<and> grpc_after g h) g"
    by (auto simp: Close_grpc_def wp_rules grpc_inv_def grpc_ends_def grpc_after_def split: serve_pc.splits)
  then have "wp Close_grpc (\<lambda>r h. r = Ok () \<and> app_inv (a\<lparr>sa_grpc := Some h, sa_caller := c\<rparr>)) g"
    by (rule wp_conseq) (use app_inv_grpc [OF assms] Some in \<open>simp add: caller_last\<close>)
  then show ?thesis
    unfolding App_close_grpc_def wp_bind wp_get Some option.case
    by (intro wp_callI [where P = "\<lambda>r b. r = Ok () \<and> app_inv (b\<lparr>sa_caller := c\<rparr>)"])
      (simp_all add: wp_rules)
qed

lemma App_close_proxy_wp:
  assumes "app_inv a" "sa_caller a \<noteq> GrpcStarted"
  shows "wp App_close_proxy (\<lambda>r b. r = Ok () \<and> app_inv (b\<lparr>sa_caller := ProxyClosed\<rparr>)) a"
proof -
  have closed: "app_inv (a\<lparr>sa_caller := ProxyClosed\<rparr>)" using assms(1) by (simp add: app_inv_later later_def)
  show ?thesis
  proof (cases "sa_proxy a")
    case None
    with closed show ?thesis by (simp add: App_close_proxy_def wp_rules)
  next
    case (Some p)
    have "wp Close_proxy (\<lambda>r q. r = Ok () \<and> app_inv (a\<lparr>sa_proxy := Some q, sa_caller := ProxyClosed\<rparr>)) p"
      by (rule wp_conseq [OF Close_proxy_wp [OF app_inv_servers(2) [OF assms(1) Some]]])
        (use app_inv_proxy [OF closed] Some in \<open>simp add: proxy_after_def caller_last\<close>)
    then show ?thesis
      unfolding App_close_proxy_def wp_bind wp_get Some option.case
      by (intro wp_callI [where P = "\<lambda>r b. r = Ok () \<and> app_inv (b\<lparr>sa_caller := ProxyClosed\<rparr>)"])
        (simp_all add: wp_rules)
  qed
qed

lemma StartProxy_well:
  assumes "app_inv a" "sa_caller a = GrpcStarted"
  shows "steps_well (caller_step (App_start_proxy net) Started StartFailed a)"
proof (rule caller_step_well, cases "sa_proxy a")
  case None
  with app_inv_later [OF assms(1)]
  show "wp (App_start_proxy net) (\<lambda>r b. case r of Ok _ \<Rightarrow> app_inv (b\<lparr>sa_caller := Started\<rparr>)
      | Err e \<Rightarrow> app_inv (b\<lparr>sa_caller := StartFailed e\<rparr>) | Panic p \<Rightarrow> False) a"
    by (simp add: App_start_proxy_def wp_rules later_def)
next
  case (Some p)
  with assms have p: "proxy_inv p" "proxy_unused p" by (simp_all add: app_inv_defs)
  show "wp (App_start_proxy net) (\<lambda>r b. case r of Ok _ \<Rightarrow> app_inv (b\<lparr>sa_caller := Started\<rparr>)
      | Err e \<Rightarrow> app_inv (b\<lparr>sa_caller := StartFailed e\<rparr>) | Panic p \<Rightarrow> False) a"
    unfolding App_start_proxy_def wp_bind wp_get Some option.case
  proof (rule wp_callI [where P = "\<lambda>r b. \<exists>q. b = a\<lparr>sa_proxy := Some q\<rparr> \<and> proxy_started r q"], goal_cases)
    case 1
    show ?case by (auto simp: wp_on intro!: wp_conseq [OF Start_proxy_wp [OF p]])
  next
    case (2 x b)
    then obtain q where q: "b = a\<lparr>sa_proxy := Some q\<rparr>" "proxy_inv q" "proxy_ends q" by (auto simp: proxy_started_def)
    then show ?case
      using assms by (cases "sa_grpc a") (auto simp: wp_rules app_inv_defs)
  next
    case (3 e b)
    then have "app_inv (b\<lparr>sa_caller := StartFailed (wrap ''start grpc-proxy'' e)\<rparr>)"
      using assms by (cases "sa_grpc a") (auto simp: app_inv_defs proxy_started_def)
    from App_close_grpc_wp [OF this] show ?case
      unfolding sum.case by (rule wp_andThenI) (simp_all add: wp_fail)
  next
    case (4 x b)
    then show ?case by (auto simp: proxy_started_def)
  qed
qed

lemma Close_well:
  assumes "app_inv a"
  shows "sa_caller a \<noteq> GrpcStarted \<Longrightarrow> steps_well (caller_step App_close_proxy ProxyClosed (\<lambda>_. ProxyClosed) a)"
    and "steps_well (caller_step App_close_grpc GrpcClosed (\<lambda>_. GrpcClosed) a)"
    and "sa_caller a = GrpcClosed \<Longrightarrow> steps_well (caller_step App_close_later Closed_app (\<lambda>_. Closed_app) a)"
proof -
  show "sa_caller a \<noteq> GrpcStarted \<Longrightarrow> steps_well (caller_step App_close_proxy ProxyClosed (\<lambda>_. ProxyClosed) a)"
    by (rule caller_step_well) (auto elim!: wp_conseq [OF App_close_proxy_wp [OF assms]])
  have "app_inv (a\<lparr>sa_caller := GrpcClosed\<rparr>)" using assms by (simp add: app_inv_later later_def)
  then show "steps_well (caller_step App_close_grpc GrpcClosed (\<lambda>_. GrpcClosed) a)"
    by (intro caller_step_well) (auto intro: wp_conseq [OF App_close_grpc_wp])
  show "sa_caller a = GrpcClosed \<Longrightarrow> steps_well (caller_step App_close_later Closed_app (\<lambda>_. Closed_app) a)"
    using assms by (intro caller_step_well)
      (auto simp: App_close_later_def wp_rules app_inv_defs intro: fits_later)
qed

subsection \<open>The steps of the goroutines\<close>

lemma grpc_step_well:
  assumes "app_inv a"
    and "\<And>g. grpc_inv g \<Longrightarrow> (case f g of None \<Rightarrow> True | Some (Ok h) \<Rightarrow> grpc_after g h | _ \<Rightarrow> False)"
  shows "steps_well (grpc_step f a)"
proof (cases "sa_grpc a")
  case (Some g)
  from assms(2) [OF app_inv_servers(1) [OF assms(1) Some]] Some app_inv_grpc [OF assms(1) Some] show ?thesis
    by (simp add: grpc_step_def stepped_of_def split: option.splits outcome.splits)
qed (simp add: grpc_step_def)

lemma proxy_step_well:
  assumes "app_inv a"
    and "\<And>p. proxy_inv p \<Longrightarrow>
      (case f p of None \<Rightarrow> True | Some (Ok q) \<Rightarrow> proxy_after p q \<and> \<not> proxy_unused p | _ \<Rightarrow> False)"
  shows "steps_well (proxy_step f a)"
proof (cases "sa_proxy a")
  case (Some p)
  then have "sa_caller a \<in> {Fresh, GrpcStarted} \<longrightarrow> proxy_unused p"
    using assms(1) by (simp add: app_inv_defs)
  with assms(2) [OF app_inv_servers(2) [OF assms(1) Some]] Some app_inv_proxy [OF assms(1) Some] show ?thesis
    by (simp add: proxy_step_def stepped_of_def split: option.splits outcome.splits)
qed (simp add: proxy_step_def)

lemma grpc_goroutine:
  assumes "grpc_inv g"
  shows "gs_serve g = Serving \<Longrightarrow> grpc_after g (grpc_returned answer g)"
    and "gs_serve g = Reporting e \<Longrightarrow> \<exists>h. grpc_report e g = Some (Ok h) \<and> grpc_after g h \<and> gs_serve h = ClosingChan"
    and "gs_serve g = ClosingChan \<Longrightarrow> \<exists>h. grpc_close_chan g = Ok h \<and> grpc_after g h \<and> gs_serve h = Served"
  using assms
  by (simp_all add: grpc_after_def grpc_inv_def grpc_ends_def grpc_returned_def grpc_report_def grpc_close_chan_def
      send_chan_def close_chan_def split: option.split)

lemma proxy_goroutine:
  assumes "proxy_inv p"
  shows "pr_serve p = Serving \<Longrightarrow> proxy_after p (proxy_returned answer p)"
    and "pr_serve p = Reporting e \<Longrightarrow> \<exists>q. proxy_report e p = Some (Ok q) \<and> proxy_after p q \<and> pr_serve q = ClosingChan"
    and "pr_serve p = ClosingChan \<Longrightarrow> \<exists>q. proxy_close_chan p = Ok q \<and> proxy_after p q \<and> pr_serve q = Served"
  using assms
  by (simp_all add: proxy_after_def proxy_inv_def proxy_ends_def proxy_returned_def proxy_report_def
      send_chan_def proxy_close_chan_def proxy_close_once_run [OF assms] split: option.split)

lemma proxy_waited_after:
  assumes "proxy_inv p" "pr_closers p > 0" "proxy_idle p"
  shows "\<exists>q. proxy_waited p = Some (Ok q) \<and> proxy_after p q \<and> pr_closers q < pr_closers p \<and> pr_serve q = pr_serve p \<and> pr_closeOnce q"
  using assms
  by (simp add: proxy_waited_def proxy_close_once_run [OF assms(1)] proxy_after_def)
    (auto simp: proxy_inv_def proxy_ends_def proxy_idle_def split: serve_pc.splits)

lemma busy_proxy: "proxy_inv p \<Longrightarrow> pr_serve p \<noteq> NotServing \<Longrightarrow> \<not> proxy_unused p"
  by (simp add: proxy_inv_def proxy_unused_def)

text \<open>Receiving from the channel of a server keeps what is known of the server.\<close>

lemma received_after:
  "recv_chan (gs_errCh g) = Some (x, c) \<Longrightarrow> grpc_inv g \<Longrightarrow> grpc_after g (g\<lparr>gs_errCh := c\<rparr>)"
  "recv_chan (pr_errCh p) = Some (y, d) \<Longrightarrow> proxy_inv p \<Longrightarrow> proxy_after p (p\<lparr>pr_errCh := d\<rparr>)"
  by (auto simp: recv_chan_def grpc_after_def grpc_inv_def grpc_ends_def proxy_after_def proxy_inv_def proxy_ends_def
      split: list.splits if_splits serve_pc.splits)

lemma watched_simps [simp]: "watched server x \<noteq> NotWatching" "watched server x \<noteq> Watching"
  by (simp_all add: watched_def split: option.split)

lemma channel_watched:
  "channel_ok a \<Longrightarrow> sa_watchGrpc a = Watching \<Longrightarrow> channel_ok (a\<lparr>sa_watchGrpc := watched server x\<rparr>)"
  "channel_ok a \<Longrightarrow> sa_watchProxy a = Watching \<Longrightarrow> channel_ok (a\<lparr>sa_watchProxy := watched server x\<rparr>)"
  by (auto simp: channel_ok_def watched_def split: option.split)

lemma WatchGrpc_well:
  assumes "app_inv a"
  shows "steps_well (app_step WatchGrpc a)"
proof (cases "sa_grpc a")
  case (Some g)
  show ?thesis
  proof (cases "sa_watchGrpc a = Watching \<and> recv_chan (gs_errCh g) \<noteq> None")
    case True
    then obtain x c where r: "recv_chan (gs_errCh g) = Some (x, c)" and w: "sa_watchGrpc a = Watching" by auto
    have "app_inv (a\<lparr>sa_grpc := Some (g\<lparr>gs_errCh := c\<rparr>)\<rparr>)"
      by (rule app_inv_grpc [OF assms Some received_after(1) [OF r app_inv_servers(1) [OF assms Some]]])
    with w have "app_inv (a\<lparr>sa_grpc := Some (g\<lparr>gs_errCh := c\<rparr>), sa_watchGrpc := watched ''grpc'' x\<rparr>)"
      by (simp add: app_inv_def channel_watched) (simp add: grpc_ok_def proxy_ok_def)
    with Some w r show ?thesis by simp
  qed (use Some in \<open>auto split: option.splits\<close>)
qed simp

lemma WatchProxy_well:
  assumes "app_inv a"
  shows "steps_well (app_step WatchProxy a)"
proof (cases "sa_proxy a")
  case (Some p)
  show ?thesis
  proof (cases "sa_watchProxy a = Watching \<and> recv_chan (pr_errCh p) \<noteq> None")
    case True
    then obtain x c where r: "recv_chan (pr_errCh p) = Some (x, c)" and w: "sa_watchProxy a = Watching" by auto
    have "sa_caller a \<notin> {Fresh, GrpcStarted}"
      using assms w by (auto simp: app_inv_defs)
    then have "app_inv (a\<lparr>sa_proxy := Some (p\<lparr>pr_errCh := c\<rparr>)\<rparr>)"
      by (intro app_inv_proxy [OF assms Some received_after(2) [OF r app_inv_servers(2) [OF assms Some]]]) simp
    with w have "app_inv (a\<lparr>sa_proxy := Some (p\<lparr>pr_errCh := c\<rparr>), sa_watchProxy := watched ''grpc-proxy'' x\<rparr>)"
      by (simp add: app_inv_def channel_watched) (simp add: grpc_ok_def proxy_ok_def)
    with Some w r show ?thesis by simp
  qed (use Some in \<open>auto split: option.splits\<close>)
qed simp

lemma Forward_steps:
  assumes "app_inv a"
  shows "sa_watchGrpc a = Forwarding e \<Longrightarrow>
      \<exists>c. send_chan e (sa_errCh a) = Some (Ok c) \<and> app_inv (a\<lparr>sa_errCh := c, sa_watchGrpc := Watched\<rparr>)"
    and "sa_watchProxy a = Forwarding e \<Longrightarrow>
      \<exists>c. send_chan e (sa_errCh a) = Some (Ok c) \<and> app_inv (a\<lparr>sa_errCh := c, sa_watchProxy := Watched\<rparr>)"
proof -
  have f: "forwarded w \<le> 1" for w by (simp add: forwarded_def)
  show "sa_watchGrpc a = Forwarding e \<Longrightarrow>
      \<exists>c. send_chan e (sa_errCh a) = Some (Ok c) \<and> app_inv (a\<lparr>sa_errCh := c, sa_watchGrpc := Watched\<rparr>)"
    using assms f [of "sa_watchProxy a"] by (cases "sa_grpc a") (auto simp: send_chan_def app_inv_defs)
  show "sa_watchProxy a = Forwarding e \<Longrightarrow>
      \<exists>c. send_chan e (sa_errCh a) = Some (Ok c) \<and> app_inv (a\<lparr>sa_errCh := c, sa_watchProxy := Watched\<rparr>)"
    using assms f [of "sa_watchGrpc a"] by (cases "sa_proxy a") (auto simp: send_chan_def app_inv_defs)
qed

lemma app_waited_step:
  assumes "app_inv a" "sa_closers a > 0" "\<not> watching (sa_watchGrpc a)" "\<not> watching (sa_watchProxy a)"
  shows "\<exists>b. app_waited a = Some (Ok b) \<and> app_inv b \<and> sa_once b \<and> sa_closers b < sa_closers a
    \<and> sa_grpc b = sa_grpc a \<and> sa_proxy b = sa_proxy a \<and> sa_watchGrpc b = sa_watchGrpc a \<and> sa_watchProxy b = sa_watchProxy a"
  using assms by (auto simp: app_waited_def app_inv_defs close_chan_def)

lemma recv_app: "app_inv a \<Longrightarrow> recv_chan (sa_errCh a) = Some (x, c) \<Longrightarrow> app_inv (a\<lparr>sa_errCh := c\<rparr>)"
  by (auto simp: app_inv_defs recv_chan_def split: list.splits if_splits)

lemma app_step_well:
  assumes "app_inv a"
  shows "steps_well (app_step l a)"
proof (cases l)
  case (StartGrpc net)
  then show ?thesis using StartGrpc_well [OF assms] by simp
next
  case (StartProxy net)
  then show ?thesis using StartProxy_well [OF assms] by simp
next
  case CloseProxy
  then show ?thesis using Close_well(1) [OF assms] by simp
next
  case CloseGrpc
  then show ?thesis using Close_well(2) [OF assms] by simp
next
  case CloseApp
  then show ?thesis using Close_well(3) [OF assms] by simp
next
  case (GrpcServe answer)
  then show ?thesis by (auto intro!: grpc_step_well [OF assms] simp: grpc_goroutine)
next
  case GrpcReport
  then show ?thesis
    by (fastforce intro!: grpc_step_well [OF assms] dest: grpc_goroutine(2) split: serve_pc.split)
next
  case GrpcCloseChan
  then show ?thesis by (fastforce intro!: grpc_step_well [OF assms] dest: grpc_goroutine(3))
next
  case (ProxyServe answer)
  then show ?thesis by (auto intro!: proxy_step_well [OF assms] simp: proxy_goroutine busy_proxy)
next
  case ProxyReport
  have "case (case pr_serve p of Reporting e \<Rightarrow> proxy_report e p | _ \<Rightarrow> None) of
      None \<Rightarrow> True | Some (Ok q) \<Rightarrow> proxy_after p q \<and> \<not> proxy_unused p | _ \<Rightarrow> False" if "proxy_inv p" for p
    using proxy_goroutine(2) [OF that] busy_proxy [OF that] by (cases "pr_serve p") auto
  with ProxyReport show ?thesis by (auto intro!: proxy_step_well [OF assms])
next
  case ProxyCloseChan
  have "case (if pr_serve p = ClosingChan then Some (proxy_close_chan p) else None) of
      None \<Rightarrow> True | Some (Ok q) \<Rightarrow> proxy_after p q \<and> \<not> proxy_unused p | _ \<Rightarrow> False" if "proxy_inv p" for p
    using proxy_goroutine(3) [OF that] busy_proxy [OF that] by auto
  with ProxyCloseChan show ?thesis by (auto intro!: proxy_step_well [OF assms])
next
  case ProxyWaiter
  have "case proxy_waited p of None \<Rightarrow> True | Some (Ok q) \<Rightarrow> proxy_after p q \<and> \<not> proxy_unused p | _ \<Rightarrow> False"
    if "proxy_inv p" for p
  proof (cases "pr_closers p = 0 \<or> \<not> proxy_idle p")
    case True
    then show ?thesis by (simp add: proxy_waited_def)
  next
    case False
    with proxy_waited_after [OF that] show ?thesis by (auto simp: proxy_unused_def)
  qed
  with ProxyWaiter show ?thesis by (auto intro!: proxy_step_well [OF assms])
next
  case ForwardGrpc
  then show ?thesis
    using Forward_steps(1) [OF assms] by (fastforce simp: stepped_of_def split: watch_pc.split)
next
  case ForwardProxy
  then show ?thesis
    using Forward_steps(2) [OF assms] by (fastforce simp: stepped_of_def split: watch_pc.split)
next
  case AppWaiter
  show ?thesis
  proof (cases "sa_closers a = 0 \<or> watching (sa_watchGrpc a) \<or> watching (sa_watchProxy a)")
    case True
    then show ?thesis using AppWaiter by (auto simp: app_waited_def stepped_of_def)
  next
    case False
    then show ?thesis using app_waited_step [OF assms] AppWaiter by (auto simp: stepped_of_def)
  qed
next
  case Notify
  then show ?thesis by (auto intro: recv_app [OF assms] split: option.split)
qed (use WatchGrpc_well WatchProxy_well assms in blast)+

text \<open>A gateway that is set up has not been used.\<close>

definition proxy_new :: "grpc_proxy \<Rightarrow> bool" where
  "proxy_new p \<longleftrightarrow> proxy_inv p \<and> proxy_unused p \<and> \<not> pr_stopOnce p"

lemma proxy_new_setters:
  "proxy_new (NewProxy cfg)" "proxy_new p \<Longrightarrow> proxy_new (SetGRPCEndpoint e p)" "proxy_new p \<Longrightarrow> proxy_new (SetMux m p)"
  "proxy_new p \<Longrightarrow> proxy_new (AddService s p)" "proxy_new p \<Longrightarrow> proxy_new (AddConnService s p)"
  by (auto simp: proxy_new_def proxy_inv_def proxy_unused_def NewProxy_def make_chan_def SetGRPCEndpoint_def SetMux_def
      AddService_def AddConnService_def split: option.split)

lemma proxy_new_folds:
  "proxy_new p \<Longrightarrow> proxy_new (fold AddService xs p)" "proxy_new p \<Longrightarrow> proxy_new (fold AddConnService xs p)"
  by (induction xs arbitrary: p) (simp_all add: proxy_new_setters)

lemma set_up_inv: "app_inv (set_up_app unspecified cfg registrars services connServices)"
proof -
  let ?p = "\<lambda>p. fold AddConnService connServices (fold AddService services (SetMux (Some []) p))"
  have p: "proxy_new (?p (SetGRPCEndpoint e (NewProxy c)))" for e c
    by (intro proxy_new_folds proxy_new_setters)
  have "proxy_fits NotWatching Fresh (map_option ?p (if px_Enabled c then Some (SetGRPCEndpoint e (NewProxy c)) else None))" for e c
    using p by (simp add: proxy_new_def)
  moreover have "grpc_fits NotWatching Fresh (Some (Register_grpc registrars (NewGrpcServer c)))" for c
    by (simp add: grpc_inv_def Register_grpc_def NewGrpcServer_def make_chan_def)
  ultimately show ?thesis
    by (simp add: set_up_app_def NewApp_def Let_def app_inv_defs make_chan_def comp_def)
qed

lemma app_reaches_inv: "app_reaches a b \<Longrightarrow> app_inv a \<Longrightarrow> app_inv b"
proof (induction rule: app_reaches.induct)
  case (app_steps b l c)
  with app_step_well [of b l] show ?case by simp
qed

section \<open>Closing comes to an end\<close>

text \<open>A server that \<open>Close\<close> has been called on was told to stop.\<close>

fun told_grpc :: "caller_pc \<Rightarrow> grpc_server option \<Rightarrow> bool" where
  "told_grpc c None \<longleftrightarrow> True"
| "told_grpc c (Some g) \<longleftrightarrow> (gs_stopOnce g \<longrightarrow> gs_stopped g) \<and> (c \<in> {GrpcClosed, Closed_app} \<longrightarrow> gs_stopOnce g)"

definition shut :: "grpc_proxy \<Rightarrow> bool" where
  "shut p \<longleftrightarrow> (case pr_http p of None \<Rightarrow> True | Some srv \<Rightarrow> hs_Shutdown srv)"

fun told_proxy :: "caller_pc \<Rightarrow> grpc_proxy option \<Rightarrow> bool" where
  "told_proxy c None \<longleftrightarrow> True"
| "told_proxy c (Some p) \<longleftrightarrow> (pr_stopOnce p \<longrightarrow> shut p) \<and> (c \<in> {ProxyClosed, GrpcClosed, Closed_app} \<longrightarrow> pr_stopOnce p)
     \<and> (c \<in> {Fresh, GrpcStarted} \<longrightarrow> \<not> pr_stopOnce p)"

definition told :: "server_app \<Rightarrow> bool" where
  "told a \<longleftrightarrow> told_grpc (sa_caller a) (sa_grpc a) \<and> told_proxy (sa_caller a) (sa_proxy a)"

lemma quiet_Start_grpc: "quiet (\<lambda>g. (gs_stopOnce g, gs_stopped g)) (Start_grpc net)"
proof -
  have "wp (Start_grpc net) (\<lambda>_ h. (gs_stopOnce h, gs_stopped h) = (gs_stopOnce g, gs_stopped g)) g" for g
    by (auto simp: Start_grpc_def grpc_listen_def wp_rules split: option.split sum.split outcome.split)
  then show ?thesis by (simp add: quiet_def)
qed

lemma quiet_Start_proxy: "quiet pr_stopOnce (Start_proxy net)"
proof -
  have close: "quiet pr_stopOnce proxy_close_once"
    unfolding quiet_def by (auto simp: proxy_close_once_def wp_rules split: outcome.split)
  have reg: "quiet pr_stopOnce (proxy_register net reg)" "quiet pr_stopOnce (proxy_register_conn net conn reg)" for conn reg
    by (auto simp: proxy_register_def proxy_register_conn_def quiet_def wp_rules split: option.split)
  have serve: "quiet pr_stopOnce proxy_serve"
    by (simp add: proxy_serve_def quiet_def wp_rules Let_def)
  have "quiet pr_stopOnce (proxy_connect net)"
    unfolding proxy_connect_def deferred_def andThen_def
    by (auto intro!: quiet_bind quiet_call quiet_foreach reg serve quiet_prims split: sum.split)
  then show ?thesis
    unfolding Start_proxy_def andThen_def
    by (auto intro!: quiet_bind quiet_after quiet_call quiet_foreach reg close quiet_prims split: sum.split)
qed

definition told_next :: "stepped \<Rightarrow> bool" where
  "told_next s \<longleftrightarrow> (case s of Next b \<Rightarrow> told b | _ \<Rightarrow> True)"

lemma told_next_simps [simp]: "told_next Blocked" "told_next (Next b) = told b" "told_next (Crash p)"
  by (simp_all add: told_next_def)

lemma caller_step_told:
  assumes "wp m (\<lambda>r b. told (b\<lparr>sa_caller := finished\<rparr>) \<and> (\<forall>e. told (b\<lparr>sa_caller := failed e\<rparr>))) a"
  shows "told_next (caller_step m finished failed a)"
  using assms by (auto simp: caller_step_def wp_def split: prod.splits outcome.splits)

lemma told_grpc_step:
  assumes "told a" "\<And>g h. f g = Some (Ok h) \<Longrightarrow> gs_stopOnce h = gs_stopOnce g \<and> gs_stopped h = gs_stopped g"
  shows "told_next (grpc_step f a)"
  using assms by (cases "sa_grpc a") (auto simp: grpc_step_def stepped_of_def told_def split: option.split outcome.split)

lemma told_proxy_step:
  assumes "told a" "\<And>p q. f p = Some (Ok q) \<Longrightarrow> pr_stopOnce q = pr_stopOnce p \<and> pr_http q = pr_http p"
  shows "told_next (proxy_step f a)"
proof (cases "sa_proxy a")
  case (Some p)
  show ?thesis
  proof (cases "f p")
    case (Some r)
    with assms \<open>sa_proxy a = Some p\<close> show ?thesis
      by (cases r) (auto simp: proxy_step_def stepped_of_def told_def shut_def)
  qed (use Some in \<open>simp add: proxy_step_def stepped_of_def\<close>)
qed (simp add: proxy_step_def)

lemma goroutine_frames:
  "grpc_report e g = Some (Ok h) \<Longrightarrow> gs_stopOnce h = gs_stopOnce g \<and> gs_stopped h = gs_stopped g"
  "grpc_close_chan g = Ok h \<Longrightarrow> gs_stopOnce h = gs_stopOnce g \<and> gs_stopped h = gs_stopped g"
  "proxy_report e p = Some (Ok q) \<Longrightarrow> pr_stopOnce q = pr_stopOnce p \<and> pr_http q = pr_http p"
  "proxy_close_chan p = Ok q \<Longrightarrow> pr_stopOnce q = pr_stopOnce p \<and> pr_http q = pr_http p"
  "proxy_waited p = Some (Ok q) \<Longrightarrow> pr_stopOnce q = pr_stopOnce p \<and> pr_http q = pr_http p"
  by (auto simp: grpc_report_def grpc_close_chan_def proxy_report_def proxy_close_chan_def proxy_waited_def
      send_chan_def close_chan_def proxy_close_once_def run_rules split: if_splits)

lemma told_later:
  "told a \<Longrightarrow> c \<notin> {Fresh, GrpcStarted, ProxyClosed, GrpcClosed, Closed_app} \<Longrightarrow> told (a\<lparr>sa_caller := c\<rparr>)"
  by (cases "sa_grpc a"; cases "sa_proxy a") (auto simp: told_def)

lemma told_StartGrpc:
  assumes "told a" "sa_caller a = Fresh"
  shows "told_next (caller_step (App_start_grpc net) GrpcStarted StartFailed a)"
proof (rule caller_step_told, cases "sa_grpc a")
  case None
  with assms show "wp (App_start_grpc net)
      (\<lambda>r b. told (b\<lparr>sa_caller := GrpcStarted\<rparr>) \<and> (\<forall>e. told (b\<lparr>sa_caller := StartFailed e\<rparr>))) a"
    by (cases "sa_proxy a") (simp_all add: App_start_grpc_def wp_rules told_def)
next
  case (Some g)
  let ?P = "\<lambda>b. told (b\<lparr>sa_caller := GrpcStarted\<rparr>) \<and> (\<forall>e. told (b\<lparr>sa_caller := StartFailed e\<rparr>))"
  have "wp (on_grpc g (Start_grpc net)) (\<lambda>_. ?P) a"
    unfolding wp_on
    by (rule wp_conseq [OF quietD [OF quiet_Start_grpc]])
      (use assms Some in \<open>cases "sa_proxy a"; simp add: told_def\<close>)
  then show "wp (App_start_grpc net) (\<lambda>r. ?P) a"
    unfolding App_start_grpc_def wp_bind wp_get Some option.case
    by (rule wp_callI) (auto simp: wp_rules told_def)
qed

lemma told_close_grpc:
  assumes "told (a\<lparr>sa_caller := c\<rparr>)" "c' = c \<or> c = ProxyClosed \<and> c' = GrpcClosed"
  shows "wp App_close_grpc (\<lambda>r b. told (b\<lparr>sa_caller := c'\<rparr>)) a"
proof (cases "sa_grpc a")
  case None
  with assms show ?thesis by (cases "sa_proxy a") (auto simp: App_close_grpc_def wp_rules told_def)
next
  case (Some g)
  with assms show ?thesis
    by (cases "sa_proxy a") (auto simp: App_close_grpc_def Close_grpc_def wp_rules told_def)
qed

lemma told_StartProxy:
  assumes "told a" "sa_caller a = GrpcStarted"
  shows "told_next (caller_step (App_start_proxy net) Started StartFailed a)"
proof (rule caller_step_told, cases "sa_proxy a")
  case None
  with assms show "wp (App_start_proxy net)
      (\<lambda>r b. told (b\<lparr>sa_caller := Started\<rparr>) \<and> (\<forall>e. told (b\<lparr>sa_caller := StartFailed e\<rparr>))) a"
    by (simp add: App_start_proxy_def wp_rules told_later)
next
  case (Some p)
  let ?P = "\<lambda>b. told (b\<lparr>sa_caller := Started\<rparr>)"
  have other: "told (b\<lparr>sa_caller := StartFailed e\<rparr>) = ?P b" for b e
    by (cases "sa_grpc b"; cases "sa_proxy b") (simp_all add: told_def)
  have undone: "wp (andThen App_close_grpc (\<lambda>_. fail e)) (\<lambda>_. ?P) b" if "?P b" for e b
    by (rule wp_andThenI [OF told_close_grpc [OF that, of Started]]) (simp_all add: wp_fail)
  have "wp (on_proxy p (Start_proxy net)) (\<lambda>_. ?P) a"
    unfolding wp_on
    by (rule wp_conseq [OF quietD [OF quiet_Start_proxy]])
      (use assms Some in \<open>cases "sa_grpc a"; simp add: told_def\<close>)
  then have "wp (App_start_proxy net) (\<lambda>_. ?P) a"
    unfolding App_start_proxy_def wp_bind wp_get Some option.case
    by (rule wp_callI [where P = "\<lambda>_. ?P"])
      (auto simp: wp_after wp_modify wp_ok undone, simp add: told_def)
  then show "wp (App_start_proxy net) (\<lambda>r b. ?P b \<and> (\<forall>e. told (b\<lparr>sa_caller := StartFailed e\<rparr>))) a"
    by (simp add: other)
qed

lemma told_Close_proxy:
  assumes "told a"
  shows "told_next (caller_step App_close_proxy ProxyClosed (\<lambda>_. ProxyClosed) a)"
proof (rule caller_step_told, cases "sa_proxy a")
  case None
  with assms show "wp App_close_proxy (\<lambda>r b. told (b\<lparr>sa_caller := ProxyClosed\<rparr>) \<and> (\<forall>e. told (b\<lparr>sa_caller := ProxyClosed\<rparr>))) a"
    by (cases "sa_grpc a") (simp_all add: App_close_proxy_def wp_rules told_def)
next
  case (Some p)
  have "wp Close_proxy (\<lambda>_ q. pr_stopOnce q \<and> (shut p \<or> \<not> pr_stopOnce p \<longrightarrow> shut q)) p"
    by (auto simp: Close_proxy_def proxy_close_once_def wp_rules shut_def split: option.split outcome.split)
  then have "wp (on_proxy p Close_proxy) (\<lambda>_ b. told (b\<lparr>sa_caller := ProxyClosed\<rparr>)) a"
    unfolding wp_on by (rule wp_conseq) (use assms Some in \<open>cases "sa_grpc a"; auto simp: told_def\<close>)
  then show "wp App_close_proxy (\<lambda>r b. told (b\<lparr>sa_caller := ProxyClosed\<rparr>) \<and> (\<forall>e. told (b\<lparr>sa_caller := ProxyClosed\<rparr>))) a"
    unfolding App_close_proxy_def wp_bind wp_get Some option.case by (intro wp_callI) (simp_all add: wp_ok)
qed

lemma told_step:
  assumes "told a"
  shows "told_next (app_step l a)"
proof (cases l)
  case (StartGrpc net)
  then show ?thesis using told_StartGrpc [OF assms] by simp
next
  case (StartProxy net)
  then show ?thesis using told_StartProxy [OF assms] by simp
next
  case CloseProxy
  then show ?thesis using told_Close_proxy [OF assms] by simp
next
  case CloseGrpc
  have "told (a\<lparr>sa_caller := ProxyClosed\<rparr>)" if "sa_caller a = ProxyClosed" using assms that by (simp add: told_def)
  from told_close_grpc [OF this, of GrpcClosed]
  have "told_next (caller_step App_close_grpc GrpcClosed (\<lambda>_. GrpcClosed) a)" if "sa_caller a = ProxyClosed"
    using that by (intro caller_step_told) simp
  with CloseGrpc show ?thesis by simp
next
  case CloseApp
  have "told_next (caller_step App_close_later Closed_app (\<lambda>_. Closed_app) a)" if "sa_caller a = GrpcClosed"
    using assms that
    by (intro caller_step_told; cases "sa_grpc a"; cases "sa_proxy a") (simp_all add: App_close_later_def wp_rules told_def)
  with CloseApp show ?thesis by simp
next
  case (GrpcServe answer)
  then show ?thesis
    by (auto intro!: told_grpc_step [OF assms] simp: grpc_returned_def split: if_splits option.splits)
next
  case GrpcReport
  then show ?thesis
    by (auto intro!: told_grpc_step [OF assms] dest: goroutine_frames(1) split: serve_pc.splits)
next
  case GrpcCloseChan
  then show ?thesis
    by (auto intro!: told_grpc_step [OF assms] dest: goroutine_frames(2) split: if_splits)
next
  case (ProxyServe answer)
  then show ?thesis
    by (auto intro!: told_proxy_step [OF assms] simp: proxy_returned_def split: if_splits option.splits)
next
  case ProxyReport
  then show ?thesis
    by (auto intro!: told_proxy_step [OF assms] dest: goroutine_frames(3) split: serve_pc.splits)
next
  case ProxyCloseChan
  then show ?thesis
    by (auto intro!: told_proxy_step [OF assms] dest: goroutine_frames(4) split: if_splits)
next
  case ProxyWaiter
  then show ?thesis by (auto intro!: told_proxy_step [OF assms] dest: goroutine_frames(5))
next
  case WatchGrpc
  then show ?thesis
    using assms by (cases "sa_proxy a") (auto simp: told_def split: option.split)
next
  case WatchProxy
  then show ?thesis
    using assms by (cases "sa_grpc a") (auto simp: told_def shut_def split: option.split)
qed (use assms in \<open>auto simp: told_def stepped_of_def app_waited_def close_chan_def send_chan_def split: watch_pc.split option.split\<close>)

lemma app_reaches_told: "app_reaches a b \<Longrightarrow> told a \<Longrightarrow> told b"
proof (induction rule: app_reaches.induct)
  case (app_steps b l c)
  with told_step [of b l] show ?case by simp
qed

lemma set_up_told: "told (set_up_app unspecified cfg registrars services connServices)"
proof -
  have "\<not> pr_stopOnce (fold AddConnService connServices (fold AddService services
      (SetMux (Some []) (SetGRPCEndpoint e (NewProxy c)))))" for e c
    using proxy_new_folds(2) [OF proxy_new_folds(1) [OF proxy_new_setters(3) [OF proxy_new_setters(2) [OF proxy_new_setters(1)]]]]
    by (simp add: proxy_new_def)
  then show ?thesis
    by (simp add: set_up_app_def NewApp_def Let_def told_def comp_def Register_grpc_def NewGrpcServer_def)
qed

text \<open>The steps of the goroutines, and how many of them are left at most.\<close>

fun goroutine :: "label \<Rightarrow> bool" where
  "goroutine (StartGrpc net) = False" | "goroutine (StartProxy net) = False"
| "goroutine CloseProxy = False" | "goroutine CloseGrpc = False" | "goroutine CloseApp = False"
| "goroutine Notify = False" | "goroutine l = True"

fun serve_work :: "serve_pc \<Rightarrow> nat" where
  "serve_work Serving = 3" | "serve_work (Reporting e) = 2" | "serve_work ClosingChan = 1" | "serve_work pc = 0"

fun watch_work :: "watch_pc \<Rightarrow> nat" where
  "watch_work Watching = 2" | "watch_work (Forwarding e) = 1" | "watch_work pc = 0"

definition work_grpc :: "grpc_server option \<Rightarrow> nat" where
  "work_grpc g = (case g of None \<Rightarrow> 0 | Some g \<Rightarrow> serve_work (gs_serve g))"

definition work_proxy :: "grpc_proxy option \<Rightarrow> nat" where
  "work_proxy p = (case p of None \<Rightarrow> 0 | Some p \<Rightarrow> serve_work (pr_serve p) + pr_closers p)"

definition app_work :: "server_app \<Rightarrow> nat" where
  "app_work a = work_grpc (sa_grpc a) + work_proxy (sa_proxy a) + watch_work (sa_watchGrpc a)
     + watch_work (sa_watchProxy a) + sa_closers a"

text \<open>
  The steps that are sure to come: those of the goroutines, and the return of \<open>Serve\<close> and of
  \<open>ListenAndServe\<close> when the server was told to stop.
\<close>

definition stopping :: "server_app \<Rightarrow> bool \<times> bool" where
  "stopping a =
     (case sa_grpc a of None \<Rightarrow> False | Some g \<Rightarrow> gs_stopped g, case sa_proxy a of None \<Rightarrow> False | Some p \<Rightarrow> shut p)"

definition due :: "server_app \<Rightarrow> label list" where
  "due a = (if fst (stopping a) then [GrpcServe None] else []) @ (if snd (stopping a) then [ProxyServe None] else [])
     @ [GrpcReport, GrpcCloseChan, ProxyReport, ProxyCloseChan, ProxyWaiter, WatchGrpc, ForwardGrpc, WatchProxy,
        ForwardProxy, AppWaiter]"

lemma due_goroutines: "list_all goroutine (due a)"
  by (simp add: due_def)

definition works :: "server_app \<Rightarrow> stepped \<Rightarrow> bool" where
  "works a s \<longleftrightarrow> (case s of Next b \<Rightarrow> app_work b < app_work a \<and> sa_caller b = sa_caller a | _ \<Rightarrow> True)"

lemma works_simps [simp]:
  "works a Blocked" "works a (Crash p)" "works a (Next b) \<longleftrightarrow> app_work b < app_work a \<and> sa_caller b = sa_caller a"
  by (simp_all add: works_def)

lemma works_grpc_step:
  assumes "app_inv a" "\<And>g h. f g = Some (Ok h) \<Longrightarrow> grpc_inv g \<Longrightarrow> serve_work (gs_serve h) < serve_work (gs_serve g)"
  shows "works a (grpc_step f a)"
  using assms app_inv_servers(1) [OF assms(1)]
  by (cases "sa_grpc a")
    (auto simp: grpc_step_def stepped_of_def app_work_def work_grpc_def split: option.split outcome.split)

lemma works_proxy_step:
  assumes "app_inv a" "\<And>p q. f p = Some (Ok q) \<Longrightarrow> proxy_inv p \<Longrightarrow>
    serve_work (pr_serve q) + pr_closers q < serve_work (pr_serve p) + pr_closers p"
  shows "works a (proxy_step f a)"
  using assms app_inv_servers(2) [OF assms(1)]
  by (cases "sa_proxy a")
    (auto simp: proxy_step_def stepped_of_def app_work_def work_proxy_def split: option.split outcome.split)

lemma goroutine_works:
  "grpc_report e g = Some (Ok h) \<Longrightarrow> gs_serve h = ClosingChan"
  "grpc_close_chan g = Ok h \<Longrightarrow> gs_serve h = Served"
  "proxy_report e p = Some (Ok q) \<Longrightarrow> pr_serve q = ClosingChan \<and> pr_closers q = pr_closers p"
  "proxy_close_chan p = Ok q \<Longrightarrow> pr_serve q = Served \<and> pr_closers q = pr_closers p"
  "proxy_waited p = Some (Ok q) \<Longrightarrow> pr_serve q = pr_serve p \<and> pr_closers q < pr_closers p"
  by (auto simp: grpc_report_def grpc_close_chan_def proxy_report_def proxy_close_chan_def proxy_waited_def
      send_chan_def close_chan_def proxy_close_once_def run_rules split: if_splits)

lemma watch_work_watched: "watch_work (watched server x) < 2"
  by (simp add: watched_def split: option.split)

lemma goroutine_step_works:
  assumes "app_inv a" "goroutine l"
  shows "works a (app_step l a)"
proof (cases l)
  case (GrpcServe answer)
  then show ?thesis
    by (auto intro!: works_grpc_step [OF assms(1)] simp: grpc_returned_def split: if_splits option.splits)
next
  case GrpcReport
  then show ?thesis
    by (auto intro!: works_grpc_step [OF assms(1)] dest!: goroutine_works(1) split: serve_pc.splits)
next
  case GrpcCloseChan
  then show ?thesis
    by (auto intro!: works_grpc_step [OF assms(1)] dest!: goroutine_works(2) split: if_splits)
next
  case (ProxyServe answer)
  then show ?thesis
    by (auto intro!: works_proxy_step [OF assms(1)] simp: proxy_returned_def split: if_splits option.splits)
next
  case ProxyReport
  then show ?thesis
    by (auto intro!: works_proxy_step [OF assms(1)] dest!: goroutine_works(3) split: serve_pc.splits)
next
  case ProxyCloseChan
  then show ?thesis
    by (auto intro!: works_proxy_step [OF assms(1)] dest!: goroutine_works(4) split: if_splits)
next
  case ProxyWaiter
  then show ?thesis by (auto intro!: works_proxy_step [OF assms(1)] dest!: goroutine_works(5))
next
  case WatchGrpc
  then show ?thesis
    using watch_work_watched
    by (auto simp: app_work_def work_grpc_def split: option.split)
next
  case WatchProxy
  then show ?thesis
    using watch_work_watched by (auto simp: app_work_def work_proxy_def split: option.split)
qed (use assms in \<open>auto simp: app_work_def stepped_of_def app_waited_def close_chan_def send_chan_def
    split: watch_pc.split option.split\<close>)

text \<open>When nothing is due, the channel of the application is closed.\<close>

lemma idle_grpc:
  assumes "app_inv a" "sa_grpc a = Some g" "gs_stopped g" "list_all (\<lambda>l. app_step l a = Blocked) (due a)"
  shows "gs_serve g \<in> {NotServing, Served}"
proof (cases "gs_serve g")
  case Serving
  with assms(2-4) show ?thesis by (auto simp: due_def stopping_def grpc_step_def stepped_of_def)
next
  case (Reporting e)
  with assms(2-4) grpc_goroutine(2) [OF app_inv_servers(1) [OF assms(1,2)] Reporting] show ?thesis
    by (auto simp: due_def grpc_step_def stepped_of_def)
next
  case ClosingChan
  with assms(2-4) grpc_goroutine(3) [OF app_inv_servers(1) [OF assms(1,2)] ClosingChan] show ?thesis
    by (auto simp: due_def grpc_step_def stepped_of_def)
qed simp_all

lemma idle_proxy:
  assumes "app_inv a" "sa_proxy a = Some p" "shut p" "list_all (\<lambda>l. app_step l a = Blocked) (due a)"
  shows "pr_serve p \<in> {NotServing, Served}"
proof (cases "pr_serve p")
  case Serving
  with assms(2-4) show ?thesis by (auto simp: due_def stopping_def proxy_step_def stepped_of_def)
next
  case (Reporting e)
  with assms(2-4) proxy_goroutine(2) [OF app_inv_servers(2) [OF assms(1,2)] Reporting] show ?thesis
    by (auto simp: due_def proxy_step_def stepped_of_def)
next
  case ClosingChan
  with assms(2-4) proxy_goroutine(3) [OF app_inv_servers(2) [OF assms(1,2)] ClosingChan] show ?thesis
    by (auto simp: due_def proxy_step_def stepped_of_def)
qed simp_all

text \<open>A forwarding goroutine whose server has ended receives its error or the end of the channel.\<close>

lemma ended_received:
  "grpc_inv g \<Longrightarrow> grpc_ends g \<Longrightarrow> gs_serve g \<in> {NotServing, Served} \<Longrightarrow> recv_chan (gs_errCh g) \<noteq> None"
  "proxy_inv p \<Longrightarrow> proxy_ends p \<Longrightarrow> pr_serve p \<in> {NotServing, Served} \<Longrightarrow> recv_chan (pr_errCh p) \<noteq> None"
  by (auto simp: recv_chan_def grpc_inv_def grpc_ends_def proxy_inv_def proxy_ends_def split: list.split)

lemma idle_watchers:
  assumes "app_inv a" "told a" "sa_caller a = Closed_app" "list_all (\<lambda>l. app_step l a = Blocked) (due a)"
  shows "\<not> watching (sa_watchGrpc a)" "\<not> watching (sa_watchProxy a)"
proof -
  show "\<not> watching (sa_watchGrpc a)"
  proof (cases "sa_watchGrpc a")
    case Watching
    then obtain g where g: "sa_grpc a = Some g" "grpc_inv g" "grpc_ends g"
      using assms(1) by (cases "sa_grpc a") (auto simp: app_inv_defs)
    then have "gs_stopped g" using assms(2,3) by (simp add: told_def)
    from ended_received(1) [OF g(2,3) idle_grpc [OF assms(1) g(1) this assms(4)]] Watching g(1) assms(4)
    show ?thesis by (auto simp: due_def)
  next
    case (Forwarding e)
    with Forward_steps(1) [OF assms(1)] assms(4) show ?thesis by (auto simp: due_def stepped_of_def)
  qed simp_all
  show "\<not> watching (sa_watchProxy a)"
  proof (cases "sa_watchProxy a")
    case Watching
    then obtain p where p: "sa_proxy a = Some p" "proxy_inv p" "proxy_ends p"
      using assms(1) by (cases "sa_proxy a") (auto simp: app_inv_defs)
    then have "shut p" using assms(2,3) by (simp add: told_def)
    from ended_received(2) [OF p(2,3) idle_proxy [OF assms(1) p(1) this assms(4)]] Watching p(1) assms(4)
    show ?thesis by (auto simp: due_def)
  next
    case (Forwarding e)
    with Forward_steps(2) [OF assms(1)] assms(4) show ?thesis by (auto simp: due_def stepped_of_def)
  qed simp_all
qed

lemma idle_closed:
  assumes "app_inv a" "told a" "sa_caller a = Closed_app" "list_all (\<lambda>l. app_step l a = Blocked) (due a)"
  shows "ch_closed (sa_errCh a)"
proof (rule ccontr)
  assume "\<not> ch_closed (sa_errCh a)"
  with assms(1,3) have "sa_closers a > 0" by (auto simp: app_inv_defs)
  from app_waited_step [OF assms(1) this idle_watchers [OF assms]] assms(4) show False
    by (auto simp: due_def stepped_of_def)
qed

lemma app_run_goroutines:
  "app_run ls a = Next b \<Longrightarrow> list_all goroutine ls \<Longrightarrow> app_inv a \<Longrightarrow> told a \<Longrightarrow>
   app_inv b \<and> told b \<and> sa_caller b = sa_caller a \<and> length ls + app_work b \<le> app_work a"
proof (induction ls arbitrary: a)
  case (Cons l ls)
  then obtain c where c: "app_step l a = Next c" "app_run ls c = Next b" by (auto split: stepped.splits)
  from Cons.prems c(1) app_step_well [of a l] told_step [of a l] goroutine_step_works [of a l]
  have "app_inv c" "told c" "app_work c < app_work a" "sa_caller c = sa_caller a" by simp_all
  with Cons.IH [OF c(2)] Cons.prems(2) show ?case by fastforce
qed simp

section \<open>The properties\<close>

text \<open>No goroutine that has an error to send has to wait for a receiver.\<close>

definition sends_ready :: "server_app \<Rightarrow> bool" where
  "sends_ready a \<longleftrightarrow>
     (case sa_grpc a of None \<Rightarrow> True | Some g \<Rightarrow> (case gs_serve g of Reporting e \<Rightarrow> app_step GrpcReport a \<noteq> Blocked | _ \<Rightarrow> True))
     \<and> (case sa_proxy a of None \<Rightarrow> True | Some p \<Rightarrow> (case pr_serve p of Reporting e \<Rightarrow> app_step ProxyReport a \<noteq> Blocked | _ \<Rightarrow> True))
     \<and> (case sa_watchGrpc a of Forwarding e \<Rightarrow> app_step ForwardGrpc a \<noteq> Blocked | _ \<Rightarrow> True)
     \<and> (case sa_watchProxy a of Forwarding e \<Rightarrow> app_step ForwardProxy a \<noteq> Blocked | _ \<Rightarrow> True)"

lemma app_inv_sends_ready:
  assumes "app_inv a"
  shows "sends_ready a"
proof -
  have "case sa_grpc a of None \<Rightarrow> True | Some g \<Rightarrow> (case gs_serve g of Reporting e \<Rightarrow> app_step GrpcReport a \<noteq> Blocked | _ \<Rightarrow> True)"
    using grpc_goroutine(2) [OF app_inv_servers(1) [OF assms]]
    by (fastforce simp: grpc_step_def stepped_of_def split: option.split serve_pc.split)
  moreover have "case sa_proxy a of None \<Rightarrow> True | Some p \<Rightarrow> (case pr_serve p of Reporting e \<Rightarrow> app_step ProxyReport a \<noteq> Blocked | _ \<Rightarrow> True)"
    using proxy_goroutine(2) [OF app_inv_servers(2) [OF assms]]
    by (fastforce simp: proxy_step_def stepped_of_def split: option.split serve_pc.split)
  moreover have "case sa_watchGrpc a of Forwarding e \<Rightarrow> app_step ForwardGrpc a \<noteq> Blocked | _ \<Rightarrow> True"
    using Forward_steps(1) [OF assms] by (fastforce simp: stepped_of_def split: watch_pc.split)
  moreover have "case sa_watchProxy a of Forwarding e \<Rightarrow> app_step ForwardProxy a \<noteq> Blocked | _ \<Rightarrow> True"
    using Forward_steps(2) [OF assms] by (fastforce simp: stepped_of_def split: watch_pc.split)
  ultimately show ?thesis by (simp add: sends_ready_def)
qed

text \<open>
  C35: the channels of errors are used safely. However the goroutines of the servers, of the
  application and of its caller interleave, and whatever the servers and the network answer, no
  channel is closed twice or written to after it was closed, and a goroutine with an error to report
  never waits for somebody to read it. The caller starts the application at most once, before it
  closes it, and may close it again.
\<close>
theorem App_never_panics:
  assumes "app_reaches (set_up_app unspecified cfg registrars services connServices) a"
  shows "app_step l a \<noteq> Crash p \<and> sends_ready a"
proof -
  have a: "app_inv a" by (rule app_reaches_inv [OF assms set_up_inv])
  with app_step_well [OF a, of l] app_inv_sends_ready show ?thesis by auto
qed

text \<open>
  C36: closing comes to an end. Once Close has returned, the goroutines take at most a known number
  of further steps, in any order, and while the channel of errors is open one of them has a step to
  take, where a server that was told to stop returns from serving: whoever waits on Notify is
  woken.
\<close>
theorem App_Close_ends:
  assumes "app_reaches (set_up_app unspecified cfg registrars services connServices) a"
    and "sa_caller a = Closed_app" and "list_all goroutine ls" and "app_run ls a = Next b"
  shows "length ls + app_work b \<le> app_work a
    \<and> (ch_closed (sa_errCh b) \<or> list_ex (\<lambda>l. app_step l b \<noteq> Blocked) (due b))"
proof -
  have "app_inv a" "told a"
    by (rule app_reaches_inv [OF assms(1) set_up_inv]) (rule app_reaches_told [OF assms(1) set_up_told])
  from app_run_goroutines [OF assms(4,3) this] assms(2)
  have b: "app_inv b" "told b" "sa_caller b = Closed_app" "length ls + app_work b \<le> app_work a" by simp_all
  have "list_ex (\<lambda>l. app_step l b \<noteq> Blocked) (due b)" if "\<not> ch_closed (sa_errCh b)"
    using idle_closed [OF b(1-3)] that by (auto simp: list_ex_iff list_all_iff)
  with b(4) show ?thesis by blast
qed

section \<open>Examples\<close>

lemma app_run_reaches: "app_run ls a = Next b \<Longrightarrow> app_reaches c a \<Longrightarrow> app_reaches c b"
proof (induction ls arbitrary: a)
  case (Cons l ls)
  then show ?case by (auto split: stepped.splits intro: app_steps)
qed simp

definition example_network :: network where
  "example_network =
     \<lparr>nt_Listen = (\<lambda>_. Inr 3), nt_RegisterService = (\<lambda>_ _. None), nt_Dial = (\<lambda>_. Inr 7), nt_RegisterConn = (\<lambda>_ _. None)\<rparr>"

definition example_app :: server_app where
  "example_app =
     set_up_app (\<lambda>h. h = ''0.0.0.0'')
       \<lparr>ac_GRPC = \<lparr>sv_Host = ''0.0.0.0'', sv_Port = 9\<rparr>, ac_Proxy = \<lparr>px_Enabled = True, px_Host = [], px_Port = 8\<rparr>\<rparr>
       [Some ''auth''] [Some ''auth''] [Some ''healthz'']"

text \<open>The gateway fails, the caller is told and closes, and the servers return.\<close>

definition example_labels :: "label list" where
  "example_labels =
     [StartGrpc example_network, StartProxy example_network, ProxyServe (Some (NewErr ''address in use'')),
      ProxyReport, WatchProxy, ForwardProxy, Notify, CloseProxy, CloseGrpc, CloseApp]"

lemma App_never_panics_witness:
  "\<exists>a. app_run (take 4 example_labels) example_app = Next a \<and> app_step ProxyCloseChan a \<noteq> Crash ''close of closed channel''
     \<and> sends_ready a"
proof -
  have "case app_run (take 4 example_labels) example_app of Next a \<Rightarrow> True | _ \<Rightarrow> False" by code_simp
  then obtain a where a: "app_run (take 4 example_labels) example_app = Next a" by (auto split: stepped.splits)
  from App_never_panics [OF app_run_reaches [OF a app_start, unfolded example_app_def]] a show ?thesis by blast
qed

lemma App_Close_ends_witness:
  "\<exists>a b. app_run example_labels example_app = Next a
     \<and> app_run [ProxyCloseChan, GrpcServe (Some (Sentinel (Lib ErrServerStopped))), GrpcCloseChan, WatchGrpc] a = Next b
     \<and> 4 + app_work b \<le> app_work a \<and> \<not> ch_closed (sa_errCh b) \<and> list_ex (\<lambda>l. app_step l b \<noteq> Blocked) (due b)"
proof -
  let ?ls = "[ProxyCloseChan, GrpcServe (Some (Sentinel (Lib ErrServerStopped))), GrpcCloseChan, WatchGrpc]"
  have "case app_run example_labels example_app of
      Next a \<Rightarrow> sa_caller a = Closed_app \<and> (case app_run ?ls a of Next b \<Rightarrow> \<not> ch_closed (sa_errCh b) | _ \<Rightarrow> False) | _ \<Rightarrow> False"
    by code_simp
  then obtain a b where a: "app_run example_labels example_app = Next a" "sa_caller a = Closed_app"
    and b: "app_run ?ls a = Next b" "\<not> ch_closed (sa_errCh b)" by (auto split: stepped.splits)
  from App_Close_ends [OF app_run_reaches [OF a(1) app_start, unfolded example_app_def] a(2) _ b(1)] a b show ?thesis
    by auto
qed

end
