(* ===== verification/Applications.thy ===== *)
theory Applications
  imports Domain Quiet
begin

text \<open>
  internal/app: what the three services acquire when they are made, and what they release when they
  are closed; with the observability servers of internal/adapters/secondary/observability and
  pkg/closer. The constructors and the calls of the parts are arguments; a part is named by a number.
\<close>

section \<open>The configuration and the parts\<close>

record service_config =
  cf_Env :: string
  cf_ServiceName :: string
  cf_TracingEndpoint :: string
  cf_MetricsEnabled :: bool
  cf_ProfilerEnabled :: bool

text \<open>What is open: connections, goroutines of a library and listening servers.\<close>

datatype resource =
    Tracing nat | Database nat | Broker nat | ConsumerGroup nat | Servers nat | MetricsHttp nat | ProfilerHttp nat

text \<open>\<open>ap_ReadConfig\<close> opens a file and decodes it: \<open>Inl\<close> has the error of opening, or that of decoding.\<close>

datatype config_failure = NotOpened err | NotDecoded err

record ('w, 'l) app_library =
  ap_ReadConfig :: "string \<Rightarrow> ('w, config_failure + service_config) state"
  ap_InitTracing :: "service_config \<Rightarrow> ('w, nat) go"
  ap_ShutdownTracing :: "nat \<Rightarrow> ('w, unit) go"
  ap_NewLogger :: "string \<Rightarrow> string \<Rightarrow> ('w, 'l) go"
  ap_WithN :: "'l \<Rightarrow> string \<Rightarrow> 'l"
  ap_Info :: "'l \<Rightarrow> string \<Rightarrow> ('w, unit) state"
  ap_Sync :: "'l \<Rightarrow> ('w, unit) state"
  ap_NewPostgres :: "service_config \<Rightarrow> 'l \<Rightarrow> ('w, nat) go"
  ap_ClosePostgres :: "nat \<Rightarrow> ('w, unit) go"
  ap_NewPublisher :: "service_config \<Rightarrow> 'l \<Rightarrow> ('w, nat) go"
  ap_ClosePublisher :: "nat \<Rightarrow> ('w, unit) go"
  ap_NewConsumer :: "service_config \<Rightarrow> 'l \<Rightarrow> nat \<Rightarrow> ('w, nat) go"
  ap_CloseConsumer :: "nat \<Rightarrow> ('w, unit) go"
  ap_RunConsumer :: "nat \<Rightarrow> ('w, unit) go"
  ap_NewServers :: "service_config \<Rightarrow> 'l \<Rightarrow> nat \<Rightarrow> ('w, nat) go"
  ap_StartServers :: "nat \<Rightarrow> ('w, unit) go"
  ap_CloseServers :: "nat \<Rightarrow> ('w, unit) go"
  ap_NewHttp :: "service_config \<Rightarrow> ('w, nat) state"
  ap_ListenMetrics :: "nat \<Rightarrow> ('w, unit) state"
  ap_ListenProfiler :: "nat \<Rightarrow> ('w, unit) state"
  ap_Shutdown :: "nat \<Rightarrow> ('w, unit) go"
  ap_RunWorker :: "nat \<Rightarrow> nat \<Rightarrow> ('w, unit) state"

definition EnvProd :: string where "EnvProd = ''Prod''"

section \<open>internal/config/service_config.go\<close>

definition LoadServiceConfig :: "('w, 'l) app_library \<Rightarrow> string \<Rightarrow> ('w, service_config) go" where
  "LoadServiceConfig lib path = do {
     r \<leftarrow> ap_ReadConfig lib path;
     (case r of
        Inl (NotOpened e) \<Rightarrow> fail (wrap (''open config '' @ path) e)
      | Inl (NotDecoded e) \<Rightarrow> fail (wrap (''decode config '' @ path) e)
      | Inr cfg \<Rightarrow> ok cfg) }"

section \<open>internal/adapters/secondary/observability/server.go\<close>

text \<open>A server is nil, or has its HTTP server. \<open>Start\<close> begins to listen in a goroutine of its own.\<close>

definition Server_Start :: "(nat \<Rightarrow> ('w, unit) state) \<Rightarrow> nat option \<Rightarrow> ('w, unit) go" where
  "Server_Start listen s = (case s of None \<Rightarrow> ok () | Some h \<Rightarrow> after (listen h) (ok ()))"

definition Server_Close :: "('w, 'l) app_library \<Rightarrow> nat option \<Rightarrow> ('w, unit) go" where
  "Server_Close lib s =
     (case s of
        None \<Rightarrow> ok ()
      | Some h \<Rightarrow>
          call (ap_Shutdown lib h) (\<lambda>r. case r of
            Inl e \<Rightarrow> (if errors_is e (Lib ErrServerClosed) then ok () else fail e)
          | Inr _ \<Rightarrow> ok ()))"

section \<open>pkg/closer/closer.go\<close>

text \<open>\<open>errors.Join\<close>: nil when there is no error.\<close>

definition errors_Join :: "err list \<Rightarrow> err option" where
  "errors_Join es = (if es = [] then None else Some (Wrapped (join [CHR 0x0A] (map err_text es)) es))"

primrec close_each :: "('w, unit) go list \<Rightarrow> err list \<Rightarrow> ('w, err list) go" where
  "close_each [] errs = ok errs"
| "close_each (closer # rest) errs =
     call closer (\<lambda>r. case r of Inl e \<Rightarrow> close_each rest (errs @ [e]) | Inr _ \<Rightarrow> close_each rest errs)"

definition NewGracefulCloser :: "('w, unit) go list \<Rightarrow> ('w, unit) go list" where
  "NewGracefulCloser closers = closers"

definition AddCloser :: "('w, unit) go list \<Rightarrow> ('w, unit) go list \<Rightarrow> ('w, unit) go list" where
  "AddCloser closers objects = objects @ closers"

definition Close_graceful :: "('w, unit) go list \<Rightarrow> ('w, unit) go" where
  "Close_graceful objects =
     andThen (close_each objects []) (\<lambda>errs. case errors_Join errs of None \<Rightarrow> ok () | Some e \<Rightarrow> fail e)"

section \<open>What the applications share\<close>

text \<open>\<open>if a.part != nil { if err := a.part.Close(); err != nil && closeErr == nil { closeErr = err } }\<close>\<close>

definition close_part :: "('h \<Rightarrow> ('w, unit) go) \<Rightarrow> 'h option \<Rightarrow> err option \<Rightarrow> ('w, err option) go" where
  "close_part close part closeErr =
     (case part of
        None \<Rightarrow> ok closeErr
      | Some h \<Rightarrow>
          call (close h) (\<lambda>r. case r of
            Inl e \<Rightarrow> ok (if closeErr = None then Some e else closeErr)
          | Inr _ \<Rightarrow> ok closeErr))"

text \<open>The end of a \<open>Close\<close>: the logger is synced and the first error returned.\<close>

definition closed_with :: "('w, 'l) app_library \<Rightarrow> 'l option \<Rightarrow> err option \<Rightarrow> ('w, unit) go" where
  "closed_with lib log closeErr =
     after (case log of None \<Rightarrow> State_Monad.return () | Some l \<Rightarrow> ap_Sync lib l)
       (case closeErr of None \<Rightarrow> ok () | Some e \<Rightarrow> fail e)"

text \<open>
  A step of \<open>setup\<close>: the part is put into the application, or the application as it is comes back with
  the error.
\<close>

definition acquire :: "string \<Rightarrow> ('w, 'h) go \<Rightarrow> 'a \<Rightarrow> ('h \<Rightarrow> ('w, 'a \<times> err option) go) \<Rightarrow> ('w, 'a \<times> err option) go" where
  "acquire doing m app k = call m (\<lambda>r. case r of Inl e \<Rightarrow> ok (app, Some (wrap doing e)) | Inr h \<Rightarrow> k h)"

text \<open>The function that shuts tracing down: one that does nothing without an endpoint.\<close>

definition init_tracing :: "('w, 'l) app_library \<Rightarrow> service_config \<Rightarrow> ('w, nat option) go" where
  "init_tracing lib cfg =
     (if cf_TracingEndpoint cfg \<noteq> [] then andThen (ap_InitTracing lib cfg) (\<lambda>h. ok (Some h)) else ok None)"

definition trace_shutdown :: "('w, 'l) app_library \<Rightarrow> nat option \<Rightarrow> ('w, unit) go" where
  "trace_shutdown lib h = (case h of None \<Rightarrow> ok () | Some h \<Rightarrow> ap_ShutdownTracing lib h)"

text \<open>\<open>New\<close>: an application whose setup fails is closed.\<close>

definition new_app ::
  "('w, 'l) app_library \<Rightarrow> (service_config \<Rightarrow> ('w, 'a \<times> err option) go) \<Rightarrow> ('a \<Rightarrow> ('w, unit) go) \<Rightarrow> string \<Rightarrow> ('w, 'a) go" where
  "new_app lib setup close configPath =
     andThen (LoadServiceConfig lib (if configPath = [] then ''configs/auth/local.yaml'' else configPath)) (\<lambda>cfg.
       andThen (setup cfg) (\<lambda>r. case r of
         (app, Some e) \<Rightarrow> call (close app) (\<lambda>_. fail e)
       | (app, None) \<Rightarrow> ok app))"

section \<open>internal/app/outboxsvc\<close>

record 'l outbox_app =
  oa_log :: "'l option"
  oa_traceShutdown :: "nat option option"
  oa_postgres :: "nat option"
  oa_publisher :: "nat option"
  oa_worker :: "(nat \<times> nat) option"

definition outbox_empty :: "'l outbox_app" where
  "outbox_empty =
     \<lparr>oa_log = None, oa_traceShutdown = None, oa_postgres = None, oa_publisher = None, oa_worker = None\<rparr>"

definition outbox_Close :: "('w, 'l) app_library \<Rightarrow> 'l outbox_app \<Rightarrow> ('w, unit) go" where
  "outbox_Close lib a =
     andThen (close_part (ap_ClosePublisher lib) (oa_publisher a) None) (\<lambda>closeErr.
     andThen (close_part (ap_ClosePostgres lib) (oa_postgres a) closeErr) (\<lambda>closeErr.
     andThen (close_part (trace_shutdown lib) (oa_traceShutdown a) closeErr) (\<lambda>closeErr.
     closed_with lib (oa_log a) closeErr)))"

definition outbox_setup :: "('w, 'l) app_library \<Rightarrow> service_config \<Rightarrow> ('w, 'l outbox_app \<times> err option) go" where
  "outbox_setup lib cfg =
     acquire ''init tracing'' (init_tracing lib cfg) outbox_empty (\<lambda>shutdown.
       let a = outbox_empty\<lparr>oa_traceShutdown := Some shutdown\<rparr> in
     acquire ''build logger'' (ap_NewLogger lib (cf_Env cfg) (cf_ServiceName cfg @ '':outbox'')) a (\<lambda>appLogger.
       let log = ap_WithN lib appLogger ''outbox_app''; a = a\<lparr>oa_log := Some log\<rparr> in
     acquire ''init postgres'' (ap_NewPostgres lib cfg log) a (\<lambda>db.
       let a = a\<lparr>oa_postgres := Some db\<rparr> in
     acquire ''init kafka publisher'' (ap_NewPublisher lib cfg log) a (\<lambda>publisher.
       let a = a\<lparr>oa_publisher := Some publisher, oa_worker := Some (db, publisher)\<rparr> in
     after (ap_Info lib log ''Outbox dispatcher configured'') (ok (a, None))))))"

definition outbox_New :: "('w, 'l) app_library \<Rightarrow> string \<Rightarrow> ('w, 'l outbox_app) go" where
  "outbox_New lib configPath = new_app lib (outbox_setup lib) (outbox_Close lib) configPath"

text \<open>\<open>Run\<close> returns when its context is done.\<close>

definition outbox_Run :: "('w, 'l) app_library \<Rightarrow> 'l outbox_app \<Rightarrow> ('w, unit) go" where
  "outbox_Run lib a =
     (case oa_worker a of
        None \<Rightarrow> fail (NewErr ''outbox worker is not configured'')
      | Some (db, publisher) \<Rightarrow> after (ap_RunWorker lib db publisher) (outbox_Close lib a))"

section \<open>internal/app/vkusersvc\<close>

record 'l vk_app =
  va_log :: "'l option"
  va_traceShutdown :: "nat option option"
  va_postgres :: "nat option"
  va_consumer :: "nat option"

definition vk_empty :: "'l vk_app" where
  "vk_empty = \<lparr>va_log = None, va_traceShutdown = None, va_postgres = None, va_consumer = None\<rparr>"

definition vk_app_Close :: "('w, 'l) app_library \<Rightarrow> 'l vk_app \<Rightarrow> ('w, unit) go" where
  "vk_app_Close lib a =
     andThen (close_part (ap_CloseConsumer lib) (va_consumer a) None) (\<lambda>closeErr.
     andThen (close_part (ap_ClosePostgres lib) (va_postgres a) closeErr) (\<lambda>closeErr.
     andThen (close_part (trace_shutdown lib) (va_traceShutdown a) closeErr) (\<lambda>closeErr.
     closed_with lib (va_log a) closeErr)))"

definition vk_setup :: "('w, 'l) app_library \<Rightarrow> service_config \<Rightarrow> ('w, 'l vk_app \<times> err option) go" where
  "vk_setup lib cfg =
     acquire ''init tracing'' (init_tracing lib cfg) vk_empty (\<lambda>shutdown.
       let a = vk_empty\<lparr>va_traceShutdown := Some shutdown\<rparr> in
     acquire ''build logger'' (ap_NewLogger lib (cf_Env cfg) (cf_ServiceName cfg @ '':vk-consumer'')) a (\<lambda>appLogger.
       let log = ap_WithN lib appLogger ''vk_user_app''; a = a\<lparr>va_log := Some log\<rparr> in
     acquire ''init postgres'' (ap_NewPostgres lib cfg log) a (\<lambda>db.
       let a = a\<lparr>va_postgres := Some db\<rparr> in
     acquire ''init vk user consumer'' (ap_NewConsumer lib cfg log db) a (\<lambda>consumer.
       let a = a\<lparr>va_consumer := Some consumer\<rparr> in
     after (ap_Info lib log ''VK user consumer configured'') (ok (a, None))))))"

definition vk_New :: "('w, 'l) app_library \<Rightarrow> string \<Rightarrow> ('w, 'l vk_app) go" where
  "vk_New lib configPath = new_app lib (vk_setup lib) (vk_app_Close lib) configPath"

definition vk_app_Run :: "('w, 'l) app_library \<Rightarrow> 'l vk_app \<Rightarrow> ('w, unit) go" where
  "vk_app_Run lib a =
     (case va_consumer a of
        None \<Rightarrow> fail (NewErr ''vk user consumer is not configured'')
      | Some consumer \<Rightarrow>
          call (ap_RunConsumer lib consumer) (\<lambda>r. case r of
            Inl e \<Rightarrow>
              (if e \<noteq> CtxErr ''context canceled'' then call (vk_app_Close lib a) (\<lambda>_. fail e)
               else vk_app_Close lib a)
          | Inr _ \<Rightarrow> vk_app_Close lib a))"

section \<open>internal/app/authsvc\<close>

record 'l auth_app =
  aa_log :: "'l option"
  aa_traceShutdown :: "nat option option"
  aa_postgres :: "nat option"
  aa_outboxPublisher :: "nat option"
  aa_grpcApp :: "nat option"
  aa_metricsServer :: "nat option"
  aa_profilerServer :: "nat option"
  aa_outboxWorker :: "(nat \<times> nat) option"

definition auth_empty :: "'l auth_app" where
  "auth_empty =
     \<lparr>aa_log = None, aa_traceShutdown = None, aa_postgres = None, aa_outboxPublisher = None, aa_grpcApp = None,
      aa_metricsServer = None, aa_profilerServer = None, aa_outboxWorker = None\<rparr>"

definition auth_Close :: "('w, 'l) app_library \<Rightarrow> 'l auth_app \<Rightarrow> ('w, unit) go" where
  "auth_Close lib a =
     andThen (close_part (ap_CloseServers lib) (aa_grpcApp a) None) (\<lambda>closeErr.
     andThen (close_part (ap_ClosePublisher lib) (aa_outboxPublisher a) closeErr) (\<lambda>closeErr.
     andThen (close_part (ap_ClosePostgres lib) (aa_postgres a) closeErr) (\<lambda>closeErr.
     andThen (close_part (\<lambda>h. Server_Close lib (Some h)) (aa_profilerServer a) closeErr) (\<lambda>closeErr.
     andThen (close_part (\<lambda>h. Server_Close lib (Some h)) (aa_metricsServer a) closeErr) (\<lambda>closeErr.
     andThen (close_part (trace_shutdown lib) (aa_traceShutdown a) closeErr) (\<lambda>closeErr.
     closed_with lib (aa_log a) closeErr))))))"

text \<open>The observability servers, when they are switched on; making one opens nothing.\<close>

definition new_http :: "('w, 'l) app_library \<Rightarrow> service_config \<Rightarrow> bool \<Rightarrow> ('w, nat option) state" where
  "new_http lib cfg enabled =
     (if enabled then do { h \<leftarrow> ap_NewHttp lib cfg; State_Monad.return (Some h) } else State_Monad.return None)"

definition auth_setup :: "('w, 'l) app_library \<Rightarrow> service_config option \<Rightarrow> ('w, 'l auth_app \<times> err option) go" where
  "auth_setup lib config =
     (case config of
        None \<Rightarrow> ok (auth_empty, Some (NewErr ''service config is nil''))
      | Some cfg \<Rightarrow>
     acquire ''init tracing'' (init_tracing lib cfg) auth_empty (\<lambda>shutdown.
       let a = auth_empty\<lparr>aa_traceShutdown := Some shutdown\<rparr> in
     acquire ''build logger'' (ap_NewLogger lib (cf_Env cfg) (cf_ServiceName cfg)) a (\<lambda>appLogger.
       let log = ap_WithN lib appLogger ''auth_app''; a = a\<lparr>aa_log := Some log\<rparr> in
     acquire ''init postgres'' (ap_NewPostgres lib cfg log) a (\<lambda>db.
       let a = a\<lparr>aa_postgres := Some db\<rparr> in
     acquire ''init kafka publisher'' (ap_NewPublisher lib cfg log) a (\<lambda>publisher.
       let a = a\<lparr>aa_outboxPublisher := Some publisher, aa_outboxWorker := Some (db, publisher)\<rparr> in
     acquire ''init grpc app'' (ap_NewServers lib cfg log db) a (\<lambda>grpcApp. do {
       metrics \<leftarrow> new_http lib cfg (cf_MetricsEnabled cfg);
       profiler \<leftarrow> new_http lib cfg (cf_ProfilerEnabled cfg \<and> cf_Env cfg \<noteq> EnvProd);
       (let a = a\<lparr>aa_grpcApp := Some grpcApp, aa_metricsServer := metrics, aa_profilerServer := profiler\<rparr> in
        after (ap_Info lib log ''Auth service dependencies configured'') (ok (a, None))) }))))))"

definition auth_New :: "('w, 'l) app_library \<Rightarrow> string \<Rightarrow> ('w, 'l auth_app) go" where
  "auth_New lib configPath = new_app lib (\<lambda>cfg. auth_setup lib (Some cfg)) (auth_Close lib) configPath"

text \<open>What the \<open>select\<close> of \<open>Run\<close> takes: the end of the context, or a value of \<open>Notify\<close>.\<close>

datatype run_end = RunCancelled | RunNotified "err option"

definition auth_wait :: "('w, 'l) app_library \<Rightarrow> 'l auth_app \<Rightarrow> run_end \<Rightarrow> ('w, unit) go" where
  "auth_wait lib a ending =
     (case ending of
        RunCancelled \<Rightarrow> auth_Close lib a
      | RunNotified (Some e) \<Rightarrow> call (auth_Close lib a) (\<lambda>_. fail e)
      | RunNotified None \<Rightarrow> ok ())"

definition auth_Run :: "('w, 'l) app_library \<Rightarrow> 'l auth_app \<Rightarrow> run_end \<Rightarrow> ('w, unit) go" where
  "auth_Run lib a ending =
     call (Server_Start (ap_ListenMetrics lib) (aa_metricsServer a)) (\<lambda>r. case r of
       Inl e \<Rightarrow> fail (wrap ''start metrics server'' e)
     | Inr _ \<Rightarrow>
     call (Server_Start (ap_ListenProfiler lib) (aa_profilerServer a)) (\<lambda>r. case r of
       Inl e \<Rightarrow> fail (wrap ''start profiler server'' e)
     | Inr _ \<Rightarrow>
         (case aa_grpcApp a of
            None \<Rightarrow> panic ''invalid memory address or nil pointer dereference''
          | Some h \<Rightarrow>
              andThen (ap_StartServers lib h) (\<lambda>_.
                (case aa_outboxWorker a of
                   None \<Rightarrow> panic ''invalid memory address or nil pointer dereference''
                 | Some (db, publisher) \<Rightarrow> after (ap_RunWorker lib db publisher) (auth_wait lib a ending))))))"

definition ResolveConfigPath :: "string list \<Rightarrow> string \<Rightarrow> string" where
  "ResolveConfigPath args env =
     (if length args > 1 \<and> args ! 1 \<noteq> [] then args ! 1
      else if env \<noteq> [] then env
      else ''configs/auth/local.yaml'')"

section \<open>Who holds what\<close>

text \<open>
  The contract of the parts: a constructor opens its part or nothing, a close releases its part also
  when it reports an error, and the rest leaves what is open as it is. \<open>view\<close> is what is open.
\<close>

definition acquired :: "('w \<Rightarrow> resource set) \<Rightarrow> (nat \<Rightarrow> resource) \<Rightarrow> 'w \<Rightarrow> nat outcome \<Rightarrow> 'w \<Rightarrow> bool" where
  "acquired view mk w r v \<longleftrightarrow>
     (case r of Ok h \<Rightarrow> mk h \<notin> view w \<and> view v = insert (mk h) (view w) | Err e \<Rightarrow> view v = view w | Panic p \<Rightarrow> True)"

definition releasing :: "('w \<Rightarrow> resource set) \<Rightarrow> ('w, unit) go \<Rightarrow> resource set \<Rightarrow> bool" where
  "releasing view m xs \<longleftrightarrow> (\<forall>w. wp m (\<lambda>r v. (\<forall>p. r \<noteq> Panic p) \<and> view v = view w - xs) w)"

definition holding :: "('w \<Rightarrow> resource set) \<Rightarrow> ('w, 'l) app_library \<Rightarrow> bool" where
  "holding view lib \<longleftrightarrow>
     (\<forall>path. quiet view (ap_ReadConfig lib path)) \<and> (\<forall>env name. quiet view (ap_NewLogger lib env name))
     \<and> (\<forall>l m. quiet view (ap_Info lib l m)) \<and> (\<forall>l. quiet view (ap_Sync lib l))
     \<and> (\<forall>d p. quiet view (ap_RunWorker lib d p)) \<and> (\<forall>c. quiet view (ap_RunConsumer lib c))
     \<and> (\<forall>cfg w. wp (ap_InitTracing lib cfg) (acquired view Tracing w) w)
     \<and> (\<forall>cfg l w. wp (ap_NewPostgres lib cfg l) (acquired view Database w) w)
     \<and> (\<forall>cfg l w. wp (ap_NewPublisher lib cfg l) (acquired view Broker w) w)
     \<and> (\<forall>cfg l d w. wp (ap_NewConsumer lib cfg l d) (acquired view ConsumerGroup w) w)
     \<and> (\<forall>cfg l d w. wp (ap_NewServers lib cfg l d)
          (\<lambda>r v. view v = view w \<and> (\<forall>h. r = Ok h \<longrightarrow> Servers h \<notin> view w)) w)
     \<and> (\<forall>cfg w. wp (ap_NewHttp lib cfg)
          (\<lambda>h v. view v = view w \<and> MetricsHttp h \<notin> view w \<and> ProfilerHttp h \<notin> view w) w)
     \<and> (\<forall>h w. wp (ap_ListenMetrics lib h) (\<lambda>_ v. view v = insert (MetricsHttp h) (view w)) w)
     \<and> (\<forall>h w. wp (ap_ListenProfiler lib h) (\<lambda>_ v. view v = insert (ProfilerHttp h) (view w)) w)
     \<and> (\<forall>h w. wp (ap_StartServers lib h)
          (\<lambda>r v. view v = (if r = Ok () then insert (Servers h) (view w) else view w)) w)
     \<and> (\<forall>h. releasing view (ap_ShutdownTracing lib h) {Tracing h})
     \<and> (\<forall>h. releasing view (ap_ClosePostgres lib h) {Database h})
     \<and> (\<forall>h. releasing view (ap_ClosePublisher lib h) {Broker h})
     \<and> (\<forall>h. releasing view (ap_CloseConsumer lib h) {ConsumerGroup h})
     \<and> (\<forall>h. releasing view (ap_CloseServers lib h) {Servers h})
     \<and> (\<forall>h. releasing view (ap_Shutdown lib h) {MetricsHttp h, ProfilerHttp h})"

definition of_part :: "('h \<Rightarrow> resource set) \<Rightarrow> 'h option \<Rightarrow> resource set" where
  "of_part f x = (case x of None \<Rightarrow> {} | Some h \<Rightarrow> f h)"

lemma of_part_simps [simp]: "of_part f None = {}" "of_part f (Some h) = f h"
  by (simp_all add: of_part_def)

definition traced :: "nat option option \<Rightarrow> resource set" where
  "traced t = of_part (of_part (\<lambda>h. {Tracing h})) t"

definition outbox_held :: "'l outbox_app \<Rightarrow> resource set" where
  "outbox_held a = traced (oa_traceShutdown a) \<union> of_part (\<lambda>h. {Database h}) (oa_postgres a)
     \<union> of_part (\<lambda>h. {Broker h}) (oa_publisher a)"

definition vk_held :: "'l vk_app \<Rightarrow> resource set" where
  "vk_held a = traced (va_traceShutdown a) \<union> of_part (\<lambda>h. {Database h}) (va_postgres a)
     \<union> of_part (\<lambda>h. {ConsumerGroup h}) (va_consumer a)"

definition auth_held :: "'l auth_app \<Rightarrow> resource set" where
  "auth_held a = traced (aa_traceShutdown a) \<union> of_part (\<lambda>h. {Database h}) (aa_postgres a)
     \<union> of_part (\<lambda>h. {Broker h}) (aa_outboxPublisher a) \<union> of_part (\<lambda>h. {Servers h}) (aa_grpcApp a)
     \<union> of_part (\<lambda>h. {MetricsHttp h, ProfilerHttp h}) (aa_metricsServer a)
     \<union> of_part (\<lambda>h. {MetricsHttp h, ProfilerHttp h}) (aa_profilerServer a)"

text \<open>All an application has opened is its own, and was not open before.\<close>

definition owns :: "resource set \<Rightarrow> resource set \<Rightarrow> resource set \<Rightarrow> bool" where
  "owns held before now \<longleftrightarrow> before \<subseteq> now \<and> now \<subseteq> before \<union> held \<and> held \<inter> before = {}"

lemma owns_released: "owns held before now \<Longrightarrow> now - held = before"
  by (auto simp: owns_def)

lemma owns_more: "owns held before now \<Longrightarrow> x \<notin> before \<Longrightarrow> owns (insert x held) before (insert x now)"
  "owns held before now \<Longrightarrow> x \<notin> before \<Longrightarrow> owns (insert x held) before now"
  by (auto simp: owns_def)

lemma holdingD:
  assumes "holding view lib"
  shows "quiet view (ap_ReadConfig lib path)" "quiet view (ap_NewLogger lib env name)" "quiet view (ap_Info lib l m)"
    "quiet view (ap_Sync lib l)" "quiet view (ap_RunWorker lib d p)" "quiet view (ap_RunConsumer lib c)"
    "wp (ap_InitTracing lib cfg) (acquired view Tracing w) w"
    "wp (ap_NewPostgres lib cfg l) (acquired view Database w) w"
    "wp (ap_NewPublisher lib cfg l) (acquired view Broker w) w"
    "wp (ap_NewConsumer lib cfg l d) (acquired view ConsumerGroup w) w"
    "wp (ap_NewServers lib cfg l d) (\<lambda>r v. view v = view w \<and> (\<forall>h. r = Ok h \<longrightarrow> Servers h \<notin> view w)) w"
    "wp (ap_NewHttp lib cfg) (\<lambda>h v. view v = view w \<and> MetricsHttp h \<notin> view w \<and> ProfilerHttp h \<notin> view w) w"
    "wp (ap_ListenMetrics lib h) (\<lambda>_ v. view v = insert (MetricsHttp h) (view w)) w"
    "wp (ap_ListenProfiler lib h) (\<lambda>_ v. view v = insert (ProfilerHttp h) (view w)) w"
    "wp (ap_StartServers lib h) (\<lambda>r v. view v = (if r = Ok () then insert (Servers h) (view w) else view w)) w"
    "releasing view (ap_ShutdownTracing lib h) {Tracing h}" "releasing view (ap_ClosePostgres lib h) {Database h}"
    "releasing view (ap_ClosePublisher lib h) {Broker h}" "releasing view (ap_CloseConsumer lib h) {ConsumerGroup h}"
    "releasing view (ap_CloseServers lib h) {Servers h}"
    "releasing view (ap_Shutdown lib h) {MetricsHttp h, ProfilerHttp h}"
  using assms by (simp_all add: holding_def)

subsection \<open>Closing releases everything\<close>

lemma close_part_wp:
  assumes "\<And>h. releasing view (close h) (f h)"
    and "\<And>closeErr v. view v = view w - of_part f part \<Longrightarrow> wp (k closeErr) Q v"
  shows "wp (andThen (close_part close part closeErr) k) Q w"
proof (rule wp_andThenI [where P = "\<lambda>r v. (\<exists>e. r = Ok e) \<and> view v = view w - of_part f part"])
  show "wp (close_part close part closeErr) (\<lambda>r v. (\<exists>e. r = Ok e) \<and> view v = view w - of_part f part) w"
  proof (cases part)
    case (Some h)
    have "wp (close h) (\<lambda>r v. (\<forall>p. r \<noteq> Panic p) \<and> view v = view w - f h) w"
      using assms(1) [of h] by (simp add: releasing_def)
    with Some show ?thesis
      by (auto simp: close_part_def wp_ok intro!: wp_callI)
  qed (simp add: close_part_def wp_ok)
qed (use assms(2) in auto)

lemma closed_with_wp:
  assumes "\<And>l. quiet view (ap_Sync lib l)"
  shows "wp (closed_with lib log closeErr) (\<lambda>r v. (\<forall>p. r \<noteq> Panic p) \<and> view v = view w) w"
  unfolding closed_with_def
  by (rule wp_quiet_after [where view = view])
    (use assms in \<open>auto simp: wp_ok wp_fail split: option.split\<close>)

lemma releasing_trace: "holding view lib \<Longrightarrow> releasing view (trace_shutdown lib h) (of_part (\<lambda>h. {Tracing h}) h)"
  by (cases h) (simp_all add: trace_shutdown_def holdingD, simp add: releasing_def wp_ok)

lemma releasing_Server_Close:
  "holding view lib \<Longrightarrow> releasing view (Server_Close lib (Some h)) {MetricsHttp h, ProfilerHttp h}"
  unfolding releasing_def
proof
  fix w
  assume "holding view lib"
  then have "wp (ap_Shutdown lib h) (\<lambda>r v. (\<forall>p. r \<noteq> Panic p) \<and> view v = view w - {MetricsHttp h, ProfilerHttp h}) w"
    using holdingD(21) by (auto simp: releasing_def)
  then show "wp (Server_Close lib (Some h)) (\<lambda>r v. (\<forall>p. r \<noteq> Panic p) \<and> view v = view w - {MetricsHttp h, ProfilerHttp h}) w"
    by (auto simp: Server_Close_def wp_ok wp_fail intro!: wp_callI)
qed

lemma outbox_Close_releases:
  assumes "holding view lib"
  shows "releasing view (outbox_Close lib a) (outbox_held a)"
  unfolding releasing_def outbox_Close_def
  by (rule allI,
      rule close_part_wp [OF holdingD(18) [OF assms]],
      rule close_part_wp [OF holdingD(17) [OF assms]],
      rule close_part_wp [OF releasing_trace [OF assms]],
      rule wp_conseq [OF closed_with_wp [OF holdingD(4) [OF assms]]])
    (auto simp: outbox_held_def traced_def)

lemma vk_Close_releases:
  assumes "holding view lib"
  shows "releasing view (vk_app_Close lib a) (vk_held a)"
  unfolding releasing_def vk_app_Close_def
  by (rule allI,
      rule close_part_wp [OF holdingD(19) [OF assms]],
      rule close_part_wp [OF holdingD(17) [OF assms]],
      rule close_part_wp [OF releasing_trace [OF assms]],
      rule wp_conseq [OF closed_with_wp [OF holdingD(4) [OF assms]]])
    (auto simp: vk_held_def traced_def)

lemma auth_Close_releases:
  assumes "holding view lib"
  shows "releasing view (auth_Close lib a) (auth_held a)"
  unfolding releasing_def auth_Close_def
  by (rule allI,
      rule close_part_wp [OF holdingD(20) [OF assms]],
      rule close_part_wp [OF holdingD(18) [OF assms]],
      rule close_part_wp [OF holdingD(17) [OF assms]],
      rule close_part_wp [OF releasing_Server_Close [OF assms]],
      rule close_part_wp [OF releasing_Server_Close [OF assms]],
      rule close_part_wp [OF releasing_trace [OF assms]],
      rule wp_conseq [OF closed_with_wp [OF holdingD(4) [OF assms]]])
    (auto simp: auth_held_def traced_def)

subsection \<open>Setting up opens only what the application holds\<close>

definition set_up :: "('w \<Rightarrow> resource set) \<Rightarrow> ('a \<Rightarrow> resource set) \<Rightarrow> resource set \<Rightarrow> ('a \<times> err option) outcome \<Rightarrow> 'w \<Rightarrow> bool" where
  "set_up view held before r v \<longleftrightarrow>
     (case r of Ok (a, e) \<Rightarrow> owns (held a) before (view v) | Err e \<Rightarrow> False | Panic p \<Rightarrow> True)"

lemma set_up_ok: "owns (held a) before (view v) \<Longrightarrow> wp (ok (a, e)) (set_up view held before) v"
  by (simp add: wp_ok set_up_def)

lemma wp_acquire:
  assumes "wp m (acquired view mk w) w" "owns (held app) before (view w)"
    and "\<And>h v. mk h \<notin> before \<Longrightarrow> owns (insert (mk h) (held app)) before (view v) \<Longrightarrow> wp (k h) (set_up view held before) v"
  shows "wp (acquire doing m app k) (set_up view held before) w"
  unfolding acquire_def
proof (rule wp_callI [OF assms(1)], goal_cases)
  case (1 h v)
  with assms(2) show ?case
    unfolding sum.case by (intro assms(3)) (auto simp: acquired_def owns_def)
next
  case (2 e v)
  with assms(2) show ?case by (simp add: acquired_def set_up_ok)
qed (simp add: set_up_def)

lemma wp_acquire_quiet:
  assumes "quiet view m" "owns (held app) before (view w)"
    and "\<And>h v. owns (held app) before (view v) \<Longrightarrow> wp (k h) (set_up view held before) v"
  shows "wp (acquire doing m app k) (set_up view held before) w"
  unfolding acquire_def
  by (rule wp_callI [OF quietD [OF assms(1)]]) (use assms(2,3) in \<open>auto simp: set_up_ok set_up_def\<close>)

lemma wp_acquire_tracing:
  assumes "holding view lib" "owns (held app) before (view w)" "held app = {}"
    and "\<And>h v. owns (of_part (\<lambda>h. {Tracing h}) h) before (view v) \<Longrightarrow> wp (k h) (set_up view held before) v"
  shows "wp (acquire doing (init_tracing lib cfg) app k) (set_up view held before) w"
proof -
  have "wp (init_tracing lib cfg)
      (\<lambda>r v. case r of Ok h \<Rightarrow> owns (of_part (\<lambda>h. {Tracing h}) h) before (view v) | Err e \<Rightarrow> view v = view w | Panic p \<Rightarrow> True) w"
    using assms(2,3)
    by (auto simp: init_tracing_def wp_ok acquired_def owns_def intro!: wp_andThenI [OF holdingD(7) [OF assms(1)]])
  then show ?thesis
    unfolding acquire_def by (rule wp_callI) (use assms(2,4) in \<open>auto simp: set_up_ok set_up_def\<close>)
qed

lemma outbox_setup_wp:
  assumes "holding view lib"
  shows "wp (outbox_setup lib cfg) (set_up view outbox_held (view w)) w"
  unfolding outbox_setup_def Let_def
proof (rule wp_acquire_tracing [OF assms], goal_cases)
  case (3 shutdown v)
  then show ?case
  proof (intro wp_acquire_quiet [OF holdingD(2) [OF assms]], goal_cases)
    case (2 l v)
    then show ?case
    proof (intro wp_acquire [OF holdingD(8) [OF assms]], goal_cases)
      case (2 db v)
      then show ?case
        by (intro wp_acquire [OF holdingD(9) [OF assms]] wp_quiet_after [OF holdingD(3) [OF assms]] set_up_ok)
          (simp_all add: outbox_held_def outbox_empty_def traced_def Un_insert_right insert_commute)
    qed (simp_all add: outbox_held_def outbox_empty_def traced_def)
  qed (simp_all add: outbox_held_def outbox_empty_def traced_def)
qed (simp_all add: outbox_held_def outbox_empty_def traced_def owns_def)

lemma vk_setup_wp:
  assumes "holding view lib"
  shows "wp (vk_setup lib cfg) (set_up view vk_held (view w)) w"
  unfolding vk_setup_def Let_def
proof (rule wp_acquire_tracing [OF assms], goal_cases)
  case (3 shutdown v)
  then show ?case
  proof (intro wp_acquire_quiet [OF holdingD(2) [OF assms]], goal_cases)
    case (2 l v)
    then show ?case
    proof (intro wp_acquire [OF holdingD(8) [OF assms]], goal_cases)
      case (2 db v)
      then show ?case
        by (intro wp_acquire [OF holdingD(10) [OF assms]] wp_quiet_after [OF holdingD(3) [OF assms]] set_up_ok)
          (simp_all add: vk_held_def vk_empty_def traced_def insert_commute)
    qed (simp_all add: vk_held_def vk_empty_def traced_def)
  qed (simp_all add: vk_held_def vk_empty_def traced_def)
qed (simp_all add: vk_held_def vk_empty_def traced_def owns_def)

lemma new_http_wp:
  assumes "holding view lib"
  shows "wp (new_http lib cfg enabled) (\<lambda>h v. view v = view w
    \<and> of_part (\<lambda>h. {MetricsHttp h, ProfilerHttp h}) h \<inter> view w = {}) w"
proof (cases enabled)
  case True
  then show ?thesis
    by (simp add: new_http_def) (rule wp_bindI [OF holdingD(12) [OF assms]], simp add: wp_return)
qed (simp add: new_http_def wp_return)

text \<open>The parts the setup of the auth service makes last open nothing.\<close>

lemma wp_acquire_servers:
  assumes "holding view lib" "owns (held app) before (view w)"
    and "\<And>h v. view v = view w \<Longrightarrow> Servers h \<notin> before \<Longrightarrow> wp (k h) (set_up view held before) v"
  shows "wp (acquire doing (ap_NewServers lib cfg l d) app k) (set_up view held before) w"
  unfolding acquire_def
  by (rule wp_callI [OF holdingD(11) [OF assms(1)]])
    (use assms(2,3) in \<open>auto simp: set_up_ok set_up_def owns_def\<close>)

lemma owns_idle:
  "owns held before now \<Longrightarrow> x \<notin> before \<Longrightarrow> S \<inter> before = {} \<Longrightarrow> T \<inter> before = {} \<Longrightarrow> owns (insert x (S \<union> T \<union> held)) before now"
  by (auto simp: owns_def)

lemma auth_held_more:
  "aa_grpcApp a = None \<Longrightarrow> aa_metricsServer a = None \<Longrightarrow> aa_profilerServer a = None \<Longrightarrow>
   auth_held (a\<lparr>aa_grpcApp := Some h, aa_metricsServer := m, aa_profilerServer := p\<rparr>) =
     insert (Servers h) (of_part (\<lambda>h. {MetricsHttp h, ProfilerHttp h}) m \<union> of_part (\<lambda>h. {MetricsHttp h, ProfilerHttp h}) p
       \<union> auth_held a)"
  by (auto simp: auth_held_def)

lemma owns_before: "owns held before now \<Longrightarrow> S \<inter> now = {} \<Longrightarrow> S \<inter> before = {}"
  by (auto simp: owns_def)

text \<open>The end of the setup, over an application that has no servers yet.\<close>

lemma auth_servers_wp:
  assumes "holding view lib" "owns (auth_held a) before (view v)" "Servers h \<notin> before"
    and none: "aa_grpcApp a = None" "aa_metricsServer a = None" "aa_profilerServer a = None"
  shows "wp (do {
      metrics \<leftarrow> new_http lib cfg x;
      profiler \<leftarrow> new_http lib cfg y;
      after (ap_Info lib l m) (ok (a\<lparr>aa_grpcApp := Some h, aa_metricsServer := metrics, aa_profilerServer := profiler\<rparr>, None)) })
    (set_up view auth_held before) v"
proof (rule wp_bindI [OF new_http_wp [OF assms(1)]], rule wp_bindI [OF new_http_wp [OF assms(1)]],
    rule wp_quiet_after [OF holdingD(3) [OF assms(1)]], rule set_up_ok, goal_cases)
  case (1 metrics u profiler u' u'')
  then show ?case
    unfolding auth_held_more [OF none] by (intro owns_idle) (use assms(2,3) owns_before in auto)
qed

lemma auth_setup_wp:
  assumes "holding view lib"
  shows "wp (auth_setup lib (Some cfg)) (set_up view auth_held (view w)) w"
  unfolding auth_setup_def Let_def option.case
proof (rule wp_acquire_tracing [OF assms], goal_cases)
  case (3 shutdown v)
  then show ?case
  proof (intro wp_acquire_quiet [OF holdingD(2) [OF assms]], goal_cases)
    case (2 l v)
    then show ?case
    proof (intro wp_acquire [OF holdingD(8) [OF assms]], goal_cases)
      case (2 db v)
      then show ?case
      proof (intro wp_acquire [OF holdingD(9) [OF assms]], goal_cases)
        case (2 publisher v)
        then show ?case
          by (intro wp_acquire_servers [OF assms] auth_servers_wp [OF assms])
            (simp_all add: auth_held_def auth_empty_def traced_def insert_commute)
      qed (simp_all add: auth_held_def auth_empty_def traced_def)
    qed (simp_all add: auth_held_def auth_empty_def traced_def)
  qed (simp_all add: auth_held_def auth_empty_def traced_def)
qed (simp_all add: auth_held_def auth_empty_def traced_def owns_def)

lemma LoadServiceConfig_wp:
  "holding view lib \<Longrightarrow> wp (LoadServiceConfig lib path) (\<lambda>r v. view v = view w) w"
  unfolding LoadServiceConfig_def
  by (rule wp_quiet_then [OF holdingD(1)])
    (auto simp: wp_ok wp_fail split: sum.split config_failure.split)

lemma new_app_wp:
  assumes "holding view lib"
    and made: "\<And>cfg w. wp (setup cfg) (set_up view held (view w)) w"
    and close: "\<And>a. releasing view (close a) (held a)"
  shows "wp (new_app lib setup close path)
    (\<lambda>r v. case r of Ok a \<Rightarrow> owns (held a) (view w) (view v) | Err e \<Rightarrow> view v = view w | Panic p \<Rightarrow> True) w"
  unfolding new_app_def
proof (rule wp_andThenI [OF LoadServiceConfig_wp [OF assms(1)]], goal_cases)
  case (1 cfg v)
  have v: "wp (setup cfg) (set_up view held (view w)) v" using made [of cfg v] 1 by simp
  show ?case
  proof (rule wp_andThenI [OF v], goal_cases)
    case (1 r u)
    obtain a e where r: "r = (a, e)" by (cases r)
    with 1 have o: "owns (held a) (view w) (view u)" by (simp add: set_up_def)
    have "wp (close a) (\<lambda>r v. (\<forall>p. r \<noteq> Panic p) \<and> view v = view u - held a) u"
      using close [of a] by (simp add: releasing_def)
    then have "wp (call (close a) (\<lambda>_. fail x))
        (\<lambda>r v. case r of Ok a \<Rightarrow> owns (held a) (view w) (view v) | Err e \<Rightarrow> view v = view w | Panic p \<Rightarrow> True) u" for x
      by (rule wp_callI) (simp_all add: wp_fail owns_released [OF o])
    with r o show ?case by (simp add: wp_ok split: option.split)
  qed (simp_all add: set_up_def)
qed simp_all

subsection \<open>Running\<close>

text \<open>An application that was made has what its \<open>Run\<close> needs.\<close>

lemma acquire_ends:
  "(\<And>h v. wp (k h) (\<lambda>r _. \<forall>a. r = Ok (a, None) \<longrightarrow> P a) v) \<Longrightarrow>
   wp (acquire doing m app k) (\<lambda>r _. \<forall>a. r = Ok (a, None) \<longrightarrow> P a) w"
  unfolding acquire_def
  by (rule wp_callI [OF wp_True]) (simp_all add: wp_ok)

lemma wp_then_ends: "(\<And>x v. wp (n x) (\<lambda>r _. P r) v) \<Longrightarrow> wp (State_Monad.bind m n) (\<lambda>r _. P r) w"
  unfolding wp_bind by (simp add: wp_def split: prod.splits)

lemma wp_after_ends: "(\<And>v. wp n (\<lambda>r _. P r) v) \<Longrightarrow> wp (after m n) (\<lambda>r _. P r) w"
  unfolding after_def by (rule wp_then_ends)

lemma new_app_ends:
  assumes "\<And>cfg w. wp (setup cfg) (\<lambda>r _. \<forall>a. r = Ok (a, None) \<longrightarrow> P a) w"
  shows "wp (new_app lib setup close path) (\<lambda>r _. \<forall>a. r = Ok a \<longrightarrow> P a) w"
  unfolding new_app_def
proof (rule wp_andThenI [OF wp_True], goal_cases)
  case (1 cfg v)
  have failed: "wp (call (close a) (\<lambda>_. fail e)) (\<lambda>r _. \<forall>a. r = Ok a \<longrightarrow> P a) u" for a e u
    by (rule wp_callI [OF wp_True]) (simp_all add: wp_fail)
  show ?case
    by (rule wp_andThenI [OF assms]) (auto simp: wp_ok failed split: option.split)
qed simp_all

lemma setups_complete:
  "wp (outbox_setup lib cfg) (\<lambda>r _. \<forall>a. r = Ok (a, None) \<longrightarrow> oa_worker a \<noteq> None) w"
  "wp (vk_setup lib cfg) (\<lambda>r _. \<forall>a. r = Ok (a, None) \<longrightarrow> va_consumer a \<noteq> None) w"
  "wp (auth_setup lib (Some cfg)) (\<lambda>r _. \<forall>a. r = Ok (a, None) \<longrightarrow> aa_grpcApp a \<noteq> None \<and> aa_outboxWorker a \<noteq> None) w"
  unfolding outbox_setup_def vk_setup_def auth_setup_def Let_def option.case
  by (intro acquire_ends wp_after_ends wp_then_ends; simp add: wp_ok)+

lemma owns_opened: "owns held before now \<Longrightarrow> x \<in> held \<Longrightarrow> owns held before (insert x now)"
  by (auto simp: owns_def)

lemma released_wp:
  assumes "releasing view m held" "owns held before (view v)" "view v' = view v"
  shows "wp m (\<lambda>r u. (\<forall>p. r \<noteq> Panic p) \<and> view u = before) v'"
proof -
  have "wp m (\<lambda>r u. (\<forall>p. r \<noteq> Panic p) \<and> view u = view v' - held) v'"
    using assms(1) by (simp add: releasing_def)
  then show ?thesis using owns_released [OF assms(2)] assms(3) by simp
qed

lemma outbox_Run_wp:
  assumes "holding view lib" "owns (outbox_held a) before (view v)" "oa_worker a \<noteq> None"
  shows "wp (outbox_Run lib a) (\<lambda>_ u. view u = before) v"
  using assms(3) wp_conseq [OF released_wp [OF outbox_Close_releases [OF assms(1)] assms(2)]]
  by (auto simp: outbox_Run_def intro!: wp_quiet_after [OF holdingD(5) [OF assms(1)]])

lemma vk_Run_wp:
  assumes "holding view lib" "owns (vk_held a) before (view v)" "va_consumer a \<noteq> None"
    and "\<And>c w p. fst (run_state (ap_RunConsumer lib c) w) \<noteq> Panic p"
  shows "wp (vk_app_Run lib a) (\<lambda>_ u. view u = before) v"
proof -
  have close: "wp (vk_app_Close lib a) (\<lambda>r u. (\<forall>p. r \<noteq> Panic p) \<and> view u = before) v'" if "view v' = view v" for v'
    by (rule released_wp [OF vk_Close_releases [OF assms(1)] assms(2) that])
  have "wp (ap_RunConsumer lib c) (\<lambda>r u. (\<forall>p. r \<noteq> Panic p) \<and> view u = view v) v" for c
    using quietD [OF holdingD(6) [OF assms(1)], of c v] assms(4) [of c v] by (simp add: wp_def split: prod.splits)
  note run = this
  obtain c where c: "va_consumer a = Some c" using assms(3) by blast
  have failed: "wp (call (vk_app_Close lib a) (\<lambda>_. fail e)) (\<lambda>_ u. view u = before) v'" if "view v' = view v" for e v'
    by (rule wp_callI [OF close [OF that]]) (simp_all add: wp_fail)
  have closed: "wp (vk_app_Close lib a) (\<lambda>_ u. view u = before) v'" if "view v' = view v" for v'
    by (rule wp_conseq [OF close [OF that]]) simp
  show ?thesis
    unfolding vk_app_Run_def c option.case
    by (rule wp_callI [OF run]) (simp_all add: failed closed)
qed

text \<open>What \<open>Run\<close> of the auth service leaves open.\<close>

lemma Server_Start_wp:
  assumes "\<And>h w. wp (listen h) (\<lambda>_ v. view v = insert (mk h) (view w)) w"
    and "\<And>h. s = Some h \<Longrightarrow> mk h \<in> held" "owns held before (view v)"
  shows "wp (Server_Start listen s) (\<lambda>r u. r = Ok () \<and> owns held before (view u) \<and> view v \<subseteq> view u) v"
proof (cases s)
  case (Some h)
  show ?thesis
    unfolding Server_Start_def Some option.case
    by (rule wp_afterI [OF assms(1)]) (use assms(2,3) Some in \<open>auto simp: wp_ok intro: owns_opened\<close>)
qed (use assms(3) in \<open>simp add: Server_Start_def wp_ok\<close>)

definition auth_left :: "('w \<Rightarrow> resource set) \<Rightarrow> resource set \<Rightarrow> 'w \<Rightarrow> bool \<Rightarrow> run_end \<Rightarrow> err \<Rightarrow> unit outcome \<Rightarrow> 'w \<Rightarrow> bool" where
  "auth_left view before v up ending e r u \<longleftrightarrow>
     (if up \<and> ending \<noteq> RunNotified None then view u = before
      else view v \<subseteq> view u \<and> r = (if up then Ok () else Err e))"

lemma auth_wait_wp:
  assumes "holding view lib" "owns (auth_held a) before (view u)" "view v \<subseteq> view u" "view u' = view u"
  shows "wp (auth_wait lib a ending) (auth_left view before v True ending e) u'"
proof (cases ending)
  case RunCancelled
  then show ?thesis
    by (auto simp: auth_wait_def auth_left_def
        intro: wp_conseq [OF released_wp [OF auth_Close_releases [OF assms(1)] assms(2,4)]])
next
  case (RunNotified x)
  then show ?thesis
    using assms(3,4)
    by (cases x) (auto simp: auth_wait_def auth_left_def wp_ok wp_fail
        intro!: wp_callI [OF released_wp [OF auth_Close_releases [OF assms(1)] assms(2,4)]])
qed

lemma auth_Run_wp:
  assumes "holding view lib" "owns (auth_held a) before (view v)" "aa_grpcApp a \<noteq> None" "aa_outboxWorker a \<noteq> None"
    and "\<And>h u. fst (run_state (ap_StartServers lib h) u) = (if up then Ok () else Err e)"
  shows "wp (auth_Run lib a ending) (auth_left view before v up ending e) v"
proof -
  obtain h d b where h: "aa_grpcApp a = Some h" "aa_outboxWorker a = Some (d, b)" using assms(3,4) by fastforce
  have held: "\<And>x. aa_metricsServer a = Some x \<Longrightarrow> MetricsHttp x \<in> auth_held a"
    "\<And>x. aa_profilerServer a = Some x \<Longrightarrow> ProfilerHttp x \<in> auth_held a" "Servers h \<in> auth_held a"
    using h by (auto simp: auth_held_def)
  show ?thesis
    unfolding auth_Run_def h option.case prod.case
  proof (rule wp_callI [OF Server_Start_wp [OF holdingD(13) [OF assms(1)] held(1) assms(2)]], goal_cases)
    case (2 x1 v1)
    then have o1: "owns (auth_held a) before (view v1)" "view v \<subseteq> view v1" by simp_all
    show ?case
      unfolding sum.case
    proof (rule wp_callI [OF Server_Start_wp [OF holdingD(14) [OF assms(1)] held(2) o1(1)]], goal_cases)
      case (2 x2 v2)
      with o1(2) have o2: "owns (auth_held a) before (view v2)" "view v \<subseteq> view v2" by auto
      have "wp (ap_StartServers lib h) (\<lambda>r u. r = (if up then Ok () else Err e) \<and> owns (auth_held a) before (view u) \<and> view v \<subseteq> view u) v2"
        using holdingD(15) [OF assms(1), of h v2] assms(5) [of h v2] o2 owns_opened [OF o2(1) held(3)]
        by (auto simp: wp_def split: prod.splits if_splits)
      then show ?case
        unfolding sum.case
      proof (rule wp_andThenI, goal_cases)
        case (1 y u)
        then have "up" "owns (auth_held a) before (view u)" "view v \<subseteq> view u" by (auto split: if_splits)
        then show ?case
          by (intro wp_quiet_after [OF holdingD(5) [OF assms(1)]]) (simp add: auth_wait_wp [OF assms(1)])
      qed (auto simp: auth_left_def split: if_splits)
    qed (auto simp: held)
  qed (auto simp: held)
qed

section \<open>The properties\<close>

text \<open>Making an application, and closing the one that was made.\<close>

definition leak_free :: "('w \<Rightarrow> resource set) \<Rightarrow> ('w, 'a) go \<Rightarrow> ('a \<Rightarrow> ('w, unit) go) \<Rightarrow> 'w \<Rightarrow> bool" where
  "leak_free view new close w \<longleftrightarrow>
     (case run_state new w of (r, v) \<Rightarrow>
       (case r of
          Ok a \<Rightarrow> view w \<subseteq> view v \<and> view (snd (run_state (close a) v)) = view w
        | Err e \<Rightarrow> view v = view w
        | Panic p \<Rightarrow> True))"

lemma releasingD: "releasing view m xs \<Longrightarrow> view (snd (run_state m v)) = view v - xs"
  unfolding releasing_def wp_def by (drule spec [where x = v]) (simp split: prod.splits)

lemma leak_freeI:
  assumes "wp new (\<lambda>r v. case r of Ok a \<Rightarrow> owns (held a) (view w) (view v) | Err e \<Rightarrow> view v = view w | Panic p \<Rightarrow> True) w"
    and "\<And>a. releasing view (close a) (held a)"
  shows "leak_free view new close w"
proof -
  obtain r v where r: "run_state new w = (r, v)" by fastforce
  have "view (snd (run_state (close a) v)) = view w" if "owns (held a) (view w) (view v)" for a
    using releasingD [OF assms(2)] owns_released [OF that] by simp
  with wpD [OF assms(1) r] r show ?thesis
    by (auto simp: leak_free_def owns_def split: outcome.splits)
qed

text \<open>
  C37: an application that cannot be made leaves nothing behind. Whichever part of the auth service, of
  the outbox dispatcher or of the VK consumer cannot be made, what was opened before it is released;
  and closing an application that was made releases everything it opened, also when the close of one
  of its parts reports an error, and nothing else.
\<close>
theorem New_leaks_nothing:
  assumes "holding view lib"
  shows "leak_free view (auth_New lib path) (auth_Close lib) w
    \<and> leak_free view (outbox_New lib path) (outbox_Close lib) w
    \<and> leak_free view (vk_New lib path) (vk_app_Close lib) w"
  unfolding auth_New_def outbox_New_def vk_New_def
  by (intro conjI
      leak_freeI [OF new_app_wp [OF assms auth_setup_wp [OF assms] auth_Close_releases [OF assms]] auth_Close_releases [OF assms]]
      leak_freeI [OF new_app_wp [OF assms outbox_setup_wp [OF assms] outbox_Close_releases [OF assms]] outbox_Close_releases [OF assms]]
      leak_freeI [OF new_app_wp [OF assms vk_setup_wp [OF assms] vk_Close_releases [OF assms]] vk_Close_releases [OF assms]])

text \<open>Making an application and running it.\<close>

definition run_free :: "('w \<Rightarrow> resource set) \<Rightarrow> ('w, 'a) go \<Rightarrow> ('a \<Rightarrow> ('w, unit) go) \<Rightarrow> 'w \<Rightarrow> bool" where
  "run_free view new run w \<longleftrightarrow>
     (case run_state new w of (r, v) \<Rightarrow> (case r of Ok a \<Rightarrow> view (snd (run_state (run a) v)) = view w | _ \<Rightarrow> True))"

definition run_left :: "('w \<Rightarrow> resource set) \<Rightarrow> ('w, 'a) go \<Rightarrow> ('a \<Rightarrow> ('w, unit) go) \<Rightarrow> unit outcome \<Rightarrow> 'w \<Rightarrow> bool" where
  "run_left view new run answer w \<longleftrightarrow>
     (case run_state new w of (r, v) \<Rightarrow>
       (case r of
          Ok a \<Rightarrow> (case run_state (run a) v of (r', u) \<Rightarrow> view v \<subseteq> view u \<and> r' = answer)
        | _ \<Rightarrow> True))"

lemma wp_snd: "wp m (\<lambda>_ u. view u = x) v \<Longrightarrow> view (snd (run_state m v)) = x"
  by (simp add: wp_def split: prod.splits)

lemma run_freeI:
  "wp new (\<lambda>r v. \<forall>a. r = Ok a \<longrightarrow> wp (run a) (\<lambda>_ u. view u = view w) v) w \<Longrightarrow> run_free view new run w"
  by (cases "run_state new w") (simp add: run_free_def wp_def [where m = new] wp_snd split: outcome.split)

lemma run_leftI:
  assumes "wp new (\<lambda>r v. \<forall>a. r = Ok a \<longrightarrow> wp (run a) (\<lambda>r u. view v \<subseteq> view u \<and> r = answer) v) w"
  shows "run_left view new run answer w"
proof (cases "run_state new w")
  case (Pair r v)
  with assms have "r = Ok a \<Longrightarrow> wp (run a) (\<lambda>r u. view v \<subseteq> view u \<and> r = answer) v" for a
    by (simp add: wp_def [where m = new])
  with Pair show ?thesis by (simp add: run_left_def wp_def split: outcome.split)
qed

lemma new_run_wp:
  assumes "wp new (\<lambda>r v. case r of Ok a \<Rightarrow> owns (held a) (view w) (view v) | Err e \<Rightarrow> view v = view w | Panic p \<Rightarrow> True) w"
    and "wp new (\<lambda>r _. \<forall>a. r = Ok a \<longrightarrow> P a) w"
    and "\<And>a v. owns (held a) (view w) (view v) \<Longrightarrow> P a \<Longrightarrow> wp (run a) (Q v) v"
  shows "wp new (\<lambda>r v. \<forall>a. r = Ok a \<longrightarrow> wp (run a) (Q v) v) w"
  by (rule wp_conseq [OF wp_conj [OF assms(1,2)]]) (auto intro: assms(3))


section \<open>Examples\<close>

text \<open>What is open, as a list; a new part gets a number no open part has.\<close>

fun part_number :: "resource \<Rightarrow> nat" where
  "part_number (Tracing n) = n" | "part_number (Database n) = n" | "part_number (Broker n) = n"
| "part_number (ConsumerGroup n) = n" | "part_number (Servers n) = n" | "part_number (MetricsHttp n) = n"
| "part_number (ProfilerHttp n) = n"

definition fresh_number :: "resource list \<Rightarrow> nat" where
  "fresh_number xs = Suc (sum_list (map part_number xs))"

lemma fresh_number: "x \<in> set xs \<Longrightarrow> part_number x < fresh_number xs"
  unfolding fresh_number_def by (simp add: less_Suc_eq_le member_le_sum_list)

definition open_part :: "(nat \<Rightarrow> resource) \<Rightarrow> (resource list, nat) go" where
  "open_part mk = do {
     xs \<leftarrow> State_Monad.get;
     (let n = fresh_number xs in after (State_Monad.set (mk n # xs)) (ok n)) }"

definition close_parts :: "resource list \<Rightarrow> (resource list, unit) go" where
  "close_parts ys = after (modify (filter (\<lambda>x. \<not> List.member ys x))) (ok ())"

definition example_parts :: "bool \<Rightarrow> bool \<Rightarrow> (resource list, unit) app_library" where
  "example_parts broker up =
     \<lparr>ap_ReadConfig = (\<lambda>_. State_Monad.return (Inr \<lparr>cf_Env = ''Dev'', cf_ServiceName = ''auth'', cf_TracingEndpoint = ''t'',
        cf_MetricsEnabled = True, cf_ProfilerEnabled = False\<rparr>)),
      ap_InitTracing = (\<lambda>_. open_part Tracing), ap_ShutdownTracing = (\<lambda>h. close_parts [Tracing h]),
      ap_NewLogger = (\<lambda>_ _. ok ()), ap_WithN = (\<lambda>l _. l), ap_Info = (\<lambda>_ _. State_Monad.return ()),
      ap_Sync = (\<lambda>_. State_Monad.return ()),
      ap_NewPostgres = (\<lambda>_ _. open_part Database), ap_ClosePostgres = (\<lambda>h. close_parts [Database h]),
      ap_NewPublisher = (\<lambda>_ _. if broker then open_part Broker else fail (NewErr ''no broker'')),
      ap_ClosePublisher = (\<lambda>h. after (modify (filter (\<lambda>x. x \<noteq> Broker h))) (fail (NewErr ''not flushed''))),
      ap_NewConsumer = (\<lambda>_ _ _. open_part ConsumerGroup), ap_CloseConsumer = (\<lambda>h. close_parts [ConsumerGroup h]),
      ap_RunConsumer = (\<lambda>_. fail (CtxErr ''context canceled'')),
      ap_NewServers = (\<lambda>_ _ _. do { xs \<leftarrow> State_Monad.get; ok (fresh_number xs) }),
      ap_StartServers = (\<lambda>h. if up then after (modify (\<lambda>xs. Servers h # xs)) (ok ()) else fail (NewErr ''address in use'')),
      ap_CloseServers = (\<lambda>h. close_parts [Servers h]),
      ap_NewHttp = (\<lambda>_. reads fresh_number),
      ap_ListenMetrics = (\<lambda>h. modify (\<lambda>xs. MetricsHttp h # xs)),
      ap_ListenProfiler = (\<lambda>h. modify (\<lambda>xs. ProfilerHttp h # xs)),
      ap_Shutdown = (\<lambda>h. close_parts [MetricsHttp h, ProfilerHttp h]),
      ap_RunWorker = (\<lambda>_ _. State_Monad.return ())\<rparr>"

lemma open_part_wp: "(\<And>n. part_number (mk n) = n) \<Longrightarrow> wp (open_part mk) (acquired set mk w) w"
  using fresh_number [of "mk (fresh_number w)" w] by (auto simp: open_part_def Let_def wp_rules acquired_def)

lemma close_parts_releasing: "releasing set (close_parts ys) (set ys)"
  by (auto simp: releasing_def close_parts_def wp_rules)

lemma not_open: "Servers (fresh_number w) \<notin> set w" "MetricsHttp (fresh_number w) \<notin> set w" "ProfilerHttp (fresh_number w) \<notin> set w"
  using fresh_number [of "Servers (fresh_number w)" w] fresh_number [of "MetricsHttp (fresh_number w)" w]
    fresh_number [of "ProfilerHttp (fresh_number w)" w] by auto

lemma example_parts_hold: "holding set (example_parts broker up)"
  using close_parts_releasing [of "[_]"] close_parts_releasing [of "[_, _]"] not_open
  by (auto simp: holding_def example_parts_def open_part_wp wp_rules quiet_prims releasing_def acquired_def)

lemma New_leaks_nothing_witness:
  "leak_free set (auth_New (example_parts False True) []) (auth_Close (example_parts False True)) []
     \<and> (\<exists>e. run_state (auth_New (example_parts False True) []) [] = (Err e, []))
     \<and> (\<exists>a v. run_state (auth_New (example_parts True True) []) [] = (Ok a, v) \<and> length v = 3
          \<and> set (snd (run_state (auth_Close (example_parts True True) a) v)) = {})"
proof -
  have "case run_state (auth_New (example_parts False True) []) [] of (Err e, v) \<Rightarrow> v = [] | _ \<Rightarrow> False" by code_simp
  then have failed: "\<exists>e. run_state (auth_New (example_parts False True) []) [] = (Err e, [])"
    by (auto split: prod.splits outcome.splits)
  have "case run_state (auth_New (example_parts True True) []) [] of (Ok a, v) \<Rightarrow> length v = 3 | _ \<Rightarrow> False" by code_simp
  then obtain a v where a: "run_state (auth_New (example_parts True True) []) [] = (Ok a, v)" "length v = 3"
    by (auto split: prod.splits outcome.splits)
  with New_leaks_nothing [OF example_parts_hold, of True True "[]" "[]"]
  have "set (snd (run_state (auth_Close (example_parts True True) a) v)) = {}" by (simp add: leak_free_def)
  with a failed New_leaks_nothing [OF example_parts_hold, of False True "[]" "[]"] show ?thesis by blast
qed


end
