(* ===== verification/Announcement.thy ===== *)
theory Announcement
  imports AuthWorld OutboxWorker
begin

text \<open>
  From a registration to Kafka: the auth service stores a user with a message, the outbox worker sends
  the message through the Avro serializer, and what a reader of the topic finds in it.
\<close>

section \<open>The message of a registration\<close>

text \<open>\<open>encoding/json\<close> reads an event back as it was written.\<close>

definition json_law :: "avro_library \<Rightarrow> (user_created_event \<Rightarrow> string outcome) \<Rightarrow> bool" where
  "json_law lib marshal \<longleftrightarrow> (\<forall>event p. marshal event = Ok p \<longrightarrow> UnmarshalUserCreated lib p = Inr event)"

lemma length_uuid_63: "length (uuid_String i) < 2 ^ 63"
  by simp

lemma length_provider_63: "length AuthProviderPassword < 2 ^ 63"
  by (simp add: AuthProviderPassword_def)

text \<open>The record that announces a user: its key is the user's id, and so is what Avro reads in it.\<close>

definition announces :: "string \<Rightarrow> string \<Rightarrow> event \<Rightarrow> bool" where
  "announces user provider ev \<longleftrightarrow>
     (\<exists>p i t. ev = Delivered UserCreatedTopic user p \<and> read_user_created p = Some (i, user, provider, t))"

lemma delivers_announces:
  assumes "json_law lib marshal" "TrimSpace (sr_URL (pc_SchemaRegistry cfg)) \<noteq> []"
    and "outbox_for (world_runtime marshal) u m" "ua_Provider u = AuthProviderPassword"
    and "delivers (on_the_wire lib cfg) m ev"
  shows "announces (uuid_String (ua_ID u)) AuthProviderPassword ev"
proof -
  from assms(3,4) obtain t where m: "om_Topic m = UserCreatedTopic" "om_MessageKey m = uuid_String (ua_ID u)"
    "marshal \<lparr>uc_UserID = uuid_String (ua_ID u), uc_Provider = AuthProviderPassword, uc_OccurredAt = t\<rparr> = Ok (om_Payload m)"
    by (auto simp: outbox_for_def world_runtime_def)
  from assms(1) m(3) have e: "UnmarshalUserCreated lib (om_Payload m) =
      Inr \<lparr>uc_UserID = uuid_String (ua_ID u), uc_Provider = AuthProviderPassword, uc_OccurredAt = t\<rparr>"
    by (simp add: json_law_def)
  have "UserCreatedTopic \<noteq> []" by (simp add: UserCreatedTopic_def)
  with assms(2,5) m e obtain p i where "ev = Delivered UserCreatedTopic (uuid_String (ua_ID u)) p"
    "p = encode_user_created i \<lparr>uc_UserID = uuid_String (ua_ID u), uc_Provider = AuthProviderPassword, uc_OccurredAt = t\<rparr>"
    by (auto simp: delivers_def on_the_wire_def)
  with length_uuid_63 length_provider_63 show ?thesis
    by (simp add: announces_def read_encoded)
qed

lemma outbox_for_norm: "outbox_for rt u m \<Longrightarrow> outbox_for rt u (norm_outbox m)"
  by (simp add: outbox_for_def norm_defs)

text \<open>A message that is pending is settled by an iteration: sent, and then delivered, or to be tried again.\<close>

lemma RunOnce_pending:
  assumes "db_ready w" "calm w"
    and "length (filter (\<lambda>m. om_Status m \<noteq> OutboxStatusSent) (st_outbox (stored w))) \<le> 50"
    and "m \<in> set (st_outbox (stored w))" "om_Status m = OutboxStatusPending" "om_AttemptCount m = 0" "\<not> locked w m"
  shows "\<exists>w' m'. run_state (RunOnce (kafka_worker lib marshal cfg) c) w = (Ok (), w') \<and> m' \<in> set (st_outbox (stored w'))
    \<and> same_content m m'
    \<and> (om_Status m' = OutboxStatusSent \<and> (\<exists>d\<in>set (svc_events w'). delivers (on_the_wire lib cfg) m d)
       \<or> om_Status m' = OutboxStatusFailed \<and> om_AttemptCount m' = 1 \<and> om_NextAttemptAt m' \<noteq> None)"
proof -
  from RunOnce_reaches_pending [OF assms(1-5,7), of lib marshal cfg c] obtain w' where
    run: "run_state (RunOnce (kafka_worker lib marshal cfg) c) w = (Ok (), w')"
    and settled: "\<forall>m'\<in>set (st_outbox (stored w')). om_ID m' = om_ID m \<longrightarrow> settled_message m'" by blast
  from RunOnce_safe [OF assms(1) run] obtain now ds where
    ds: "deliveries (svc_events w') = deliveries (svc_events w) @ ds"
    and all: "list_all2 (iterated (on_the_wire lib cfg) now ds) (st_outbox (stored w)) (st_outbox (stored w'))" by blast
  from all assms(4) obtain m' where m': "m' \<in> set (st_outbox (stored w'))" "iterated (on_the_wire lib cfg) now ds m m'"
    by (metis in_set_conv_nth list_all2_conv_all_nth)
  have id: "om_ID m' = om_ID m" using m'(2) by (auto simp: iterated_def same_content_def)
  with settled m'(1) have "settled_message m'" by blast
  moreover have "set ds \<subseteq> set (svc_events w')"
    using ds by (metis deliveries_def filter_is_subset le_supE set_append)
  ultimately show ?thesis
    using run m' assms(5,6)
    by (intro exI [of _ w'] exI [of _ m'])
      (auto simp: iterated_def settled_message_def same_content_def OutboxStatusSent_def OutboxStatusFailed_def
        OutboxStatusProcessing_def OutboxStatusPending_def)
qed

section \<open>The property\<close>

text \<open>
  C7: a registered user is announced. When Register has returned a result over a database that
  answers, the next iteration of the outbox worker - with fewer than fifty other messages waiting and
  no other worker at work - takes the message of that very registration, and either the broker has a
  record on users.created whose key is the id Register returned and in which a reader of the Avro
  format finds this id and the provider, and the message is marked as sent; or it could not be
  published, and is kept with its first attempt counted and a time for the next.
\<close>
theorem registered_user_is_announced:
  assumes "bcrypt_law bc" "json_law lib marshal" "TrimSpace (sr_URL (pc_SchemaRegistry cfg)) \<noteq> []"
    and "db_ready w" "calm w" "\<And>m. \<not> locked w m"
    and "length (filter (\<lambda>m. om_Status m \<noteq> OutboxStatusSent) (st_outbox (stored w))) < 50"
    and "run_state (Register (auth_world bc cost jl ts url exchange marshal) c input) w = (Ok res, w1)"
  shows "\<exists>w2 m. run_state (RunOnce (kafka_worker lib marshal cfg) c') w1 = (Ok (), w2)
    \<and> m \<in> set (st_outbox (stored w2)) \<and> om_MessageKey m = ar_UserID res
    \<and> (om_Status m = OutboxStatusSent \<and> (\<exists>d\<in>set (svc_events w2). announces (ar_UserID res) AuthProviderPassword d)
       \<or> om_Status m = OutboxStatusFailed \<and> om_AttemptCount m = 1 \<and> om_NextAttemptAt m \<noteq> None)"
proof -
  let ?s = "auth_world bc cost jl ts url exchange marshal"
  from Register_ends_world [OF assms(1,4,8)] assms(5) obtain u cr t where
    w1: "session w1 = session w" "db_ready w1" "calm w1" and reg: "registered_as ?s input u cr (stored w) (stored w1)"
    and res: "res = auth_result u t AuthProviderPassword"
    by (auto simp: register_post_def)
  then obtain m where m: "outbox_for (world_runtime marshal) u m" "stored w1 = add_outbox m (add_cred cr (add_user u (stored w)))"
    and prov: "ua_Provider u = AuthProviderPassword"
    by (auto simp: registered_as_def auth_world_sel)
  have key: "ar_UserID res = uuid_String (ua_ID u)" by (simp add: res auth_result_def)
  let ?m = "norm_outbox m"
  note for_u = outbox_for_norm [OF m(1)]
  have out: "st_outbox (stored w1) = st_outbox (stored w) @ [?m]" by (simp add: m(2) add_defs)
  have few: "length (filter (\<lambda>m. om_Status m \<noteq> OutboxStatusSent) (st_outbox (stored w1))) \<le> 50"
    using assms(7) by (simp add: out)
  have mem: "?m \<in> set (st_outbox (stored w1))" by (simp add: out)
  have pending: "om_Status ?m = OutboxStatusPending" "om_AttemptCount ?m = 0" using for_u by (simp_all add: outbox_for_def)
  have "\<not> locked w1 ?m" using w1(1) assms(6) by (metis locked_def session_locks)
  from RunOnce_pending [OF w1(2,3) few mem pending this, of lib marshal cfg c'] obtain w2 m' where
    "run_state (RunOnce (kafka_worker lib marshal cfg) c') w1 = (Ok (), w2)"
    "m' \<in> set (st_outbox (stored w2))" "same_content ?m m'"
    "om_Status m' = OutboxStatusSent \<and> (\<exists>d\<in>set (svc_events w2). delivers (on_the_wire lib cfg) ?m d)
       \<or> om_Status m' = OutboxStatusFailed \<and> om_AttemptCount m' = 1 \<and> om_NextAttemptAt m' \<noteq> None"
    by blast
  with key delivers_announces [OF assms(2,3) for_u prov] for_u show ?thesis
    by (intro exI [of _ w2] exI [of _ m']) (auto simp: same_content_def outbox_for_def)
qed

section \<open>Example\<close>

text \<open>A JSON of its own: lengths in unary before the two strings, and a signed unary time.\<close>

definition unary :: "nat \<Rightarrow> string" where
  "unary n = replicate n (CHR ''x'')"

definition example_marshal :: "user_created_event \<Rightarrow> string outcome" where
  "example_marshal e =
     Ok (unary (length (uc_UserID e)) @ ''|'' @ uc_UserID e @ unary (length (uc_Provider e)) @ ''|'' @ uc_Provider e
       @ (if uc_OccurredAt e < 0 then ''-'' else ''+'') @ unary (nat \<bar>uc_OccurredAt e\<bar>))"

definition counted_string :: "string \<Rightarrow> string \<times> string" where
  "counted_string s = (let n = length (takeWhile (\<lambda>c. c \<noteq> CHR ''|'') s); rest = drop (n + 1) s in (take n rest, drop n rest))"

definition example_unmarshal :: "string \<Rightarrow> err + user_created_event" where
  "example_unmarshal s =
     (case counted_string s of (user, s) \<Rightarrow> (case counted_string s of (provider, s) \<Rightarrow>
        Inr \<lparr>uc_UserID = user, uc_Provider = provider,
             uc_OccurredAt = (if take 1 s = ''-'' then - int (length s - 1) else int (length s - 1))\<rparr>))"

lemma length_unary [simp]: "length (unary n) = n"
  by (simp add: unary_def)

lemma counted_string: "counted_string (unary (length s) @ CHR ''|'' # s @ rest) = (s, rest)"
proof -
  have "takeWhile (\<lambda>c. c \<noteq> CHR ''|'') (unary (length s) @ CHR ''|'' # s @ rest) = unary (length s)"
    by (subst takeWhile_append2) (auto simp: unary_def)
  then show ?thesis by (simp add: counted_string_def unary_def)
qed

definition announcing_library :: avro_library where
  "announcing_library = example_library\<lparr>UnmarshalUserCreated := example_unmarshal\<rparr>"

lemma example_json_law: "json_law announcing_library example_marshal"
  by (auto simp: json_law_def example_marshal_def announcing_library_def example_unmarshal_def counted_string)

definition announcing_producer :: producer_config where
  "announcing_producer = example_producer\<lparr>pc_SchemaRegistry := \<lparr>sr_URL = ''http://registry'', sr_Subject = []\<rparr>\<rparr>"

definition announcing_auth :: "world auth_deps" where
  "announcing_auth = auth_world example_bcrypt 10 example_jwt example_service (\<lambda>s. s) (\<lambda>c. Inl (NewErr ''refused'')) example_marshal"

lemma registered_user_is_announced_witness:
  "\<exists>res w1 w2 m. run_state (Register announcing_auth background example_input) empty_world = (Ok res, w1)
    \<and> run_state (RunOnce (kafka_worker announcing_library example_marshal announcing_producer) background) w1 = (Ok (), w2)
    \<and> m \<in> set (st_outbox (stored w2)) \<and> om_MessageKey m = ar_UserID res"
proof -
  have can: "can_register example_bcrypt 10 example_jwt example_marshal example_input empty_world"
    using example_can_register by (simp add: can_register_def example_marshal_def)
  obtain r w1 where run: "run_state (Register announcing_auth background example_input) empty_world = (r, w1)"
    by (rule prod.exhaust)
  from Register_ends_world [OF example_laws(1,3) run [unfolded announcing_auth_def]] example_laws(4) can
  obtain res where r: "r = Ok res" by blast
  have free: "\<not> locked empty_world m" for m by (simp add: locked_def empty_world_def)
  have url: "TrimSpace (sr_URL (pc_SchemaRegistry announcing_producer)) \<noteq> []" by code_simp
  from registered_user_is_announced [OF example_laws(1) example_json_law url example_laws(3,4) free _
      run [unfolded announcing_auth_def r], of background]
  show ?thesis using run r by (auto simp: example_laws(5))
qed

end
