(* ===== verification/UrlQuery.thy ===== *)
theory UrlQuery
  imports GrpcValidate World
begin

text \<open>
  Query strings as package net/url writes and reads them: \<open>QueryEscape\<close>, \<open>Values.Set\<close>,
  \<open>Values.Encode\<close>, \<open>ParseQuery\<close> and \<open>Values.Get\<close>, with the round trip between them. They are used
  by the client of Yandex ID and by the catalog of the web page.
\<close>

section \<open>Escaping\<close>

definition unreserved :: "char \<Rightarrow> bool" where
  "unreserved c \<longleftrightarrow> 48 \<le> byte c \<and> byte c \<le> 57 \<or> 65 \<le> byte c \<and> byte c \<le> 90 \<or> 97 \<le> byte c \<and> byte c \<le> 122
     \<or> c \<in> {CHR ''-'', CHR ''_'', CHR ''.'', CHR ''~''}"

definition upper_digit :: "nat \<Rightarrow> char" where
  "upper_digit d = (if d < 10 then char_of (48 + d) else char_of (55 + d))"

definition escape_char :: "char \<Rightarrow> string" where
  "escape_char c =
     (if unreserved c then [c]
      else if c = CHR '' '' then ''+''
      else [CHR ''%'', upper_digit (byte c div 16), upper_digit (byte c mod 16)])"

definition QueryEscape :: "string \<Rightarrow> string" where
  "QueryEscape s = concat (map escape_char s)"

fun QueryUnescape :: "string \<Rightarrow> string option" where
  "QueryUnescape [] = Some []"
| "QueryUnescape (c # s) =
     (if c = CHR ''%'' then
        (case s of
           a # b # t \<Rightarrow>
             (case (hex_value a, hex_value b) of
                (Some x, Some y) \<Rightarrow> map_option ((#) (char_of (16 * x + y))) (QueryUnescape t)
              | _ \<Rightarrow> None)
         | _ \<Rightarrow> None)
      else map_option ((#) (if c = CHR ''+'' then CHR '' '' else c)) (QueryUnescape s))"

section \<open>Values\<close>

text \<open>The values of a query, a key with its value; \<open>Set\<close> replaces the value of a key.\<close>

type_synonym url_values = "(string \<times> string) list"

definition set_url_value :: "string \<Rightarrow> string \<Rightarrow> url_values \<Rightarrow> url_values" where
  "set_url_value k v vs = filter (\<lambda>p. fst p \<noteq> k) vs @ [(k, v)]"

definition get_url_value :: "url_values \<Rightarrow> string \<Rightarrow> string" where
  "get_url_value vs k = (case map_of vs k of None \<Rightarrow> [] | Some v \<Rightarrow> v)"

definition encode_pair :: "string \<times> string \<Rightarrow> string" where
  "encode_pair p = QueryEscape (fst p) @ ''='' @ QueryEscape (snd p)"

definition sort_keys :: "url_values \<Rightarrow> url_values" where
  "sort_keys vs = sort_by (\<lambda>p q. \<not> str_less (fst q) (fst p)) vs"

definition Encode_values :: "url_values \<Rightarrow> string" where
  "Encode_values vs = join ''&'' (map encode_pair (sort_keys vs))"

text \<open>\<open>strings.Cut\<close> at the first equals sign; a part that does not decode is left out.\<close>

definition parse_pair :: "string \<Rightarrow> (string \<times> string) option" where
  "parse_pair s =
     (if s = [] \<or> has_char (CHR '';'') s then None
      else case (QueryUnescape (takeWhile (\<lambda>c. c \<noteq> CHR ''='') s), QueryUnescape (drop 1 (dropWhile (\<lambda>c. c \<noteq> CHR ''='') s))) of
        (Some k, Some v) \<Rightarrow> Some (k, v)
      | _ \<Rightarrow> None)"

definition ParseQuery :: "string \<Rightarrow> url_values" where
  "ParseQuery s = List.map_filter parse_pair (split_on (CHR ''&'') s)"

section \<open>The round trip\<close>

lemma hex_value_upper: "d < 16 \<Longrightarrow> hex_value (upper_digit d) = Some d"
  by (auto simp: hex_value_def upper_digit_def)

lemma byte_less: "byte c < 256"
  using of_char_mod_256 [of c, where 'a = nat] mod_less_divisor [of 256 "of_char c :: nat"] by (simp add: byte_def)

lemma unescape_escaped: "QueryUnescape (escape_char c @ t) = map_option ((#) c) (QueryUnescape t)"
proof (cases "unreserved c \<or> c = CHR '' ''")
  case True
  then show ?thesis by (auto simp: escape_char_def unreserved_def byte_def)
next
  case False
  have d: "byte c div 16 < 16" "byte c mod 16 < 16" using byte_less [of c] by simp_all
  have "char_of (16 * (byte c div 16) + byte c mod 16) = c" by (simp add: byte_def)
  with False d show ?thesis by (simp add: escape_char_def hex_value_upper)
qed

lemma QueryUnescape_QueryEscape [simp]: "QueryUnescape (QueryEscape s) = Some s"
  by (induction s) (simp_all add: QueryEscape_def unescape_escaped)

lemma upper_digit_plain: "d < 16 \<Longrightarrow> upper_digit d \<notin> {CHR ''&'', CHR ''='', CHR '';''}"
proof -
  assume "d < 16"
  moreover have "hex_value (CHR ''&'') = None" "hex_value (CHR ''='') = None" "hex_value (CHR '';'') = None"
    by (simp_all add: hex_value_def)
  ultimately show ?thesis using hex_value_upper [of d] by force
qed

lemma escape_char_plain: "x \<in> set (escape_char c) \<Longrightarrow> x \<notin> {CHR ''&'', CHR ''='', CHR '';''}"
proof -
  have "byte c div 16 < 16" "byte c mod 16 < 16" using byte_less [of c] by simp_all
  moreover assume "x \<in> set (escape_char c)"
  ultimately show ?thesis
    using upper_digit_plain by (auto simp: escape_char_def unreserved_def byte_def split: if_splits)
qed

lemma QueryEscape_plain:
  "CHR ''&'' \<notin> set (QueryEscape s)" "CHR ''='' \<notin> set (QueryEscape s)" "CHR '';'' \<notin> set (QueryEscape s)"
  using escape_char_plain by (auto simp: QueryEscape_def)

lemma split_on_free: "c \<notin> set s \<Longrightarrow> split_on c s = [s]"
  by (induction s) auto

lemma split_on_next: "c \<notin> set s \<Longrightarrow> split_on c (s @ c # t) = s # split_on c t"
  by (induction s) auto

lemma split_on_join:
  "xs \<noteq> [] \<Longrightarrow> list_all (\<lambda>x. c \<notin> set x) xs \<Longrightarrow> split_on c (join [c] xs) = xs"
  by (induction "[c]" xs rule: join.induct) (simp_all add: split_on_free split_on_next)

lemma parse_pair_encode [simp]: "parse_pair (encode_pair p) = Some p"
proof -
  have "takeWhile (\<lambda>c. c \<noteq> CHR ''='') (encode_pair p) = QueryEscape (fst p)"
    "dropWhile (\<lambda>c. c \<noteq> CHR ''='') (encode_pair p) = CHR ''='' # QueryEscape (snd p)"
    using QueryEscape_plain(2) [of "fst p"] by (auto simp: encode_pair_def takeWhile_append dropWhile_append3)
  moreover have "\<not> has_char (CHR '';'') (encode_pair p)" "encode_pair p \<noteq> []"
    using QueryEscape_plain(3) by (auto simp: has_char_def encode_pair_def)
  ultimately show ?thesis by (simp add: parse_pair_def)
qed

lemma map_filter_encode: "List.map_filter parse_pair (map encode_pair vs) = vs"
  by (induction vs) (simp_all add: List.map_filter_simps)

text \<open>What is encoded is read back, in the order of the keys.\<close>

lemma ParseQuery_Encode: "ParseQuery (Encode_values vs) = sort_keys vs"
proof (cases "sort_keys vs = []")
  case True
  then show ?thesis by (simp add: ParseQuery_def Encode_values_def List.map_filter_simps parse_pair_def)
next
  case False
  have "list_all (\<lambda>x. CHR ''&'' \<notin> set x) (map encode_pair (sort_keys vs))"
    using QueryEscape_plain(1) by (auto simp: list_all_iff encode_pair_def)
  with False show ?thesis
    by (simp add: ParseQuery_def Encode_values_def split_on_join map_filter_encode)
qed

end
