(* ===== verification/YandexClient.thy ===== *)
theory YandexClient
  imports UrlQuery AuthService
begin

text \<open>
  internal/adapters/secondary/yandexid/client.go: the authorization URL of Yandex ID and the exchange
  of a code for the profile of a user. net/http and encoding/json are arguments.
\<close>

section \<open>The client\<close>

record yandex_config =
  yc_ClientID :: string
  yc_ClientSecret :: string
  yc_RedirectURI :: string
  yc_Scopes :: "string list"

definition authorizeEndpoint :: string where "authorizeEndpoint = ''https://oauth.yandex.com/authorize''"
definition tokenEndpoint :: string where "tokenEndpoint = ''https://oauth.yandex.com/token''"
definition userInfoEndpoint :: string where "userInfoEndpoint = ''https://login.yandex.ru/info?format=json''"

record http_request =
  hr_Method :: string
  hr_URL :: string
  hr_Header :: "(string \<times> string) list"
  hr_Body :: string

record http_response =
  hp_StatusCode :: int
  hp_Body :: string

record user_info =
  ui_ID :: string
  ui_Login :: string
  ui_DefaultEmail :: string
  ui_Emails :: "string list"
  ui_FirstName :: string
  ui_LastName :: string

text \<open>
  \<open>yh_NewRequest\<close> may refuse a request, \<open>yh_Do\<close> sends it within the timeout of the client, and the
  bodies are decoded from JSON.
\<close>

record 'w yandex_http =
  yh_NewRequest :: "ctx \<Rightarrow> http_request \<Rightarrow> err option"
  yh_Do :: "ctx \<Rightarrow> http_request \<Rightarrow> ('w, http_response) go"
  yh_DecodeToken :: "string \<Rightarrow> err + string"
  yh_DecodeUser :: "string \<Rightarrow> err + user_info"

definition yandex_BuildAuthURL :: "yandex_config \<Rightarrow> string \<Rightarrow> string" where
  "yandex_BuildAuthURL cfg state =
     (let vs = set_url_value ''response_type'' ''code'' [];
          vs = set_url_value ''client_id'' (yc_ClientID cfg) vs;
          vs = set_url_value ''redirect_uri'' (yc_RedirectURI cfg) vs;
          vs = set_url_value ''state'' state vs;
          vs = (if yc_Scopes cfg \<noteq> [] then set_url_value ''scope'' (join '' '' (yc_Scopes cfg)) vs else vs) in
      authorizeEndpoint @ ''?'' @ Encode_values vs)"

definition token_request :: "yandex_config \<Rightarrow> string \<Rightarrow> http_request" where
  "token_request cfg code =
     (let form = set_url_value ''grant_type'' ''authorization_code'' [];
          form = set_url_value ''code'' code form;
          form = set_url_value ''client_id'' (yc_ClientID cfg) form;
          form = set_url_value ''client_secret'' (yc_ClientSecret cfg) form in
      \<lparr>hr_Method = ''POST'', hr_URL = tokenEndpoint, hr_Header = [(''Content-Type'', ''application/x-www-form-urlencoded'')],
       hr_Body = Encode_values form\<rparr>)"

definition user_request :: "string \<Rightarrow> http_request" where
  "user_request accessToken =
     \<lparr>hr_Method = ''GET'', hr_URL = userInfoEndpoint, hr_Header = [(''Authorization'', ''OAuth '' @ accessToken)], hr_Body = []\<rparr>"

text \<open>A request that is made, sent and answered with a status below 300.\<close>

definition do_request :: "'w yandex_http \<Rightarrow> ctx \<Rightarrow> http_request \<Rightarrow> string \<Rightarrow> ('w, string) go" where
  "do_request h c request failed =
     (case yh_NewRequest h c request of
        Some e \<Rightarrow> fail e
      | None \<Rightarrow>
          andThen (yh_Do h c request) (\<lambda>response.
            if hp_StatusCode response \<ge> 300
            then fail (NewErr (failed @ '' with status '' @ int_text (hp_StatusCode response)))
            else ok (hp_Body response)))"

definition profile_of :: "user_info \<Rightarrow> yandex_profile" where
  "profile_of user =
     (let email = TrimSpace (ui_DefaultEmail user);
          email = (if email = [] \<and> ui_Emails user \<noteq> [] then TrimSpace (ui_Emails user ! 0) else email) in
      \<lparr>yp_Subject = TrimSpace (ui_ID user), yp_Login = TrimSpace (ui_Login user), yp_Email = email,
       yp_FirstName = TrimSpace (ui_FirstName user), yp_LastName = TrimSpace (ui_LastName user)\<rparr>)"

definition fetchUser :: "'w yandex_http \<Rightarrow> ctx \<Rightarrow> string \<Rightarrow> ('w, yandex_profile) go" where
  "fetchUser h c accessToken =
     andThen (do_request h c (user_request accessToken) ''yandex user info failed'') (\<lambda>body.
       case yh_DecodeUser h body of Inl e \<Rightarrow> fail e | Inr user \<Rightarrow> ok (profile_of user))"

definition yandex_ExchangeCode :: "'w yandex_http \<Rightarrow> yandex_config \<Rightarrow> ctx \<Rightarrow> string \<Rightarrow> ('w, yandex_profile) go" where
  "yandex_ExchangeCode h cfg c code =
     andThen (do_request h c (token_request cfg code) ''yandex token exchange failed'') (\<lambda>body.
       case yh_DecodeToken h body of Inl e \<Rightarrow> fail e | Inr token \<Rightarrow> fetchUser h c token)"

text \<open>The client as the port of the auth service.\<close>

definition yandex_New :: "'w yandex_http \<Rightarrow> yandex_config \<Rightarrow> 'w yandex_client" where
  "yandex_New h cfg = \<lparr>BuildAuthURL = yandex_BuildAuthURL cfg, ExchangeCode = yandex_ExchangeCode h cfg\<rparr>"

section \<open>The properties\<close>

lemma sorted_auth_keys:
  "sort_keys [(''response_type'', a), (''client_id'', b), (''redirect_uri'', c), (''state'', d)] =
     [(''client_id'', b), (''redirect_uri'', c), (''response_type'', a), (''state'', d)]"
  "sort_keys [(''response_type'', a), (''client_id'', b), (''redirect_uri'', c), (''state'', d), (''scope'', e)] =
     [(''client_id'', b), (''redirect_uri'', c), (''response_type'', a), (''scope'', e), (''state'', d)]"
  "sort_keys [(''grant_type'', a), (''code'', b), (''client_id'', c), (''client_secret'', d)] =
     [(''client_id'', c), (''client_secret'', d), (''code'', b), (''grant_type'', a)]"
  by (simp_all add: sort_keys_def sort_by_def)

text \<open>
  C39: Yandex reads what the client was configured with. The authorization URL is the endpoint with a
  query that decodes to the client, the redirect address, the response type, the scopes and the
  state, each with exactly its value, and to nothing else: no character of the state or of the
  configuration can add or change a parameter; and the form that exchanges a code decodes to the
  grant, the code, the client and its secret.
\<close>
theorem BuildAuthURL_is_read:
  "\<exists>q. yandex_BuildAuthURL cfg st = ''https://oauth.yandex.com/authorize?'' @ q
     \<and> ParseQuery q =
         [(''client_id'', yc_ClientID cfg), (''redirect_uri'', yc_RedirectURI cfg), (''response_type'', ''code'')]
         @ (if yc_Scopes cfg = [] then [] else [(''scope'', join '' '' (yc_Scopes cfg))]) @ [(''state'', st)]
     \<and> ParseQuery (hr_Body (token_request cfg code)) =
         [(''client_id'', yc_ClientID cfg), (''client_secret'', yc_ClientSecret cfg), (''code'', code),
          (''grant_type'', ''authorization_code'')]"
  by (simp add: yandex_BuildAuthURL_def token_request_def set_url_value_def authorizeEndpoint_def ParseQuery_Encode
      sorted_auth_keys)

text \<open>Requests that were sent, over a client that sends them.\<close>

definition sending :: "('w \<Rightarrow> http_request list) \<Rightarrow> 'w yandex_http \<Rightarrow> bool" where
  "sending view h \<longleftrightarrow> (\<forall>c r w. wp (yh_Do h c r) (\<lambda>_ v. view v = view w @ [r]) w)"

lemma do_request_wp:
  assumes "sending view h"
  shows "wp (do_request h c r failed) (\<lambda>x v. view v = view w @ [r] \<or> view v = view w \<and> (\<exists>e. x = Err e)) w"
proof (cases "yh_NewRequest h c r")
  case None
  have "wp (yh_Do h c r) (\<lambda>_ v. view v = view w @ [r]) w" using assms by (simp add: sending_def)
  then show ?thesis
    unfolding do_request_def None option.case
    by (rule wp_andThenI) (simp_all add: wp_ok wp_fail)
qed (simp add: do_request_def wp_fail)

definition trimmed :: "yandex_profile \<Rightarrow> bool" where
  "trimmed p \<longleftrightarrow> TrimSpace (yp_Subject p) = yp_Subject p \<and> TrimSpace (yp_Login p) = yp_Login p
     \<and> TrimSpace (yp_Email p) = yp_Email p \<and> TrimSpace (yp_FirstName p) = yp_FirstName p
     \<and> TrimSpace (yp_LastName p) = yp_LastName p"

lemma profile_trimmed: "trimmed (profile_of user)"
  by (simp add: trimmed_def profile_of_def Let_def)

text \<open>
  The secret of the client and the code go to the token endpoint only and the access token to the
  user endpoint only, each at most once and in this order; a profile has been trimmed.
\<close>

theorem ExchangeCode_sends:
  assumes "sending view h" and "run_state (yandex_ExchangeCode h cfg c code) w = (r, v)"
  shows "view v = view w \<or> view v = view w @ [token_request cfg code]
      \<or> (\<exists>t. view v = view w @ [token_request cfg code, user_request t])"
    and "r = Ok p \<Longrightarrow> trimmed p \<and> (\<exists>t. view v = view w @ [token_request cfg code, user_request t])"
proof -
  let ?sent = "\<lambda>r v. (view v = view w @ [token_request cfg code] \<or> view v = view w) \<and> (\<forall>p. r \<noteq> Ok p)
    \<or> (\<exists>t. view v = view w @ [token_request cfg code, user_request t]) \<and> (\<forall>p. r = Ok p \<longrightarrow> trimmed p)"
  have fetch: "wp (fetchUser h c t) ?sent u" if "view u = view w @ [token_request cfg code]" for t u
    unfolding fetchUser_def
    by (rule wp_andThenI [OF do_request_wp [OF assms(1)]])
      (use that in \<open>auto simp: wp_ok wp_fail profile_trimmed split: sum.split\<close>)
  have "wp (yandex_ExchangeCode h cfg c code) ?sent w"
    unfolding yandex_ExchangeCode_def
    by (rule wp_andThenI [OF do_request_wp [OF assms(1)]])
      (auto simp: wp_fail fetch split: sum.split)
  from wpD [OF this assms(2)] show "view v = view w \<or> view v = view w @ [token_request cfg code]
      \<or> (\<exists>t. view v = view w @ [token_request cfg code, user_request t])"
    and "r = Ok p \<Longrightarrow> trimmed p \<and> (\<exists>t. view v = view w @ [token_request cfg code, user_request t])" by auto
qed

end
