(* ===== verification/WebPages.thy ===== *)
theory WebPages
  imports YandexClient ServerGrpc
begin

text \<open>
  internal/adapters/primary/web/web.go, the pages and the anime catalog, and the services the gateway
  of internal/adapters/primary/grpc/auth/gateway.go registers. The embedded files are an argument.
\<close>

section \<open>Pages\<close>

text \<open>A file with the content type that is set for it, or the answer that there is none.\<close>

datatype page = ServeFile string "string option" | PageNotFound

definition content_type :: "string \<Rightarrow> string option" where
  "content_type name =
     (if name = ''index.html'' \<or> name = ''openapi.html'' then Some ''text/html; charset=utf-8''
      else if name = ''styles.css'' then Some ''text/css; charset=utf-8''
      else if name = ''app.js'' then Some ''application/javascript; charset=utf-8''
      else if name = ''openapi.json'' then Some ''application/json; charset=utf-8''
      else None)"

definition serveFile :: "string \<Rightarrow> page" where
  "serveFile name = ServeFile name (content_type name)"

definition spa_ServeHTTP :: "(string \<Rightarrow> bool) \<Rightarrow> string \<Rightarrow> page outcome" where
  "spa_ServeHTTP stat path =
     (if path = ''/'' \<or> path = ''/yandex/callback'' then Ok (serveFile ''index.html'')
      else if path = ''/docs'' \<or> path = ''/docs/'' then Ok (serveFile ''openapi.html'')
      else if path = [] then Panic ''slice bounds out of range''
      else (let name = drop 1 path in if stat name then Ok (serveFile name) else Ok PageNotFound))"

section \<open>The catalog\<close>

definition animeCatalogURL :: "url_values \<Rightarrow> err + string" where
  "animeCatalogURL query =
     (let mode = get_url_value query ''mode''; mode = (if mode = [] then ''top'' else mode);
          values = set_url_value ''limit'' ''8'' [] in
      if mode = ''top'' then
        Inr (''https://api.jikan.moe/v4/top/anime?'' @ Encode_values (set_url_value ''filter'' ''bypopularity'' values))
      else if mode = ''airing'' then
        Inr (''https://api.jikan.moe/v4/top/anime?'' @ Encode_values (set_url_value ''filter'' ''airing'' values))
      else if mode = ''upcoming'' then
        Inr (''https://api.jikan.moe/v4/top/anime?'' @ Encode_values (set_url_value ''filter'' ''upcoming'' values))
      else if mode = ''search'' then
        (let q = get_url_value query ''q'' in
         if q = [] then Inl (NewErr ''query is required'')
         else Inr (''https://api.jikan.moe/v4/anime?'' @ Encode_values (set_url_value ''q'' q (set_url_value ''sfw'' ''true'' values))))
      else Inl (NewErr ''unsupported anime catalog mode''))"

record web_response =
  wr_StatusCode :: int
  wr_ContentType :: string
  wr_Body :: string

definition http_Error :: "string \<Rightarrow> int \<Rightarrow> web_response" where
  "http_Error message code =
     \<lparr>wr_StatusCode = code, wr_ContentType = ''text/plain; charset=utf-8'', wr_Body = message @ [CHR 0x0A]\<rparr>"

definition catalog_request :: "string \<Rightarrow> http_request" where
  "catalog_request target =
     \<lparr>hr_Method = ''GET'', hr_URL = target,
      hr_Header = [(''Accept'', ''application/json''), (''User-Agent'', ''GolangProjectTemplate/1.0'')], hr_Body = []\<rparr>"

definition AnimeCatalogHandler :: "'w yandex_http \<Rightarrow> ctx \<Rightarrow> string \<Rightarrow> ('w, web_response) go" where
  "AnimeCatalogHandler h c rawQuery =
     (case animeCatalogURL (ParseQuery rawQuery) of
        Inl e \<Rightarrow> ok (http_Error (err_text e) 400)
      | Inr target \<Rightarrow>
          (case yh_NewRequest h c (catalog_request target) of
             Some e \<Rightarrow> ok (http_Error ''build upstream request'' 500)
           | None \<Rightarrow>
               call (yh_Do h c (catalog_request target)) (\<lambda>r. case r of
                 Inl e \<Rightarrow> ok (http_Error ''anime upstream unavailable'' 502)
               | Inr resp \<Rightarrow>
                   ok \<lparr>wr_StatusCode = hp_StatusCode resp, wr_ContentType = ''application/json; charset=utf-8'',
                       wr_Body = hp_Body resp\<rparr>)))"

section \<open>The gateway\<close>

definition RegisterGateway :: "grpc_proxy option \<Rightarrow> grpc_proxy option" where
  "RegisterGateway proxy =
     map_option (AddConnService (Some ''/v1/anime/catalog'') \<circ> AddConnService (Some ''web pages'')
       \<circ> AddConnService (Some ''/healthz'') \<circ> AddService (Some ''AuthService'') \<circ> SetMux (Some [])) proxy"

section \<open>What the catalog asks for\<close>

lemma sorted_catalog_keys:
  "sort_keys [(''limit'', a), (''filter'', b)] = [(''filter'', b), (''limit'', a)]"
  "sort_keys [(''limit'', a), (''sfw'', b), (''q'', c)] = [(''limit'', a), (''q'', c), (''sfw'', b)]"
  by (simp_all add: sort_keys_def sort_by_def)

text \<open>
  The address that is asked is one of two fixed ones, with eight entries and the filter of the mode, or
  the search text exactly as it was given and the safe-search flag; nothing in the request of the
  browser adds a parameter or changes the host.
\<close>

theorem animeCatalogURL_is_read:
  "(\<exists>e. animeCatalogURL query = Inl e)
   \<or> (\<exists>q f. animeCatalogURL query = Inr (''https://api.jikan.moe/v4/top/anime?'' @ q)
        \<and> ParseQuery q = [(''filter'', f), (''limit'', ''8'')] \<and> f \<in> {''bypopularity'', ''airing'', ''upcoming''})
   \<or> (\<exists>q. animeCatalogURL query = Inr (''https://api.jikan.moe/v4/anime?'' @ q)
        \<and> ParseQuery q = [(''limit'', ''8''), (''q'', get_url_value query ''q''), (''sfw'', ''true'')])"
  by (auto simp: animeCatalogURL_def set_url_value_def Let_def ParseQuery_Encode sorted_catalog_keys)

text \<open>The handler always answers, and never with a panic of its own.\<close>

lemma AnimeCatalogHandler_answers:
  assumes "\<And>c r w p. fst (run_state (yh_Do h c r) w) \<noteq> Panic p"
  shows "\<exists>x. fst (run_state (AnimeCatalogHandler h c q) w) = Ok x"
  using assms
  by (auto simp: AnimeCatalogHandler_def run_rules split: sum.split option.split prod.split outcome.split)
    (metis fst_conv)+

lemma RegisterGateway_new: "RegisterGateway None = None"
  "RegisterGateway (Some p) = Some q \<Longrightarrow> pr_services q = pr_services p @ [''AuthService''] \<and> pr_mux q = []
     \<and> pr_connRegs q = pr_connRegs p @ [''/healthz'', ''web pages'', ''/v1/anime/catalog'']"
  by (auto simp: RegisterGateway_def AddService_def AddConnService_def SetMux_def)

end
