(* ===== verification/Gateway.thy ===== *)
theory Gateway
  imports GrpcAuth WebPages
begin

text \<open>
  The JSON gateway: the generated client and gateway of the auth service (auth_grpc.pb.go,
  auth.pb.gw.go) over the multiplexer of grpc-gateway, for patterns of literal segments. Decoding and
  encoding of JSON and the annotation of a context are parameters; a message crosses the connection as
  it is.
\<close>

section \<open>Messages, requests and the library\<close>

datatype any_response = AnyAuth auth_response | AnyURL string

text \<open>\<open>Decode\<close>: a message, an empty one at the end of the input, or an error.\<close>

datatype 'm decoded = Decoded 'm | AtEOF 'm | Undecodable err

text \<open>
  A request: its method after an override, the path, whether it is a form by its content type, and the
  body or the error of reading it.
\<close>

record http_call =
  hq_Method :: string
  hq_Path :: string
  hq_Form :: bool
  hq_Body :: "err + string"

record gateway_library =
  gw_Annotate :: "http_call \<Rightarrow> string \<Rightarrow> grpc_status option"
  gw_Register :: "string \<Rightarrow> register_request decoded"
  gw_Login :: "string \<Rightarrow> login_request decoded"
  gw_Complete :: "string \<Rightarrow> complete_request decoded"
  gw_Answer :: "any_response \<Rightarrow> string"
  gw_Status :: "grpc_status \<Rightarrow> string"

fun HTTPStatusFromCode :: "grpc_code \<Rightarrow> int" where
  "HTTPStatusFromCode OK = 200"
| "HTTPStatusFromCode InvalidArgument = 400"
| "HTTPStatusFromCode Unauthenticated = 401"
| "HTTPStatusFromCode AlreadyExists = 409"
| "HTTPStatusFromCode FailedPrecondition = 400"
| "HTTPStatusFromCode NotFound = 404"
| "HTTPStatusFromCode Internal = 500"
| "HTTPStatusFromCode Unimplemented = 501"

definition json_response :: "int \<Rightarrow> string \<Rightarrow> web_response" where
  "json_response code body = \<lparr>wr_StatusCode = code, wr_ContentType = ''application/json'', wr_Body = body\<rparr>"

definition HTTPError :: "gateway_library \<Rightarrow> grpc_status \<Rightarrow> web_response" where
  "HTTPError lib s = json_response (HTTPStatusFromCode (fst s)) (gw_Status lib s)"

definition ForwardResponseMessage :: "gateway_library \<Rightarrow> any_response \<Rightarrow> web_response" where
  "ForwardResponseMessage lib m = json_response 200 (gw_Answer lib m)"

section \<open>The generated client\<close>

type_synonym 'w client_conn = "ctx \<Rightarrow> string \<Rightarrow> any_request \<Rightarrow> ('w, grpc_status + any_response) go"

record 'w auth_client =
  ac_Register :: "ctx \<Rightarrow> register_request \<Rightarrow> ('w, grpc_status + auth_response) go"
  ac_Login :: "ctx \<Rightarrow> login_request \<Rightarrow> ('w, grpc_status + auth_response) go"
  ac_GetYandexAuthURL :: "ctx \<Rightarrow> ('w, grpc_status + string) go"
  ac_CompleteYandexLogin :: "ctx \<Rightarrow> complete_request \<Rightarrow> ('w, grpc_status + auth_response) go"

text \<open>An answer that is not of the type of \<open>out\<close> is not read.\<close>

definition unread :: grpc_status where
  "unread = (Internal, ''grpc: failed to unmarshal the received message'')"

definition out_auth :: "grpc_status + any_response \<Rightarrow> grpc_status + auth_response" where
  "out_auth r = (case r of Inl s \<Rightarrow> Inl s | Inr (AnyAuth m) \<Rightarrow> Inr m | Inr (AnyURL u) \<Rightarrow> Inl unread)"

definition out_url :: "grpc_status + any_response \<Rightarrow> grpc_status + string" where
  "out_url r = (case r of Inl s \<Rightarrow> Inl s | Inr (AnyURL u) \<Rightarrow> Inr u | Inr (AnyAuth m) \<Rightarrow> Inl unread)"

definition NewAuthServiceClient :: "'w client_conn \<Rightarrow> 'w auth_client" where
  "NewAuthServiceClient cc =
     \<lparr>ac_Register = (\<lambda>c m. andThen (cc c ''/auth.v1.AuthService/Register'' (AnyRegister (Some m))) (\<lambda>r. ok (out_auth r))),
      ac_Login = (\<lambda>c m. andThen (cc c ''/auth.v1.AuthService/Login'' (AnyLogin (Some m))) (\<lambda>r. ok (out_auth r))),
      ac_GetYandexAuthURL = (\<lambda>c. andThen (cc c ''/auth.v1.AuthService/GetYandexAuthURL'' AnyYandexURL) (\<lambda>r. ok (out_url r))),
      ac_CompleteYandexLogin =
        (\<lambda>c m. andThen (cc c ''/auth.v1.AuthService/CompleteYandexLogin'' (AnyComplete (Some m))) (\<lambda>r. ok (out_auth r)))\<rparr>"

section \<open>The registered service\<close>

text \<open>
  \<open>AuthService_ServiceDesc\<close>: the handlers by the names of their methods. A message of another type
  cannot be decoded, and another method is not implemented. The connection is up, and the context of a
  call does not cross it.
\<close>

definition undecoded :: grpc_status where
  "undecoded = (Internal, ''grpc: error unmarshalling request'')"

definition sent_back :: "('r \<Rightarrow> any_response) \<Rightarrow> ('w, grpc_status + 'r) go \<Rightarrow> ('w, grpc_status + any_response) go" where
  "sent_back f m = andThen m (\<lambda>r. ok (case r of Inl s \<Rightarrow> Inl s | Inr x \<Rightarrow> Inr (f x)))"

definition AuthService_ServiceDesc ::
  "(string \<Rightarrow> err + string) \<Rightarrow> 'w auth_deps \<Rightarrow> (string \<times> (any_request \<Rightarrow> ('w, grpc_status + any_response) go)) list" where
  "AuthService_ServiceDesc ParseAddress s =
     [(''Register'', \<lambda>m. case m of
         AnyRegister m \<Rightarrow> sent_back AnyAuth (serve_Register ParseAddress s background m) | _ \<Rightarrow> ok (Inl undecoded)),
      (''Login'', \<lambda>m. case m of
         AnyLogin m \<Rightarrow> sent_back AnyAuth (serve_Login ParseAddress s background m) | _ \<Rightarrow> ok (Inl undecoded)),
      (''GetYandexAuthURL'', \<lambda>m. case m of
         AnyYandexURL \<Rightarrow> sent_back AnyURL (serve_GetYandexAuthURL ParseAddress s) | _ \<Rightarrow> ok (Inl undecoded)),
      (''CompleteYandexLogin'', \<lambda>m. case m of
         AnyComplete m \<Rightarrow> sent_back AnyAuth (serve_CompleteYandexLogin ParseAddress s background m) | _ \<Rightarrow> ok (Inl undecoded))]"

definition connected :: "(string \<Rightarrow> err + string) \<Rightarrow> 'w auth_deps \<Rightarrow> 'w client_conn" where
  "connected ParseAddress s c method m =
     (case map_of (map (\<lambda>(n, h). (''/auth.v1.AuthService/'' @ n, h)) (AuthService_ServiceDesc ParseAddress s)) method of
        Some handler \<Rightarrow> handler m
      | None \<Rightarrow> ok (Inl (Unimplemented, ''unknown method'')))"

section \<open>The multiplexer\<close>

text \<open>A pattern of \<open>NewPattern\<close> with literal pushes only: pairs of the operation 2 and an index of the pool.\<close>

fun NewPattern :: "nat list \<Rightarrow> string list \<Rightarrow> string list" where
  "NewPattern (opcode # i # ops) pool = pool ! i # NewPattern ops pool"
| "NewPattern ops pool = []"

type_synonym 'w http_handler = "ctx \<Rightarrow> http_call \<Rightarrow> ('w, web_response) go"
type_synonym 'w serve_mux = "(string \<times> string list \<times> 'w http_handler) list"

definition Handle :: "string \<Rightarrow> string list \<Rightarrow> 'w http_handler \<Rightarrow> 'w serve_mux \<Rightarrow> 'w serve_mux" where
  "Handle method pattern h mux = (method, pattern, h) # mux"

text \<open>A form that is posted may be handled by the GET handler of its path.\<close>

definition mux_ServeHTTP :: "gateway_library \<Rightarrow> 'w serve_mux \<Rightarrow> ctx \<Rightarrow> http_call \<Rightarrow> ('w, web_response) go" where
  "mux_ServeHTTP lib mux c r =
     (if hq_Path r = [] \<or> hd (hq_Path r) \<noteq> CHR ''/'' then ok (HTTPError lib (InvalidArgument, ''Bad Request''))
      else (let comps = split_on (CHR ''/'') (tl (hq_Path r)) in
        case find (\<lambda>(m, p, h). m = hq_Method r \<and> p = comps) mux of
          Some (m, p, h) \<Rightarrow> h c r
        | None \<Rightarrow>
            (case find (\<lambda>(m, p, h). m \<noteq> hq_Method r \<and> p = comps) mux of
               Some (m, p, h) \<Rightarrow>
                 if hq_Method r = ''POST'' \<and> hq_Form r \<and> m = ''GET'' then h c r
                 else ok (HTTPError lib (Unimplemented, ''Method Not Allowed''))
             | None \<Rightarrow> ok (HTTPError lib (NotFound, ''Not Found'')))))"

section \<open>auth.pb.gw.go\<close>

definition decode_body :: "(string \<Rightarrow> 'm decoded) \<Rightarrow> http_call \<Rightarrow> grpc_status + 'm" where
  "decode_body decode r =
     (case hq_Body r of
        Inl e \<Rightarrow> Inl (InvalidArgument, err_text e)
      | Inr body \<Rightarrow>
          (case decode body of
             Decoded m \<Rightarrow> Inr m
           | AtEOF m \<Rightarrow> Inr m
           | Undecodable e \<Rightarrow> Inl (InvalidArgument, err_text e)))"

definition with_body ::
  "(string \<Rightarrow> 'm decoded) \<Rightarrow> http_call \<Rightarrow> ('m \<Rightarrow> ('w, grpc_status + 'r) go) \<Rightarrow> ('r \<Rightarrow> any_response)
     \<Rightarrow> ('w, grpc_status + any_response) go" where
  "with_body decode r send f =
     (case decode_body decode r of
        Inl s \<Rightarrow> ok (Inl s)
      | Inr m \<Rightarrow> sent_back f (send m))"

text \<open>The requests through a client, and those to a server in the same process, which are its methods.\<close>

definition request_Register :: "gateway_library \<Rightarrow> 'w auth_client \<Rightarrow> ctx \<Rightarrow> http_call \<Rightarrow> ('w, grpc_status + any_response) go" where
  "request_Register lib client c r = with_body (gw_Register lib) r (ac_Register client c) AnyAuth"

definition request_Login :: "gateway_library \<Rightarrow> 'w auth_client \<Rightarrow> ctx \<Rightarrow> http_call \<Rightarrow> ('w, grpc_status + any_response) go" where
  "request_Login lib client c r = with_body (gw_Login lib) r (ac_Login client c) AnyAuth"

definition request_GetYandexAuthURL ::
  "gateway_library \<Rightarrow> 'w auth_client \<Rightarrow> ctx \<Rightarrow> http_call \<Rightarrow> ('w, grpc_status + any_response) go" where
  "request_GetYandexAuthURL lib client c r = sent_back AnyURL (ac_GetYandexAuthURL client c)"

definition request_CompleteYandexLogin ::
  "gateway_library \<Rightarrow> 'w auth_client \<Rightarrow> ctx \<Rightarrow> http_call \<Rightarrow> ('w, grpc_status + any_response) go" where
  "request_CompleteYandexLogin lib client c r = with_body (gw_Complete lib) r (ac_CompleteYandexLogin client c) AnyAuth"

text \<open>The server itself as the one that is called: no interceptor runs.\<close>

definition local_server :: "'w auth_deps \<Rightarrow> 'w auth_client" where
  "local_server s =
     \<lparr>ac_Register = (\<lambda>c m. grpc_Register s c (Some m)), ac_Login = (\<lambda>c m. grpc_Login s c (Some m)),
      ac_GetYandexAuthURL = (\<lambda>c. grpc_GetYandexAuthURL s),
      ac_CompleteYandexLogin = (\<lambda>c m. grpc_CompleteYandexLogin s c (Some m))\<rparr>"

definition annotated ::
  "gateway_library \<Rightarrow> string \<Rightarrow> (ctx \<Rightarrow> http_call \<Rightarrow> ('w, grpc_status + any_response) go) \<Rightarrow> 'w http_handler" where
  "annotated lib method request c r =
     (case gw_Annotate lib r method of
        Some s \<Rightarrow> ok (HTTPError lib s)
      | None \<Rightarrow>
          andThen (request c r) (\<lambda>answer.
            ok (case answer of Inl s \<Rightarrow> HTTPError lib s | Inr m \<Rightarrow> ForwardResponseMessage lib m)))"

definition pattern_Register :: "string list" where
  "pattern_Register = NewPattern [2, 0, 2, 1, 2, 2] [''v1'', ''auth'', ''register'']"
definition pattern_Login :: "string list" where
  "pattern_Login = NewPattern [2, 0, 2, 1, 2, 2] [''v1'', ''auth'', ''login'']"
definition pattern_GetYandexAuthURL :: "string list" where
  "pattern_GetYandexAuthURL = NewPattern [2, 0, 2, 1, 2, 2, 2, 3] [''v1'', ''auth'', ''yandex'', ''url'']"
definition pattern_CompleteYandexLogin :: "string list" where
  "pattern_CompleteYandexLogin = NewPattern [2, 0, 2, 1, 2, 2, 2, 3] [''v1'', ''auth'', ''yandex'', ''complete'']"

definition RegisterAuthServiceHandlerClient :: "gateway_library \<Rightarrow> 'w serve_mux \<Rightarrow> 'w auth_client \<Rightarrow> 'w serve_mux" where
  "RegisterAuthServiceHandlerClient lib mux client =
     Handle ''POST'' pattern_CompleteYandexLogin
       (annotated lib ''/auth.v1.AuthService/CompleteYandexLogin'' (request_CompleteYandexLogin lib client))
     (Handle ''GET'' pattern_GetYandexAuthURL
       (annotated lib ''/auth.v1.AuthService/GetYandexAuthURL'' (request_GetYandexAuthURL lib client))
     (Handle ''POST'' pattern_Login (annotated lib ''/auth.v1.AuthService/Login'' (request_Login lib client))
     (Handle ''POST'' pattern_Register (annotated lib ''/auth.v1.AuthService/Register'' (request_Register lib client)) mux)))"

definition RegisterAuthServiceHandlerServer :: "gateway_library \<Rightarrow> 'w serve_mux \<Rightarrow> 'w auth_deps \<Rightarrow> 'w serve_mux" where
  "RegisterAuthServiceHandlerServer lib mux s = RegisterAuthServiceHandlerClient lib mux (local_server s)"

definition RegisterAuthServiceHandler :: "gateway_library \<Rightarrow> 'w serve_mux \<Rightarrow> 'w client_conn \<Rightarrow> 'w serve_mux" where
  "RegisterAuthServiceHandler lib mux conn = RegisterAuthServiceHandlerClient lib mux (NewAuthServiceClient conn)"

text \<open>The connection that is dialed is closed when the context is done: the second component.\<close>

definition RegisterAuthServiceHandlerFromEndpoint ::
  "gateway_library \<Rightarrow> (string \<Rightarrow> err + 'w client_conn) \<Rightarrow> 'w serve_mux \<Rightarrow> string \<Rightarrow> err + ('w serve_mux \<times> 'w client_conn)" where
  "RegisterAuthServiceHandlerFromEndpoint lib Dial mux endpoint =
     (case Dial endpoint of Inl e \<Rightarrow> Inl e | Inr conn \<Rightarrow> Inr (RegisterAuthServiceHandler lib mux conn, conn))"

section \<open>What an HTTP client learns from a login\<close>

lemma patterns:
  "pattern_Register = [''v1'', ''auth'', ''register'']" "pattern_Login = [''v1'', ''auth'', ''login'']"
  "pattern_GetYandexAuthURL = [''v1'', ''auth'', ''yandex'', ''url'']"
  "pattern_CompleteYandexLogin = [''v1'', ''auth'', ''yandex'', ''complete'']"
  by (simp_all add: pattern_Register_def pattern_Login_def pattern_GetYandexAuthURL_def pattern_CompleteYandexLogin_def)

text \<open>Each route leads to its own method, whatever was registered before, and through the connection to the server.\<close>

lemma routes:
  assumes "mux' = RegisterAuthServiceHandlerClient lib mux client"
  shows "hq_Method r = ''POST'' \<Longrightarrow> hq_Path r = ''/v1/auth/register'' \<Longrightarrow>
      mux_ServeHTTP lib mux' c r = annotated lib ''/auth.v1.AuthService/Register'' (request_Register lib client) c r"
    "hq_Method r = ''POST'' \<Longrightarrow> hq_Path r = ''/v1/auth/login'' \<Longrightarrow>
      mux_ServeHTTP lib mux' c r = annotated lib ''/auth.v1.AuthService/Login'' (request_Login lib client) c r"
    "hq_Method r = ''GET'' \<Longrightarrow> hq_Path r = ''/v1/auth/yandex/url'' \<Longrightarrow>
      mux_ServeHTTP lib mux' c r = annotated lib ''/auth.v1.AuthService/GetYandexAuthURL'' (request_GetYandexAuthURL lib client) c r"
    "hq_Method r = ''POST'' \<Longrightarrow> hq_Path r = ''/v1/auth/yandex/complete'' \<Longrightarrow>
      mux_ServeHTTP lib mux' c r = annotated lib ''/auth.v1.AuthService/CompleteYandexLogin'' (request_CompleteYandexLogin lib client) c r"
  by (simp_all add: assms mux_ServeHTTP_def RegisterAuthServiceHandlerClient_def Handle_def patterns)

lemma connected_methods:
  "connected P s c ''/auth.v1.AuthService/Register'' (AnyRegister m1) = sent_back AnyAuth (serve_Register P s background m1)"
  "connected P s c ''/auth.v1.AuthService/Login'' (AnyLogin m2) = sent_back AnyAuth (serve_Login P s background m2)"
  "connected P s c ''/auth.v1.AuthService/GetYandexAuthURL'' AnyYandexURL = sent_back AnyURL (serve_GetYandexAuthURL P s)"
  "connected P s c ''/auth.v1.AuthService/CompleteYandexLogin'' (AnyComplete m3) = sent_back AnyAuth (serve_CompleteYandexLogin P s background m3)"
  by (simp_all add: connected_def AuthService_ServiceDesc_def)

text \<open>The answer of the server, as the gateway writes it.\<close>

definition written :: "gateway_library \<Rightarrow> grpc_status + auth_response \<Rightarrow> web_response" where
  "written lib answer =
     (case answer of Inl s \<Rightarrow> HTTPError lib s | Inr m \<Rightarrow> ForwardResponseMessage lib (AnyAuth m))"

lemma gateway_Login:
  assumes "hq_Method r = ''POST''" "hq_Path r = ''/v1/auth/login''" "gw_Annotate lib r ''/auth.v1.AuthService/Login'' = None"
  shows "run_state (mux_ServeHTTP lib (RegisterAuthServiceHandler lib mux (connected P s)) c r) w =
    (case decode_body (gw_Login lib) r of
       Inl e \<Rightarrow> (Ok (HTTPError lib e), w)
     | Inr m \<Rightarrow>
         (case run_state (serve_Login P s background (Some m)) w of
            (Ok answer, w') \<Rightarrow> (Ok (written lib answer), w') | (Err e, w') \<Rightarrow> (Err e, w') | (Panic p, w') \<Rightarrow> (Panic p, w')))"
  using assms
  by (simp add: RegisterAuthServiceHandler_def routes annotated_def request_Login_def with_body_def NewAuthServiceClient_def
      connected_methods sent_back_def run_rules out_auth_def written_def split: sum.splits outcome.splits prod.splits)

text \<open>
  An answer to a login: 400 for a body that is not read or not decoded, which no server sees, and for
  one that breaks a rule; 200 only for the password of a stored user; and 401 for every other one.
\<close>

definition http_login_answer ::
  "bcrypt_lib \<Rightarrow> jwt_lib \<Rightarrow> gateway_library \<Rightarrow> login_request \<Rightarrow> world \<Rightarrow> web_response \<Rightarrow> bool" where
  "http_login_answer bc jl lib m w answer \<longleftrightarrow>
     (wr_StatusCode answer = 200 \<longrightarrow>
        (\<exists>u x. authenticates bc (login_fields (Some m)) (stored w) = Some u \<and> rs_UserId x = uuid_String (ua_ID u)
           \<and> answer = ForwardResponseMessage lib (AnyAuth x)))
     \<and> (wr_StatusCode answer \<noteq> 200 \<and> calm w \<and> signs jl \<longrightarrow>
          (if LoginRequest_validate True (Some m) = Ok None \<and> validateLoginInput (login_fields (Some m)) = None
           then authenticates bc (login_fields (Some m)) (stored w) = None
             \<and> answer = HTTPError lib (Unauthenticated, ''invalid credentials'') \<and> wr_StatusCode answer = 401
           else wr_StatusCode answer = 400))"

definition http_login_served ::
  "bcrypt_lib \<Rightarrow> jwt_lib \<Rightarrow> gateway_library \<Rightarrow> http_call \<Rightarrow> world \<Rightarrow> web_response outcome \<Rightarrow> world \<Rightarrow> bool" where
  "http_login_served bc jl lib r w res w' \<longleftrightarrow>
     session w' = session w \<and> stored w' = stored w
     \<and> (\<exists>answer. res = Ok answer
          \<and> (case decode_body (gw_Login lib) r of
               Inl s \<Rightarrow> w' = w \<and> answer = HTTPError lib s \<and> wr_StatusCode answer = 400
             | Inr m \<Rightarrow> http_login_answer bc jl lib m w answer))"

lemma decode_body_status: "decode_body decode r = Inl s \<Longrightarrow> fst s = InvalidArgument"
  by (auto simp: decode_body_def split: sum.splits decoded.splits)

lemma written_simps [simp]:
  "wr_StatusCode (HTTPError lib s) = HTTPStatusFromCode (fst s)" "wr_StatusCode (ForwardResponseMessage lib m) = 200"
  "written lib (Inl s) = HTTPError lib s" "written lib (Inr x) = ForwardResponseMessage lib (AnyAuth x)"
  by (simp_all add: HTTPError_def ForwardResponseMessage_def json_response_def written_def)

text \<open>No refusal of a login has the status of a success.\<close>

lemma HTTPStatusFromCode_200 [simp]: "HTTPStatusFromCode code = 200 \<longleftrightarrow> code = OK"
  by (cases code) simp_all

lemma mapAppError_not_OK: "fst (mapAppError e) \<noteq> OK"
  by (simp add: mapAppError_def)

lemma answered_refuses: "run_state (answered f m) w = (Ok (Inl s), w') \<Longrightarrow> fst s \<noteq> OK"
  by (auto simp: answered_def run_rules mapAppError_not_OK split: outcome.splits prod.splits sum.splits)

lemma unary_refuses:
  assumes "\<And>w w' s. run_state handler w = (Ok (Inl s), w') \<Longrightarrow> fst s \<noteq> OK"
    and "run_state (unary rt method v handler) w = (Ok (Inl s), w')"
  shows "fst s \<noteq> OK"
  using assms(2)
  by (auto simp: unary_def run_rules split: outcome.splits option.splits prod.splits dest: assms(1))

lemma serve_Login_refuses: "run_state (serve_Login P s c m) w = (Ok (Inl e), w') \<Longrightarrow> fst e \<noteq> OK"
  unfolding serve_Login_def by (erule unary_refuses [rotated], simp add: grpc_Login_def answered_refuses)

lemma login_answer_written:
  assumes "login_answer bc jl (Some m) w answer" "LoginRequest_validate True (Some m) = Ok None"
    and "\<And>s. answer = Inl s \<Longrightarrow> fst s \<noteq> OK"
  shows "http_login_answer bc jl lib m w (written lib answer)"
  using assms by (cases answer) (auto simp: login_answer_def http_login_answer_def)

text \<open>
  C34: what an HTTP client learns from a login, over a connection that is up. POST /v1/auth/login is
  answered for every body and changes nothing of what is stored. A body that cannot be read or decoded is answered 400 and reaches
  no server. A status of 200 is given only for the password of a stored user, whose id is in the
  answer; and when the database answers and tokens can be signed, every other attempt is answered 400
  if it breaks a rule of the protocol or lacks a field, and otherwise 401 with one and the same body,
  whether the account exists or not.
\<close>
theorem HTTP_Login_answers:
  assumes "bcrypt_law bc" "db_ready w"
    and "hq_Method r = ''POST''" "hq_Path r = ''/v1/auth/login''" "gw_Annotate lib r ''/auth.v1.AuthService/Login'' = None"
    and "run_state (mux_ServeHTTP lib (RegisterAuthServiceHandler lib mux
           (connected ParseAddress (auth_world bc cost jl ts url exchange marshal))) c r) w = (res, w')"
  shows "http_login_served bc jl lib r w res w'"
proof (cases "decode_body (gw_Login lib) r")
  case (Inl s)
  with assms(3-6) decode_body_status [OF Inl] show ?thesis
    by (auto simp: gateway_Login http_login_served_def)
next
  case (Inr m)
  let ?serve = "serve_Login ParseAddress (auth_world bc cost jl ts url exchange marshal) background (Some m)"
  obtain q v where q: "run_state ?serve w = (q, v)" by (rule prod.exhaust)
  from serve_Login_answers [OF assms(1,2) q] obtain answer where
    a: "q = Ok answer" "session v = session w" "stored v = stored w"
      "case LoginRequest_validate True (Some m) of
         Ok (Some e) \<Rightarrow> answer = Inl (InvalidArgument, err_text e) | _ \<Rightarrow> login_answer bc jl (Some m) w answer"
    by (auto simp: login_served_def)
  obtain checked where checked: "LoginRequest_validate True (Some m) = Ok checked" using LoginRequest_validate_Ok by blast
  have refuses: "fst s \<noteq> OK" if "answer = Inl s" for s
    by (rule serve_Login_refuses [of ParseAddress _ background "Some m" w s v]) (use q a(1) that in simp)
  have "http_login_answer bc jl lib m w (written lib answer)"
  proof (cases checked)
    case None
    with a(4) checked have "login_answer bc jl (Some m) w answer" by simp
    from this checked [unfolded None] refuses show ?thesis by (rule login_answer_written)
  next
    case (Some e)
    with a(4) checked show ?thesis by (simp add: http_login_answer_def)
  qed
  with assms(3-6) Inr q a(1-3) show ?thesis
    by (auto simp: gateway_Login http_login_served_def)
qed

text \<open>A library that reads an identifier and a password with a comma between, and the requests of three clients.\<close>

definition example_gateway :: gateway_library where
  "example_gateway =
     \<lparr>gw_Annotate = (\<lambda>r m. None),
      gw_Register = (\<lambda>b. Undecodable (NewErr ''unexpected'')),
      gw_Login = (\<lambda>b. case split_on (CHR '','') b of
          [i, p] \<Rightarrow> Decoded \<lparr>lq_Identifier = i, lq_Password = p\<rparr>
        | _ \<Rightarrow> if b = [] then AtEOF \<lparr>lq_Identifier = [], lq_Password = []\<rparr> else Undecodable (NewErr ''unexpected'')),
      gw_Complete = (\<lambda>b. Undecodable (NewErr ''unexpected'')),
      gw_Answer = (\<lambda>m. case m of AnyAuth r \<Rightarrow> rs_UserId r | AnyURL u \<Rightarrow> u), gw_Status = snd\<rparr>"

definition example_post :: "string \<Rightarrow> http_call" where
  "example_post body = \<lparr>hq_Method = ''POST'', hq_Path = ''/v1/auth/login'', hq_Form = False, hq_Body = Inr body\<rparr>"

lemma HTTP_Login_answers_witness:
  "(let post = (\<lambda>body. fst (run_state (mux_ServeHTTP example_gateway
        (RegisterAuthServiceHandler example_gateway [] (connected Inr example_auth)) background (example_post body)) empty_world));
      status = (\<lambda>res. case res of Ok answer \<Rightarrow> Some (wr_StatusCode answer) | _ \<Rightarrow> None) in
    status (post ''bob,secret'') = Some 401 \<and> status (post ''{'') = Some 400 \<and> status (post []) = Some 400)"
proof -
  let ?run = "\<lambda>body. run_state (mux_ServeHTTP example_gateway
        (RegisterAuthServiceHandler example_gateway [] (connected Inr example_auth)) background (example_post body)) empty_world"
  have served: "http_login_served example_bcrypt example_jwt example_gateway (example_post body) empty_world
      (fst (?run body)) (snd (?run body))" for body
    unfolding example_auth_def
    by (rule HTTP_Login_answers [OF example_laws(1,3) _ _ _ surjective_pairing])
      (simp_all add: example_post_def example_gateway_def)
  let ?m = "\<lambda>i p. \<lparr>lq_Identifier = i, lq_Password = p\<rparr>"
  have d: "decode_body (gw_Login example_gateway) (example_post ''bob,secret'') = Inr (?m ''bob'' ''secret'')"
    "decode_body (gw_Login example_gateway) (example_post ''{'') = Inl (InvalidArgument, ''unexpected'')"
    "decode_body (gw_Login example_gateway) (example_post []) = Inr (?m [] [])" by code_simp+
  have valid: "LoginRequest_validate True (Some (?m ''bob'' ''secret'')) = Ok None"
    "validateLoginInput (login_fields (Some (?m ''bob'' ''secret''))) = None" by code_simp+
  have "case LoginRequest_validate True (Some (?m [] [])) of Ok None \<Rightarrow> False | _ \<Rightarrow> True" by code_simp
  then have invalid: "LoginRequest_validate True (Some (?m [] [])) \<noteq> Ok None" by auto
  have none: "authenticates example_bcrypt i (stored empty_world) = None" for i
    by (simp add: authenticates_def example_laws(5))
  from served [of "''bob,secret''"] have
    "\<exists>answer. fst (?run ''bob,secret'') = Ok answer \<and> wr_StatusCode answer = 401"
    by (auto simp: http_login_served_def http_login_answer_def d valid none example_laws(2,4))
  moreover from served [of "''{''"] have "\<exists>answer. fst (?run ''{'') = Ok answer \<and> wr_StatusCode answer = 400"
    by (auto simp: http_login_served_def d)
  moreover from served [of "[]"] have "\<exists>answer. fst (?run []) = Ok answer \<and> wr_StatusCode answer = 400"
    by (auto simp: http_login_served_def http_login_answer_def d invalid none example_laws(2,4))
  ultimately show ?thesis by (auto simp: Let_def)
qed

end
