(* ===== verification/Aesgcm.thy ===== *)
theory Aesgcm
  imports Uuid
begin

text \<open>
  pkg/cripto/aesgcm: encryption with AES in GCM mode. crypto/aes, crypto/cipher and the random source
  are arguments; hexadecimal text is that of encoding/hex.
\<close>

section \<open>Hexadecimal text\<close>

definition hex_byte :: "char \<Rightarrow> string" where
  "hex_byte c = [hex_digit (of_char c div 16), hex_digit (of_char c mod 16)]"

definition hex_EncodeToString :: "string \<Rightarrow> string" where
  "hex_EncodeToString s = concat (map hex_byte s)"

fun hex_DecodeString :: "string \<Rightarrow> string option" where
  "hex_DecodeString [] = Some []"
| "hex_DecodeString [a] = None"
| "hex_DecodeString (a # b # s) =
     (case (hex_value a, hex_value b) of
        (Some x, Some y) \<Rightarrow> map_option ((#) (char_of (16 * x + y))) (hex_DecodeString s)
      | _ \<Rightarrow> None)"

section \<open>The cipher\<close>

text \<open>\<open>gl_ReadFull\<close> is \<open>io.ReadFull(rand.Reader, buf)\<close>: the bytes it puts into a buffer of that length.\<close>

record ('w, 'b, 'g) gcm_library =
  gl_NewCipher :: "string \<Rightarrow> err + 'b"
  gl_NewGCM :: "'b \<Rightarrow> err + 'g"
  gl_NonceSize :: "'g \<Rightarrow> nat"
  gl_Seal :: "'g \<Rightarrow> string \<Rightarrow> string \<Rightarrow> string"
  gl_Open :: "'g \<Rightarrow> string \<Rightarrow> string \<Rightarrow> err + string"
  gl_ReadFull :: "nat \<Rightarrow> ('w, string) go"

record crypt_aesgcm =
  ca_secretKey :: string

definition NewCrypt :: "string \<Rightarrow> crypt_aesgcm" where
  "NewCrypt secretKey = \<lparr>ca_secretKey = secretKey\<rparr>"

definition new_aesgcm :: "('w, 'b, 'g) gcm_library \<Rightarrow> crypt_aesgcm \<Rightarrow> err + 'g" where
  "new_aesgcm lib c = (case gl_NewCipher lib (ca_secretKey c) of Inl e \<Rightarrow> Inl e | Inr block \<Rightarrow> gl_NewGCM lib block)"

text \<open>
  The nonce is a string, and \<open>[]byte(nonce)\<close> is a new slice with its bytes: the random bytes are read
  into that slice, and the string keeps the zeros of \<open>make\<close>.
\<close>

definition Encrypt :: "('w, 'b, 'g) gcm_library \<Rightarrow> crypt_aesgcm \<Rightarrow> string \<Rightarrow> ('w, string \<times> string) go" where
  "Encrypt lib c plaintext =
     (case new_aesgcm lib c of
        Inl e \<Rightarrow> fail e
      | Inr aesGCM \<Rightarrow>
          (let nonce = replicate (gl_NonceSize lib aesGCM) (CHR 0x00) in
           andThen (gl_ReadFull lib (length nonce)) (\<lambda>filled.
             (let ciphertext = gl_Seal lib aesGCM nonce plaintext in
              ok (hex_EncodeToString ciphertext, hex_EncodeToString nonce)))))"

text \<open>\<open>Open\<close> panics on a nonce of another length.\<close>

definition Decrypt :: "('w, 'b, 'g) gcm_library \<Rightarrow> crypt_aesgcm \<Rightarrow> string \<Rightarrow> string \<Rightarrow> string outcome" where
  "Decrypt lib c nonce ciphertext =
     (case new_aesgcm lib c of
        Inl e \<Rightarrow> Err e
      | Inr aesGCM \<Rightarrow>
          (if length nonce \<noteq> gl_NonceSize lib aesGCM
           then Panic ''crypto/cipher: incorrect nonce length given to GCM''
           else (case gl_Open lib aesGCM nonce ciphertext of Inl e \<Rightarrow> Err e | Inr plaintext \<Rightarrow> Ok plaintext)))"

section \<open>The properties\<close>

lemma hex_DecodeString_byte: "hex_DecodeString (hex_byte c @ s) = map_option ((#) c) (hex_DecodeString s)"
proof -
  have "(of_char c :: nat) < 256" using of_char_mod_256 [of c, where 'a = nat] mod_less_divisor [of 256 "of_char c :: nat"] by simp
  then have "(of_char c :: nat) div 16 < 16" by (intro less_mult_imp_div_less) simp
  moreover have "char_of (16 * (of_char c div 16 :: nat) + of_char c mod 16) = c" by simp
  ultimately show ?thesis by (simp add: hex_byte_def hex_value_digit)
qed

lemma hex_DecodeString_EncodeToString [simp]: "hex_DecodeString (hex_EncodeToString s) = Some s"
  by (induction s) (simp_all add: hex_EncodeToString_def hex_DecodeString_byte)

lemma length_hex_EncodeToString [simp]: "length (hex_EncodeToString s) = 2 * length s"
  by (induction s) (simp_all add: hex_EncodeToString_def hex_byte_def)

text \<open>What crypto/cipher documents: \<open>Open\<close> undoes \<open>Seal\<close>, and a nonce is not empty.\<close>

definition gcm_law :: "('w, 'b, 'g) gcm_library \<Rightarrow> bool" where
  "gcm_law lib \<longleftrightarrow> (\<forall>g nonce plaintext. length nonce = gl_NonceSize lib g \<longrightarrow>
       gl_Open lib g nonce (gl_Seal lib g nonce plaintext) = Inr plaintext)
     \<and> (\<forall>g. gl_NonceSize lib g > 0)"

lemma Encrypt_result:
  assumes "run_state (Encrypt lib c plaintext) w = (Ok (ct, n), v)"
  obtains g where "new_aesgcm lib c = Inr g" "n = hex_EncodeToString (replicate (gl_NonceSize lib g) (CHR 0x00))"
    "ct = hex_EncodeToString (gl_Seal lib g (replicate (gl_NonceSize lib g) (CHR 0x00)) plaintext)"
  using assms
  by (auto simp: Encrypt_def Let_def run_rules split: sum.splits prod.splits outcome.splits)

text \<open>
  C40: what is encrypted can be decrypted, and the nonce never changes. A ciphertext and its nonce,
  decoded from hexadecimal text, decrypt to the plaintext with the same key; but every encryption with
  that key uses the same nonce, all zeros, whatever the random source gave, so equal plaintexts have
  equal ciphertexts; and the nonce as Encrypt returns it, not decoded, makes Decrypt panic.
\<close>
theorem Encrypt_repeats_its_nonce:
  assumes "gcm_law lib"
    and "run_state (Encrypt lib c plaintext) w = (Ok (ct, n), v)"
    and "run_state (Encrypt lib c other) w' = (Ok (ct', n'), v')"
  shows "(\<exists>x z. hex_DecodeString ct = Some x \<and> hex_DecodeString n = Some z \<and> Decrypt lib c z x = Ok plaintext
       \<and> set z = {CHR 0x00})
     \<and> n' = n \<and> (other = plaintext \<longrightarrow> ct' = ct)
     \<and> (\<exists>p. Decrypt lib c n ct = Panic p)"
proof -
  obtain g where g: "new_aesgcm lib c = Inr g" "n = hex_EncodeToString (replicate (gl_NonceSize lib g) (CHR 0x00))"
    "ct = hex_EncodeToString (gl_Seal lib g (replicate (gl_NonceSize lib g) (CHR 0x00)) plaintext)"
    by (rule Encrypt_result [OF assms(2)])
  obtain g' where g': "new_aesgcm lib c = Inr g'" "n' = hex_EncodeToString (replicate (gl_NonceSize lib g') (CHR 0x00))"
    "ct' = hex_EncodeToString (gl_Seal lib g' (replicate (gl_NonceSize lib g') (CHR 0x00)) other)"
    by (rule Encrypt_result [OF assms(3)])
  from assms(1) have "gl_NonceSize lib g > 0" by (simp add: gcm_law_def)
  with assms(1) g g' show ?thesis by (simp add: gcm_law_def Decrypt_def)
qed

section \<open>Examples\<close>

text \<open>A cipher that puts the nonce before the plaintext, on a source of random bytes.\<close>

definition example_gcm :: "(nat, unit, unit) gcm_library" where
  "example_gcm =
     \<lparr>gl_NewCipher = (\<lambda>key. if key = [] then Inl (NewErr ''invalid key size'') else Inr ()), gl_NewGCM = Inr,
      gl_NonceSize = (\<lambda>_. 2), gl_Seal = (\<lambda>_ nonce plaintext. nonce @ plaintext),
      gl_Open = (\<lambda>_ nonce ciphertext. if take 2 ciphertext = nonce then Inr (drop 2 ciphertext) else Inl (NewErr ''authentication failed'')),
      gl_ReadFull = (\<lambda>n. do { w \<leftarrow> State_Monad.get; after (State_Monad.set (Suc w)) (ok (replicate n (char_of w))) })\<rparr>"

lemma Encrypt_repeats_its_nonce_witness:
  "run_state (Encrypt example_gcm (NewCrypt ''k'') ''A'') 7 = (Ok (''000041'', ''0000''), 8)
     \<and> run_state (Encrypt example_gcm (NewCrypt ''k'') ''A'') 8 = (Ok (''000041'', ''0000''), 9)
     \<and> (\<exists>p. Decrypt example_gcm (NewCrypt ''k'') ''0000'' ''000041'' = Panic p)
     \<and> (\<exists>x z. hex_DecodeString ''000041'' = Some x \<and> hex_DecodeString ''0000'' = Some z
          \<and> Decrypt example_gcm (NewCrypt ''k'') z x = Ok ''A'' \<and> set z = {CHR 0x00})"
proof -
  have law: "gcm_law example_gcm" by (auto simp: gcm_law_def example_gcm_def)
  have a: "run_state (Encrypt example_gcm (NewCrypt ''k'') ''A'') 7 = (Ok (''000041'', ''0000''), 8)" by code_simp
  have b: "run_state (Encrypt example_gcm (NewCrypt ''k'') ''A'') 8 = (Ok (''000041'', ''0000''), 9)" by code_simp
  from Encrypt_repeats_its_nonce [OF law a b] a b show ?thesis by blast
qed

end
