(* ===== verification/TraceContext.thy ===== *)
theory TraceContext
  imports Aesgcm "HOL-Library.AList"
begin

text \<open>
  pkg/adapters/server_grpc/tracing.go: the trace context that the gateway's interceptor puts into the
  metadata of a call, and that the server takes from it, over the W3C propagator of OpenTelemetry and
  the metadata of gRPC.
\<close>

section \<open>Metadata\<close>

type_synonym metadata = "(string \<times> string list) list"

definition MD_Get :: "metadata \<Rightarrow> string \<Rightarrow> string list" where
  "MD_Get md k = (case map_of md (ToLower k) of None \<Rightarrow> [] | Some vs \<Rightarrow> vs)"

definition MD_Set :: "metadata \<Rightarrow> string \<Rightarrow> string list \<Rightarrow> metadata" where
  "MD_Set md k vs = (if vs = [] then md else AList.update (ToLower k) vs md)"

text \<open>\<open>metadataCarrier\<close>; the keys come in any order.\<close>

definition carrier_Get :: "metadata \<Rightarrow> string \<Rightarrow> string" where
  "carrier_Get md key = (let values = MD_Get md key in if length values = 0 then [] else values ! 0)"

definition carrier_Set :: "metadata \<Rightarrow> string \<Rightarrow> string \<Rightarrow> metadata" where
  "carrier_Set md key value = MD_Set md key [value]"

definition carrier_Keys :: "metadata \<Rightarrow> string list" where
  "carrier_Keys md = map fst md"

section \<open>The propagator\<close>

text \<open>A span context: the identifiers are bytes, 16 and 8 of them.\<close>

record span_context =
  sc_TraceID :: string
  sc_SpanID :: string
  sc_TraceFlags :: nat
  sc_TraceState :: string
  sc_Remote :: bool

definition no_span :: span_context where
  "no_span = \<lparr>sc_TraceID = replicate 16 (CHR 0x00), sc_SpanID = replicate 8 (CHR 0x00), sc_TraceFlags = 0, sc_TraceState = [],
              sc_Remote = False\<rparr>"

definition sc_IsValid :: "span_context \<Rightarrow> bool" where
  "sc_IsValid sc \<longleftrightarrow> list_ex (\<lambda>c. c \<noteq> CHR 0x00) (sc_TraceID sc) \<and> list_ex (\<lambda>c. c \<noteq> CHR 0x00) (sc_SpanID sc)"

definition traceparent :: "span_context \<Rightarrow> string" where
  "traceparent sc =
     ''00-'' @ hex_EncodeToString (sc_TraceID sc) @ ''-'' @ hex_EncodeToString (sc_SpanID sc) @ ''-''
       @ hex_EncodeToString [char_of (sc_TraceFlags sc mod 2)]"

definition Inject :: "span_context \<Rightarrow> metadata \<Rightarrow> metadata" where
  "Inject sc md =
     (if \<not> sc_IsValid sc then md
      else (let md = (if sc_TraceState sc \<noteq> [] then carrier_Set md ''tracestate'' (sc_TraceState sc) else md) in
        carrier_Set md ''traceparent'' (traceparent sc)))"

definition extractPart :: "string \<Rightarrow> nat \<Rightarrow> (string \<times> string) option" where
  "extractPart h n =
     (let part = takeWhile (\<lambda>c. c \<noteq> CHR ''-'') h; left = tl (dropWhile (\<lambda>c. c \<noteq> CHR ''-'') h) in
      if length part \<noteq> n \<or> list_ex (\<lambda>c. of_char c \<ge> (65 :: nat) \<and> of_char c \<le> (70 :: nat)) part then None
      else map_option (\<lambda>d. (d, left)) (hex_DecodeString part))"

text \<open>\<open>ParseTraceState\<close> is the text of the trace state that is read, empty where it cannot be.\<close>

definition extract_parent :: "(string \<Rightarrow> string) \<Rightarrow> metadata \<Rightarrow> span_context" where
  "extract_parent ParseTraceState md =
     (let h = carrier_Get md ''traceparent'' in
      if h = [] then no_span
      else (case extractPart h 2 of None \<Rightarrow> no_span | Some (ver, h) \<Rightarrow>
        let version = of_char (hd ver) :: nat in
        if version > 254 then no_span
        else (case extractPart h 32 of None \<Rightarrow> no_span | Some (traceID, h) \<Rightarrow>
          (case extractPart h 16 of None \<Rightarrow> no_span | Some (spanID, h) \<Rightarrow>
            (case extractPart h 2 of None \<Rightarrow> no_span | Some (opts, h) \<Rightarrow>
              (let flags = of_char (hd opts) :: nat in
               if version = 0 \<and> (h \<noteq> [] \<or> flags > 2) then no_span
               else (let sc = \<lparr>sc_TraceID = traceID, sc_SpanID = spanID, sc_TraceFlags = flags mod 2,
                       sc_TraceState = ParseTraceState (carrier_Get md ''tracestate''), sc_Remote = True\<rparr> in
                 if sc_IsValid sc then sc else no_span)))))))"

section \<open>tracing.go\<close>

text \<open>What the two functions use of a context: the span, and the metadata of the calls out and in.\<close>

record call_ctx =
  cx_Span :: span_context
  cx_Outgoing :: "metadata option"
  cx_Incoming :: "metadata option"

text \<open>\<open>propagating\<close>: a propagator was installed, by InitTracing; the one before it does nothing.\<close>

definition TraceUnaryClientInterceptor :: "bool \<Rightarrow> call_ctx \<Rightarrow> (call_ctx \<Rightarrow> 'a) \<Rightarrow> 'a" where
  "TraceUnaryClientInterceptor propagating ctx invoker =
     (let md = (case cx_Outgoing ctx of None \<Rightarrow> [] | Some md \<Rightarrow> md);
          md = (if propagating then Inject (cx_Span ctx) md else md) in
      invoker (ctx\<lparr>cx_Outgoing := Some md\<rparr>))"

definition ExtractIncomingTraceContext :: "bool \<Rightarrow> (string \<Rightarrow> string) \<Rightarrow> call_ctx \<Rightarrow> call_ctx" where
  "ExtractIncomingTraceContext propagating ParseTraceState ctx =
     (case cx_Incoming ctx of
        None \<Rightarrow> ctx
      | Some md \<Rightarrow>
          if \<not> propagating then ctx
          else (let sc = extract_parent ParseTraceState md in if sc_IsValid sc then ctx\<lparr>cx_Span := sc\<rparr> else ctx))"

section \<open>The context crosses the call\<close>

lemma hex_digit_plain: "d < 16 \<Longrightarrow> (of_char (hex_digit d) :: nat) \<in> {48..57} \<union> {97..102}"
  by (auto simp: hex_digit_def)

lemma hex_text:
  assumes "c \<in> set (hex_EncodeToString s)"
  shows "(of_char c :: nat) \<in> {48..57} \<union> {97..102}" "c \<noteq> CHR ''-''"
proof -
  from assms obtain b where "c = hex_digit (of_char b div 16) \<or> c = hex_digit (of_char b mod 16)"
    by (auto simp: hex_EncodeToString_def hex_byte_def)
  moreover have "(of_char b :: nat) div 16 < 16"
    using of_char_mod_256 [of b, where 'a = nat] mod_less_divisor [of 256 "of_char b :: nat"]
    by (intro less_mult_imp_div_less) simp
  ultimately show *: "(of_char c :: nat) \<in> {48..57} \<union> {97..102}"
    using hex_digit_plain [of "of_char b div 16"] hex_digit_plain [of "of_char b mod 16"] by auto
  show "c \<noteq> CHR ''-''" using * by auto
qed

lemma hex_lower: "\<not> list_ex (\<lambda>c. of_char c \<ge> (65 :: nat) \<and> of_char c \<le> (70 :: nat)) (hex_EncodeToString s)"
  using hex_text(1) [of _ s] by (fastforce simp: list_ex_iff)

lemma hex_no_dash: "\<forall>c \<in> set (hex_EncodeToString s). c \<noteq> CHR ''-''"
  using hex_text(2) by blast

lemma extractPart_hex:
  assumes "n = 2 * length s"
  shows "extractPart (hex_EncodeToString s @ CHR ''-'' # rest) n = Some (s, rest)" "extractPart (hex_EncodeToString s) n = Some (s, [])"
  using assms hex_no_dash [of s] hex_lower [of s]
  by (simp_all add: extractPart_def takeWhile_append2 dropWhile_append2 takeWhile_eq_all_conv [THEN iffD2]
      dropWhile_eq_Nil_conv [THEN iffD2])

lemma carrier_Get_Set: "carrier_Get (carrier_Set md k v) k' = (if ToLower k = ToLower k' then v else carrier_Get md k')"
  by (simp add: carrier_Get_def carrier_Set_def MD_Get_def MD_Set_def update_conv' fun_upd_def)

lemma header_names: "ToLower ''traceparent'' = ''traceparent''" "ToLower ''tracestate'' = ''tracestate''"
  by (simp_all add: ToLower_def lower_char_def)

lemma version_part: "extractPart (''00-'' @ rest) 2 = Some ([CHR 0x00], rest)"
proof -
  have "hex_EncodeToString [CHR 0x00] = ''00''" by code_simp
  with extractPart_hex(1) [of 2 "[CHR 0x00]" rest] show ?thesis by simp
qed

definition sized :: "span_context \<Rightarrow> bool" where
  "sized sc \<longleftrightarrow> length (sc_TraceID sc) = 16 \<and> length (sc_SpanID sc) = 8"

lemma parts_traceparent:
  assumes "sized sc"
  shows "extractPart (hex_EncodeToString (sc_TraceID sc) @ ''-'' @ rest) 32 = Some (sc_TraceID sc, rest)"
    "extractPart (hex_EncodeToString (sc_SpanID sc) @ ''-'' @ rest) 16 = Some (sc_SpanID sc, rest)"
  using assms by (simp_all add: sized_def extractPart_hex)

text \<open>Two sets of metadata that carry the same trace context.\<close>

definition same_trace :: "metadata \<Rightarrow> metadata \<Rightarrow> bool" where
  "same_trace md md' \<longleftrightarrow>
     carrier_Get md' ''traceparent'' = carrier_Get md ''traceparent'' \<and> carrier_Get md' ''tracestate'' = carrier_Get md ''tracestate''"

lemma extract_Inject:
  assumes "sized sc" "sc_IsValid sc" "same_trace (Inject sc md) md'"
    and "sc_TraceState sc \<noteq> [] \<or> carrier_Get md ''tracestate'' = []"
    and "ParseTraceState (sc_TraceState sc) = sc_TraceState sc"
  shows "extract_parent ParseTraceState md' = sc\<lparr>sc_TraceFlags := sc_TraceFlags sc mod 2, sc_Remote := True\<rparr>"
proof -
  have parent: "carrier_Get md' ''traceparent'' = traceparent sc" and state: "carrier_Get md' ''tracestate'' = sc_TraceState sc"
    using assms(2-4) by (auto simp: same_trace_def Inject_def Let_def carrier_Get_Set header_names)
  have "traceparent sc \<noteq> []" by (simp add: traceparent_def)
  moreover have "of_char (char_of (sc_TraceFlags sc mod 2) :: char) = sc_TraceFlags sc mod 2" by simp
  ultimately show ?thesis
    using assms(2,5) parent state
    by (simp add: extract_parent_def traceparent_def version_part [simplified] parts_traceparent [OF assms(1), simplified]
        extractPart_hex(2) [of 2] sc_IsValid_def Let_def)
qed

text \<open>
  The span of the gateway is the parent at the server: whatever other metadata the call has and
  gains on the way, the server's context has the trace, the span, the sampling flag and the trace state
  that the gateway's had, as a remote one.
\<close>

theorem trace_crosses_the_call:
  assumes "sized (cx_Span ctx)" "sc_IsValid (cx_Span ctx)" "ParseTraceState (sc_TraceState (cx_Span ctx)) = sc_TraceState (cx_Span ctx)"
    and "sc_TraceState (cx_Span ctx) \<noteq> [] \<or> (\<forall>md. cx_Outgoing ctx = Some md \<longrightarrow> carrier_Get md ''tracestate'' = [])"
    and "TraceUnaryClientInterceptor True ctx (\<lambda>sent. cx_Outgoing sent) = Some md" "same_trace md md'"
  shows "cx_Span (ExtractIncomingTraceContext True ParseTraceState (server\<lparr>cx_Incoming := Some md'\<rparr>)) =
    (cx_Span ctx)\<lparr>sc_TraceFlags := sc_TraceFlags (cx_Span ctx) mod 2, sc_Remote := True\<rparr>"
proof -
  let ?md = "case cx_Outgoing ctx of None \<Rightarrow> [] | Some md \<Rightarrow> md"
  from assms(5) have "md = Inject (cx_Span ctx) ?md" by (simp add: TraceUnaryClientInterceptor_def Let_def)
  with assms(6) have "same_trace (Inject (cx_Span ctx) ?md) md'" by simp
  moreover from assms(4) have "sc_TraceState (cx_Span ctx) \<noteq> [] \<or> carrier_Get ?md ''tracestate'' = []"
    by (auto simp: carrier_Get_def MD_Get_def split: option.splits)
  ultimately have "extract_parent ParseTraceState md' =
      (cx_Span ctx)\<lparr>sc_TraceFlags := sc_TraceFlags (cx_Span ctx) mod 2, sc_Remote := True\<rparr>"
    using assms(1-3) by (intro extract_Inject)
  with assms(2) show ?thesis by (simp add: ExtractIncomingTraceContext_def Let_def sc_IsValid_def)
qed

text \<open>Without a propagator, and without a span, nothing is added and nothing taken.\<close>

lemma no_trace:
  "TraceUnaryClientInterceptor False ctx (\<lambda>sent. cx_Outgoing sent) = Some (case cx_Outgoing ctx of None \<Rightarrow> [] | Some md \<Rightarrow> md)"
  "\<not> sc_IsValid (cx_Span ctx) \<Longrightarrow>
     TraceUnaryClientInterceptor True ctx (\<lambda>sent. cx_Outgoing sent) = Some (case cx_Outgoing ctx of None \<Rightarrow> [] | Some md \<Rightarrow> md)"
  "ExtractIncomingTraceContext False P ctx = ctx"
  by (simp_all add: TraceUnaryClientInterceptor_def ExtractIncomingTraceContext_def Inject_def split: option.split)

end
