(* ===== verification/FiberMetrics.thy ===== *)
theory FiberMetrics
  imports Prelude
begin

text \<open>
  pkg/prometheus: the metrics handler of client_golang behind fiber. The adapter is the
  \<open>http.ResponseWriter\<close> that the handler writes to; of a fiber context the status, the headers appended
  and the body are kept. The keys of a header come in the order of the list.
\<close>

section \<open>module.go\<close>

record fiber_ctx =
  fc_Status :: int
  fc_Appended :: "(string \<times> string) list"
  fc_Body :: string

record fiber_adapter =
  fa_ctx :: fiber_ctx
  fa_header :: "(string \<times> string list) list option"
  fa_headerSent :: bool
  fa_statusCode :: int
  fa_statusCodeSet :: bool

text \<open>\<open>Header\<close> gives the map, made on the first call; the handler changes it through \<open>Header_set\<close>.\<close>

definition Header :: "fiber_adapter \<Rightarrow> (string \<times> string list) list \<times> fiber_adapter" where
  "Header f = (case fa_header f of None \<Rightarrow> ([], f\<lparr>fa_header := Some []\<rparr>) | Some h \<Rightarrow> (h, f))"

definition Header_set :: "string \<Rightarrow> string \<Rightarrow> fiber_adapter \<Rightarrow> fiber_adapter" where
  "Header_set key value f =
     (case Header f of (h, f) \<Rightarrow> f\<lparr>fa_header := Some (filter (\<lambda>(k, vs). k \<noteq> key) h @ [(key, [value])])\<rparr>)"

definition flattened :: "(string \<times> string list) list \<Rightarrow> (string \<times> string) list" where
  "flattened h = concat (map (\<lambda>(key, values). map (\<lambda>value. (key, value)) values) h)"

definition Append :: "(string \<times> string) list \<Rightarrow> fiber_ctx \<Rightarrow> fiber_ctx" where
  "Append kvs c = c\<lparr>fc_Appended := fc_Appended c @ kvs\<rparr>"

definition set_Status :: "int \<Rightarrow> fiber_ctx \<Rightarrow> fiber_ctx" where
  "set_Status code c = c\<lparr>fc_Status := code\<rparr>"

definition writeHeaders :: "fiber_adapter \<Rightarrow> fiber_adapter" where
  "writeHeaders f =
     (if fa_headerSent f then f
      else (case Header (f\<lparr>fa_headerSent := True\<rparr>) of (h, f) \<Rightarrow>
        (let f = f\<lparr>fa_ctx := Append (flattened h) (fa_ctx f)\<rparr> in
         if fa_statusCodeSet f then f\<lparr>fa_ctx := set_Status (fa_statusCode f) (fa_ctx f)\<rparr> else f)))"

definition Write_fiber :: "string \<Rightarrow> fiber_adapter \<Rightarrow> fiber_adapter" where
  "Write_fiber b f = (let f = writeHeaders f in f\<lparr>fa_ctx := (fa_ctx f)\<lparr>fc_Body := fc_Body (fa_ctx f) @ b\<rparr>\<rparr>)"

definition WriteHeader_fiber :: "int \<Rightarrow> fiber_adapter \<Rightarrow> fiber_adapter" where
  "WriteHeader_fiber statusCode f =
     (let f = writeHeaders (f\<lparr>fa_statusCode := statusCode, fa_statusCodeSet := True\<rparr>) in
      f\<lparr>fa_ctx := set_Status statusCode (fa_ctx f)\<rparr>)"

text \<open>What a handler does to its writer.\<close>

datatype writer_call = SetHeader string string | WriteBody string | WriteStatus int

fun written_to :: "writer_call \<Rightarrow> fiber_adapter \<Rightarrow> fiber_adapter" where
  "written_to (SetHeader k v) f = Header_set k v f"
| "written_to (WriteBody b) f = Write_fiber b f"
| "written_to (WriteStatus code) f = WriteHeader_fiber code f"

text \<open>
  The handler of a request: its method and no headers, whatever the request of the browser had.
  \<open>ServeHTTP\<close> is what the handler for the gatherer does.
\<close>

definition FiberHandlerFor :: "(string \<Rightarrow> (string \<times> string) list \<Rightarrow> writer_call list) \<Rightarrow> string \<Rightarrow> fiber_ctx \<Rightarrow> fiber_ctx" where
  "FiberHandlerFor ServeHTTP method ctx =
     fa_ctx (fold written_to (ServeHTTP method [])
       \<lparr>fa_ctx = ctx, fa_header = None, fa_headerSent = False, fa_statusCode = 0, fa_statusCodeSet = False\<rparr>)"

section \<open>What reaches fiber\<close>

text \<open>Once the headers are sent they are not sent again, and nothing that is set later is.\<close>

lemma sent_once:
  assumes "fa_headerSent f"
  shows "fa_headerSent (written_to c f) \<and> fc_Appended (fa_ctx (written_to c f)) = fc_Appended (fa_ctx f)"
  using assms
  by (cases c) (auto simp: Header_set_def Header_def Write_fiber_def WriteHeader_fiber_def writeHeaders_def set_Status_def
      Let_def split: option.splits)

theorem headers_sent_once:
  assumes "fa_headerSent f"
  shows "fc_Appended (fa_ctx (fold written_to cs f)) = fc_Appended (fa_ctx f)"
  using assms
proof (induction cs arbitrary: f)
  case (Cons c cs)
  from sent_once [OF Cons.prems, of c] Cons.IH [of "written_to c f"] show ?case by simp
qed simp

text \<open>
  A handler that sets its headers, then the status, then writes the body: fiber gets each header once,
  the status and the body in order.
\<close>

lemma set_headers:
  "distinct (map fst kvs) \<Longrightarrow> fa_header f = Some h \<Longrightarrow> set (map fst h) \<inter> set (map fst kvs) = {} \<Longrightarrow>
   fold written_to (map (\<lambda>(k, v). SetHeader k v) kvs) f = f\<lparr>fa_header := Some (h @ map (\<lambda>(k, v). (k, [v])) kvs)\<rparr>"
proof (induction kvs arbitrary: f h)
  case (Cons kv kvs)
  obtain k v where kv: "kv = (k, v)" by (cases kv)
  from Cons.prems kv have "filter (\<lambda>(k', vs). k' \<noteq> k) h = h"
    by (force simp: filter_id_conv)
  with Cons.prems kv Cons.IH [of "Header_set k v f" "h @ [(k, [v])]"] show ?case
    by (force simp: Header_set_def Header_def)
qed simp

lemma write_bodies:
  "fa_headerSent f \<Longrightarrow>
   fold written_to (map WriteBody bs) f = f\<lparr>fa_ctx := (fa_ctx f)\<lparr>fc_Body := fc_Body (fa_ctx f) @ concat bs\<rparr>\<rparr>"
  by (induction bs arbitrary: f) (simp_all add: Write_fiber_def writeHeaders_def Let_def)

lemma flattened_singles: "flattened (map (\<lambda>(k, v). (k, [v])) kvs) = kvs"
  by (induction kvs) (auto simp: flattened_def)

theorem FiberHandlerFor_forwards:
  assumes "ServeHTTP method [] = map (\<lambda>(k, v). SetHeader k v) kvs @ WriteStatus code # map WriteBody bs"
    and "distinct (map fst kvs)" "kvs \<noteq> []"
  shows "FiberHandlerFor ServeHTTP method ctx =
    ctx\<lparr>fc_Status := code, fc_Appended := fc_Appended ctx @ kvs, fc_Body := fc_Body ctx @ concat bs\<rparr>"
proof -
  let ?f = "\<lparr>fa_ctx = ctx, fa_header = None, fa_headerSent = False, fa_statusCode = 0, fa_statusCodeSet = False\<rparr>"
  obtain k v rest where kvs: "kvs = (k, v) # rest" using assms(3) by (cases kvs) auto
  have "fold written_to (map (\<lambda>(k, v). SetHeader k v) kvs) ?f =
      fold written_to (map (\<lambda>(k, v). SetHeader k v) rest) (?f\<lparr>fa_header := Some [(k, [v])]\<rparr>)"
    by (simp add: kvs Header_set_def Header_def)
  also have "\<dots> = ?f\<lparr>fa_header := Some (map (\<lambda>(k, v). (k, [v])) kvs)\<rparr>"
    using assms(2) by (subst set_headers [where h = "[(k, [v])]"]) (auto simp: kvs)
  finally show ?thesis
    by (simp add: FiberHandlerFor_def assms(1) WriteHeader_fiber_def writeHeaders_def Header_def Let_def write_bodies
        flattened_singles Append_def set_Status_def)
qed

text \<open>A second status replaces the first one, although \<open>net/http\<close> keeps the first.\<close>

lemma WriteHeader_twice: "fc_Status (fa_ctx (WriteHeader_fiber b (WriteHeader_fiber a f))) = b"
  by (simp add: WriteHeader_fiber_def Let_def set_Status_def)

end
