(* ===== verification/Stacktrace.thy ===== *)
theory Stacktrace
  imports Prelude
begin

text \<open>
  pkg/smart-span/stacktrace: capturing the stack of the calling goroutine with storage from a pool,
  formatting it, and the names of calling functions. A stack is the list of its frames, the innermost
  first; \<open>runtime.Callers\<close> and \<open>runtime.Frames\<close> are those of the Go library.
\<close>

section \<open>Frames\<close>

record frame =
  fr_Function :: string
  fr_File :: string
  fr_Line :: int

definition zero_frame :: frame where
  "zero_frame = \<lparr>fr_Function = [], fr_File = [], fr_Line = 0\<rparr>"

text \<open>\<open>runtime.Callers(skip, pcs)\<close> with room for \<open>n\<close> frames.\<close>

definition runtime_Callers :: "frame list \<Rightarrow> nat \<Rightarrow> nat \<Rightarrow> frame list" where
  "runtime_Callers stack skip n = take n (drop skip stack)"

datatype depth = First | Full

text \<open>The numbers of the two depths.\<close>

definition depth_value :: "depth \<Rightarrow> nat" where
  "depth_value d = (case d of First \<Rightarrow> 0 | Full \<Rightarrow> 64)"

text \<open>A captured stack: its frames, those that \<open>Next\<close> has not returned yet, and the room of its storage.\<close>

record stack =
  st_pcs :: "frame list"
  st_frames :: "frame list"
  st_storage :: nat

text \<open>What the pool makes when it has nothing; it may give back any stack that was put into it.\<close>

definition new_stack :: stack where
  "new_stack = \<lparr>st_pcs = [], st_frames = [], st_storage = depth_value Full\<rparr>"

definition Free :: "stack \<Rightarrow> stack list \<Rightarrow> stack list" where
  "Free st pool = st\<lparr>st_frames := [], st_pcs := []\<rparr> # pool"

definition Count :: "stack \<Rightarrow> nat" where
  "Count st = length (st_pcs st)"

definition Next :: "stack \<Rightarrow> (frame \<times> bool) \<times> stack" where
  "Next st =
     (case st_frames st of
        [] \<Rightarrow> ((zero_frame, False), st)
      | f # fs \<Rightarrow> ((f, fs \<noteq> []), st\<lparr>st_frames := fs\<rparr>))"

section \<open>Capture\<close>

text \<open>
  The loop that doubles the storage until the frames leave room in it: \<open>None\<close> would be a loop that
  never ends, as it is with no storage at all.
\<close>

partial_function (option) grow :: "frame list \<Rightarrow> nat \<Rightarrow> nat \<Rightarrow> nat option" where
  "grow stack skip room =
     (if length (runtime_Callers stack skip room) = room then grow stack skip (room * 2) else Some room)"

definition Callers_frame :: frame where
  "Callers_frame = \<lparr>fr_Function = ''runtime.Callers'', fr_File = ''runtime/extern.go'', fr_Line = 0\<rparr>"

definition own_frame :: "string \<Rightarrow> int \<Rightarrow> frame" where
  "own_frame name line =
     \<lparr>fr_Function = ''GolangTemplateProject/pkg/smart-span/stacktrace.'' @ name,
      fr_File = ''pkg/smart-span/stacktrace/stacktrace.go'', fr_Line = line\<rparr>"

text \<open>
  \<open>callers\<close> is the stack of the goroutine from the function that calls Capture, and \<open>st\<close> the stack the
  pool gives. Storage that is too small for the depth panics.
\<close>

definition below_Capture :: "frame list \<Rightarrow> frame list" where
  "below_Capture callers = Callers_frame # own_frame ''Capture'' 81 # callers"

definition capture_first :: "stack \<Rightarrow> frame list \<Rightarrow> nat \<Rightarrow> stack outcome" where
  "capture_first st callers skip =
     (if st_storage st < depth_value First + 2 then Panic ''slice bounds out of range''
      else (let pcs = runtime_Callers (below_Capture callers) (skip + 2) (depth_value First + 2) in
        Ok (st\<lparr>st_pcs := pcs, st_frames := pcs\<rparr>)))"

definition Capture :: "stack \<Rightarrow> frame list \<Rightarrow> nat \<Rightarrow> depth \<Rightarrow> stack outcome option" where
  "Capture st callers skip depth =
     (case depth of
        First \<Rightarrow> Some (capture_first st callers skip)
      | Full \<Rightarrow>
          map_option (\<lambda>room. let pcs = runtime_Callers (below_Capture callers) (skip + 2) room in
              Ok \<lparr>st_pcs = pcs, st_frames = pcs, st_storage = room\<rparr>)
            (grow (below_Capture callers) (skip + 2) (st_storage st)))"

section \<open>Formatting\<close>

record stack_formatter =
  sf_string :: string
  sf_firstFrame :: bool

definition NewStackFormatter :: stack_formatter where
  "NewStackFormatter = \<lparr>sf_string = [], sf_firstFrame = True\<rparr>"

definition frame_text :: "frame \<Rightarrow> string" where
  "frame_text f = fr_Function f @ [CHR 0x0A, CHR 0x09] @ fr_File f @ '':'' @ int_text (fr_Line f)"

definition FormatFrame :: "stack_formatter \<Rightarrow> frame \<Rightarrow> stack_formatter" where
  "FormatFrame sf f =
     \<lparr>sf_string = sf_string sf @ (if sf_firstFrame sf then [] else [CHR 0x0A]) @ frame_text f, sf_firstFrame = False\<rparr>"

function FormatStack :: "stack_formatter \<Rightarrow> stack \<Rightarrow> stack_formatter" where
  "FormatStack sf st =
     (case Next st of ((f, again), st') \<Rightarrow>
        if again then FormatStack (FormatFrame sf f) st' else FormatFrame sf f)"
  by pat_completeness auto

termination
  by (relation "measure (\<lambda>(sf, st). length (st_frames st))") (auto simp: Next_def split: list.splits)

declare FormatStack.simps [simp del]

section \<open>Names and traces of the caller\<close>

text \<open>In each of these \<open>callers\<close> is the stack from the function that makes the call.\<close>

definition with_stack :: "stack outcome \<Rightarrow> (stack \<Rightarrow> 'a) \<Rightarrow> 'a outcome" where
  "with_stack captured f = (case captured of Ok st \<Rightarrow> Ok (f st) | Err e \<Rightarrow> Err e | Panic p \<Rightarrow> Panic p)"

definition formatted :: "stack outcome \<Rightarrow> string outcome" where
  "formatted captured = with_stack captured (\<lambda>st. sf_string (FormatStack NewStackFormatter st))"

definition Take :: "stack \<Rightarrow> frame list \<Rightarrow> nat \<Rightarrow> string outcome option" where
  "Take st callers skip = map_option formatted (Capture st (own_frame ''Take'' 111 # callers) (skip + 1) Full)"

definition TakeOnceCalledFunction :: "stack \<Rightarrow> frame list \<Rightarrow> string outcome" where
  "TakeOnceCalledFunction st callers =
     formatted (capture_first st (own_frame ''TakeOnceCalledFunction'' 119 # callers) 1)"

text \<open>The index of the last slash, and the part of a name after it unless nothing follows.\<close>

definition after_last_slash :: "string \<Rightarrow> string" where
  "after_last_slash fn =
     (let rest = rev (takeWhile (\<lambda>c. c \<noteq> CHR ''/'') (rev fn)) in
      if CHR ''/'' \<in> set fn \<and> rest \<noteq> [] then rest else fn)"

definition CallerFunctionName :: "stack \<Rightarrow> frame list \<Rightarrow> nat \<Rightarrow> string outcome" where
  "CallerFunctionName st callers skip =
     with_stack (capture_first st (own_frame ''CallerFunctionName'' 130 # callers) (skip + 1)) (\<lambda>st.
       case Next st of ((f, again), st') \<Rightarrow> (if fr_Function f = [] then [] else after_last_slash (fr_Function f)))"

record function_frame =
  ff_Package :: string
  ff_File :: string
  ff_Line :: int
  ff_Name :: string

text \<open>\<open>strings.SplitN(s, ".", 2)\<close>: one or two parts.\<close>

definition split_dot :: "string \<Rightarrow> string list" where
  "split_dot s = (if CHR ''.'' \<in> set s then [takeWhile (\<lambda>c. c \<noteq> CHR ''.'') s, tl (dropWhile (\<lambda>c. c \<noteq> CHR ''.'') s)] else [s])"

definition TakeCallerFunctionInfo :: "stack \<Rightarrow> frame list \<Rightarrow> function_frame outcome" where
  "TakeCallerFunctionInfo st callers =
     with_stack (capture_first st (own_frame ''TakeCallerFunctionInfo'' 146 # callers) 1) (\<lambda>st.
       case Next st of ((f, again), st') \<Rightarrow>
         (let functionData = split_dot (fr_Function f) in
          \<lparr>ff_Package = (if length functionData > 0 then functionData ! 0 else []), ff_File = fr_File f,
           ff_Line = fr_Line f, ff_Name = (if length functionData > 1 then functionData ! 1 else fr_Function f)\<rparr>))"

section \<open>What is known of them\<close>

text \<open>Every stack of the pool has room for a call stack of 64 frames at least.\<close>

definition pool_inv :: "stack list \<Rightarrow> bool" where
  "pool_inv pool \<longleftrightarrow> list_all (\<lambda>st. st_storage st \<ge> depth_value Full) pool"

lemma length_Callers: "length (runtime_Callers stack skip n) = min n (length stack - skip)"
  by (simp add: runtime_Callers_def)

lemma grow_ends:
  assumes "room > 0"
  shows "\<exists>room'. grow stack skip room = Some room' \<and> room' \<ge> room \<and> length stack - skip < room'
    \<and> room' \<le> max room (2 * (length stack - skip))"
  using assms
proof (induction "Suc (length stack - skip) - room" arbitrary: room rule: less_induct)
  case less
  show ?case
  proof (cases "length stack - skip < room")
    case True
    then show ?thesis by (subst grow.simps) (simp add: length_Callers)
  next
    case False
    then have "grow stack skip room = grow stack skip (room * 2)"
      by (subst grow.simps) (simp add: length_Callers)
    moreover from False less.prems have "Suc (length stack - skip) - room * 2 < Suc (length stack - skip) - room" by simp
    from less.hyps [OF this] less.prems obtain room' where "grow stack skip (room * 2) = Some room'" "room' \<ge> room * 2"
      "length stack - skip < room'" "room' \<le> max (room * 2) (2 * (length stack - skip))" by auto
    ultimately show ?thesis using False by auto
  qed
qed

text \<open>
  Capturing a full trace ends, has every frame of the callers below the skipped ones, and leaves a
  stack that fits the pool: its storage never shrinks, and is at most twice the depth of the stack
  where it grew.
\<close>

theorem Capture_full:
  assumes "st_storage st \<ge> depth_value Full"
  shows "\<exists>st'. Capture st callers skip Full = Some (Ok st') \<and> st_pcs st' = drop skip callers
    \<and> st_frames st' = st_pcs st' \<and> st_storage st \<le> st_storage st'
    \<and> st_storage st' \<le> max (st_storage st) (2 * (length callers - skip)) \<and> pool_inv (Free st' [])"
proof -
  let ?whole = "below_Capture callers"
  from assms have "st_storage st > 0" by (simp add: depth_value_def)
  from grow_ends [OF this, of ?whole "skip + 2"] obtain room where
    room: "grow ?whole (skip + 2) (st_storage st) = Some room" "st_storage st \<le> room" "length callers - skip < room"
      "room \<le> max (st_storage st) (2 * (length callers - skip))" by (auto simp: below_Capture_def)
  then show ?thesis
    using assms by (simp add: Capture_def below_Capture_def runtime_Callers_def pool_inv_def Free_def Let_def)
qed

lemma Capture_first:
  assumes "st_storage st \<ge> depth_value Full"
  shows "capture_first st callers skip = Ok (st\<lparr>st_pcs := take 2 (drop skip callers), st_frames := take 2 (drop skip callers)\<rparr>)"
  using assms by (simp add: capture_first_def below_Capture_def runtime_Callers_def depth_value_def numeral_2_eq_2 Let_def)

text \<open>Formatting writes every frame, the last one too, on lines of their own.\<close>

lemma FormatStack_frames:
  "st_frames st \<noteq> [] \<Longrightarrow>
   sf_string (FormatStack sf st) =
     sf_string sf @ (if sf_firstFrame sf then [] else [CHR 0x0A]) @ join [CHR 0x0A] (map frame_text (st_frames st))"
proof (induction "st_frames st" arbitrary: sf st)
  case (Cons f fs)
  show ?case
  proof (cases "fs = []")
    case True
    with Cons.hyps(2) show ?thesis by (subst FormatStack.simps) (simp add: Next_def FormatFrame_def flip: Cons.hyps(2))
  next
    case False
    with Cons.hyps(1) [of "st\<lparr>st_frames := fs\<rparr>"] show ?thesis
      by (subst FormatStack.simps)
        (cases fs; simp add: Next_def FormatFrame_def flip: Cons.hyps(2))
  qed
qed simp

theorem Take_is_the_trace:
  assumes "st_storage st \<ge> depth_value Full" "skip < length callers"
  shows "Take st callers skip = Some (Ok (join [CHR 0x0A] (map frame_text (drop skip callers))))"
proof -
  from Capture_full [OF assms(1), of "own_frame ''Take'' 111 # callers" "skip + 1"] obtain st' where
    "Capture st (own_frame ''Take'' 111 # callers) (skip + 1) Full = Some (Ok st')" "st_frames st' = drop skip callers"
    by auto
  moreover from this(2) assms(2) have "st_frames st' \<noteq> []" by simp
  ultimately show ?thesis
    by (simp add: Take_def formatted_def with_stack_def FormatStack_frames NewStackFormatter_def)
qed

text \<open>
  A span without a name is called after the function it is asked for, without its path; and
  TakeOnceCalledFunction gives two frames, not one, with files and lines.
\<close>

lemma CallerFunctionName_of:
  assumes "st_storage st \<ge> depth_value Full" "skip < length callers" "fr_Function (callers ! skip) = path @ ''/'' @ name"
    "name \<noteq> []" "CHR ''/'' \<notin> set name"
  shows "CallerFunctionName st callers skip = Ok name"
proof -
  from assms(2) have "drop skip callers = callers ! skip # drop (Suc skip) callers" by (rule Cons_nth_drop_Suc [symmetric])
  moreover have "takeWhile (\<lambda>c. c \<noteq> CHR ''/'') (rev name @ CHR ''/'' # rev path) = rev name"
    using assms(5) by (subst takeWhile_append2) auto
  with assms(4) have "after_last_slash (path @ ''/'' @ name) = name" by (simp add: after_last_slash_def)
  ultimately show ?thesis
    using assms(1,3) by (simp add: CallerFunctionName_def with_stack_def Capture_first Next_def)
qed

lemma TakeOnceCalledFunction_two_frames:
  "st_storage st \<ge> depth_value Full \<Longrightarrow>
   TakeOnceCalledFunction st (f # g # callers) = Ok (frame_text f @ [CHR 0x0A] @ frame_text g)"
  by (simp add: TakeOnceCalledFunction_def Capture_first formatted_def with_stack_def FormatStack_frames NewStackFormatter_def
      numeral_2_eq_2)

text \<open>The package is cut at the first dot of the whole name, also when the path has one.\<close>

lemma TakeCallerFunctionInfo_examples:
  "TakeCallerFunctionInfo new_stack [zero_frame\<lparr>fr_Function := ''app/pkg/jwt.NewManager''\<rparr>] =
     Ok \<lparr>ff_Package = ''app/pkg/jwt'', ff_File = [], ff_Line = 0, ff_Name = ''NewManager''\<rparr>"
  "TakeCallerFunctionInfo new_stack [zero_frame\<lparr>fr_Function := ''github.com/google/uuid.New''\<rparr>] =
     Ok \<lparr>ff_Package = ''github'', ff_File = [], ff_Line = 0, ff_Name = ''com/google/uuid.New''\<rparr>"
  by code_simp+

end
