(* ===== verification/Logging.thy ===== *)
theory Logging
  imports Stacktrace "HOL-Library.Word"
begin

text \<open>
  pkg/logger and pkg/logger/attribute: the fields of a log line and their conversion for zap and for
  OpenTelemetry, and the logger that writes a line and adds an event to its span. zap and the tracer
  are a sequence of events.
\<close>

section \<open>attribute/types.go\<close>

text \<open>A value behind \<open>interface{}\<close>; the bits of a float64 stand for it.\<close>

datatype content =
    CInt "64 word" | CInts "64 word list" | CInt64 "64 word" | CInt64s "64 word list"
  | CFloat64 "64 word" | CFloat64s "64 word list" | CString string

type_synonym type_content = "8 word"

definition TypeInt :: type_content where "TypeInt = 0"
definition TypeIntSlice :: type_content where "TypeIntSlice = 1"
definition TypeInt64 :: type_content where "TypeInt64 = 2"
definition TypeFloat64 :: type_content where "TypeFloat64 = 3"
definition TypeFloat64Slice :: type_content where "TypeFloat64Slice = 4"
definition TypeString :: type_content where "TypeString = 5"
definition TypeInt64Slice :: type_content where "TypeInt64Slice = 6"

lemmas type_defs = TypeInt_def TypeIntSlice_def TypeInt64_def TypeFloat64_def TypeFloat64Slice_def TypeString_def
  TypeInt64Slice_def

record impl_field =
  fd_Key :: string
  fd_Content :: content
  fd_Type :: type_content

definition field_of :: "type_content \<Rightarrow> string \<Rightarrow> content \<Rightarrow> impl_field" where
  "field_of t key x = \<lparr>fd_Key = key, fd_Content = x, fd_Type = t\<rparr>"

definition Int_field :: "string \<Rightarrow> 64 word \<Rightarrow> impl_field" where
  "Int_field key x = field_of TypeInt key (CInt x)"

definition IntSlice_field :: "string \<Rightarrow> 64 word list \<Rightarrow> impl_field" where
  "IntSlice_field key x = field_of TypeIntSlice key (CInts x)"

definition Int64_field :: "string \<Rightarrow> 64 word \<Rightarrow> impl_field" where
  "Int64_field key x = field_of TypeInt64 key (CInt64 x)"

definition Float64_field :: "string \<Rightarrow> 64 word \<Rightarrow> impl_field" where
  "Float64_field key x = field_of TypeFloat64 key (CFloat64 x)"

definition Float64Slice_field :: "string \<Rightarrow> 64 word list \<Rightarrow> impl_field" where
  "Float64Slice_field key x = field_of TypeFloat64Slice key (CFloat64s x)"

definition String_field :: "string \<Rightarrow> string \<Rightarrow> impl_field" where
  "String_field key x = field_of TypeString key (CString x)"

definition Int64Slice_field :: "string \<Rightarrow> 64 word list \<Rightarrow> impl_field" where
  "Int64Slice_field key x = field_of TypeInt64Slice key (CInt64s x)"

text \<open>
  A converted field: its key and a value, or the zero value of the library's type. A type assertion on
  another type panics.
\<close>

datatype converted = Converted string content | ZeroField

definition assertion_failed :: string where
  "assertion_failed = ''interface conversion''"

definition convert_field :: "impl_field \<Rightarrow> converted outcome" where
  "convert_field f =
     (let converted = Ok (Converted (fd_Key f) (fd_Content f)); failed = Panic assertion_failed in
      if fd_Type f = TypeInt then (case fd_Content f of CInt x \<Rightarrow> converted | _ \<Rightarrow> failed)
      else if fd_Type f = TypeIntSlice then (case fd_Content f of CInts x \<Rightarrow> converted | _ \<Rightarrow> failed)
      else if fd_Type f = TypeInt64 then (case fd_Content f of CInt64 x \<Rightarrow> converted | _ \<Rightarrow> failed)
      else if fd_Type f = TypeFloat64 then (case fd_Content f of CFloat64 x \<Rightarrow> converted | _ \<Rightarrow> failed)
      else if fd_Type f = TypeFloat64Slice then (case fd_Content f of CFloat64s x \<Rightarrow> converted | _ \<Rightarrow> failed)
      else if fd_Type f = TypeString then (case fd_Content f of CString x \<Rightarrow> converted | _ \<Rightarrow> failed)
      else if fd_Type f = TypeInt64Slice then (case fd_Content f of CInt64s x \<Rightarrow> converted | _ \<Rightarrow> failed)
      else Ok ZeroField)"

definition ToZapField :: "impl_field \<Rightarrow> converted outcome" where "ToZapField f = convert_field f"
definition ToOtelAttribute :: "impl_field \<Rightarrow> converted outcome" where "ToOtelAttribute f = convert_field f"

fun convert_all :: "(impl_field \<Rightarrow> converted outcome) \<Rightarrow> impl_field list \<Rightarrow> converted list outcome" where
  "convert_all g [] = Ok []"
| "convert_all g (f # fs) =
     (case g f of
        Ok x \<Rightarrow> (case convert_all g fs of Ok xs \<Rightarrow> Ok (x # xs) | Err e \<Rightarrow> Err e | Panic p \<Rightarrow> Panic p)
      | Err e \<Rightarrow> Err e
      | Panic p \<Rightarrow> Panic p)"

definition ToOtelAttributes :: "impl_field list \<Rightarrow> converted list outcome" where
  "ToOtelAttributes fs = convert_all ToOtelAttribute fs"

section \<open>logger.go\<close>

datatype level = DebugLevel | InfoLevel | WarnLevel | ErrorLevel | DPanicLevel | PanicLevel | FatalLevel

text \<open>The names of the environments.\<close>

definition EnvDev :: string where "EnvDev = ''Dev''"
definition EnvStage :: string where "EnvStage = ''Stage''"
definition EnvProduction :: string where "EnvProduction = ''Prod''"

datatype zap_kind = Development | Production

text \<open>
  What is handed on: a line with the fields of the logger and its own, an event of a span, the start and
  the end of a span, a sync, and the exit of the process.
\<close>

datatype log_event =
    Line level string "converted list" | SpanEvent nat string "converted list" | SpanStart nat string "converted list"
  | SpanEnded nat | Synced | Exited

record logger_impl =
  lg_name :: string
  lg_base :: "(zap_kind \<times> converted list) option"
  lg_tracer :: bool
  lg_span :: "nat option"

type_synonym 'a logging = "(log_event list, 'a) go"

definition write_log :: "log_event \<Rightarrow> (log_event list, unit) state" where
  "write_log e = modify (\<lambda>es. es @ [e])"

text \<open>
  What zap is handed, which drops the lines below its level. After the line Panic panics, DPanic does in
  development, and Fatal ends the process, which no caller comes back from. A nil base logger is
  dereferenced.
\<close>

definition zap_write :: "logger_impl \<Rightarrow> level \<Rightarrow> string \<Rightarrow> converted list \<Rightarrow> unit logging" where
  "zap_write t level msg fs =
     (case lg_base t of
        None \<Rightarrow> panic ''invalid memory address or nil pointer dereference''
      | Some (kind, own) \<Rightarrow>
          after (write_log (Line level msg (own @ fs)))
            (if level = PanicLevel \<or> level = DPanicLevel \<and> kind = Development then panic msg
             else if level = FatalLevel then after (write_log Exited) (panic ''exit'')
             else ok ()))"

definition outcome_of :: "'a outcome \<Rightarrow> 'a logging" where
  "outcome_of r = State_Monad.return r"

text \<open>Debug, Info, Warn, Error, DPanic, Panic and Fatal are the same but for their level.\<close>

definition log_at :: "level \<Rightarrow> logger_impl \<Rightarrow> string \<Rightarrow> impl_field list \<Rightarrow> unit logging" where
  "log_at level t msg fs =
     andThen (outcome_of (convert_all ToZapField fs)) (\<lambda>zapFields.
     andThen (zap_write t level msg zapFields) (\<lambda>_.
       case lg_span t of
         None \<Rightarrow> ok ()
       | Some span \<Rightarrow>
           andThen (outcome_of (ToOtelAttributes fs)) (\<lambda>attrs. after (write_log (SpanEvent span msg attrs)) (ok ()))))"

definition Debug :: "logger_impl \<Rightarrow> string \<Rightarrow> impl_field list \<Rightarrow> unit logging" where "Debug = log_at DebugLevel"
definition Info :: "logger_impl \<Rightarrow> string \<Rightarrow> impl_field list \<Rightarrow> unit logging" where "Info = log_at InfoLevel"
definition Warn :: "logger_impl \<Rightarrow> string \<Rightarrow> impl_field list \<Rightarrow> unit logging" where "Warn = log_at WarnLevel"
definition Error_log :: "logger_impl \<Rightarrow> string \<Rightarrow> impl_field list \<Rightarrow> unit logging" where "Error_log = log_at ErrorLevel"
definition DPanic :: "logger_impl \<Rightarrow> string \<Rightarrow> impl_field list \<Rightarrow> unit logging" where "DPanic = log_at DPanicLevel"
definition Panic_log :: "logger_impl \<Rightarrow> string \<Rightarrow> impl_field list \<Rightarrow> unit logging" where "Panic_log = log_at PanicLevel"
definition Fatal :: "logger_impl \<Rightarrow> string \<Rightarrow> impl_field list \<Rightarrow> unit logging" where "Fatal = log_at FatalLevel"

definition Sync :: "logger_impl \<Rightarrow> unit logging" where
  "Sync t = (case lg_base t of
      None \<Rightarrow> panic ''invalid memory address or nil pointer dereference'' | Some b \<Rightarrow> after (write_log Synced) (ok ()))"

definition Stop :: "logger_impl \<Rightarrow> unit logging" where
  "Stop t = (case lg_span t of
      None \<Rightarrow> panic ''invalid memory address or nil pointer dereference'' | Some s \<Rightarrow> after (write_log (SpanEnded s)) (ok ()))"

text \<open>The base logger with more fields; a nil one is only dereferenced for some fields.\<close>

definition base_with :: "logger_impl \<Rightarrow> impl_field list \<Rightarrow> (zap_kind \<times> converted list) option logging" where
  "base_with t fs =
     andThen (outcome_of (convert_all ToZapField fs)) (\<lambda>zapFields. case lg_base t of
       None \<Rightarrow> (if zapFields = [] then ok None else panic ''invalid memory address or nil pointer dereference'')
     | Some (kind, own) \<Rightarrow> ok (Some (kind, own @ zapFields)))"

definition With :: "logger_impl \<Rightarrow> impl_field list \<Rightarrow> logger_impl logging" where
  "With t fs =
     andThen (base_with t fs) (\<lambda>logger.
       ok \<lparr>lg_name = lg_name t, lg_base = logger, lg_tracer = lg_tracer t, lg_span = None\<rparr>)"

definition WithN :: "logger_impl \<Rightarrow> string \<Rightarrow> impl_field list \<Rightarrow> logger_impl logging" where
  "WithN t n fs =
     (let name = lg_name t @ '':'' @ n; fs = fs @ [String_field ''name'' name] in
      andThen (base_with t fs) (\<lambda>logger.
        ok \<lparr>lg_name = lg_name t @ '':'' @ name, lg_base = logger, lg_tracer = lg_tracer t, lg_span = None\<rparr>))"

text \<open>
  The span is named by what \<open>TakeOnceCalledFunction\<close> answers here, where \<open>callers\<close> is the stack from the
  caller of WithS and \<open>st\<close> what its pool gives. The number of the new span is given.
\<close>

definition WithS_frame :: frame where
  "WithS_frame =
     \<lparr>fr_Function = ''GolangTemplateProject/pkg/logger.loggerImpl.WithS'', fr_File = ''pkg/logger/logger.go'', fr_Line = 196\<rparr>"

definition WithS ::
  "stack \<Rightarrow> frame list \<Rightarrow> nat \<Rightarrow> logger_impl \<Rightarrow> string \<Rightarrow> impl_field list \<Rightarrow> logger_impl logging" where
  "WithS st callers span t n fs =
     (let name = lg_name t @ '':'' @ n; fs = fs @ [String_field ''name'' name] in
      andThen (base_with t fs) (\<lambda>logger.
      andThen (outcome_of (TakeOnceCalledFunction st (WithS_frame # callers))) (\<lambda>called.
      andThen (outcome_of (ToOtelAttributes fs)) (\<lambda>attrs.
        if \<not> lg_tracer t then panic ''invalid memory address or nil pointer dereference''
        else after (write_log (SpanStart span called attrs))
          (ok \<lparr>lg_name = name, lg_base = logger, lg_tracer = True, lg_span = Some span\<rparr>)))))"

text \<open>\<open>made\<close> is what zap answers.\<close>

definition envTologger :: "(zap_kind \<Rightarrow> err option) \<Rightarrow> string \<Rightarrow> zap_kind option \<times> err option" where
  "envTologger made env =
     (let new = (\<lambda>k. case made k of None \<Rightarrow> (Some k, None) | Some e \<Rightarrow> (None, Some e)) in
      if env = EnvDev then new Development
      else if env = EnvStage then new Development
      else if env = EnvProduction then new Production
      else (None, Some (NewErr ''invalid environment'')))"

definition NewLogger :: "(zap_kind \<Rightarrow> err option) \<Rightarrow> string \<Rightarrow> bool \<Rightarrow> logger_impl \<times> err option" where
  "NewLogger made env tracer =
     (case envTologger made env of (logger, e) \<Rightarrow>
        (\<lparr>lg_name = [], lg_base = map_option (\<lambda>k. (k, [])) logger, lg_tracer = tracer, lg_span = None\<rparr>, e))"

section \<open>What is known of fields and loggers\<close>

text \<open>The fields of the constructors.\<close>

definition well_typed :: "impl_field \<Rightarrow> bool" where
  "well_typed f \<longleftrightarrow> fd_Type f =
     (case fd_Content f of
        CInt x \<Rightarrow> TypeInt | CInts x \<Rightarrow> TypeIntSlice | CInt64 x \<Rightarrow> TypeInt64 | CInt64s x \<Rightarrow> TypeInt64Slice
      | CFloat64 x \<Rightarrow> TypeFloat64 | CFloat64s x \<Rightarrow> TypeFloat64Slice | CString x \<Rightarrow> TypeString)"

lemma constructors_well_typed:
  "well_typed (Int_field k a)" "well_typed (IntSlice_field k b)" "well_typed (Int64_field k c)"
  "well_typed (Float64_field k d)" "well_typed (Float64Slice_field k e)" "well_typed (String_field k f)"
  "well_typed (Int64Slice_field k g)"
  by (simp_all add: well_typed_def field_of_def Int_field_def IntSlice_field_def Int64_field_def Float64_field_def
      Float64Slice_field_def String_field_def Int64Slice_field_def)

text \<open>A field of a constructor keeps its key and its value in both conversions, and never panics.\<close>

lemma well_typed_converts:
  assumes "well_typed f"
  shows "ToZapField f = Ok (Converted (fd_Key f) (fd_Content f))" "ToOtelAttribute f = Ok (Converted (fd_Key f) (fd_Content f))"
  using assms
  by (cases "fd_Content f"; simp add: well_typed_def ToZapField_def ToOtelAttribute_def convert_field_def type_defs)+

lemma convert_all_well_typed:
  "list_all well_typed fs \<Longrightarrow> convert_all ToZapField fs = Ok (map (\<lambda>f. Converted (fd_Key f) (fd_Content f)) fs)"
  "list_all well_typed fs \<Longrightarrow> ToOtelAttributes fs = Ok (map (\<lambda>f. Converted (fd_Key f) (fd_Content f)) fs)"
  by (induction fs) (simp_all add: well_typed_converts ToOtelAttributes_def)

text \<open>
  A line below the panicking levels is written once, with the fields of the logger and its own, and
  the same message and attributes become an event of the span of the logger.
\<close>

theorem log_at_writes:
  assumes "list_all well_typed fs" "lg_base t = Some (kind, own)" "level \<in> {DebugLevel, InfoLevel, WarnLevel, ErrorLevel}"
  shows "run_state (log_at level t msg fs) es =
    (Ok (), es @ [Line level msg (own @ map (\<lambda>f. Converted (fd_Key f) (fd_Content f)) fs)]
       @ (case lg_span t of None \<Rightarrow> [] | Some s \<Rightarrow> [SpanEvent s msg (map (\<lambda>f. Converted (fd_Key f) (fd_Content f)) fs)]))"
  using assms
  by (auto simp: log_at_def outcome_of_def run_rules convert_all_well_typed zap_write_def write_log_def split: option.split)

text \<open>The name of a logger that \<open>WithN\<close> makes has the name it comes from twice.\<close>

lemma WithN_name:
  "list_all well_typed fs \<Longrightarrow> lg_base t = Some b \<Longrightarrow>
   (case fst (run_state (WithN t n fs) es) of Ok l \<Rightarrow> lg_name l = lg_name t @ '':'' @ lg_name t @ '':'' @ n \<and> lg_span l = None | _ \<Rightarrow> False)"
  by (cases b) (simp add: WithN_def Let_def base_with_def outcome_of_def run_rules convert_all_well_typed constructors_well_typed)

text \<open>
  \<open>WithS\<close> does not double the name; but its span is named by two frames with files and lines, the first
  of them that of \<open>WithS\<close> itself.
\<close>

lemma WithS_span:
  assumes "list_all well_typed fs" "lg_base t = Some b" "lg_tracer t" "st_storage st \<ge> depth_value Full"
  shows "case run_state (WithS st (caller # callers) span t n fs) es of
      (Ok l, es') \<Rightarrow> lg_name l = lg_name t @ '':'' @ n \<and> lg_span l = Some span
        \<and> (\<exists>attrs. es' = es @ [SpanStart span (frame_text WithS_frame @ [CHR 0x0A] @ frame_text caller) attrs])
    | _ \<Rightarrow> False"
  using assms
  by (cases b) (simp add: WithS_def Let_def base_with_def outcome_of_def run_rules convert_all_well_typed constructors_well_typed
      TakeOnceCalledFunction_two_frames write_log_def)

text \<open>A logger comes back also when the environment is not known; using it panics.\<close>

lemma NewLogger_unknown:
  "env \<notin> {EnvDev, EnvStage, EnvProduction} \<Longrightarrow>
   (case NewLogger made env tracer of (l, e) \<Rightarrow> e \<noteq> None \<and> (\<exists>p. fst (run_state (Info l msg []) es) = Panic p))"
  by (simp add: NewLogger_def envTologger_def Let_def Info_def log_at_def outcome_of_def run_rules zap_write_def)

end
