(* ===== verification/SmartSpan.thy ===== *)
theory SmartSpan
  imports Logging
begin

text \<open>
  pkg/smart-span/tracing: the span wrapper, the tracer, the package's default tracer and service name,
  and InitTracing. OpenTelemetry is a sequence of what is done to spans, each named by a number; a
  provider is the global one or one made with an exporter.
\<close>

section \<open>Providers and spans\<close>

datatype http_option =
    WithEndpoint string | WithHeaders "(string \<times> string) list" | WithGzip | WithTimeout "64 word"
  | WithCertificate string | WithInsecure

datatype provider = GlobalProvider | SdkProvider "http_option list" string

datatype span_call =
    CallEnd | CallAddEvent string | CallAddLink nat | CallRecordError err | CallSetStatus nat string | CallSetName string
  | CallSetAttributes "converted list"

datatype span_event = Begun nat "nat option" provider string string | Called nat span_call

record tracer_base =
  tb_tracer :: provider
  tb_logger :: "logger_impl option"

text \<open>
  The variables of the package, of \<open>otel\<close> and of the logger, the spans and the lines so far. \<open>tv_otel\<close> is
  what \<open>otel.GetTracerProvider\<close> answers.
\<close>

record tracing_vars =
  tv_serviceName :: string
  tv_tracer :: tracer_base
  tv_otel :: provider
  tv_propagator :: bool
  tv_defaultLogger :: "logger_impl option"
  tv_next :: nat
  tv_spans :: "span_event list"
  tv_lines :: "log_event list"

type_synonym 'a traced = "(tracing_vars, 'a) go"

definition emit_span :: "span_event \<Rightarrow> (tracing_vars, unit) state" where
  "emit_span e = modify (\<lambda>w. w\<lparr>tv_spans := tv_spans w @ [e]\<rparr>)"

definition on_lines :: "'a logging \<Rightarrow> 'a traced" where
  "on_lines m = State (\<lambda>w. case run_state m (tv_lines w) of (r, es) \<Rightarrow> (r, w\<lparr>tv_lines := es\<rparr>))"

definition answer :: "'a outcome \<Rightarrow> 'a traced" where
  "answer r = State_Monad.return r"

text \<open>\<open>provider.Tracer(service).Start(ctx, name)\<close>; of a context its current span is kept.\<close>

definition begin_span :: "provider \<Rightarrow> nat option \<Rightarrow> string \<Rightarrow> nat traced" where
  "begin_span p c name = do {
     service \<leftarrow> reads tv_serviceName;
     s \<leftarrow> reads tv_next;
     _ \<leftarrow> modify (\<lambda>w. w\<lparr>tv_next := Suc s\<rparr>);
     _ \<leftarrow> emit_span (Begun s c p service name);
     ok s }"

section \<open>tracer.go\<close>

definition NewTracer :: "provider option \<Rightarrow> logger_impl option \<Rightarrow> (tracing_vars, tracer_base) state" where
  "NewTracer tracer logger = do {
     global \<leftarrow> reads tv_otel;
     State_Monad.return \<lparr>tb_tracer = (case tracer of None \<Rightarrow> global | Some p \<Rightarrow> p), tb_logger = logger\<rparr> }"

record smart_span =
  ss_spanBase :: nat
  ss_logger :: "logger_impl option"
  ss_tracerProvider :: "provider option"

definition GetBaseTracer :: "tracer_base \<Rightarrow> provider" where
  "GetBaseTracer t = tb_tracer t"

definition tracing_frame :: "string \<Rightarrow> frame" where
  "tracing_frame name =
     \<lparr>fr_Function = ''GolangTemplateProject/pkg/smart-span/tracing.'' @ name, fr_File = ''pkg/smart-span/tracing'', fr_Line = 0\<rparr>"

text \<open>The name of a span, or that of the function that starts it; \<open>callers\<close> is the stack from that one.\<close>

definition span_name :: "stack \<Rightarrow> frame list \<Rightarrow> frame \<Rightarrow> string \<Rightarrow> string outcome" where
  "span_name st callers self name = (if name = [] then CallerFunctionName st (self # callers) 1 else Ok name)"

definition Start_tracer ::
  "stack \<Rightarrow> frame list \<Rightarrow> tracer_base \<Rightarrow> nat option \<Rightarrow> string \<Rightarrow> (nat option \<times> smart_span) traced" where
  "Start_tracer st callers t c name =
     andThen (answer (span_name st callers (tracing_frame ''(*TracerBase).Start'') name)) (\<lambda>name.
     andThen (begin_span (tb_tracer t) c name) (\<lambda>span.
       ok (Some span, \<lparr>ss_spanBase = span, ss_logger = tb_logger t, ss_tracerProvider = Some (tb_tracer t)\<rparr>)))"

section \<open>span.go\<close>

definition SetDefaultServiceName :: "string \<Rightarrow> (tracing_vars, unit) state" where
  "SetDefaultServiceName name = modify (\<lambda>w. w\<lparr>tv_serviceName := name\<rparr>)"

definition SetDefaultTracer :: "provider option \<Rightarrow> (tracing_vars, unit) state" where
  "SetDefaultTracer tracer = do {
     logger \<leftarrow> reads tv_defaultLogger;
     t \<leftarrow> NewTracer tracer logger;
     modify (\<lambda>w. w\<lparr>tv_tracer := t\<rparr>) }"

definition GetDefaultTracer :: "(tracing_vars, tracer_base) state" where
  "GetDefaultTracer = reads tv_tracer"

definition on_span :: "smart_span \<Rightarrow> span_call \<Rightarrow> (tracing_vars, unit) state" where
  "on_span s c = emit_span (Called (ss_spanBase s) c)"

definition span_End :: "smart_span \<Rightarrow> (tracing_vars, unit) state" where "span_End s = on_span s CallEnd"
definition span_AddEvent :: "smart_span \<Rightarrow> string \<Rightarrow> (tracing_vars, unit) state" where
  "span_AddEvent s name = on_span s (CallAddEvent name)"
definition span_AddLink :: "smart_span \<Rightarrow> nat \<Rightarrow> (tracing_vars, unit) state" where
  "span_AddLink s link = on_span s (CallAddLink link)"
definition span_SetStatus :: "smart_span \<Rightarrow> nat \<Rightarrow> string \<Rightarrow> (tracing_vars, unit) state" where
  "span_SetStatus s code description = on_span s (CallSetStatus code description)"
definition span_SetName :: "smart_span \<Rightarrow> string \<Rightarrow> (tracing_vars, unit) state" where
  "span_SetName s name = on_span s (CallSetName name)"
definition span_SetAttributes :: "smart_span \<Rightarrow> converted list \<Rightarrow> (tracing_vars, unit) state" where
  "span_SetAttributes s kv = on_span s (CallSetAttributes kv)"

definition span_RecordError :: "smart_span \<Rightarrow> err option \<Rightarrow> unit traced" where
  "span_RecordError s e =
     (case e of
        None \<Rightarrow> ok ()
      | Some e \<Rightarrow>
          after (on_span s (CallRecordError e))
            (case ss_logger s of None \<Rightarrow> ok () | Some logger \<Rightarrow> on_lines (Error_log logger (err_text e) [])))"

definition span_TracerProvider :: "smart_span \<Rightarrow> (tracing_vars, provider) state" where
  "span_TracerProvider s =
     (case ss_tracerProvider s of
        Some p \<Rightarrow> State_Monad.return p
      | None \<Rightarrow> do { t \<leftarrow> reads tv_tracer; State_Monad.return (GetBaseTracer t) })"

record span_builder =
  sb_name :: string
  sb_logger :: "logger_impl option"

definition SetName_builder :: "string \<Rightarrow> span_builder" where
  "SetName_builder name = \<lparr>sb_name = name, sb_logger = None\<rparr>"

definition Start_builder ::
  "stack \<Rightarrow> frame list \<Rightarrow> span_builder \<Rightarrow> nat option \<Rightarrow> (nat option \<times> smart_span) traced" where
  "Start_builder st callers b c =
     andThen (answer (span_name st callers (tracing_frame ''SmartSpanBuilder.Start'') (sb_name b))) (\<lambda>name. do {
       t \<leftarrow> reads tv_tracer;
       andThen (begin_span (GetBaseTracer t) c name) (\<lambda>span.
         ok (Some span, \<lparr>ss_spanBase = span, ss_logger = sb_logger b, ss_tracerProvider = Some (GetBaseTracer t)\<rparr>)) })"

section \<open>init.go\<close>

record tracer_config =
  tg_Endpoint :: string
  tg_Headers :: "(string \<times> string) list"
  tg_TLS_Enable :: bool
  tg_CertificatePath :: string
  tg_KeyPath :: string
  tg_KayPath :: string
  tg_Timeout :: "64 word"
  tg_ServiceName :: string

definition empty_config :: tracer_config where
  "empty_config =
     \<lparr>tg_Endpoint = [], tg_Headers = [], tg_TLS_Enable = False, tg_CertificatePath = [], tg_KeyPath = [], tg_KayPath = [],
      tg_Timeout = 0, tg_ServiceName = []\<rparr>"

text \<open>Seconds as a \<open>time.Duration\<close>, whose product wraps around.\<close>

definition tracing_timeout :: "tracer_config \<Rightarrow> 64 word" where
  "tracing_timeout cfg =
     (let timeout = tg_Timeout cfg * 1000000000 in if timeout <=s 0 then 10 * 1000000000 else timeout)"

text \<open>\<open>tls.LoadX509KeyPair\<close> and \<open>otlptrace.New\<close> are arguments.\<close>

record exporter_library =
  el_LoadX509KeyPair :: "string \<Rightarrow> string \<Rightarrow> err + string"
  el_New :: "http_option list \<Rightarrow> err option"

definition exporter_options :: "exporter_library \<Rightarrow> tracer_config \<Rightarrow> err + http_option list" where
  "exporter_options lib cfg =
     (let options = [WithEndpoint (tg_Endpoint cfg), WithHeaders (tg_Headers cfg), WithGzip, WithTimeout (tracing_timeout cfg)] in
      if tg_TLS_Enable cfg
      then (let keyPath = (if tg_KeyPath cfg = [] then tg_KayPath cfg else tg_KeyPath cfg) in
        case el_LoadX509KeyPair lib (tg_CertificatePath cfg) keyPath of
          Inl e \<Rightarrow> Inl e
        | Inr certificate \<Rightarrow> Inr (options @ [WithCertificate certificate]))
      else Inr (options @ [WithInsecure]))"

definition InitTracing :: "exporter_library \<Rightarrow> tracer_config option \<Rightarrow> provider traced" where
  "InitTracing lib cfg =
     (let cfg = (case cfg of None \<Rightarrow> empty_config | Some c \<Rightarrow> c) in
      case exporter_options lib cfg of
        Inl e \<Rightarrow> fail e
      | Inr options \<Rightarrow>
          (case el_New lib options of
             Some e \<Rightarrow> fail e
           | None \<Rightarrow>
               (let tracerProvider = SdkProvider options (tg_ServiceName cfg) in do {
                  _ \<leftarrow> modify (\<lambda>w. w\<lparr>tv_otel := tracerProvider, tv_propagator := True\<rparr>);
                  _ \<leftarrow> SetDefaultTracer (Some tracerProvider);
                  _ \<leftarrow> (if tg_ServiceName cfg \<noteq> [] then SetDefaultServiceName (tg_ServiceName cfg) else State_Monad.return ());
                  ok tracerProvider })))"

section \<open>What is known of tracing\<close>

text \<open>
  The timeout of the exporter is positive whatever is configured, and the configured seconds as long
  as their nanoseconds fit.
\<close>

lemma tracing_timeout_positive: "0 <s tracing_timeout cfg"
  by (auto simp: tracing_timeout_def Let_def word_sless_alt word_sle_eq)

lemma tracing_timeout_seconds:
  assumes "0 < sint (tg_Timeout cfg)" "sint (tg_Timeout cfg) \<le> 9223372036"
  shows "sint (tracing_timeout cfg) = sint (tg_Timeout cfg) * 1000000000"
proof -
  have "sint (tg_Timeout cfg * 1000000000) = signed_take_bit 63 (sint (tg_Timeout cfg) * 1000000000)"
    by (simp add: sint_word_ariths(3) sint_numeral)
  also have "\<dots> = sint (tg_Timeout cfg) * 1000000000"
    using assms by (intro signed_take_bit_int_eq_self) auto
  finally show ?thesis using assms by (simp add: tracing_timeout_def Let_def word_sle_eq)
qed

text \<open>
  InitTracing changes nothing when it fails. When it returns a provider, that is the one every later
  span of the package and of \<open>otel\<close> is started with, under the configured service name if there is one.
\<close>

theorem InitTracing_sets_the_tracer:
  assumes "run_state (InitTracing lib cfg) w = (r, w')"
  shows "case r of
      Ok p \<Rightarrow> tb_tracer (tv_tracer w') = p \<and> tv_otel w' = p \<and> tv_propagator w' \<and> tv_spans w' = tv_spans w
        \<and> tv_serviceName w' = (case cfg of Some c \<Rightarrow> if tg_ServiceName c \<noteq> [] then tg_ServiceName c else tv_serviceName w
             | None \<Rightarrow> tv_serviceName w)
        \<and> tb_logger (tv_tracer w') = tv_defaultLogger w
    | Err e \<Rightarrow> w' = w
    | Panic p \<Rightarrow> False"
  using assms
  by (auto simp: InitTracing_def Let_def SetDefaultTracer_def NewTracer_def SetDefaultServiceName_def run_rules
      empty_config_def reads_def modify_def split: sum.splits option.splits if_splits)

text \<open>
  A span that is started begins once, below the span of its context, with its name or, without one,
  that of the function that starts it.
\<close>

theorem Start_tracer_begins:
  assumes "st_storage st \<ge> depth_value Full" "fr_Function f = path @ ''/'' @ caller" "caller \<noteq> []" "CHR ''/'' \<notin> set caller"
  shows "run_state (Start_tracer st (f # callers) t c name) w =
    (Ok (Some (tv_next w), \<lparr>ss_spanBase = tv_next w, ss_logger = tb_logger t, ss_tracerProvider = Some (tb_tracer t)\<rparr>),
     w\<lparr>tv_next := Suc (tv_next w),
       tv_spans := tv_spans w @ [Begun (tv_next w) c (tb_tracer t) (tv_serviceName w) (if name = [] then caller else name)]\<rparr>)"
  using assms CallerFunctionName_of [OF assms(1), of 1 "tracing_frame ''(*TracerBase).Start'' # f # callers" path caller]
  by (auto simp: Start_tracer_def span_name_def answer_def begin_span_def emit_span_def run_rules reads_def modify_def)

text \<open>
  RecordError writes a line only through a span's own logger: a span of the builder has none, and a
  nil error does nothing.
\<close>

lemma span_RecordError_nil: "run_state (span_RecordError s None) w = (Ok (), w)"
  by (simp add: span_RecordError_def run_rules)

lemma builder_spans_do_not_log:
  assumes "run_state (Start_builder st callers (SetName_builder name) c) w = (Ok (c', s), w')"
  shows "tv_lines (snd (run_state (span_RecordError s e) v)) = tv_lines v"
proof -
  from assms have "ss_logger s = None"
    by (auto simp: Start_builder_def SetName_builder_def run_rules answer_def begin_span_def reads_def
        split: outcome.splits prod.splits)
  then show ?thesis
    by (auto simp: span_RecordError_def on_span_def emit_span_def run_rules split: option.splits)
qed

lemma span_TracerProvider_of_Start:
  assumes "run_state (Start_tracer st callers t c name) w = (Ok (c', s), w')"
  shows "fst (run_state (span_TracerProvider s) v) = tb_tracer t"
  using assms
  by (auto simp: Start_tracer_def span_TracerProvider_def run_rules answer_def begin_span_def reads_def
      split: outcome.splits prod.splits)

end
