(* ===== verification/PgTracing.thy ===== *)
theory PgTracing
  imports PgConfig
begin

text \<open>
  pkg/adapters/postgres/tracing.go: the spans of queries, batches, copies, prepared statements,
  connections and acquisitions. A context carries values and its current span; what OpenTelemetry
  records is a sequence of events, and a span is named by a number.
\<close>

section \<open>Contexts and spans\<close>

datatype span_key = QuerySpan | BatchSpan | CopySpan | PrepareSpan | ConnectSpan | AcquireSpan

record trace_ctx =
  tc_values :: "(span_key \<times> nat) list"
  tc_span :: "nat option"

datatype attr_value = AString string | AInt int

type_synonym attrs = "(string \<times> attr_value) list"

datatype status = StatusOk string | StatusError string

datatype trace_event =
    Started nat string attrs | Recorded nat err | Status nat status | Ended nat | Event nat string attrs

text \<open>The events so far and the number of the next span.\<close>

record trace_world =
  tw_events :: "trace_event list"
  tw_next :: nat

definition emit_trace :: "trace_event \<Rightarrow> (trace_world, unit) state" where
  "emit_trace e = modify (\<lambda>w. w\<lparr>tw_events := tw_events w @ [e]\<rparr>)"

definition WithValue :: "trace_ctx \<Rightarrow> span_key \<Rightarrow> nat \<Rightarrow> trace_ctx" where
  "WithValue c k s = c\<lparr>tc_values := (k, s) # tc_values c\<rparr>"

definition ctx_Value :: "trace_ctx \<Rightarrow> span_key \<Rightarrow> nat option" where
  "ctx_Value c k = map_of (tc_values c) k"

text \<open>\<open>tracer.Start\<close>: a new span, which is the current one of the context that comes back.\<close>

definition start_span :: "trace_ctx \<Rightarrow> string \<Rightarrow> attrs \<Rightarrow> (trace_world, trace_ctx \<times> nat) state" where
  "start_span c name as = do {
     s \<leftarrow> reads tw_next;
     _ \<leftarrow> modify (\<lambda>w. w\<lparr>tw_next := Suc s\<rparr>);
     _ \<leftarrow> emit_trace (Started s name as);
     State_Monad.return (c\<lparr>tc_span := Some s\<rparr>, s) }"

section \<open>Statements\<close>

text \<open>The bytes a separator takes at the start of a string: a space of \<open>unicode.IsSpace\<close>, or a parenthesis.\<close>

fun separator :: "string \<Rightarrow> nat" where
  "separator [] = 0"
| "separator (a # s) =
     (if ascii_space a \<or> a = CHR ''('' then 1
      else case s of
        [] \<Rightarrow> 0
      | b # t \<Rightarrow> (if space2 a b then 2 else case t of [] \<Rightarrow> 0 | c # _ \<Rightarrow> (if space3 a b c then 3 else 0)))"

text \<open>The first of the fields of \<open>strings.FieldsFunc\<close>.\<close>

function drop_separators :: "string \<Rightarrow> string" where
  "drop_separators s = (if separator s = 0 then s else drop_separators (drop (separator s) s))"
  by auto

lemma separator_le: "separator s \<le> length s"
  by (cases s rule: separator.cases) (auto split: list.split)

termination drop_separators
proof (relation "measure length")
  fix s :: string
  assume "separator s \<noteq> 0"
  then show "(drop (separator s) s, s) \<in> measure length"
    using separator_le [of s] by (cases s) auto
qed simp

declare drop_separators.simps [simp del]

fun take_field :: "string \<Rightarrow> string" where
  "take_field [] = []"
| "take_field (c # s) = (if separator (c # s) = 0 then c # take_field s else [])"

definition sqlOperation :: "string \<Rightarrow> string" where
  "sqlOperation sql =
     (let sql = TrimSpace sql in
      if sql = [] then ''UNKNOWN''
      else (let rest = drop_separators sql in if rest = [] then ''UNKNOWN'' else ToUpper (take_field rest)))"

definition truncateStatement :: "string \<Rightarrow> string" where
  "truncateStatement sql =
     (let sql = TrimSpace sql in if length sql \<le> 2048 then sql else take 2048 sql @ ''...'')"

section \<open>The tracer\<close>

record pgx_tracer =
  pt_attrs :: attrs

definition newPGXTracer :: "string \<Rightarrow> endpoint_config \<Rightarrow> pgx_tracer" where
  "newPGXTracer role cfg =
     \<lparr>pt_attrs =
        [(''db.system'', AString ''postgresql''), (''db.name'', AString (en_Database cfg)), (''db.user'', AString (en_User cfg)),
         (''db.connection.role'', AString role), (''net.peer.name'', AString (en_Host cfg)), (''net.peer.port'', AString (en_Port cfg))]\<rparr>"

definition queryAttrs :: "pgx_tracer \<Rightarrow> string \<Rightarrow> attrs" where
  "queryAttrs t sql =
     pt_attrs t @ [(''db.operation'', AString (sqlOperation sql)), (''db.statement'', AString (truncateStatement sql))]"

text \<open>A span that is started and stored under a key of the context.\<close>

definition trace_start :: "span_key \<Rightarrow> string \<Rightarrow> attrs \<Rightarrow> trace_ctx \<Rightarrow> (trace_world, trace_ctx) state" where
  "trace_start key name as c = do {
     r \<leftarrow> start_span c name as;
     (case r of (c, s) \<Rightarrow> State_Monad.return (WithValue c key s)) }"

definition endSpan :: "trace_ctx \<Rightarrow> span_key \<Rightarrow> err option \<Rightarrow> (trace_world, unit) state" where
  "endSpan c key e =
     (case ctx_Value c key of
        None \<Rightarrow> State_Monad.return ()
      | Some s \<Rightarrow> do {
          _ \<leftarrow> (case e of
             Some e \<Rightarrow> do { _ \<leftarrow> emit_trace (Recorded s e); emit_trace (Status s (StatusError (err_text e))) }
           | None \<Rightarrow> emit_trace (Status s (StatusOk ''ok'')));
          emit_trace (Ended s) })"

definition TraceQueryStart :: "pgx_tracer \<Rightarrow> trace_ctx \<Rightarrow> string \<Rightarrow> (trace_world, trace_ctx) state" where
  "TraceQueryStart t c sql = trace_start QuerySpan ''postgres.query'' (queryAttrs t sql) c"

definition TraceQueryEnd :: "trace_ctx \<Rightarrow> err option \<Rightarrow> (trace_world, unit) state" where
  "TraceQueryEnd c e = endSpan c QuerySpan e"

definition TraceBatchStart :: "pgx_tracer \<Rightarrow> trace_ctx \<Rightarrow> int option \<Rightarrow> (trace_world, trace_ctx) state" where
  "TraceBatchStart t c batch =
     trace_start BatchSpan ''postgres.batch''
       (pt_attrs t @ (case batch of None \<Rightarrow> [] | Some n \<Rightarrow> [(''db.batch.size'', AInt n)])) c"

text \<open>\<open>valid\<close> is \<open>SpanContext().IsValid()\<close>.\<close>

definition TraceBatchQuery ::
  "(nat \<Rightarrow> bool) \<Rightarrow> pgx_tracer \<Rightarrow> trace_ctx \<Rightarrow> string \<Rightarrow> err option \<Rightarrow> (trace_world, unit) state" where
  "TraceBatchQuery valid t c sql e =
     (let current = (case tc_span c of Some s \<Rightarrow> (if valid s then Some s else None) | None \<Rightarrow> None);
          span = (case current of Some s \<Rightarrow> Some s | None \<Rightarrow> ctx_Value c BatchSpan) in
      case span of
        None \<Rightarrow> State_Monad.return ()
      | Some s \<Rightarrow>
          (if \<not> valid s then State_Monad.return ()
           else emit_trace (Event s ''postgres.batch.query''
             (queryAttrs t sql @ (case e of None \<Rightarrow> [] | Some e \<Rightarrow> [(''error'', AString (err_text e))])))))"

definition TraceBatchEnd :: "trace_ctx \<Rightarrow> err option \<Rightarrow> (trace_world, unit) state" where
  "TraceBatchEnd c e = endSpan c BatchSpan e"

definition TraceCopyFromStart :: "pgx_tracer \<Rightarrow> trace_ctx \<Rightarrow> string list \<Rightarrow> (trace_world, trace_ctx) state" where
  "TraceCopyFromStart t c tableName =
     trace_start CopySpan ''postgres.copy_from''
       (pt_attrs t @ [(''db.operation'', AString ''COPY''), (''db.sql.table'', AString (join ''.'' tableName))]) c"

definition TraceCopyFromEnd :: "trace_ctx \<Rightarrow> err option \<Rightarrow> (trace_world, unit) state" where
  "TraceCopyFromEnd c e = endSpan c CopySpan e"

definition TracePrepareStart :: "pgx_tracer \<Rightarrow> trace_ctx \<Rightarrow> string \<Rightarrow> string \<Rightarrow> (trace_world, trace_ctx) state" where
  "TracePrepareStart t c name sql =
     trace_start PrepareSpan ''postgres.prepare'' (queryAttrs t sql @ [(''db.statement.name'', AString name)]) c"

definition TracePrepareEnd :: "trace_ctx \<Rightarrow> err option \<Rightarrow> (trace_world, unit) state" where
  "TracePrepareEnd c e = endSpan c PrepareSpan e"

definition TraceConnectStart :: "pgx_tracer \<Rightarrow> trace_ctx \<Rightarrow> (trace_world, trace_ctx) state" where
  "TraceConnectStart t c = trace_start ConnectSpan ''postgres.connect'' (pt_attrs t) c"

definition TraceConnectEnd :: "trace_ctx \<Rightarrow> err option \<Rightarrow> (trace_world, unit) state" where
  "TraceConnectEnd c e = endSpan c ConnectSpan e"

definition TraceAcquireStart :: "pgx_tracer \<Rightarrow> trace_ctx \<Rightarrow> (trace_world, trace_ctx) state" where
  "TraceAcquireStart t c = trace_start AcquireSpan ''postgres.acquire'' (pt_attrs t) c"

definition TraceAcquireEnd :: "trace_ctx \<Rightarrow> err option \<Rightarrow> (trace_world, unit) state" where
  "TraceAcquireEnd c e = endSpan c AcquireSpan e"

section \<open>What is known of the tracer\<close>

lemma length_truncateStatement: "length (truncateStatement sql) \<le> 2051"
  by (simp add: truncateStatement_def Let_def)

text \<open>
  A span is started and ended as a pair, also when other operations are traced in between in contexts
  that come from it: the end finds the span that the start stored, and gives it one status. Ending an
  operation in a context where it was not started does nothing.
\<close>

definition ends_of :: "nat \<Rightarrow> trace_event list \<Rightarrow> trace_event list" where
  "ends_of s es = filter (\<lambda>e. case e of Status n x \<Rightarrow> n = s | Ended n \<Rightarrow> n = s | _ \<Rightarrow> False) es"

theorem trace_start_end:
  "run_state (trace_start key name as c) w = (c', w') \<Longrightarrow>
   ctx_Value c' key = Some (tw_next w) \<and> tw_next w' = Suc (tw_next w)
     \<and> tw_events w' = tw_events w @ [Started (tw_next w) name as]
     \<and> (\<forall>k. k \<noteq> key \<longrightarrow> ctx_Value c' k = ctx_Value c k)"
  by (auto simp: trace_start_def start_span_def emit_trace_def WithValue_def ctx_Value_def modify_def reads_def)

theorem endSpan_once:
  "run_state (endSpan c key e) w = ((), w') \<Longrightarrow>
   (case ctx_Value c key of
      None \<Rightarrow> w' = w
    | Some s \<Rightarrow> tw_events w' = tw_events w @ (case e of Some e \<Rightarrow> [Recorded s e] | None \<Rightarrow> [])
        @ [Status s (case e of Some e \<Rightarrow> StatusError (err_text e) | None \<Rightarrow> StatusOk ''ok''), Ended s])"
  by (auto simp: endSpan_def emit_trace_def modify_def split: option.splits)

lemma sqlOperation_examples:
  "sqlOperation ''  select id from users'' = ''SELECT''" "sqlOperation ''(insert into t)'' = ''INSERT''"
  "sqlOperation ''  '' = ''UNKNOWN''" "sqlOperation ''(('' = ''UNKNOWN''"
  by code_simp+

end
