(* ===== verification/Spec2Isabelle.thy ===== *)
theory Spec2Isabelle
  imports GrpcAuth OutboxWorker VkConsumer AsyncProducer PgPool ServerLife Applications Announcement Gateway
    TraceContext FiberMetrics SmartSpan PgTracing
begin

text \<open>
  A verification library for the authentication service of the repository, its outbox dispatcher and
  its consumer of VK users, and for the packages they are built from: registration and login over
  PostgreSQL, messages to Kafka through a transactional outbox, and messages from Kafka with
  dead letters.

  How the parts interact. A browser's request reaches \<open>Gateway\<close>, which decodes it and calls the gRPC
  server of \<open>GrpcAuth\<close>; that checks it by the rules of \<open>GrpcValidate\<close> and calls the application
  service (\<open>AuthService\<close>, \<open>YandexLogin\<close>). The service uses the ports (\<open>Ports\<close>), which the
  repositories (\<open>PostgresBase\<close>, \<open>Repositories\<close>), the transaction manager (\<open>TxManager\<close>) and the tokens
  (\<open>Tokens\<close>) provide on the PostgreSQL world (\<open>World\<close>), and the client of Yandex ID (\<open>YandexClient\<close>);
  \<open>AuthWorld\<close> puts them together. A registration leaves a message in the outbox; \<open>OutboxWorker\<close>
  takes it from there (\<open>OutboxQueue\<close>), encodes it (\<open>Avro\<close>) and publishes it (\<open>Publisher\<close>) with a
  producer (\<open>Producer\<close>). Users announced by VK come in through \<open>VkConsumer\<close> to the service of
  \<open>VkUsers\<close>. \<open>Applications\<close> makes the three services of these parts, runs and closes them; the
  servers they run are those of \<open>ServerGrpc\<close> and \<open>ServerLife\<close>.

  The model. A Go call is a state transformer with an outcome: a value, an error, or a panic that
  unwinds its callers. What the program does to the world - statements, deliveries, metrics, logs,
  marks - is a change of an explicit state, in the order of the code; what the world answers - faults,
  lost answers, clocks, generated UUIDs, the end of a context - is a parameter of that state, so
  that a theorem holds for every sequence of answers. Goroutines are a step relation. An interface
  between two parts is a locale over the operations its client calls, with the laws its provider
  promises; it is interpreted on the model's own definitions.

  The theories, bottom up:

  \<^item> \<open>Prelude\<close>: strings as the Go standard library trims and folds them, the errors of all packages
    with \<open>errors.Is\<close>, outcomes, and weakest preconditions (collection \<open>wp_rules\<close>). \<open>Quiet\<close>: steps
    that leave an observation of the world alone.
  \<^item> \<open>Uuid\<close>: google/uuid. \<open>Domain\<close>: internal/domain, with the columns each entity is written as and
    read from.
  \<^item> \<open>World\<close>: the PostgreSQL session the services share. Statements may fail before or after they
    take effect; a failure aborts an open transaction.
  \<^item> \<open>TxManager\<close>: pkg/transaction-manager; Do commits, rolls back, releases and counts on every path.
  \<^item> \<open>PostgresBase\<close>: internal/repository/postgresbase, over goqu expressions and the statements they
    compile to. \<open>Repositories\<close>: the four entity repositories; interpretations of the ports.
  \<^item> \<open>Ports\<close>: internal/ports as locales.
  \<^item> \<open>AuthService\<close>, \<open>YandexLogin\<close>: internal/application/auth over the ports, proved in the locale of
    the service. \<open>Tokens\<close>: pkg/jwt, internal/adapters/secondary/tokens, pkg/cripto/bcrypt.
    \<open>AuthWorld\<close>: the service on the world; registration and login are all or nothing, complete, and
    agree with each other.
  \<^item> \<open>GrpcValidate\<close>, \<open>GrpcAuth\<close>: internal/adapters/primary/grpc/auth and the generated validators.
    \<open>UrlQuery\<close>: queries of net/url. \<open>YandexClient\<close>: internal/adapters/secondary/yandexid; what it
    sends is read as it was meant. \<open>WebPages\<close>: internal/adapters/primary/web. \<open>Gateway\<close>: the
    generated client and JSON gateway; what an HTTP client learns from a login.
  \<^item> \<open>VkUsers\<close>: internal/application/vkusers; accepting an event links a VK id to one user, once.
  \<^item> \<open>OutboxQueue\<close>: picking and marking of internal/repository/outboxmessages as a queue.
    \<open>OutboxWorker\<close>: internal/application/outbox; a message is marked as sent only after the broker has
    written it, and every message taken is settled. \<open>Announcement\<close>: from a registration to the record
    on the topic.
  \<^item> \<open>Producer\<close>: pkg/adapters/kafka/producer with the synchronous producer. \<open>TxProducer\<close>: the
    transactional producer, all or nothing over a transactional client. \<open>AsyncProducer\<close>: the
    asynchronous producer and its loop. \<open>Avro\<close>, \<open>Publisher\<close>: internal/adapters/secondary/kafka, the
    schema registry, the binary format and its reader, the publisher.
  \<^item> \<open>DlqConsumer\<close>, \<open>DlqGuarantees\<close>: sessions, claims and batches of pkg/adapters/kafka/consumer/dql;
    no message is marked that was neither handled nor saved as a dead letter. \<open>DlqGroup\<close>: its
    configuration, constructor and run loop. \<open>VkConsumer\<close>: vk_user_consumer.go.
  \<^item> \<open>Metrics\<close>: the collectors all packages register, over the registry of client_golang.
    \<open>FiberMetrics\<close>: pkg/prometheus, the endpoint that serves them.
  \<^item> \<open>PgConfig\<close>, \<open>PgPool\<close>, \<open>PgTracing\<close>: pkg/adapters/postgres; connection strings and how pgx reads
    them, the life of the pools, the collector of their metrics, the spans of statements.
  \<^item> \<open>ServerGrpc\<close>: pkg/adapters/server_grpc, the gRPC server, the gateway and their application, each
    call as a function. \<open>ServerLife\<close>: their goroutines as a step relation; no interleaving panics or
    blocks, and after Close all of them end. \<open>TraceContext\<close>: tracing.go; the trace of the gateway is
    the parent at the server.
  \<^item> \<open>Applications\<close>: internal/app, pkg/closer and the observability servers; nothing that was opened
    stays open when New fails or Run returns, with the one exception it names.
  \<^item> \<open>Stacktrace\<close>, \<open>Logging\<close>, \<open>SmartSpan\<close>: pkg/smart-span and pkg/logger; stack traces, fields and
    loggers, spans and InitTracing. \<open>Aesgcm\<close>: pkg/cripto/aesgcm.

  Parameters and hypotheses. Code that is not part of the repository is an argument of the
  definitions that use it: golang-jwt (a token that is signed is parsed back, and no other token
  passes), bcrypt (a hash matches its password), crypto/cipher (what is sealed can be opened), sarama
  (a client, a group, a broker that may refuse or lose an answer; transactions as those of Kafka),
  pgxpool, the schema registry over HTTP, \<open>net/http\<close>, \<open>encoding/json\<close>, \<open>net/mail\<close>, \<open>crypto/tls\<close>, the
  OpenTelemetry exporter. Each hypothesis is a named predicate, and a witness beside each property
  holds it on a concrete instance. In \<open>Applications\<close> the constructors of the parts are arguments with
  the contract that the theories of these parts prove.

  Bounds. The clock counts nanoseconds as integers, save where the code converts them; counters,
  attempts and settings have the width of their Go types. A loop that runs as long as the program is
  a function of the list of what it receives - ticks, messages, pauses, reports - and of every
  prefix of it: \<open>consume_loop\<close>, \<open>Run_worker\<close>, \<open>async_loop\<close> and \<open>vk_ConsumeClaim\<close> consume one entry
  per round, \<open>Run_vk\<close> counts its rounds, and a value says whether the loop has returned or still runs.
  The retries of a dead-letter save are bounded by the configured number. The loop of \<open>Stacktrace\<close> that
  doubles its storage is a partial function, proved to end. Nothing else uses fuel.

  Not modelled: message bodies on the wire (protobuf, the JSON of the gateway), the encodings of zap and
  of the span exporter, the files of configuration beyond what LoadServiceConfig decides, the content
  of the static pages, the migrations (their unique constraints are in \<open>World\<close>), \<open>encoding/json\<close> of the
  entities, the entry points, which only call the applications, and the mocks, examples and demos.
  \<open>ToLower\<close> folds ASCII letters.
\<close>

end
